(* ===== verification/VNT_Prelude.thy ===== *)
theory VNT_Prelude
  imports Complex_Main "HOL-Library.Word" "HOL-Library.AList" "HOL-Library.Multiset"
begin

text \<open>
  Shared vocabulary of the development: machine integers, the result type of fallible Rust
  functions, big-endian codecs, hash maps as association lists, and the interface a hash map
  offers to its clients (locale \<open>keyed_store\<close>).

  Conventions used by every theory.
  \<^item> A Rust \<open>Result<T, E>\<close> is \<open>error + 'a\<close>. A panic (slice out of range, \<open>usize\<close>
    underflow, \<open>unwrap\<close> on \<open>None\<close>) is the error value \<open>Panic\<close>, so that no panic is
    hidden by the totality of HOL.
  \<^item> \<open>u8\<close>, \<open>u16\<close>, \<open>u32\<close>, \<open>u64\<close> are words of that width, \<open>usize\<close> lengths are
    \<open>nat\<close>. An \<open>Ipv4Addr\<close> is its \<open>u32\<close> value, which is what the wire carries.
  \<^item> A \<open>HashMap\<close> is an association list with distinct keys; the list order stands for the
    (unspecified) iteration order.
  \<^item> Third-party crates are arguments: functions, or records of functions.
\<close>

unbundle bit_operations_syntax

section \<open>Machine integers, addresses, time\<close>

type_synonym u8 = "8 word"
type_synonym u16 = "16 word"
type_synonym u32 = "32 word"
type_synonym u64 = "64 word"
type_synonym bytes = "u8 list"
type_synonym ipv4 = u32

text \<open>Monotonic instants and durations, counted in nanoseconds.\<close>

type_synonym instant = nat

definition secs :: "nat \<Rightarrow> nat" where
  "secs n = n * 1000000000"

definition millis :: "nat \<Rightarrow> nat" where
  "millis n = n * 1000000"

definition is_broadcast :: "ipv4 \<Rightarrow> bool" where
  "is_broadcast ip \<longleftrightarrow> ip = 0xFFFFFFFF"

definition is_unspecified :: "ipv4 \<Rightarrow> bool" where
  "is_unspecified ip \<longleftrightarrow> ip = 0"

definition is_multicast :: "ipv4 \<Rightarrow> bool" where
  "is_multicast ip \<longleftrightarrow> drop_bit 28 ip = 14"

definition localhost :: ipv4 where
  "localhost = 0x7F000001"

text \<open>
  An \<open>ipnet::Ipv4Net\<close> is an address and a prefix length; membership is the crate's
  \<open>contains\<close>, an argument of the definitions that ask for it.
\<close>

record ipv4net =
  net_addr :: ipv4
  net_prefix :: u8

type_synonym net_contains = "ipv4net \<Rightarrow> ipv4 \<Rightarrow> bool"

lemma u8_eqI:
  fixes x y :: u8
  assumes "bit x 0 = bit y 0" "bit x 1 = bit y 1" "bit x 2 = bit y 2" "bit x 3 = bit y 3"
    "bit x 4 = bit y 4" "bit x 5 = bit y 5" "bit x 6 = bit y 6" "bit x 7 = bit y 7"
  shows "x = y"
proof (rule bit_word_eqI)
  fix n :: nat
  assume "n < LENGTH(8)"
  then have "n \<in> {0, 1, 2, 3, 4, 5, 6, 7}" by auto
  with assms show "bit x n = bit y n" by auto
qed

section \<open>Results\<close>

datatype error =
    InvalidInput
  | InvalidData
  | WouldBlock
  | BrokenPipe
  | OtherError
  | Bail string
  | Panic

type_synonym 'a result = "error + 'a"

text \<open>The \<open>?\<close> operator: stop at the first error.\<close>

definition rbind :: "'a result \<Rightarrow> ('a \<Rightarrow> 'b result) \<Rightarrow> 'b result" where
  "rbind m f = (case m of Inl e \<Rightarrow> Inl e | Inr x \<Rightarrow> f x)"

lemma rbind_Inl [simp]: "rbind (Inl e) f = Inl e"
  by (simp add: rbind_def)

lemma rbind_Inr [simp]: "rbind (Inr x) f = f x"
  by (simp add: rbind_def)

lemma rbind_eq_Inr: "rbind m f = Inr y \<longleftrightarrow> (\<exists>x. m = Inr x \<and> f x = Inr y)"
  by (cases m) auto

lemma rbind_eq_Inl: "rbind m f = Inl e \<longleftrightarrow> m = Inl e \<or> (\<exists>x. m = Inr x \<and> f x = Inl e)"
  by (cases m) auto

text \<open>\<open>Option::context\<close> and friends: a missing value becomes an error.\<close>

definition ok_or :: "error \<Rightarrow> 'a option \<Rightarrow> 'a result" where
  "ok_or e m = (case m of None \<Rightarrow> Inl e | Some x \<Rightarrow> Inr x)"

lemma ok_or_simps [simp]: "ok_or e None = Inl e" "ok_or e (Some x) = Inr x"
  by (simp_all add: ok_or_def)

section \<open>Big-endian codecs\<close>

definition be16 :: "u16 \<Rightarrow> bytes" where
  "be16 x = [ucast (drop_bit 8 x), ucast x]"

definition of_be16 :: "u8 \<Rightarrow> u8 \<Rightarrow> u16" where
  "of_be16 a b = push_bit 8 (ucast a) OR ucast b"

definition be32 :: "u32 \<Rightarrow> bytes" where
  "be32 x = [ucast (drop_bit 24 x), ucast (drop_bit 16 x), ucast (drop_bit 8 x), ucast x]"

definition of_be32 :: "u8 \<Rightarrow> u8 \<Rightarrow> u8 \<Rightarrow> u8 \<Rightarrow> u32" where
  "of_be32 a b c d =
     push_bit 24 (ucast a) OR push_bit 16 (ucast b) OR push_bit 8 (ucast c) OR ucast d"

definition be64 :: "u64 \<Rightarrow> bytes" where
  "be64 x = be32 (ucast (drop_bit 32 x)) @ be32 (ucast x)"

definition of_be64 :: "bytes \<Rightarrow> u64" where
  "of_be64 bs =
     push_bit 32 (ucast (of_be32 (bs ! 0) (bs ! 1) (bs ! 2) (bs ! 3))) OR
     ucast (of_be32 (bs ! 4) (bs ! 5) (bs ! 6) (bs ! 7))"

lemma length_be [simp]: "length (be16 w) = 2" "length (be32 x) = 4" "length (be64 y) = 8"
  by (simp_all add: be16_def be32_def be64_def)

lemma of_be16_be16: "of_be16 (be16 x ! 0) (be16 x ! 1) = x"
  unfolding of_be16_def be16_def
  by (rule bit_word_eqI) (auto simp: bit_simps)

lemma of_be32_be32:
  "of_be32 (be32 x ! 0) (be32 x ! 1) (be32 x ! 2) (be32 x ! 3) = x"
proof (rule bit_word_eqI)
  fix n :: nat
  assume "n < LENGTH(32)"
  then show "bit (of_be32 (be32 x ! 0) (be32 x ! 1) (be32 x ! 2) (be32 x ! 3)) n = bit x n"
    by (cases "24 \<le> n"; cases "16 \<le> n"; cases "8 \<le> n")
      (auto simp: of_be32_def be32_def bit_simps)
qed

lemma of_be64_be64: "of_be64 (be64 x) = x"
proof -
  have hi: "of_be32 (be64 x ! 0) (be64 x ! 1) (be64 x ! 2) (be64 x ! 3) = ucast (drop_bit 32 x)"
    using of_be32_be32 [of "ucast (drop_bit 32 x)"] by (simp add: be64_def nth_append)
  have lo: "of_be32 (be64 x ! 4) (be64 x ! 5) (be64 x ! 6) (be64 x ! 7) = ucast x"
    using of_be32_be32 [of "ucast x"] by (simp add: be64_def nth_append)
  show ?thesis unfolding of_be64_def hi lo
    by (rule bit_word_eqI) (auto simp: bit_simps)
qed

lemma be32_of_be32: "be32 (of_be32 a b c d) = [a, b, c, d]"
  unfolding of_be32_def be32_def list.inject
  by (intro conjI refl; rule bit_word_eqI) (auto simp: bit_simps dest: bit_imp_le_length)

section \<open>Slices\<close>

text \<open>
  \<open>splice i xs bs\<close> is \<open>bs[i..i+xs.len()].copy_from_slice(xs)\<close>: the bytes of \<open>bs\<close> from
  position \<open>i\<close> on replaced by \<open>xs\<close>. The callers check the range.
\<close>

definition splice :: "nat \<Rightarrow> 'a list \<Rightarrow> 'a list \<Rightarrow> 'a list" where
  "splice i xs bs = take i bs @ xs @ drop (i + length xs) bs"

lemma length_splice [simp]: "i + length xs \<le> length bs \<Longrightarrow> length (splice i xs bs) = length bs"
  by (simp add: splice_def)

lemma nth_splice:
  "i + length xs \<le> length bs \<Longrightarrow>
   splice i xs bs ! j = (if i \<le> j \<and> j < i + length xs then xs ! (j - i) else bs ! j)"
  by (auto simp: splice_def nth_append)

lemma take_splice: "k \<le> i \<Longrightarrow> i \<le> length bs \<Longrightarrow> take k (splice i xs bs) = take k bs"
  by (simp add: splice_def min_absorb1)

lemma drop_splice:
  "i + length xs \<le> k \<Longrightarrow> i + length xs \<le> length bs \<Longrightarrow> drop k (splice i xs bs) = drop k bs"
  by (simp add: splice_def)

lemma splice_exact: "i \<le> length bs \<Longrightarrow> i + length xs = length bs \<Longrightarrow>
   splice i xs bs = take i bs @ xs"
  by (simp add: splice_def)

lemma slice_append:
  assumes "i \<le> j" and "j \<le> k" and "k \<le> length xs"
  shows "drop i (take j xs) @ drop j (take k xs) = drop i (take k xs)"
proof -
  have "take k xs = take j xs @ drop j (take k xs)"
    using assms by (metis append_take_drop_id min_absorb1 take_take)
  then have "drop i (take k xs) = drop i (take j xs @ drop j (take k xs))"
    by simp
  with assms show ?thesis by simp
qed

section \<open>Hash maps\<close>

type_synonym ('k, 'v) hashmap = "('k \<times> 'v) list"

text \<open>Lookups stay lookups: the library's rewriting of them to list membership is switched off.\<close>

declare map_of_eq_Some_iff [simp del] Some_eq_map_of_iff [simp del]

abbreviation hm_get :: "('k, 'v) hashmap \<Rightarrow> 'k \<Rightarrow> 'v option" where
  "hm_get m k \<equiv> map_of m k"

abbreviation hm_put :: "'k \<Rightarrow> 'v \<Rightarrow> ('k, 'v) hashmap \<Rightarrow> ('k, 'v) hashmap" where
  "hm_put k v m \<equiv> AList.update k v m"

abbreviation hm_del :: "'k \<Rightarrow> ('k, 'v) hashmap \<Rightarrow> ('k, 'v) hashmap" where
  "hm_del k m \<equiv> AList.delete k m"

abbreviation hm_ok :: "('k, 'v) hashmap \<Rightarrow> bool" where
  "hm_ok m \<equiv> distinct (map fst m)"

lemma hm_get_put: "hm_get (hm_put k v m) k' = (if k' = k then Some v else hm_get m k')"
  by (simp add: update_conv)

lemma hm_get_del: "hm_get (hm_del k m) k' = (if k' = k then None else hm_get m k')"
  by (simp add: delete_conv')

text \<open>\<open>HashMap::retain\<close> and mapping over the values keep the keys distinct.\<close>

lemma hm_ok_filter: "hm_ok m \<Longrightarrow> hm_ok (filter P m)"
  by (simp add: distinct_map_filter)

lemma hm_get_filter:
  "hm_ok m \<Longrightarrow>
   hm_get (filter P m) k = (case hm_get m k of None \<Rightarrow> None | Some v \<Rightarrow> if P (k, v) then Some v else None)"
proof (induction m)
  case Nil
  then show ?case by simp
next
  case (Cons kv m)
  obtain k0 v0 where kv: "kv = (k0, v0)" by (cases kv)
  with Cons.prems have "hm_get m k0 = None"
    by (simp add: map_of_eq_None_iff)
  with Cons kv show ?case
    by (auto split: option.splits)
qed

lemma hm_get_map_vals:
  "hm_get (map (\<lambda>(k, v). (k, f v)) m) k = map_option f (hm_get m k)"
  by (induction m) auto

lemma hm_ok_map_vals: "hm_ok (map (\<lambda>(k, v). (k, f k v)) m) = hm_ok m"
  by (simp add: comp_def case_prod_unfold)

section \<open>Machines and what they keep\<close>

text \<open>
  A step relation and a predicate that every step keeps: what each state machine of the development owes its lemmas on runs.
\<close>

locale machine_keeps =
  fixes step :: "'s \<Rightarrow> 's \<Rightarrow> bool"
    and inv :: "'s \<Rightarrow> bool"
  assumes kept: "step s s' \<Longrightarrow> inv s \<Longrightarrow> inv s'"
begin

lemma kept_run: "step\<^sup>*\<^sup>* s s' \<Longrightarrow> inv s \<Longrightarrow> inv s'"
  by (induction rule: rtranclp_induct) (auto intro: kept)

lemma run_within: "inv s \<Longrightarrow> {s'. step\<^sup>*\<^sup>* s s'} \<subseteq> Collect inv"
  using kept_run by blast

end

section \<open>The interface of a keyed store\<close>

text \<open>
  What the components that keep a table per peer rely on: a lookup after an insertion or a
  removal. The lemmas below it are proved once and used through the interpretation on hash
  maps.
\<close>

locale keyed_store =
  fixes get :: "'m \<Rightarrow> 'k \<Rightarrow> 'v option"
    and put :: "'k \<Rightarrow> 'v \<Rightarrow> 'm \<Rightarrow> 'm"
    and del :: "'k \<Rightarrow> 'm \<Rightarrow> 'm"
    and emp :: 'm
    and ok :: "'m \<Rightarrow> bool"
  assumes get_emp: "get emp k = None"
    and get_put: "get (put k v m) k' = (if k' = k then Some v else get m k')"
    and get_del: "get (del k m) k' = (if k' = k then None else get m k')"
    and ok_emp: "ok emp"
    and ok_put: "ok m \<Longrightarrow> ok (put k v m)"
    and ok_del: "ok m \<Longrightarrow> ok (del k m)"
begin

lemma get_put_same: "get (put k v m) k = Some v"
  by (simp add: get_put)

lemma get_put_other: "k' \<noteq> k \<Longrightarrow> get (put k v m) k' = get m k'"
  by (simp add: get_put)

text \<open>
  The entry-or-insert pattern, run over a sequence of keys: each key's entry is updated as
  often as the key occurs, and no other entry changes.
\<close>

lemma get_fold_entry:
  "get (fold (\<lambda>k m. put k (f (get m k)) m) ks m) k =
   ((\<lambda>e. Some (f e)) ^^ count_list ks k) (get m k)"
proof (induction ks arbitrary: m)
  case Nil
  then show ?case by simp
next
  case (Cons a ks)
  then show ?case
    using funpow_swap1 [of "\<lambda>e. Some (f e)" "count_list ks k" "get m k"] by (simp add: get_put)
qed

lemma ok_fold_entry: "ok m \<Longrightarrow> ok (fold (\<lambda>k m. put k (f (get m k)) m) ks m)"
  by (induction ks arbitrary: m) (simp_all add: ok_put)

text \<open>Removing a list of keys removes exactly these.\<close>

lemma get_fold_del: "get (fold del ks m) k = (if k \<in> set ks then None else get m k)"
  by (induction ks arbitrary: m) (auto simp: get_del)

lemma ok_fold_del: "ok m \<Longrightarrow> ok (fold del ks m)"
  by (induction ks arbitrary: m) (simp_all add: ok_del)

end

interpretation hm: keyed_store "\<lambda>m. map_of m" AList.update AList.delete "[]" "\<lambda>m. hm_ok m"
  by unfold_locales (simp_all add: hm_get_put hm_get_del distinct_update distinct_delete)

end
