(* ===== verification/Transmission.thy ===== *)
theory Transmission
  imports VNT_Prelude
begin

text \<open>
  \<open>protocol/transmission.rs\<close>: \<open>TransmissionBytes\<close>, a byte buffer with room before and behind
  the visible slice \<open>buf[start..end]\<close>. Every packet of the program lives in one.

  \<open>BytesMut\<close> is a list of bytes; its capacity (which the \<open>bytes\<close> crate only promises to be at
  least the length) is the argument \<open>cp\<close> of the operations that read it. The invariant
  \<open>tb_wf\<close> is what makes slicing defined; each operation is shown to keep it and to act on the
  visible slice as on a plain list.
\<close>

section \<open>State and operations\<close>

record transmission =
  tb_buf :: bytes
  tb_start :: nat
  tb_end :: nat

definition DEFAULT_BUF_SIZE :: nat where
  "DEFAULT_BUF_SIZE = 2048"

definition tb_from :: "bytes \<Rightarrow> transmission" where
  "tb_from b = \<lparr>tb_buf = b, tb_start = 0, tb_end = length b\<rparr>"

definition tb_new_offset :: "nat \<Rightarrow> transmission" where
  "tb_new_offset s = \<lparr>tb_buf = replicate DEFAULT_BUF_SIZE 0, tb_start = s, tb_end = s\<rparr>"

definition tb_new_offset_zeroed :: "nat \<Rightarrow> transmission" where
  "tb_new_offset_zeroed s =
     \<lparr>tb_buf = replicate DEFAULT_BUF_SIZE 0, tb_start = s, tb_end = DEFAULT_BUF_SIZE\<rparr>"

definition tb_zeroed :: "nat \<Rightarrow> transmission" where
  "tb_zeroed n = \<lparr>tb_buf = replicate n 0, tb_start = 0, tb_end = n\<rparr>"

definition tb_zeroed_size :: "nat \<Rightarrow> nat \<Rightarrow> transmission" where
  "tb_zeroed_size sz reserve =
     \<lparr>tb_buf = replicate (sz + reserve) 0, tb_start = 0, tb_end = sz\<rparr>"

definition tb_with_capacity :: "nat \<Rightarrow> nat \<Rightarrow> transmission" where
  "tb_with_capacity head_room capacity =
     \<lparr>tb_buf = replicate capacity 0, tb_start = head_room, tb_end = head_room\<rparr>"

definition tb_len :: "transmission \<Rightarrow> nat" where
  "tb_len t = tb_end t - tb_start t"

definition tb_is_empty :: "transmission \<Rightarrow> bool" where
  "tb_is_empty t \<longleftrightarrow> tb_len t = 0"

definition tb_head_room :: "transmission \<Rightarrow> nat" where
  "tb_head_room t = tb_start t"

definition tb_tail_room :: "nat \<Rightarrow> transmission \<Rightarrow> nat" where
  "tb_tail_room cp t = cp - tb_end t"

text \<open>
  \<open>as_slice\<close> panics on an ill-formed range; \<open>tb_slice\<close> is its value on every well-formed
  buffer, and \<open>tb_write\<close> stores back a slice changed in place through \<open>as_slice_mut\<close>.
\<close>

definition tb_slice :: "transmission \<Rightarrow> bytes" where
  "tb_slice t = drop (tb_start t) (take (tb_end t) (tb_buf t))"

definition tb_as_slice :: "transmission \<Rightarrow> bytes result" where
  "tb_as_slice t =
     (if tb_start t \<le> tb_end t \<and> tb_end t \<le> length (tb_buf t)
      then Inr (tb_slice t) else Inl Panic)"

definition tb_write :: "transmission \<Rightarrow> bytes \<Rightarrow> transmission" where
  "tb_write t xs = t\<lparr>tb_buf := splice (tb_start t) xs (tb_buf t)\<rparr>"

definition tb_put :: "nat \<Rightarrow> transmission \<Rightarrow> bytes \<Rightarrow> transmission result" where
  "tb_put cp t data =
     (let need = length data; free = cp - tb_end t in
      if need > free then Inl InvalidInput
      else if tb_end t + need > length (tb_buf t) then Inl Panic
      else Inr (t\<lparr>tb_buf := splice (tb_end t) data (tb_buf t), tb_end := tb_end t + need\<rparr>))"

definition tb_retreat_head :: "transmission \<Rightarrow> nat \<Rightarrow> transmission result" where
  "tb_retreat_head t n =
     (if n > tb_head_room t then Inl InvalidInput else Inr (t\<lparr>tb_start := tb_start t - n\<rparr>))"

definition tb_advance_head :: "transmission \<Rightarrow> nat \<Rightarrow> transmission result" where
  "tb_advance_head t n =
     (if n > tb_len t then Inl InvalidInput else Inr (t\<lparr>tb_start := tb_start t + n\<rparr>))"

definition tb_set_len :: "nat \<Rightarrow> transmission \<Rightarrow> nat \<Rightarrow> transmission result" where
  "tb_set_len cp t new_len =
     (let new_end = tb_start t + new_len in
      if new_end > cp then Inl InvalidInput else Inr (t\<lparr>tb_end := new_end\<rparr>))"

text \<open>\<open>BytesMut::resize\<close>: cut, or fill up with a value.\<close>

definition resize_list :: "nat \<Rightarrow> 'a \<Rightarrow> 'a list \<Rightarrow> 'a list" where
  "resize_list n v xs = take n xs @ replicate (n - length xs) v"

definition tb_resize :: "transmission \<Rightarrow> nat \<Rightarrow> u8 \<Rightarrow> transmission" where
  "tb_resize t new_len v =
     (let new_end = tb_start t + new_len in
      t\<lparr>tb_buf := resize_list new_end v (tb_buf t), tb_end := new_end\<rparr>)"

definition tb_extend_end :: "transmission \<Rightarrow> nat \<Rightarrow> transmission" where
  "tb_extend_end t n =
     (let b = (if tb_end t + n > length (tb_buf t)
               then resize_list (tb_end t + n) 0 (tb_buf t) else tb_buf t) in
      t\<lparr>tb_buf := b, tb_end := tb_end t + n\<rparr>)"

definition tb_shrink_end :: "transmission \<Rightarrow> nat \<Rightarrow> transmission" where
  "tb_shrink_end t n =
     (if n \<ge> tb_end t - tb_start t then t\<lparr>tb_end := tb_start t\<rparr>
      else t\<lparr>tb_end := tb_end t - n\<rparr>)"

definition tb_clear :: "transmission \<Rightarrow> transmission" where
  "tb_clear t = t\<lparr>tb_start := 0, tb_end := 0\<rparr>"

definition tb_into_bytes :: "transmission \<Rightarrow> bytes result" where
  "tb_into_bytes t =
     (let b = take (tb_end t) (tb_buf t) in
      if tb_start t > 0
      then (if tb_start t > length b then Inl Panic else Inr (drop (tb_start t) b))
      else Inr b)"

section \<open>Well-formed buffers\<close>

definition tb_wf :: "transmission \<Rightarrow> bool" where
  "tb_wf t \<longleftrightarrow> tb_start t \<le> tb_end t \<and> tb_end t \<le> length (tb_buf t)"

named_theorems tb_defs \<open>definitions of the buffer operations\<close>
named_theorems tb_wf_intros \<open>the operations keep a buffer well-formed\<close>
named_theorems tb_spec \<open>what the operations do to the visible slice\<close>

lemmas tb_op_defs [tb_defs] =
  tb_from_def tb_new_offset_def tb_new_offset_zeroed_def tb_zeroed_def tb_zeroed_size_def
  tb_with_capacity_def tb_len_def tb_is_empty_def tb_head_room_def tb_tail_room_def
  tb_write_def tb_put_def tb_retreat_head_def tb_advance_head_def tb_set_len_def
  tb_resize_def tb_extend_end_def tb_shrink_end_def tb_clear_def

lemma length_resize_list [simp]: "length (resize_list n v xs) = n"
  by (simp add: resize_list_def)

lemma length_tb_slice: "tb_wf t \<Longrightarrow> length (tb_slice t) = tb_len t"
  by (simp add: tb_slice_def tb_wf_def tb_len_def min_absorb2)

lemma tb_as_slice_wf: "tb_wf t \<Longrightarrow> tb_as_slice t = Inr (tb_slice t)"
  by (simp add: tb_as_slice_def tb_wf_def)

lemma tb_wf_from [tb_wf_intros]: "tb_wf (tb_from b)"
  and tb_wf_zeroed [tb_wf_intros]: "tb_wf (tb_zeroed n)"
  and tb_wf_zeroed_size [tb_wf_intros]: "tb_wf (tb_zeroed_size n r)"
  by (simp_all add: tb_wf_def tb_defs)

lemma tb_wf_new_offset [tb_wf_intros]: "s \<le> DEFAULT_BUF_SIZE \<Longrightarrow> tb_wf (tb_new_offset s)"
  and tb_wf_new_offset_zeroed [tb_wf_intros]:
    "s \<le> DEFAULT_BUF_SIZE \<Longrightarrow> tb_wf (tb_new_offset_zeroed s)"
  by (simp_all add: tb_wf_def tb_defs)

lemma tb_wf_put [tb_wf_intros]: "tb_wf t \<Longrightarrow> tb_put cp t d = Inr t' \<Longrightarrow> tb_wf t'"
  by (auto simp: tb_wf_def tb_put_def Let_def split: if_splits)

lemma tb_wf_retreat [tb_wf_intros]: "tb_wf t \<Longrightarrow> tb_retreat_head t n = Inr t' \<Longrightarrow> tb_wf t'"
  by (auto simp: tb_wf_def tb_defs split: if_splits)

lemma tb_wf_advance [tb_wf_intros]: "tb_wf t \<Longrightarrow> tb_advance_head t n = Inr t' \<Longrightarrow> tb_wf t'"
  by (auto simp: tb_wf_def tb_defs split: if_splits)

lemma tb_wf_set_len [tb_wf_intros]:
  "tb_wf t \<Longrightarrow> tb_set_len cp t n = Inr t' \<Longrightarrow> cp = length (tb_buf t) \<Longrightarrow> tb_wf t'"
  by (auto simp: tb_wf_def tb_defs Let_def split: if_splits)

lemma tb_wf_resize [tb_wf_intros]: "tb_wf (tb_resize t n v)"
  by (simp add: tb_wf_def tb_defs Let_def)

lemma tb_wf_extend [tb_wf_intros]: "tb_wf t \<Longrightarrow> tb_wf (tb_extend_end t n)"
  by (auto simp: tb_wf_def tb_defs Let_def)

lemma tb_wf_shrink [tb_wf_intros]: "tb_wf t \<Longrightarrow> tb_wf (tb_shrink_end t n)"
  by (auto simp: tb_wf_def tb_defs)

lemma tb_wf_clear [tb_wf_intros]: "tb_wf (tb_clear t)"
  by (simp add: tb_wf_def tb_defs)

lemma tb_wf_write [tb_wf_intros]: "tb_wf t \<Longrightarrow> length xs = tb_len t \<Longrightarrow> tb_wf (tb_write t xs)"
  by (simp add: tb_wf_def tb_defs)

section \<open>The visible slice\<close>

lemma tb_slice_from [simp]: "tb_slice (tb_from b) = b"
  and tb_slice_zeroed [simp]: "tb_slice (tb_zeroed n) = replicate n 0"
  and tb_slice_zeroed_size [simp]: "tb_slice (tb_zeroed_size n r) = replicate n 0"
  by (simp_all add: tb_slice_def tb_defs)

lemma tb_slice_write [tb_spec]:
  "tb_wf t \<Longrightarrow> length xs = tb_len t \<Longrightarrow> tb_slice (tb_write t xs) = xs"
  by (simp add: tb_slice_def tb_wf_def tb_defs splice_def min_absorb1)

lemma tb_write_frame [simp]:
  "tb_start (tb_write t xs) = tb_start t" "tb_end (tb_write t xs) = tb_end t"
  by (simp_all add: tb_write_def)

lemma tb_slice_put [tb_spec]:
  assumes "tb_wf t" and "tb_put cp t d = Inr t'"
  shows "tb_slice t' = tb_slice t @ d"
proof -
  from assms have "t' = t\<lparr>tb_buf := splice (tb_end t) d (tb_buf t), tb_end := tb_end t + length d\<rparr>"
    and "tb_end t + length d \<le> length (tb_buf t)"
    by (auto simp: tb_put_def Let_def split: if_splits)
  with assms(1) show ?thesis
    by (simp add: tb_slice_def tb_wf_def splice_def)
qed

lemma tb_slice_retreat [tb_spec]:
  "tb_wf t \<Longrightarrow> tb_retreat_head t n = Inr t' \<Longrightarrow>
   tb_slice t' = drop (tb_start t - n) (take (tb_start t) (tb_buf t)) @ tb_slice t"
  by (auto simp: tb_wf_def tb_slice_def tb_retreat_head_def tb_head_room_def slice_append split: if_splits)

lemma tb_slice_advance [tb_spec]:
  "tb_advance_head t n = Inr t' \<Longrightarrow> tb_slice t' = drop n (tb_slice t)"
  by (auto simp: tb_slice_def tb_defs add.commute split: if_splits)

lemma tb_slice_extend [tb_spec]:
  assumes "tb_wf t"
  shows "tb_slice (tb_extend_end t n) = tb_slice t @ resize_list n 0 (take n (drop (tb_end t) (tb_buf t)))"
proof -
  let ?s = "tb_start t" and ?e = "tb_end t" and ?b = "tb_buf t"
  define b' where "b' = (if ?e + n > length ?b then resize_list (?e + n) 0 ?b else ?b)"
  have le: "?s \<le> ?e" "?e \<le> length ?b" using assms by (simp_all add: tb_wf_def)
  have "tb_slice (tb_extend_end t n) = drop ?s (take (?e + n) b')"
    by (simp add: tb_slice_def tb_extend_end_def Let_def b'_def)
  also have "\<dots> = drop ?s (take ?e b') @ drop ?e (take (?e + n) b')"
    using le by (intro slice_append [symmetric]) (auto simp: b'_def)
  also have "take ?e b' = take ?e ?b"
    using le by (auto simp: b'_def resize_list_def)
  also have "drop ?e (take (?e + n) b') = resize_list n 0 (take n (drop ?e ?b))"
    using le by (auto simp: b'_def resize_list_def drop_take min_def)
  finally show ?thesis by (simp add: tb_slice_def)
qed

lemma tb_slice_shrink [tb_spec]:
  "tb_wf t \<Longrightarrow> tb_slice (tb_shrink_end t n) = take (tb_len t - n) (tb_slice t)"
  by (auto simp: tb_wf_def tb_slice_def tb_defs take_drop min_def)

lemma tb_slice_resize [tb_spec]:
  "tb_wf t \<Longrightarrow> tb_slice (tb_resize t n v) =
     resize_list n v (drop (tb_start t) (tb_buf t))"
  by (auto simp: tb_wf_def tb_slice_def tb_defs Let_def resize_list_def drop_take)

lemma tb_into_bytes_wf: "tb_wf t \<Longrightarrow> tb_into_bytes t = Inr (tb_slice t)"
  by (auto simp: tb_into_bytes_def tb_slice_def tb_wf_def Let_def)

lemma tb_into_bytes_from [simp]: "tb_into_bytes (tb_from b) = Inr b"
  by (simp add: tb_into_bytes_wf tb_wf_from)

text \<open>Extending and shrinking by the same amount gives the slice back.\<close>

lemma tb_shrink_extend: "tb_wf t \<Longrightarrow> tb_slice (tb_shrink_end (tb_extend_end t n) n) = tb_slice t"
proof -
  assume wf: "tb_wf t"
  have "tb_len (tb_extend_end t n) = tb_len t + n"
    using wf by (auto simp: tb_wf_def tb_defs Let_def)
  with wf show ?thesis
    by (simp add: tb_slice_shrink tb_wf_extend tb_slice_extend length_tb_slice)
qed

section \<open>Refinement of a three-part byte string\<close>

text \<open>
  What a \<open>TransmissionBytes\<close> promises: a byte string in three parts, the room in front, the
  visible slice and the room behind. The operations move the two borders; only \<open>put\<close> and a
  write through \<open>as_mut\<close> change bytes, and only \<open>resize\<close> and \<open>extend_end\<close> change the
  length of the whole.
\<close>

type_synonym gap = "bytes \<times> bytes \<times> bytes"

definition tb_abs :: "transmission \<Rightarrow> gap" where
  "tb_abs t = (take (tb_start t) (tb_buf t), tb_slice t, drop (tb_end t) (tb_buf t))"

datatype tb_op =
    Put bytes
  | RetreatHead nat
  | AdvanceHead nat
  | SetLen nat
  | Resize nat u8
  | ExtendEnd nat
  | ShrinkEnd nat
  | Clear

fun tb_run :: "nat \<Rightarrow> tb_op \<Rightarrow> transmission \<Rightarrow> transmission result" where
  "tb_run cp (Put d) t = tb_put cp t d"
| "tb_run cp (RetreatHead n) t = tb_retreat_head t n"
| "tb_run cp (AdvanceHead n) t = tb_advance_head t n"
| "tb_run cp (SetLen n) t = tb_set_len cp t n"
| "tb_run cp (Resize n v) t = Inr (tb_resize t n v)"
| "tb_run cp (ExtendEnd n) t = Inr (tb_extend_end t n)"
| "tb_run cp (ShrinkEnd n) t = Inr (tb_shrink_end t n)"
| "tb_run cp Clear t = Inr (tb_clear t)"

fun gap_run :: "tb_op \<Rightarrow> gap \<Rightarrow> gap result" where
  "gap_run (Put d) (f, v, b) =
     (if length d > length b then Inl InvalidInput else Inr (f, v @ d, drop (length d) b))"
| "gap_run (RetreatHead n) (f, v, b) =
     (if n > length f then Inl InvalidInput
      else Inr (take (length f - n) f, drop (length f - n) f @ v, b))"
| "gap_run (AdvanceHead n) (f, v, b) =
     (if n > length v then Inl InvalidInput else Inr (f @ take n v, drop n v, b))"
| "gap_run (SetLen n) (f, v, b) =
     (if n > length v + length b then Inl InvalidInput
      else Inr (f, take n (v @ b), drop n (v @ b)))"
| "gap_run (Resize n x) (f, v, b) = Inr (f, resize_list n x (v @ b), [])"
| "gap_run (ExtendEnd n) (f, v, b) = Inr (f, v @ resize_list n 0 (take n b), drop n b)"
| "gap_run (ShrinkEnd n) (f, v, b) =
     Inr (f, take (length v - n) v, drop (length v - n) v @ b)"
| "gap_run Clear (f, v, b) = Inr ([], [], f @ v @ b)"

text \<open>A well-formed buffer is the concatenation of its parts, cut at the two borders.\<close>

lemma tb_parts:
  assumes "tb_wf t"
  obtains f v b where "tb_abs t = (f, v, b)" "tb_buf t = f @ v @ b"
    "tb_start t = length f" "tb_end t = length f + length v"
proof
  let ?s = "tb_start t" and ?e = "tb_end t" and ?b = "tb_buf t"
  show "tb_abs t = (take ?s ?b, drop ?s (take ?e ?b), drop ?e ?b)"
    by (simp add: tb_abs_def tb_slice_def)
  have "take ?e ?b = take ?s ?b @ drop ?s (take ?e ?b)"
    using assms by (metis append_take_drop_id min_absorb1 take_take tb_wf_def)
  then show "?b = take ?s ?b @ drop ?s (take ?e ?b) @ drop ?e ?b"
    by (metis append.assoc append_take_drop_id)
  show "?s = length (take ?s ?b)" "?e = length (take ?s ?b) + length (drop ?s (take ?e ?b))"
    using assms by (simp_all add: tb_wf_def)
qed

lemma tb_abs_parts:
  "tb_buf t = f @ v @ b \<Longrightarrow> tb_start t = length f \<Longrightarrow> tb_end t = length f + length v \<Longrightarrow>
   tb_abs t = (f, v, b)"
  by (simp add: tb_abs_def tb_slice_def)

lemma tb_run_wf: "tb_wf t \<Longrightarrow> tb_run (length (tb_buf t)) op t = Inr t' \<Longrightarrow> tb_wf t'"
  by (cases op) (auto intro: tb_wf_intros)

lemma splice_parts: "length d \<le> length b \<Longrightarrow>
  splice (length f + length v) d (f @ v @ b) = f @ v @ d @ drop (length d) b"
  by (simp add: splice_def)

lemma tb_run_refines:
  assumes "tb_wf t"
  shows "map_sum id tb_abs (tb_run (length (tb_buf t)) op t) = gap_run op (tb_abs t)"
proof -
  obtain f v b where a: "tb_abs t = (f, v, b)" and p: "tb_buf t = f @ v @ b"
    "tb_start t = length f" "tb_end t = length f + length v"
    using assms by (rule tb_parts)
  show ?thesis
  proof (cases op)
    case (Put d)
    then show ?thesis using a p by (auto simp: tb_put_def Let_def splice_parts intro: tb_abs_parts)
  next
    case (RetreatHead n)
    then show ?thesis using a p
      by (auto simp: tb_retreat_head_def tb_head_room_def intro!: tb_abs_parts)
  next
    case (AdvanceHead n)
    then show ?thesis using a p
      by (auto simp: tb_advance_head_def tb_len_def intro!: tb_abs_parts)
  next
    case (SetLen n)
    then show ?thesis using a p
      by (auto simp: tb_set_len_def Let_def tb_abs_def tb_slice_def)
  next
    case (Resize n x)
    then show ?thesis using a p
      by (auto simp: tb_resize_def Let_def resize_list_def intro!: tb_abs_parts)
  next
    case (ExtendEnd n)
    then show ?thesis using a p
      by (auto simp: tb_extend_end_def Let_def resize_list_def intro!: tb_abs_parts)
  next
    case (ShrinkEnd n)
    then show ?thesis using a p
      by (auto simp: tb_shrink_end_def intro!: tb_abs_parts)
  next
    case Clear
    then show ?thesis using a p by (auto simp: tb_clear_def intro!: tb_abs_parts)
  qed
qed

text \<open>
  Operations in sequence. The capacity goes along: an operation that makes the bytes longer than it gets a new allocation, which may be larger than needed by
  the number given with the operation; nothing makes it smaller. After each operation the slice is looked at, which is what everybody who changes a
  buffer does next; this panics when \<open>set_len\<close> went past the bytes.
\<close>

definition tb_step :: "tb_op \<times> nat \<Rightarrow> nat \<times> transmission \<Rightarrow> (nat \<times> transmission) result" where
  "tb_step = (\<lambda>(op, extra) (cp, t).
     rbind (tb_run cp op t) (\<lambda>t'. rbind (tb_as_slice t') (\<lambda>_.
       Inr (if length (tb_buf t') \<le> cp then cp else length (tb_buf t') + extra, t'))))"

fun tb_runs :: "(tb_op \<times> nat) list \<Rightarrow> nat \<times> transmission \<Rightarrow> (nat \<times> transmission) result" where
  "tb_runs [] s = Inr s"
| "tb_runs (x # ops) s = rbind (tb_step x s) (tb_runs ops)"

text \<open>
  The byte string with the number of bytes by which the capacity exceeds it: an operation that would use them panics, one that would need more than them is refused.
\<close>

definition gap_total :: "gap \<Rightarrow> nat" where
  "gap_total = (\<lambda>(f, v, b). length f + length v + length b)"

fun gap_overruns :: "tb_op \<Rightarrow> nat \<times> gap \<Rightarrow> bool" where
  "gap_overruns (Put d) (spare, f, v, b) \<longleftrightarrow> length b < length d \<and> length d \<le> length b + spare"
| "gap_overruns (SetLen n) (spare, f, v, b) \<longleftrightarrow> length v + length b < n \<and> n \<le> length v + length b + spare"
| "gap_overruns _ _ \<longleftrightarrow> False"

definition gap_step :: "tb_op \<times> nat \<Rightarrow> nat \<times> gap \<Rightarrow> (nat \<times> gap) result" where
  "gap_step = (\<lambda>(op, extra) (spare, g).
     if gap_overruns op (spare, g) then Inl Panic
     else rbind (gap_run op g) (\<lambda>g'.
       Inr (if gap_total g' \<le> gap_total g + spare then gap_total g + spare - gap_total g' else extra, g')))"

fun gap_runs :: "(tb_op \<times> nat) list \<Rightarrow> nat \<times> gap \<Rightarrow> (nat \<times> gap) result" where
  "gap_runs [] s = Inr s"
| "gap_runs (x # ops) s = rbind (gap_step x s) (gap_runs ops)"

definition tb_abs_room :: "nat \<times> transmission \<Rightarrow> nat \<times> gap" where
  "tb_abs_room = (\<lambda>(cp, t). (cp - length (tb_buf t), tb_abs t))"

definition tb_room_ok :: "nat \<times> transmission \<Rightarrow> bool" where
  "tb_room_ok = (\<lambda>(cp, t). tb_wf t \<and> length (tb_buf t) \<le> cp)"

lemma gap_run_no_panic: "gap_run op g \<noteq> Inl Panic"
  by (cases "(op, g)" rule: gap_run.cases) auto

lemma gap_total_abs: "tb_wf t \<Longrightarrow> gap_total (tb_abs t) = length (tb_buf t)"
  by (auto simp: gap_total_def elim: tb_parts)

text \<open>What the extra capacity makes of an operation: nothing, unless it is overrun.\<close>

lemma tb_run_capacity:
  assumes "tb_wf t" and "length (tb_buf t) \<le> cp"
  shows "\<not> gap_overruns op (tb_abs_room (cp, t)) \<Longrightarrow> tb_run cp op t = tb_run (length (tb_buf t)) op t"
    "gap_overruns op (tb_abs_room (cp, t)) \<Longrightarrow> rbind (tb_run cp op t) tb_as_slice = Inl Panic"
proof -
  obtain f v b where "tb_abs t = (f, v, b)" "tb_buf t = f @ v @ b" "tb_start t = length f" "tb_end t = length f + length v"
    using assms(1) by (rule tb_parts)
  note p = this
  show "\<not> gap_overruns op (tb_abs_room (cp, t)) \<Longrightarrow> tb_run cp op t = tb_run (length (tb_buf t)) op t"
    using assms(2) p by (cases op) (auto simp: tb_abs_room_def tb_put_def tb_set_len_def Let_def)
  show "gap_overruns op (tb_abs_room (cp, t)) \<Longrightarrow> rbind (tb_run cp op t) tb_as_slice = Inl Panic"
    using assms(2) p by (cases op) (auto simp: tb_abs_room_def tb_put_def tb_set_len_def tb_as_slice_def Let_def)
qed

lemma tb_step_refines:
  assumes "tb_room_ok s"
  shows "map_sum id tb_abs_room (tb_step x s) = gap_step x (tb_abs_room s)" and "tb_step x s = Inr s' \<Longrightarrow> tb_room_ok s'"
proof -
  obtain cp t op extra where [simp]: "s = (cp, t)" "x = (op, extra)" by fastforce
  have wf: "tb_wf t" "length (tb_buf t) \<le> cp" using assms by (simp_all add: tb_room_ok_def)
  have "map_sum id tb_abs_room (tb_step x s) = gap_step x (tb_abs_room s) \<and> (tb_step x s = Inr s' \<longrightarrow> tb_room_ok s')"
  proof (cases "gap_overruns op (tb_abs_room (cp, t))")
    case True
    then have "tb_step x s = Inl Panic"
      using tb_run_capacity(2) [OF wf True] by (cases "tb_run cp op t") (auto simp: tb_step_def tb_as_slice_def split: if_splits)
    then show ?thesis using True by (simp add: gap_step_def tb_abs_room_def)
  next
    case False
    note same = tb_run_capacity(1) [OF wf False] and ref = tb_run_refines [OF wf(1), of op]
    show ?thesis
    proof (cases "tb_run (length (tb_buf t)) op t")
      case (Inl e)
      then show ?thesis using False ref by (auto simp: tb_step_def gap_step_def same tb_abs_room_def dest: sym)
    next
      case (Inr t')
      have wf': "tb_wf t'" using wf(1) Inr by (rule tb_run_wf)
      have g: "gap_run op (tb_abs t) = Inr (tb_abs t')" using ref Inr by simp
      show ?thesis
        using False wf wf' g
        by (auto simp: tb_step_def gap_step_def same Inr tb_abs_room_def tb_as_slice_wf gap_total_abs tb_room_ok_def)
    qed
  qed
  then show "map_sum id tb_abs_room (tb_step x s) = gap_step x (tb_abs_room s)" "tb_step x s = Inr s' \<Longrightarrow> tb_room_ok s'" by blast+
qed

lemma tb_runs_refine:
  "tb_room_ok s \<Longrightarrow> map_sum id tb_abs_room (tb_runs ops s) = gap_runs ops (tb_abs_room s) \<and> (tb_runs ops s = Inr s' \<longrightarrow> tb_room_ok s')"
proof (induction ops arbitrary: s)
  case (Cons x ops)
  note step = tb_step_refines [OF Cons.prems, of x]
  show ?case
  proof (cases "tb_step x s")
    case (Inl e)
    then show ?thesis using step(1) [symmetric] by simp
  next
    case (Inr s1)
    then show ?thesis using step(1) [symmetric] Cons.IH [OF step(2) [OF Inr]] by simp
  qed
qed auto

text \<open>Without \<open>resize\<close>, and with allocations of the size asked for, no capacity is ever left unused.\<close>

fun is_resize :: "tb_op \<Rightarrow> bool" where
  "is_resize (Resize _ _) = True"
| "is_resize _ = False"

lemma gap_total_grows: "gap_run op g = Inr g' \<Longrightarrow> \<not> is_resize op \<Longrightarrow> gap_total g \<le> gap_total g'"
  by (cases "(op, g)" rule: gap_run.cases) (auto simp: gap_total_def split: if_splits)

lemma gap_step_tight:
  assumes "\<not> is_resize op"
  shows "gap_step (op, 0) (0, g) \<noteq> Inl Panic" and "gap_step (op, 0) (0, g) = Inr s \<Longrightarrow> fst s = 0"
proof -
  have no: "\<not> gap_overruns op (0, g)" by (cases "(op, 0 :: nat, g)" rule: gap_overruns.cases) auto
  show "gap_step (op, 0) (0, g) \<noteq> Inl Panic"
    using no gap_run_no_panic [of op g] by (simp add: gap_step_def rbind_eq_Inl)
  show "gap_step (op, 0) (0, g) = Inr s \<Longrightarrow> fst s = 0"
    using no gap_total_grows [OF _ assms, of g] by (fastforce simp: gap_step_def rbind_eq_Inr split: if_splits)
qed

lemma gap_runs_tight:
  "list_all (\<lambda>(op, extra). \<not> is_resize op \<and> extra = 0) ops \<Longrightarrow> gap_runs ops (0, g) \<noteq> Inl Panic"
proof (induction ops arbitrary: g)
  case (Cons x ops)
  obtain op where x: "x = (op, 0)" "\<not> is_resize op" using Cons.prems by (cases x) auto
  show ?case
  proof (cases "gap_step x (0, g)")
    case (Inl e)
    then show ?thesis using gap_step_tight(1) [OF x(2), of g] x(1) by simp
  next
    case (Inr s)
    then have "fst s = 0" using gap_step_tight(2) [OF x(2), of g] x(1) by simp
    then show ?thesis using Inr Cons.IH [of "snd s"] Cons.prems by (cases s) simp
  qed
qed simp

lemma map_sum_Inl_iff: "map_sum f g x = Inl y \<longleftrightarrow> (\<exists>z. x = Inl z \<and> y = f z)"
  by (cases x) auto

section \<open>Properties\<close>

text \<open>
  C28. Refinement: every sequence of the eight operations on a buffer, each followed by a look at the bytes, with any capacity and any sizes of the allocations,
  behaves as on the three-part byte string: the same bytes and borders, the same refusals, and a panic exactly where an operation goes beyond the bytes but
  not beyond the capacity. The capacity stays when \<open>resize\<close> cuts bytes off. What the sequence ends in is well-formed. When the capacity is the
  number of bytes at first and allocations are of the size asked for, only a sequence with \<open>resize\<close> in it can panic.
\<close>

theorem transmission_refines_gap:
  assumes "tb_wf t" and "length (tb_buf t) \<le> cp"
  shows "map_sum id tb_abs_room (tb_runs ops (cp, t)) = gap_runs ops (cp - length (tb_buf t), tb_abs t) \<and>
    pred_sum (\<lambda>_. True) tb_room_ok (tb_runs ops (cp, t)) \<and>
    (cp = length (tb_buf t) \<and> list_all (\<lambda>(op, extra). \<not> is_resize op \<and> extra = 0) ops \<longrightarrow> tb_runs ops (cp, t) \<noteq> Inl Panic)"
proof -
  have ok: "tb_room_ok (cp, t)" using assms by (simp add: tb_room_ok_def)
  have abs: "map_sum id tb_abs_room (tb_runs ops (cp, t)) = gap_runs ops (cp - length (tb_buf t), tb_abs t)"
    using tb_runs_refine [OF ok, of ops] by (simp add: tb_abs_room_def)
  moreover have "pred_sum (\<lambda>_. True) tb_room_ok (tb_runs ops (cp, t))"
    using tb_runs_refine [OF ok, of ops] by (cases "tb_runs ops (cp, t)") auto
  moreover have "tb_runs ops (cp, t) \<noteq> Inl Panic"
    if "cp = length (tb_buf t)" "list_all (\<lambda>(op, extra). \<not> is_resize op \<and> extra = 0) ops"
    using abs gap_runs_tight [OF that(2), of "tb_abs t"] that(1) by (auto simp: map_sum_Inl_iff)
  ultimately show ?thesis by blast
qed

theorem transmission_refines_gap_witness:
  "tb_wf (tb_zeroed_size 2 4) \<and>
   tb_runs [(AdvanceHead 1, 0), (Put [7, 8], 0), (RetreatHead 1, 0), (ShrinkEnd 1, 0)] (6, tb_zeroed_size 2 4) =
     Inr (6, \<lparr>tb_buf = [0, 0, 7, 8, 0, 0], tb_start = 0, tb_end = 3\<rparr>) \<and>
   tb_runs [(Put [1, 2, 3, 4, 5], 0)] (6, tb_zeroed_size 2 4) \<noteq> Inl Panic \<and>
   tb_runs [(Resize 2 0, 0), (Put [1], 0)] (6, tb_zeroed_size 2 4) = Inl Panic"
proof (intro conjI)
  show wf: "tb_wf (tb_zeroed_size 2 4)"
    by (rule tb_wf_zeroed_size)
  show "tb_runs [(AdvanceHead 1, 0), (Put [7, 8], 0), (RetreatHead 1, 0), (ShrinkEnd 1, 0)] (6, tb_zeroed_size 2 4) =
     Inr (6, \<lparr>tb_buf = [0, 0, 7, 8, 0, 0], tb_start = 0, tb_end = 3\<rparr>)"
    by (simp add: tb_step_def tb_as_slice_def tb_defs Let_def splice_def eval_nat_numeral)
  show "tb_runs [(Put [1, 2, 3, 4, 5], 0)] (6, tb_zeroed_size 2 4) \<noteq> Inl Panic"
    using transmission_refines_gap [OF wf, of 6 "[(Put [1, 2, 3, 4, 5], 0)]"] by (simp add: tb_zeroed_size_def)
  show "tb_runs [(Resize 2 0, 0), (Put [1], 0)] (6, tb_zeroed_size 2 4) = Inl Panic"
    by (simp add: tb_step_def tb_as_slice_def tb_defs Let_def resize_list_def eval_nat_numeral)
qed

text \<open>
  \<open>put\<close> guards with the capacity of the \<open>BytesMut\<close>, but slices its length: exactly when
  the data fits the capacity and not the length the call panics instead of returning
  \<open>InvalidInput\<close>.
\<close>

lemma put_panics_iff:
  "tb_put cp t d = Inl Panic \<longleftrightarrow>
     length d \<le> cp - tb_end t \<and> length (tb_buf t) < tb_end t + length d"
  by (auto simp: tb_put_def Let_def)

end
