(* ===== verification/Net_Packet.thy ===== *)
theory Net_Packet
  imports Transmission
begin

text \<open>
  \<open>protocol/ip_packet_protocol.rs\<close>: the 16-byte packet header \<open>NetHeader\<close>, the message types
  and \<open>NetPacket<B>\<close>. A packet is the byte string its buffer \<open>B\<close> shows (\<open>as_ref\<close>), of at
  least \<open>HEAD_LENGTH\<close> bytes (\<open>np_ok\<close>, what \<open>NetPacket::new\<close> checks); every header access
  reads or rewrites its first 16 bytes. \<open>tb_map\<close> lifts an operation on the byte string to a
  packet held in a \<open>TransmissionBytes\<close>; the locale \<open>packet_buffer\<close> states what \<open>B\<close> must
  satisfy for that, once for every \<open>B\<close>.
\<close>

section \<open>The header\<close>

record NetHeader =
  type_byte :: u8
  ttl_byte :: u8
  flags_byte :: u8
  reserved_byte :: u8
  h_seq :: u32
  h_src_id :: u32
  h_dest_id :: u32

definition HEAD_LENGTH :: nat where
  "HEAD_LENGTH = 16"

definition COMPRESSED :: u8 where "COMPRESSED = 0x80"
definition GATEWAY :: u8 where "GATEWAY = 0x40"
definition FEC :: u8 where "FEC = 0x20"

definition h_msg_type :: "NetHeader \<Rightarrow> u8" where
  "h_msg_type h = type_byte h AND 0x7F"

definition h_set_msg_type :: "u8 \<Rightarrow> NetHeader \<Rightarrow> NetHeader" where
  "h_set_msg_type m h = h\<lparr>type_byte := (m AND 0x7F) OR 0x80\<rparr>"

definition h_max_ttl :: "NetHeader \<Rightarrow> u8" where
  "h_max_ttl h = drop_bit 4 (ttl_byte h)"

definition h_curr_ttl :: "NetHeader \<Rightarrow> u8" where
  "h_curr_ttl h = ttl_byte h AND 0x0F"

definition h_set_ttl :: "u8 \<Rightarrow> u8 \<Rightarrow> NetHeader \<Rightarrow> NetHeader" where
  "h_set_ttl mx cur h = h\<lparr>ttl_byte := push_bit 4 mx OR (cur AND 0x0F)\<rparr>"

definition h_decr_ttl :: "NetHeader \<Rightarrow> NetHeader" where
  "h_decr_ttl h =
     (let cur = h_curr_ttl h in
      if cur = 0 then h else h\<lparr>ttl_byte := (ttl_byte h AND 0xF0) OR (cur - 1)\<rparr>)"

definition h_set_flag :: "u8 \<Rightarrow> bool \<Rightarrow> NetHeader \<Rightarrow> NetHeader" where
  "h_set_flag m val h =
     h\<lparr>flags_byte := if val then flags_byte h OR m else flags_byte h AND NOT m\<rparr>"

section \<open>Message types\<close>

datatype MsgType =
    Turn | Broadcast | ExcludeBroadcast | TargetBroadcast
  | Ping | Pong | PingTurn | PongTurn
  | PunchStart1 | PunchStart2 | PunchReq | PunchRes
  | PushClientIps
  | RpcReq | RpcRes
  | Quic

fun msg_code :: "MsgType \<Rightarrow> u8" where
  "msg_code Turn = 1" | "msg_code Broadcast = 2" | "msg_code ExcludeBroadcast = 3"
| "msg_code TargetBroadcast = 4" | "msg_code Ping = 5" | "msg_code Pong = 6"
| "msg_code PingTurn = 7" | "msg_code PongTurn = 8" | "msg_code PunchStart1 = 9"
| "msg_code PunchStart2 = 10" | "msg_code PunchReq = 11" | "msg_code PunchRes = 12"
| "msg_code PushClientIps = 13" | "msg_code RpcReq = 14" | "msg_code RpcRes = 15"
| "msg_code Quic = 17"

definition msg_try_from :: "u8 \<Rightarrow> MsgType result" where
  "msg_try_from v =
     (if v = 1 then Inr Turn else if v = 2 then Inr Broadcast
      else if v = 3 then Inr ExcludeBroadcast else if v = 4 then Inr TargetBroadcast
      else if v = 5 then Inr Ping else if v = 6 then Inr Pong
      else if v = 7 then Inr PingTurn else if v = 8 then Inr PongTurn
      else if v = 9 then Inr PunchStart1 else if v = 10 then Inr PunchStart2
      else if v = 11 then Inr PunchReq else if v = 12 then Inr PunchRes
      else if v = 13 then Inr PushClientIps
      else if v = 14 then Inr RpcReq else if v = 15 then Inr RpcRes
      else if v = 17 then Inr Quic
      else Inl InvalidInput)"

section \<open>Packets\<close>

definition decode_header :: "bytes \<Rightarrow> NetHeader" where
  "decode_header b =
     \<lparr>type_byte = b ! 0, ttl_byte = b ! 1, flags_byte = b ! 2, reserved_byte = b ! 3,
      h_seq = of_be32 (b ! 4) (b ! 5) (b ! 6) (b ! 7),
      h_src_id = of_be32 (b ! 8) (b ! 9) (b ! 10) (b ! 11),
      h_dest_id = of_be32 (b ! 12) (b ! 13) (b ! 14) (b ! 15)\<rparr>"

definition encode_header :: "NetHeader \<Rightarrow> bytes" where
  "encode_header h =
     [type_byte h, ttl_byte h, flags_byte h, reserved_byte h] @
     be32 (h_seq h) @ be32 (h_src_id h) @ be32 (h_dest_id h)"

definition np_ok :: "bytes \<Rightarrow> bool" where
  "np_ok b \<longleftrightarrow> HEAD_LENGTH \<le> length b"

definition np_new :: "bytes \<Rightarrow> bytes result" where
  "np_new b = (if length b < HEAD_LENGTH then Inl InvalidInput else Inr b)"

definition np_header :: "bytes \<Rightarrow> NetHeader" where
  "np_header b = decode_header (take HEAD_LENGTH b)"

definition np_head :: "bytes \<Rightarrow> bytes" where
  "np_head b = take HEAD_LENGTH b"

definition np_payload :: "bytes \<Rightarrow> bytes" where
  "np_payload b = drop HEAD_LENGTH b"

definition np_msg_type :: "bytes \<Rightarrow> MsgType result" where
  "np_msg_type b = msg_try_from (h_msg_type (np_header b))"

definition np_max_ttl :: "bytes \<Rightarrow> u8" where
  "np_max_ttl b = h_max_ttl (np_header b)"

definition np_ttl :: "bytes \<Rightarrow> u8" where
  "np_ttl b = h_curr_ttl (np_header b)"

definition np_seq :: "bytes \<Rightarrow> u32" where
  "np_seq b = h_seq (np_header b)"

definition np_src_id :: "bytes \<Rightarrow> u32" where
  "np_src_id b = h_src_id (np_header b)"

definition np_dest_id :: "bytes \<Rightarrow> u32" where
  "np_dest_id b = h_dest_id (np_header b)"

definition np_is_compressed :: "bytes \<Rightarrow> bool" where
  "np_is_compressed b \<longleftrightarrow> flags_byte (np_header b) AND COMPRESSED \<noteq> 0"

definition np_is_gateway :: "bytes \<Rightarrow> bool" where
  "np_is_gateway b \<longleftrightarrow> flags_byte (np_header b) AND GATEWAY \<noteq> 0"

definition np_is_fec :: "bytes \<Rightarrow> bool" where
  "np_is_fec b \<longleftrightarrow> flags_byte (np_header b) AND FEC \<noteq> 0"

text \<open>\<open>header_mut\<close>: the header is a view of the first 16 bytes, so an update is written there.\<close>

definition np_header_mut :: "(NetHeader \<Rightarrow> NetHeader) \<Rightarrow> bytes \<Rightarrow> bytes" where
  "np_header_mut f b = encode_header (f (np_header b)) @ drop HEAD_LENGTH b"

definition np_set_msg_type :: "MsgType \<Rightarrow> bytes \<Rightarrow> bytes" where
  "np_set_msg_type m = np_header_mut (h_set_msg_type (msg_code m))"

definition np_decr_ttl :: "bytes \<Rightarrow> bytes" where
  "np_decr_ttl = np_header_mut h_decr_ttl"

definition np_set_ttl :: "u8 \<Rightarrow> bytes \<Rightarrow> bytes" where
  "np_set_ttl ttl = np_header_mut (h_set_ttl ttl ttl)"

definition np_set_seq :: "u32 \<Rightarrow> bytes \<Rightarrow> bytes" where
  "np_set_seq s = np_header_mut (\<lambda>h. h\<lparr>h_seq := s\<rparr>)"

definition np_set_src_id :: "u32 \<Rightarrow> bytes \<Rightarrow> bytes" where
  "np_set_src_id i = np_header_mut (\<lambda>h. h\<lparr>h_src_id := i\<rparr>)"

definition np_set_dest_id :: "u32 \<Rightarrow> bytes \<Rightarrow> bytes" where
  "np_set_dest_id i = np_header_mut (\<lambda>h. h\<lparr>h_dest_id := i\<rparr>)"

definition np_set_compressed_flag :: "bool \<Rightarrow> bytes \<Rightarrow> bytes" where
  "np_set_compressed_flag v = np_header_mut (h_set_flag COMPRESSED v)"

definition np_set_gateway_flag :: "bool \<Rightarrow> bytes \<Rightarrow> bytes" where
  "np_set_gateway_flag v = np_header_mut (h_set_flag GATEWAY v)"

definition np_set_fec_flag :: "bool \<Rightarrow> bytes \<Rightarrow> bytes" where
  "np_set_fec_flag v = np_header_mut (h_set_flag FEC v)"

definition np_set_payload :: "bytes \<Rightarrow> bytes \<Rightarrow> bytes result" where
  "np_set_payload d b =
     (if length b < HEAD_LENGTH + length d then Inl InvalidInput
      else Inr (splice HEAD_LENGTH d b))"

text \<open>\<open>NetPacket<TransmissionBytes>\<close>: the same operations on the visible slice.\<close>

definition tb_map :: "(bytes \<Rightarrow> bytes) \<Rightarrow> transmission \<Rightarrow> transmission" where
  "tb_map f t = tb_write t (f (tb_slice t))"

definition tb_np_new :: "transmission \<Rightarrow> transmission result" where
  "tb_np_new t = rbind (np_new (tb_slice t)) (\<lambda>_. Inr t)"

definition tb_np_into_bytes :: "transmission \<Rightarrow> bytes result" where
  "tb_np_into_bytes t = tb_into_bytes t"

section \<open>Header codec\<close>

lemma length_encode_header [simp]: "length (encode_header h) = HEAD_LENGTH"
  by (simp add: encode_header_def HEAD_LENGTH_def)

lemma decode_encode_header: "decode_header (encode_header h) = h"
  using of_be32_be32 [of "h_seq h"] of_be32_be32 [of "h_src_id h"] of_be32_be32 [of "h_dest_id h"]
  by (simp add: decode_header_def encode_header_def be32_def)

lemma encode_decode_header:
  assumes "length b = HEAD_LENGTH"
  shows "encode_header (decode_header b) = b"
proof -
  have "b = map ((!) b) [0..<16]"
    using assms map_nth [of b] by (simp add: HEAD_LENGTH_def)
  also have "[0..<16] = [0, 1, 2, 3, 4, 5, 6, 7, 8, 9, 10, 11, 12, 13, 14, 15::nat]"
    by (simp add: upt_rec numeral_eq_Suc)
  finally have "b = map ((!) b) [0, 1, 2, 3, 4, 5, 6, 7, 8, 9, 10, 11, 12, 13, 14, 15]" .
  moreover have "encode_header (decode_header b) = \<dots>"
    by (simp add: encode_header_def decode_header_def be32_of_be32)
  ultimately show ?thesis by simp
qed

lemma np_header_mut_header [simp]: "np_header (np_header_mut f b) = f (np_header b)"
  by (simp add: np_header_def np_header_mut_def decode_encode_header)

lemma np_header_mut_payload [simp]: "np_payload (np_header_mut f b) = np_payload b"
  by (simp add: np_payload_def np_header_mut_def)

lemma length_np_header_mut: "np_ok b \<Longrightarrow> length (np_header_mut f b) = length b"
  by (simp add: np_ok_def np_header_mut_def)

lemma np_ok_header_mut [simp]: "np_ok (np_header_mut f b)"
  by (simp add: np_ok_def np_header_mut_def)

lemma np_header_mut_id: "np_ok b \<Longrightarrow> np_header_mut (\<lambda>h. h) b = b"
  by (simp add: np_ok_def np_header_mut_def np_header_def encode_decode_header)

lemma np_head_payload: "np_head b @ np_payload b = b"
  by (simp add: np_head_def np_payload_def)

lemma np_eqI:
  assumes "np_ok a" "np_ok b" "np_header a = np_header b" "np_payload a = np_payload b"
  shows "a = b"
proof -
  have enc: "encode_header (np_header c) = take HEAD_LENGTH c" if "np_ok c" for c
    unfolding np_header_def using that by (intro encode_decode_header) (simp add: np_ok_def)
  have "take HEAD_LENGTH a = take HEAD_LENGTH b"
    unfolding enc [OF assms(1), symmetric] enc [OF assms(2), symmetric] assms(3) ..
  then have "np_head a = np_head b"
    by (simp add: np_head_def)
  with assms(4) have "np_head a @ np_payload a = np_head b @ np_payload b"
    by simp
  then show ?thesis by (simp only: np_head_payload)
qed

named_theorems np_defs \<open>packet operations in terms of the header\<close>

lemmas np_op_defs [np_defs] =
  np_msg_type_def np_max_ttl_def np_ttl_def np_seq_def np_src_id_def np_dest_id_def
  np_is_compressed_def np_is_gateway_def np_is_fec_def np_set_msg_type_def np_decr_ttl_def
  np_set_ttl_def np_set_seq_def np_set_src_id_def np_set_dest_id_def
  np_set_compressed_flag_def np_set_gateway_flag_def np_set_fec_flag_def

lemmas h_defs =
  h_msg_type_def h_set_msg_type_def h_max_ttl_def h_curr_ttl_def h_set_ttl_def
  h_set_flag_def COMPRESSED_def GATEWAY_def FEC_def

lemma msg_code_masked: "msg_code m AND 0x7F = msg_code m"
  by (cases m) simp_all

lemma msg_try_from_code [simp]: "msg_try_from (msg_code m) = Inr m"
  by (cases m) (simp_all add: msg_try_from_def)

lemma msg_try_from_Inr: "msg_try_from v = Inr m \<longleftrightarrow> v = msg_code m"
proof
  assume "msg_try_from v = Inr m"
  then show "v = msg_code m"
    by (auto simp: msg_try_from_def split: if_splits)
qed simp

lemma msg_try_from_cases: "msg_try_from v = Inl InvalidInput \<or> (\<exists>m. msg_try_from v = Inr m)"
  unfolding msg_try_from_def by simp

lemma msg_try_from_Inl: "msg_try_from v = Inl InvalidInput \<longleftrightarrow> (\<nexists>m. v = msg_code m)"
proof (cases "msg_try_from v")
  case (Inl e)
  then show ?thesis using msg_try_from_cases [of v] by (auto simp: msg_try_from_Inr)
next
  case (Inr m)
  then show ?thesis by (auto simp: msg_try_from_Inr)
qed

section \<open>Fields\<close>

lemma h_msg_type_set: "h_msg_type (h_set_msg_type (msg_code m) h) = msg_code m"
  unfolding h_defs by (cases m) simp_all

lemma h_ttl_set: "h_max_ttl (h_set_ttl a c h) = a AND 0x0F" "h_curr_ttl (h_set_ttl a c h) = c AND 0x0F"
   apply (simp_all add: h_defs)
   apply (rule u8_eqI; simp add: bit_simps)
  apply (rule u8_eqI; simp add: bit_simps)
  done

lemma h_flag_bits:
  "flags_byte (h_set_flag m v h) AND k = 0 \<longleftrightarrow>
     (if v then flags_byte h AND k = 0 \<and> m AND k = 0 else flags_byte h AND (NOT m AND k) = 0)"
  by (simp add: h_set_flag_def and.assoc bit.conj_disj_distrib2 or_eq_0_iff)

lemma nibble_self: "y \<le> 15 \<Longrightarrow> y AND 0x0F = y" for y :: u8
proof -
  assume "y \<le> 15"
  then have "unat (take_bit 4 y) = unat y"
    by (simp add: unsigned_take_bit_eq take_bit_nat_eq_self word_le_nat_alt)
  then have "take_bit 4 y = y" by (simp add: word_unat_eq_iff)
  then show ?thesis by (simp add: take_bit_eq_mask mask_numeral)
qed

lemma nibble_le: "x AND 0x0F \<le> 15" for x :: u8
  by (rule word_and_le1)

lemma h_decr_ttl_max: "h_max_ttl (h_decr_ttl h) = h_max_ttl h"
proof (cases "h_curr_ttl h = 0")
  case False
  have "h_curr_ttl h - 1 \<le> 15"
    using nibble_le [of "ttl_byte h"] False
    by (simp add: h_curr_ttl_def word_le_nat_alt unat_eq_zero unat_minus_one)
  then obtain z where z: "h_curr_ttl h - 1 = z AND 0x0F"
    by (metis nibble_self)
  have "drop_bit 4 ((x AND 0xF0) OR (z AND 0x0F)) = drop_bit 4 x" for x :: u8
    by (rule u8_eqI) (auto simp: bit_simps dest: bit_imp_le_length)
  with False z show ?thesis by (simp add: h_decr_ttl_def h_max_ttl_def Let_def)
qed (simp add: h_decr_ttl_def Let_def)

lemma h_decr_ttl_curr: "unat (h_curr_ttl (h_decr_ttl h)) = unat (h_curr_ttl h) - 1"
proof (cases "h_curr_ttl h = 0")
  case False
  have le: "h_curr_ttl h - 1 \<le> 15"
    using nibble_le [of "ttl_byte h"] False
    by (simp add: h_curr_ttl_def word_le_nat_alt unat_eq_zero unat_minus_one)
  have "((x AND 0xF0) OR y) AND 0x0F = y AND 0x0F" for x y :: u8
    by (rule u8_eqI; simp add: bit_simps)
  then have "h_curr_ttl (h_decr_ttl h) = h_curr_ttl h - 1"
    using False le by (simp add: h_decr_ttl_def Let_def h_curr_ttl_def [of "h\<lparr>ttl_byte := _\<rparr>"] nibble_self)
  with False show ?thesis by (simp add: unat_minus_one)
qed (simp add: h_decr_ttl_def Let_def)

lemma h_flags_set:
  "(flags_byte (h_set_flag COMPRESSED v h) AND COMPRESSED \<noteq> 0) = v"
  "(flags_byte (h_set_flag GATEWAY v h) AND GATEWAY \<noteq> 0) = v"
  "(flags_byte (h_set_flag FEC v h) AND FEC \<noteq> 0) = v"
  by (simp_all add: h_flag_bits COMPRESSED_def GATEWAY_def FEC_def)

lemma h_flags_other:
  "flags_byte (h_set_flag COMPRESSED v h) AND GATEWAY = flags_byte h AND GATEWAY"
  "flags_byte (h_set_flag COMPRESSED v h) AND FEC = flags_byte h AND FEC"
  "flags_byte (h_set_flag GATEWAY v h) AND COMPRESSED = flags_byte h AND COMPRESSED"
  "flags_byte (h_set_flag GATEWAY v h) AND FEC = flags_byte h AND FEC"
  "flags_byte (h_set_flag FEC v h) AND COMPRESSED = flags_byte h AND COMPRESSED"
  "flags_byte (h_set_flag FEC v h) AND GATEWAY = flags_byte h AND GATEWAY"
  unfolding h_defs by (cases v; simp; rule u8_eqI; simp add: bit_simps)+

section \<open>Packets in a buffer\<close>

text \<open>
  What \<open>NetPacket<B>\<close> relies on (\<open>B: AsRef<[u8]> + AsMut<[u8]>\<close>): what was written through
  \<open>as_mut\<close> is what \<open>as_ref\<close> shows, and nothing else of the buffer's validity changes.
\<close>

locale packet_buffer =
  fixes view :: "'b \<Rightarrow> bytes"
    and store :: "'b \<Rightarrow> bytes \<Rightarrow> 'b"
    and ok :: "'b \<Rightarrow> bool"
  assumes view_store: "ok b \<Longrightarrow> length xs = length (view b) \<Longrightarrow> view (store b xs) = xs"
    and ok_store: "ok b \<Longrightarrow> length xs = length (view b) \<Longrightarrow> ok (store b xs)"
begin

lemma header_mut_view:
  "ok b \<Longrightarrow> np_ok (view b) \<Longrightarrow>
   view (store b (np_header_mut f (view b))) = np_header_mut f (view b)"
  by (simp add: view_store length_np_header_mut)

lemma header_mut_ok:
  "ok b \<Longrightarrow> np_ok (view b) \<Longrightarrow> ok (store b (np_header_mut f (view b)))"
  by (simp add: ok_store length_np_header_mut)

text \<open>A run of header updates is one update of the header; the payload is untouched.\<close>

lemma header_mut_fold:
  assumes "ok b" and "np_ok (view b)"
  shows "view (fold (\<lambda>f b. store b (np_header_mut f (view b))) fs b) =
      encode_header (fold (\<lambda>f. f) fs (np_header (view b))) @ np_payload (view b) \<and>
    ok (fold (\<lambda>f b. store b (np_header_mut f (view b))) fs b)"
  using assms
proof (induction fs arbitrary: b)
  case Nil
  then show ?case
    using np_header_mut_id [of "view b"] by (simp add: np_header_mut_def np_payload_def)
next
  case (Cons f fs)
  then show ?case
    by (simp add: header_mut_view header_mut_ok)
qed

end

interpretation tb_pkt: packet_buffer tb_slice tb_write tb_wf
  by unfold_locales (simp_all add: tb_slice_write tb_wf_write length_tb_slice)

interpretation list_pkt: packet_buffer "\<lambda>b. b" "\<lambda>_ xs. xs" "\<lambda>_. True"
  by unfold_locales simp_all

lemma tb_slice_map:
  "tb_wf t \<Longrightarrow> length (f (tb_slice t)) = length (tb_slice t) \<Longrightarrow> tb_slice (tb_map f t) = f (tb_slice t)"
  by (simp add: tb_map_def tb_slice_write length_tb_slice)

lemma tb_wf_map:
  "tb_wf t \<Longrightarrow> length (f (tb_slice t)) = length (tb_slice t) \<Longrightarrow> tb_wf (tb_map f t)"
  by (simp add: tb_map_def tb_wf_write length_tb_slice)

section \<open>Properties\<close>

text \<open>
  Every setter of the header is read back by its getter: message type, both TTL nibbles
  (the value cut to four bits), sequence number, addresses and the three flags.
\<close>

lemma header_fields_roundtrip:
  "np_msg_type (np_set_msg_type m b) = Inr m \<and>
   np_ttl (np_set_ttl t b) = t AND 0x0F \<and> np_max_ttl (np_set_ttl t b) = t AND 0x0F \<and>
   np_seq (np_set_seq s b) = s \<and>
   np_src_id (np_set_src_id i b) = i \<and> np_dest_id (np_set_dest_id i b) = i \<and>
   np_is_compressed (np_set_compressed_flag v b) = v \<and>
   np_is_gateway (np_set_gateway_flag v b) = v \<and>
   np_is_fec (np_set_fec_flag v b) = v"
  by (simp add: np_defs h_msg_type_set h_ttl_set h_flags_set)

text \<open>
  A run of header updates on a packet held in a \<open>TransmissionBytes\<close> is one update of the
  16-byte header: the payload, the borders of the buffer and its well-formedness are kept.
\<close>

lemma header_updates_frame:
  fixes t :: transmission and fs :: "(NetHeader \<Rightarrow> NetHeader) list"
  assumes "tb_wf t" and "np_ok (tb_slice t)"
  defines "t' \<equiv> fold (\<lambda>f. tb_map (np_header_mut f)) fs t"
  shows "tb_slice t' = encode_header (fold (\<lambda>f. f) fs (np_header (tb_slice t))) @ np_payload (tb_slice t) \<and>
    np_header (tb_slice t') = fold (\<lambda>f. f) fs (np_header (tb_slice t)) \<and>
    tb_start t' = tb_start t \<and> tb_end t' = tb_end t \<and> tb_wf t'"
proof -
  have fold: "t' = fold (\<lambda>f b. tb_write b (np_header_mut f (tb_slice b))) fs t"
    by (simp add: t'_def tb_map_def [abs_def])
  have "tb_slice t' = encode_header (fold (\<lambda>f. f) fs (np_header (tb_slice t))) @ np_payload (tb_slice t)"
    and "tb_wf t'"
    using tb_pkt.header_mut_fold [OF assms(1,2), of fs] by (simp_all add: fold)
  moreover have "tb_start t' = tb_start t \<and> tb_end t' = tb_end t"
    unfolding t'_def tb_map_def [abs_def] by (induction fs arbitrary: t) simp_all
  ultimately show ?thesis
    by (simp add: np_header_def decode_encode_header)
qed

lemma header_updates_frame_witness:
  "tb_slice (fold (\<lambda>f. tb_map (np_header_mut f)) [h_set_msg_type 5, h_set_ttl 2 2]
      (tb_zeroed 17)) = [0x85, 0x22, 0, 0, 0, 0, 0, 0, 0, 0, 0, 0, 0, 0, 0, 0, 0]"
proof -
  have "tb_wf (tb_zeroed 17)" "np_ok (tb_slice (tb_zeroed 17))"
    by (simp_all add: tb_wf_zeroed np_ok_def HEAD_LENGTH_def)
  from header_updates_frame [OF this, of "[h_set_msg_type 5, h_set_ttl 2 2]"]
  have "tb_slice (fold (\<lambda>f. tb_map (np_header_mut f)) [h_set_msg_type 5, h_set_ttl 2 2] (tb_zeroed 17)) =
    encode_header (fold (\<lambda>f. f) [h_set_msg_type 5, h_set_ttl 2 2] (np_header (replicate 17 0)))
      @ np_payload (replicate 17 0)"
    by simp
  also have "\<dots> = [0x85, 0x22, 0, 0, 0, 0, 0, 0, 0, 0, 0, 0, 0, 0, 0, 0, 0]"
    by code_simp
  finally show ?thesis .
qed

text \<open>
  The hop counter: \<open>k\<close> hops lower the current TTL by \<open>k\<close>, never below zero, and leave the
  initial TTL, which \<open>P2pInbound\<close> and the server compare it with, alone.
\<close>

lemma ttl_after_hops:
  "unat (np_ttl ((np_decr_ttl ^^ k) b)) = unat (np_ttl b) - k \<and>
   np_max_ttl ((np_decr_ttl ^^ k) b) = np_max_ttl b"
  by (induction k) (simp_all add: np_defs h_decr_ttl_curr h_decr_ttl_max)

text \<open>
  A message type is exactly a code 1 to 15 or 17: \<open>TryFrom<u8>\<close> inverts the conversion to
  \<open>u8\<close> and refuses everything else; the top bit of the type byte never matters.
\<close>

lemma msg_type_codec:
  "(msg_try_from v = Inr m \<longleftrightarrow> v = msg_code m) \<and>
   (msg_try_from v = Inl InvalidInput \<longleftrightarrow> v = 0 \<or> v = 16 \<or> v > 17) \<and>
   h_msg_type (h\<lparr>type_byte := type_byte h OR 0x80\<rparr>) = h_msg_type h"
proof (intro conjI)
  show "msg_try_from v = Inr m \<longleftrightarrow> v = msg_code m" by (rule msg_try_from_Inr)
  show "h_msg_type (h\<lparr>type_byte := type_byte h OR 0x80\<rparr>) = h_msg_type h"
    unfolding h_defs by (rule u8_eqI; simp add: bit_simps)
  have "v \<noteq> 0 \<and> v \<noteq> 16 \<and> \<not> v > 17 \<longleftrightarrow> (\<exists>m. v = msg_code m)"
  proof
    assume "v \<noteq> 0 \<and> v \<noteq> 16 \<and> \<not> v > 17"
    then have "unat v \<le> 17" "unat v \<noteq> 0" "unat v \<noteq> 16"
      by (auto simp: word_less_nat_alt word_unat_eq_iff)
    then have "unat v \<in> {1, 2, 3, 4, 5, 6, 7, 8, 9, 10, 11, 12, 13, 14, 15, 17}"
      unfolding insert_iff empty_iff by arith
    then have "of_nat (unat v) \<in> (of_nat ` {1, 2, 3, 4, 5, 6, 7, 8, 9, 10, 11, 12, 13, 14, 15, 17} :: u8 set)"
      by (rule imageI)
    then show "\<exists>m. v = msg_code m"
      by simp (metis msg_code.simps)
  next
    assume "\<exists>m. v = msg_code m"
    then obtain m where "v = msg_code m" ..
    then show "v \<noteq> 0 \<and> v \<noteq> 16 \<and> \<not> v > 17" by (cases m) simp_all
  qed
  then show "msg_try_from v = Inl InvalidInput \<longleftrightarrow> v = 0 \<or> v = 16 \<or> v > 17"
    unfolding msg_try_from_Inl by blast
qed

end
