(* ===== verification/Packet_Crypto.thy ===== *)
theory Packet_Crypto
  imports Net_Packet
begin

text \<open>
  \<open>crypto/mod.rs\<close> and \<open>crypto/chacha20_poly1305.rs\<close>: the optional encryption of a packet's
  payload, in place, with a 16-byte tag behind it and a nonce read off the header.

  \<open>ring\<close> is an argument: the record \<open>aead\<close> holds the digest, the key constructor and the two
  in-place calls (\<open>aead_seal\<close> gives ciphertext and tag, \<open>aead_open\<close> the plaintext that is
  left in front of the buffer). \<open>aead_correct\<close> is what its documentation promises.
\<close>

section \<open>The cipher\<close>

record 'k aead =
  sha256 :: "bytes \<Rightarrow> bytes"
  aead_key :: "bytes \<Rightarrow> 'k"
  aead_seal :: "'k \<Rightarrow> bytes \<Rightarrow> bytes \<Rightarrow> (bytes \<times> bytes) option"
  aead_open :: "'k \<Rightarrow> bytes \<Rightarrow> bytes \<Rightarrow> bytes option"

definition TAG_LEN :: nat where
  "TAG_LEN = 16"

text \<open>
  Sealing keeps the length, the tag has 16 bytes, and opening what was sealed under the same
  key and nonce gives the plaintext back.
\<close>

definition aead_correct :: "('k, 'z) aead_scheme \<Rightarrow> bool" where
  "aead_correct A \<longleftrightarrow> (\<forall>k n p c t. aead_seal A k n p = Some (c, t) \<longrightarrow>
     length c = length p \<and> length t = TAG_LEN \<and> aead_open A k n (c @ t) = Some p)"

section \<open>ChaCha20-Poly1305 on a packet\<close>

definition sub :: "nat \<Rightarrow> nat \<Rightarrow> 'a list \<Rightarrow> 'a list" where
  "sub i j xs = drop i (take j xs)"

definition hex_digit :: "nat \<Rightarrow> char" where
  "hex_digit n = ''0123456789abcdef'' ! n"

text \<open>\<open>key_sign\<close>: 16 bytes of a digest of the key between two markers, in hexadecimal.\<close>

definition key_sign :: "('k, 'z) aead_scheme \<Rightarrow> bytes \<Rightarrow> string" where
  "key_sign A s =
     (let digest = sha256 A ([0x4B, 0x45, 0x59, 0x2D, 0x42, 0x45, 0x47, 0x49, 0x4E] @ s @
                             [0x4B, 0x45, 0x59, 0x2D, 0x45, 0x4E, 0x44]);
          key_bytes = take 16 digest in
      concat (map (\<lambda>b. [hex_digit (unat b div 16), hex_digit (unat b mod 16)]) key_bytes))"

definition chacha_new_from_str :: "('k, 'z) aead_scheme \<Rightarrow> bytes \<Rightarrow> 'k" where
  "chacha_new_from_str A s = aead_key A (sha256 A s)"

definition make_nonce :: "bytes \<Rightarrow> bytes result" where
  "make_nonce b =
     (if length b < HEAD_LENGTH then Inl InvalidInput
      else let msg_type = b ! 0; sq = sub 4 8 b; src = sub 8 12 b; dst = sub 12 16 b;
               nonce12 = sq @ dst @ src in
           Inr (nonce12[0 := msg_type]))"

definition chacha_encrypt :: "('k, 'z) aead_scheme \<Rightarrow> 'k \<Rightarrow> bytes \<Rightarrow> bytes result" where
  "chacha_encrypt A k b =
     rbind (make_nonce b) (\<lambda>nonce.
       let payload = np_payload b in
       if length payload < TAG_LEN then Inl Panic
       else let payload_len = length payload - TAG_LEN in
       case aead_seal A k nonce (take payload_len payload) of
         None \<Rightarrow> Inl OtherError
       | Some (c, tag) \<Rightarrow>
           Inr (splice (HEAD_LENGTH + payload_len) tag (splice HEAD_LENGTH c b)))"

definition chacha_decrypt :: "('k, 'z) aead_scheme \<Rightarrow> 'k \<Rightarrow> bytes \<Rightarrow> (bytes \<times> nat) result" where
  "chacha_decrypt A k b =
     rbind (make_nonce b) (\<lambda>nonce.
       case aead_open A k nonce (np_payload b) of
         None \<Rightarrow> Inl OtherError
       | Some plaintext \<Rightarrow> Inr (splice HEAD_LENGTH plaintext b, length plaintext))"

section \<open>The optional cipher of the tunnel\<close>

text \<open>\<open>PacketCrypto\<close> is the optional key; the operations act on a \<open>NetPacket<TransmissionBytes>\<close>.\<close>

definition pc_new_from_str :: "('k, 'z) aead_scheme \<Rightarrow> bytes option \<Rightarrow> 'k option" where
  "pc_new_from_str A s = map_option (chacha_new_from_str A) s"

definition encrypt_reserve :: "'k option \<Rightarrow> nat" where
  "encrypt_reserve pc = (if pc \<noteq> None then TAG_LEN else 0)"

definition pc_encrypt :: "('k, 'z) aead_scheme \<Rightarrow> 'k option \<Rightarrow> transmission \<Rightarrow> transmission result" where
  "pc_encrypt A pc t =
     (case pc of
        None \<Rightarrow> Inr t
      | Some k \<Rightarrow>
          let t' = tb_extend_end t TAG_LEN in
          rbind (chacha_encrypt A k (tb_slice t')) (\<lambda>b. Inr (tb_write t' b)))"

definition pc_decrypt :: "('k, 'z) aead_scheme \<Rightarrow> 'k option \<Rightarrow> transmission \<Rightarrow> transmission result" where
  "pc_decrypt A pc t =
     (case pc of
        None \<Rightarrow> Inr t
      | Some k \<Rightarrow>
          rbind (chacha_decrypt A k (tb_slice t)) (\<lambda>(b, _).
            Inr (tb_shrink_end (tb_write t b) TAG_LEN)))"

section \<open>The nonce\<close>

lemma sub_take: "j \<le> n \<Longrightarrow> sub i j (take n xs) = sub i j xs"
  by (simp add: sub_def min_absorb1)

lemma sub_append: "j \<le> length xs \<Longrightarrow> sub i j (xs @ ys) = sub i j xs"
  by (simp add: sub_def)

text \<open>The nonce is a function of four header fields only.\<close>

lemma make_nonce_header:
  assumes "np_ok b"
  shows "make_nonce b = Inr ((be32 (h_seq (np_header b)) @ be32 (h_dest_id (np_header b)) @
    be32 (h_src_id (np_header b)))[0 := type_byte (np_header b)])"
proof -
  let ?h = "np_header b"
  have b: "b = encode_header ?h @ np_payload b"
    using np_header_mut_id [OF assms] by (simp add: np_header_mut_def np_payload_def)
  have len: "length (encode_header ?h) = 16" by (simp add: HEAD_LENGTH_def)
  have "make_nonce (encode_header h @ p) =
    Inr ((be32 (h_seq h) @ be32 (h_dest_id h) @ be32 (h_src_id h))[0 := type_byte h])" for h p
    by (simp add: make_nonce_def HEAD_LENGTH_def sub_def encode_header_def be32_def Let_def)
  from this [of ?h "np_payload b"] show ?thesis
    unfolding b [symmetric] .
qed

lemma make_nonce_short: "\<not> np_ok b \<Longrightarrow> make_nonce b = Inl InvalidInput"
  by (simp add: make_nonce_def np_ok_def)

lemma make_nonce_cong:
  assumes "np_ok a" "np_ok b" "type_byte (np_header a) = type_byte (np_header b)"
    "np_seq a = np_seq b" "np_src_id a = np_src_id b" "np_dest_id a = np_dest_id b"
  shows "make_nonce a = make_nonce b"
  using assms by (simp add: make_nonce_header np_defs)

lemma be32_inject: "be32 x = be32 y \<longleftrightarrow> x = y"
  by (metis of_be32_be32)

lemma be32_tail:
  "tl (be32 x) = tl (be32 y) \<longleftrightarrow> take_bit 24 x = take_bit 24 y"
proof
  assume l: "tl (be32 x) = tl (be32 y)"
  show "take_bit 24 x = take_bit 24 y"
  proof (rule bit_word_eqI)
    fix n :: nat
    assume n: "n < LENGTH(32)"
    have b: "bit (ucast (drop_bit k x) :: u8) i = bit (ucast (drop_bit k y) :: u8) i"
      if "k \<in> {0, 8, 16}" for k i
      using l that by (auto simp: be32_def)
    show "bit (take_bit 24 x) n = bit (take_bit 24 y) n"
      using n b [of 0 n] b [of 8 "n - 8"] b [of 16 "n - 16"]
      by (cases "n < 8"; cases "n < 16"; cases "n < 24") (auto simp: bit_simps)
  qed
next
  assume t: "take_bit 24 x = take_bit 24 y"
  then have b: "bit x n = bit y n" if "n < 24" for n
    using that by (metis bit_take_bit_iff)
  show "tl (be32 x) = tl (be32 y)"
    unfolding be32_def list.sel list.inject
    by (intro conjI refl; rule bit_word_eqI) (auto simp: bit_simps b)
qed

lemma chacha_nonce_ok: "np_ok b \<Longrightarrow> \<exists>n. make_nonce b = Inr n"
  by (simp add: make_nonce_header)

section \<open>Encryption and decryption\<close>

lemma np_ok_split: "np_ok b \<longleftrightarrow> (\<exists>h p. b = h @ p \<and> length h = HEAD_LENGTH)"
  by (metis (no_types, lifting) append_take_drop_id le_add1 length_append length_take min_absorb2
      np_ok_def)

lemma make_nonce_append: "length h = HEAD_LENGTH \<Longrightarrow> make_nonce (h @ p) = make_nonce h"
  by (simp add: make_nonce_header np_ok_def np_header_def)

text \<open>Sealing \<open>head @ plaintext @ room\<close> writes ciphertext and tag behind the head.\<close>

lemma chacha_encrypt_split:
  assumes "aead_correct A" "length h = HEAD_LENGTH" "length room = TAG_LEN"
    and "chacha_encrypt A k (h @ p @ room) = Inr b'"
  obtains n c t where "make_nonce h = Inr n" "aead_seal A k n p = Some (c, t)"
    "length c = length p" "length t = TAG_LEN" "b' = h @ c @ t"
proof -
  have pl: "np_payload (h @ p @ room) = p @ room"
    using assms(2) by (simp add: np_payload_def)
  from assms(2-4) obtain n c t where n: "make_nonce h = Inr n" and s: "aead_seal A k n p = Some (c, t)"
    and b': "b' = splice (HEAD_LENGTH + length p) t (splice HEAD_LENGTH c (h @ p @ room))"
    by (auto simp: chacha_encrypt_def rbind_eq_Inr pl make_nonce_append Let_def
        split: if_splits option.splits)
  have len: "length c = length p" "length t = TAG_LEN"
    using assms(1) s unfolding aead_correct_def by blast+
  have "splice HEAD_LENGTH c (h @ p @ room) = h @ c @ room"
    using assms(2) len by (simp add: splice_def)
  moreover have "splice (HEAD_LENGTH + length p) t (h @ c @ room) = h @ c @ t"
    using assms(2,3) len by (simp add: splice_def)
  ultimately have "b' = h @ c @ t" using b' by simp
  with n s len that show ?thesis by blast
qed

lemma chacha_decrypt_split:
  assumes "aead_correct A" "length h = HEAD_LENGTH" "make_nonce h = Inr n"
    and "aead_seal A k n p = Some (c, t)"
  shows "chacha_decrypt A k (h @ c @ t) = Inr (h @ p @ t, length p)"
proof -
  have "length c = length p" "aead_open A k n (c @ t) = Some p"
    using assms(1,4) unfolding aead_correct_def by blast+
  with assms(2,3) show ?thesis
    by (simp add: chacha_decrypt_def make_nonce_append np_payload_def splice_def)
qed

lemma tb_slice_extend_room:
  assumes "tb_wf t"
  obtains room where "tb_slice (tb_extend_end t n) = tb_slice t @ room" "length room = n"
  using tb_slice_extend [OF assms, of n] by (metis length_resize_list)

text \<open>What \<open>encrypt_in_place\<close> leaves in the buffer.\<close>

lemma pc_encrypt_slice:
  assumes "aead_correct A" "tb_wf t" "tb_slice t = h @ p" "length h = HEAD_LENGTH"
    and "pc_encrypt A (Some k) t = Inr t'"
  obtains n c tag where "make_nonce h = Inr n" "aead_seal A k n p = Some (c, tag)"
    "length c = length p" "length tag = TAG_LEN" "tb_slice t' = h @ c @ tag" "tb_wf t'"
proof -
  obtain room where room: "tb_slice (tb_extend_end t TAG_LEN) = tb_slice t @ room"
    "length room = TAG_LEN"
    using assms(2) by (rule tb_slice_extend_room)
  from assms(3,5) room(1) obtain b where b: "chacha_encrypt A k (h @ p @ room) = Inr b"
    and t': "t' = tb_write (tb_extend_end t TAG_LEN) b"
    by (auto simp: pc_encrypt_def rbind_eq_Inr Let_def)
  obtain n c tag where *: "make_nonce h = Inr n" "aead_seal A k n p = Some (c, tag)"
    "length c = length p" "length tag = TAG_LEN" "b = h @ c @ tag"
    using assms(1,4) room(2) b by (rule chacha_encrypt_split)
  have wf: "tb_wf (tb_extend_end t TAG_LEN)" using assms(2) by (rule tb_wf_extend)
  have "length b = tb_len (tb_extend_end t TAG_LEN)"
    using * room assms(3) by (simp flip: length_tb_slice [OF wf])
  with * that wf show ?thesis
    unfolding t' by (metis tb_slice_write tb_wf_write)
qed

lemma pc_decrypt_slice:
  assumes "aead_correct A" "tb_wf t" "tb_slice t = h @ c @ tag" "length h = HEAD_LENGTH"
    and "make_nonce h = Inr n" "aead_seal A k n p = Some (c, tag)"
  obtains t' where "pc_decrypt A (Some k) t = Inr t'" "tb_slice t' = h @ p" "tb_wf t'"
proof -
  have len: "length c = length p" "length tag = TAG_LEN"
    using assms(1,6) unfolding aead_correct_def by blast+
  let ?w = "tb_write t (h @ p @ tag)"
  have w: "tb_slice ?w = h @ p @ tag" "tb_wf ?w"
    using assms(2,3) len by (simp_all add: tb_slice_write tb_wf_write flip: length_tb_slice)
  have "pc_decrypt A (Some k) t = Inr (tb_shrink_end ?w TAG_LEN)"
    using chacha_decrypt_split [OF assms(1,4,5,6)] assms(3) by (simp add: pc_decrypt_def)
  moreover have "tb_slice (tb_shrink_end ?w TAG_LEN) = h @ p"
    using w len by (simp add: tb_slice_shrink flip: length_tb_slice)
  moreover have "tb_wf (tb_shrink_end ?w TAG_LEN)" using w(2) by (rule tb_wf_shrink)
  ultimately show ?thesis by (rule that)
qed

text \<open>Both with or without a key: the head is kept, and a receiver with the key gets the payload.\<close>

lemma pc_encrypt_head:
  assumes "aead_correct A" "tb_wf t" "np_ok (tb_slice t)" "pc_encrypt A pc t = Inr t1"
  shows "np_head (tb_slice t1) = np_head (tb_slice t)" "tb_wf t1" "np_ok (tb_slice t1)"
proof -
  have hp: "tb_slice t = np_head (tb_slice t) @ np_payload (tb_slice t)" "length (np_head (tb_slice t)) = HEAD_LENGTH"
    using assms(3) by (simp_all add: np_head_payload) (simp add: np_head_def np_ok_def)
  have "np_head (tb_slice t1) = np_head (tb_slice t) \<and> tb_wf t1 \<and> np_ok (tb_slice t1)"
  proof (cases pc)
    case None
    then show ?thesis using assms by (simp add: pc_encrypt_def)
  next
    case (Some k)
    from pc_encrypt_slice [OF assms(1,2) hp assms(4) [unfolded Some]] hp(2) show ?thesis
      by (metis append_eq_conv_conj le_add1 length_append np_head_def np_ok_def)
  qed
  then show "np_head (tb_slice t1) = np_head (tb_slice t)" "tb_wf t1" "np_ok (tb_slice t1)" by auto
qed

lemma pc_decrypt_arrived:
  assumes "aead_correct A" "tb_wf t" "np_ok (tb_slice t)" "pc_encrypt A pc t = Inr t1"
    and "tb_wf r" "tb_slice r = h' @ np_payload (tb_slice t1)" "length h' = HEAD_LENGTH"
    and "make_nonce h' = make_nonce (np_head (tb_slice t))"
  obtains r' where "pc_decrypt A pc r = Inr r'" "tb_slice r' = h' @ np_payload (tb_slice t)" "tb_wf r'"
proof (cases pc)
  case None
  with assms that show ?thesis by (simp add: pc_decrypt_def pc_encrypt_def)
next
  case (Some k)
  have hp: "tb_slice t = np_head (tb_slice t) @ np_payload (tb_slice t)" "length (np_head (tb_slice t)) = HEAD_LENGTH"
    using assms(3) by (simp_all add: np_head_payload) (simp add: np_head_def np_ok_def)
  obtain n c tag where e: "make_nonce (np_head (tb_slice t)) = Inr n" "aead_seal A k n (np_payload (tb_slice t)) = Some (c, tag)"
    "tb_slice t1 = np_head (tb_slice t) @ c @ tag"
    using pc_encrypt_slice [OF assms(1,2) hp assms(4) [unfolded Some]] by metis
  have "tb_slice r = h' @ c @ tag" using assms(6) hp(2) by (simp add: e(3) np_payload_def)
  with pc_decrypt_slice [OF assms(1,5) this assms(7) _ e(2)] assms(8) e(1) that show ?thesis
    unfolding Some by metis
qed

section \<open>Properties\<close>

text \<open>
  C4. Round trip over the network: a packet encrypted by one peer and decrypted by another that
  has the same key (or both without one), in whatever buffer it arrives and with whatever TTL,
  flags and reserved byte it arrives, gives the sent payload behind the arrived header.
  Encryption lengthens a packet by exactly \<open>encrypt_reserve\<close>.
\<close>

theorem crypto_roundtrip:
  assumes "aead_correct A" and "tb_wf t" and "np_ok (tb_slice t)"
    and "pc_encrypt A pc t = Inr t1"
    and "tb_wf r" and "tb_slice r = np_header_mut (\<lambda>h. h\<lparr>ttl_byte := x, flags_byte := y, reserved_byte := z\<rparr>) (tb_slice t1)"
  shows "\<exists>r'. pc_decrypt A pc r = Inr r' \<and> tb_wf r' \<and>
    tb_slice r' = np_head (tb_slice r) @ np_payload (tb_slice t) \<and>
    np_header (tb_slice t1) = np_header (tb_slice t) \<and>
    tb_len t1 = tb_len t + encrypt_reserve pc"
proof (cases pc)
  case None
  then show ?thesis using assms(4,5,6)
    by (simp add: pc_decrypt_def pc_encrypt_def encrypt_reserve_def np_head_def np_header_mut_def np_payload_def)
next
  case (Some k)
  let ?f = "\<lambda>h. h\<lparr>ttl_byte := x, flags_byte := y, reserved_byte := z\<rparr>"
  define h p where "h = np_head (tb_slice t)" and "p = np_payload (tb_slice t)"
  have hp: "tb_slice t = h @ p" "length h = HEAD_LENGTH"
    using assms(3) by (simp add: h_def p_def np_head_payload)
      (use assms(3) in \<open>simp add: h_def np_head_def np_ok_def\<close>)
  obtain n c tag where e: "make_nonce h = Inr n" "aead_seal A k n p = Some (c, tag)"
    "length c = length p" "length tag = TAG_LEN" "tb_slice t1 = h @ c @ tag" "tb_wf t1"
    using assms(1,2) hp assms(4) [unfolded Some] by (rule pc_encrypt_slice)
  let ?h' = "encode_header (?f (np_header h))"
  have r: "tb_slice r = ?h' @ c @ tag"
    using assms(6) e(5) hp(2) by (simp add: np_header_mut_def np_header_def)
  have "make_nonce ?h' = make_nonce h"
    using hp(2) by (intro make_nonce_cong)
      (simp_all add: np_ok_def np_defs np_header_def decode_encode_header)
  with e(1) have "make_nonce ?h' = Inr n" by simp
  from pc_decrypt_slice [OF assms(1,5) r _ this e(2)]
  obtain r' where "pc_decrypt A (Some k) r = Inr r'" "tb_slice r' = ?h' @ p" "tb_wf r'"
    by auto
  moreover have "np_header (tb_slice t1) = np_header (tb_slice t)"
    using e(5) hp by (simp add: np_header_def)
  moreover have "tb_len t1 = tb_len t + TAG_LEN"
    using e hp by (simp flip: length_tb_slice [OF assms(2)] length_tb_slice [OF e(6)])
  ultimately show ?thesis
    using r by (auto simp: Some encrypt_reserve_def np_head_def p_def)
qed

definition toy_aead :: "bytes aead" where
  "toy_aead = \<lparr>sha256 = (\<lambda>b. take 32 (b @ replicate 32 0)), aead_key = (\<lambda>b. b),
     aead_seal = (\<lambda>k n p. Some (map (\<lambda>x. x XOR 0x5A) p, replicate 16 (hd n))),
     aead_open = (\<lambda>k n c. if length c < 16 \<or> drop (length c - 16) c \<noteq> replicate 16 (hd n) then None
        else Some (map (\<lambda>x. x XOR 0x5A) (take (length c - 16) c)))\<rparr>"

lemma toy_aead_correct: "aead_correct toy_aead"
  by (auto simp: aead_correct_def toy_aead_def TAG_LEN_def comp_def xor.assoc)

theorem crypto_roundtrip_witness:
  "\<exists>t1. pc_encrypt toy_aead (Some [1]) (tb_from (replicate 18 7)) = Inr t1 \<and>
    (\<exists>r'. pc_decrypt toy_aead (Some [1])
        (tb_from (np_header_mut (\<lambda>h. h\<lparr>ttl_byte := 1, flags_byte := 2, reserved_byte := 3\<rparr>) (tb_slice t1))) = Inr r' \<and>
      tb_slice r' = [7, 1, 2, 3] @ replicate 14 7)"
proof -
  let ?t = "tb_from (replicate 18 7)"
  have "\<exists>t1. pc_encrypt toy_aead (Some [1]) ?t = Inr t1"
    by (simp add: pc_encrypt_def chacha_encrypt_def make_nonce_def toy_aead_def TAG_LEN_def
        HEAD_LENGTH_def tb_extend_end_def tb_from_def tb_slice_def resize_list_def Let_def np_payload_def)
  then obtain t1 where t1: "pc_encrypt toy_aead (Some [1]) ?t = Inr t1" ..
  let ?r = "np_header_mut (\<lambda>h. h\<lparr>ttl_byte := 1, flags_byte := 2, reserved_byte := 3\<rparr>) (tb_slice t1)"
  have ok: "np_ok (tb_slice ?t)" by (simp add: np_ok_def HEAD_LENGTH_def)
  from crypto_roundtrip [OF toy_aead_correct tb_wf_from ok t1 tb_wf_from [of ?r] tb_slice_from]
  obtain r' where r': "pc_decrypt toy_aead (Some [1]) (tb_from ?r) = Inr r'"
    "tb_slice r' = np_head ?r @ np_payload (replicate 18 7)"
    "np_header (tb_slice t1) = np_header (replicate 18 7)"
    by auto
  have "np_head ?r = encode_header ((np_header (replicate 18 7))\<lparr>ttl_byte := 1, flags_byte := 2, reserved_byte := 3\<rparr>)"
    using r'(3) by (simp add: np_head_def np_header_mut_def)
  also have "\<dots> = [7, 1, 2, 3] @ replicate 12 7"
    by code_simp
  finally have "tb_slice r' = [7, 1, 2, 3] @ replicate 14 7"
    using r'(2) by (simp add: np_payload_def HEAD_LENGTH_def eval_nat_numeral)
  with t1 r'(1) show ?thesis by blast
qed

text \<open>
  The nonce determines the type byte, both addresses and only the low 24 bits of the
  sequence number: two packets of one pair of peers share a nonce exactly when these agree, so
  sequence numbers that differ by a multiple of \<open>2 ^ 24\<close> collide under the same key.
\<close>

lemma nonce_collision_iff:
  assumes "np_ok a" and "np_ok b"
  shows "make_nonce a = make_nonce b \<longleftrightarrow>
    type_byte (np_header a) = type_byte (np_header b) \<and>
    np_src_id a = np_src_id b \<and> np_dest_id a = np_dest_id b \<and>
    take_bit 24 (np_seq a) = take_bit 24 (np_seq b)"
proof -
  have upd: "(be32 s @ be32 d @ be32 r)[0 := x] = x # tl (be32 s) @ be32 d @ be32 r" for s d r x
    by (simp add: be32_def)
  have len: "length (tl (be32 s)) = length (tl (be32 s'))" for s s' by simp
  show ?thesis
    using assms by (auto simp: make_nonce_header np_defs upd be32_tail [symmetric] be32_inject)
qed

lemma nonce_collision_iff_witness:
  "np_ok (np_set_seq 0x01000005 (replicate 16 9)) \<and>
   make_nonce (np_set_seq 0x01000005 (replicate 16 9)) = make_nonce (np_set_seq 5 (replicate 16 9)) \<and>
   np_seq (np_set_seq 0x01000005 (replicate 16 9)) \<noteq> np_seq (np_set_seq 5 (replicate 16 9))"
proof -
  have set_ok: "np_ok (np_set_seq sq (replicate 16 9))" for sq by (simp add: np_set_seq_def)
  have "take_bit 24 (0x01000005 :: u32) = take_bit 24 5" by simp
  then show ?thesis
    using nonce_collision_iff [OF set_ok [of "0x01000005"] set_ok [of 5]] set_ok by (simp add: np_defs)
qed

end
