(* ===== verification/Packet_Compression.thy ===== *)
theory Packet_Compression
  imports Net_Packet
begin

text \<open>
  \<open>compression/mod.rs\<close> and \<open>compression/lz4_compression.rs\<close>: the optional LZ4 compression of
  a packet's payload. \<open>lz4_flex\<close> is an argument (record \<open>lz4\<close>); \<open>lz4_correct\<close> is the
  documented inverse law of its size-prepended block format.
\<close>

record lz4 =
  compress_prepend_size :: "bytes \<Rightarrow> bytes"
  decompress_size_prepended :: "bytes \<Rightarrow> bytes option"

definition lz4_correct :: "lz4 \<Rightarrow> bool" where
  "lz4_correct Z \<longleftrightarrow> (\<forall>p. decompress_size_prepended Z (compress_prepend_size Z p) = Some p)"

text \<open>\<open>LZ4Compression\<close> is its \<open>min_size\<close>; \<open>PacketCompression\<close> an optional one.\<close>

record LZ4Compression =
  min_size :: nat

definition lz4_new :: LZ4Compression where
  "lz4_new = \<lparr>min_size = 256\<rparr>"

definition lz4_compress :: "lz4 \<Rightarrow> LZ4Compression \<Rightarrow> transmission \<Rightarrow> nat \<Rightarrow> transmission result" where
  "lz4_compress Z c pkt reserve =
     (let payload = np_payload (tb_slice pkt) in
      if length payload < min_size c then Inr pkt
      else let compressed = compress_prepend_size Z payload in
      if length compressed \<ge> length payload then Inr pkt
      else
        let total_len = HEAD_LENGTH + length compressed;
            buf = tb_zeroed_size total_len reserve;
            buf = tb_map (splice 0 (np_head (tb_slice pkt))) buf;
            buf = tb_map (splice HEAD_LENGTH compressed) buf in
        rbind (tb_np_new buf) (\<lambda>packet. Inr (tb_map (np_set_compressed_flag True) packet)))"

definition lz4_decompress :: "lz4 \<Rightarrow> LZ4Compression \<Rightarrow> transmission \<Rightarrow> transmission result" where
  "lz4_decompress Z c pkt =
     (if \<not> np_is_compressed (tb_slice pkt) then Inr pkt
      else rbind (ok_or InvalidData (decompress_size_prepended Z (np_payload (tb_slice pkt)))) (\<lambda>decompressed.
        let total_len = HEAD_LENGTH + length decompressed;
            buf = tb_zeroed total_len;
            buf = tb_map (splice 0 (np_head (tb_slice pkt))) buf;
            buf = tb_map (splice HEAD_LENGTH decompressed) buf in
        rbind (tb_np_new buf) (\<lambda>packet. Inr (tb_map (np_set_compressed_flag False) packet))))"

definition packet_compression_new :: "bool \<Rightarrow> LZ4Compression option" where
  "packet_compression_new enabled = (if enabled then Some lz4_new else None)"

definition packet_compress ::
  "lz4 \<Rightarrow> LZ4Compression option \<Rightarrow> transmission \<Rightarrow> nat \<Rightarrow> transmission result" where
  "packet_compress Z pc pkt reserve =
     (case pc of Some c \<Rightarrow> lz4_compress Z c pkt reserve | None \<Rightarrow> Inr pkt)"

definition packet_decompress ::
  "lz4 \<Rightarrow> LZ4Compression option \<Rightarrow> transmission \<Rightarrow> transmission result" where
  "packet_decompress Z pc pkt =
     (case pc of Some c \<Rightarrow> lz4_decompress Z c pkt | None \<Rightarrow> Inr pkt)"

section \<open>Filling a fresh packet\<close>

text \<open>Head and body written into a zeroed buffer of the right size give the packet \<open>h @ p\<close>.\<close>

lemma fill_packet:
  assumes "length h = HEAD_LENGTH" and "tb_wf t" and "tb_len t = HEAD_LENGTH + length p"
  shows "tb_slice (tb_map (splice HEAD_LENGTH p) (tb_map (splice 0 h) t)) = h @ p"
    and "tb_wf (tb_map (splice HEAD_LENGTH p) (tb_map (splice 0 h) t))"
proof -
  let ?t1 = "tb_map (splice 0 h) t"
  have len: "length (tb_slice t) = HEAD_LENGTH + length p"
    using assms(2,3) by (simp add: length_tb_slice)
  have 1: "tb_slice ?t1 = splice 0 h (tb_slice t)" "tb_wf ?t1"
    using assms len by (simp_all add: tb_slice_map tb_wf_map)
  have fit: "length (splice HEAD_LENGTH p (tb_slice ?t1)) = length (tb_slice ?t1)"
    using assms(1) len by (simp add: 1)
  show "tb_slice (tb_map (splice HEAD_LENGTH p) ?t1) = h @ p"
    using 1 fit assms(1) len by (simp add: tb_slice_map splice_def)
  show "tb_wf (tb_map (splice HEAD_LENGTH p) ?t1)"
    using 1(2) fit by (rule tb_wf_map)
qed

text \<open>What either direction builds: the old head with the flag set, and the new body.\<close>

lemma rebuilt_packet:
  assumes "np_ok (tb_slice pkt)" and "tb_wf t" and "tb_len t = HEAD_LENGTH + length p"
    and "rbind (tb_np_new (tb_map (splice HEAD_LENGTH p) (tb_map (splice 0 (np_head (tb_slice pkt))) t)))
      (\<lambda>packet. Inr (tb_map (np_set_compressed_flag v) packet)) = Inr r"
  shows "tb_slice r = np_set_compressed_flag v (np_head (tb_slice pkt) @ p) \<and> tb_wf r"
proof -
  let ?h = "np_head (tb_slice pkt)"
  let ?u = "tb_map (splice HEAD_LENGTH p) (tb_map (splice 0 ?h) t)"
  have h: "length ?h = HEAD_LENGTH" using assms(1) by (simp add: np_head_def np_ok_def)
  note u = fill_packet [OF h assms(2,3)]
  have "r = tb_map (np_set_compressed_flag v) ?u"
    using assms(4) by (auto simp: tb_np_new_def np_new_def u h)
  moreover have "length (np_set_compressed_flag v (tb_slice ?u)) = length (tb_slice ?u)"
    using h by (simp add: np_set_compressed_flag_def length_np_header_mut np_ok_def u)
  ultimately show ?thesis using u by (simp add: tb_slice_map tb_wf_map)
qed

lemma rebuilt_packet_ok:
  assumes "np_ok (tb_slice pkt)" and "tb_wf t" and "tb_len t = HEAD_LENGTH + length p"
  shows "\<exists>r. rbind (tb_np_new (tb_map (splice HEAD_LENGTH p) (tb_map (splice 0 (np_head (tb_slice pkt))) t)))
      (\<lambda>packet. Inr (tb_map (np_set_compressed_flag v) packet)) = Inr r"
proof -
  have h: "length (np_head (tb_slice pkt)) = HEAD_LENGTH"
    using assms(1) by (simp add: np_head_def np_ok_def)
  show ?thesis
    by (simp add: tb_np_new_def np_new_def fill_packet [OF h assms(2,3)] h)
qed

lemma tb_len_zeroed [simp]: "tb_len (tb_zeroed n) = n" "tb_len (tb_zeroed_size n r) = n"
  by (simp_all add: tb_defs)

lemma np_flag_append:
  "length h = HEAD_LENGTH \<Longrightarrow> np_set_compressed_flag v (h @ p) = np_set_compressed_flag v h @ p"
  by (simp add: np_set_compressed_flag_def np_header_mut_def np_header_def)

lemma np_flag_flag:
  "np_set_compressed_flag False (np_set_compressed_flag w b) = np_set_compressed_flag False b"
  by (cases w) (simp_all add: np_set_compressed_flag_def np_header_mut_def np_header_def
      decode_encode_header h_set_flag_def or.assoc and.assoc bit.conj_disj_distrib2)

lemma np_flag_id:
  assumes "np_ok b" "\<not> np_is_compressed b"
  shows "np_set_compressed_flag False b = b"
proof -
  have "flags_byte (np_header b) AND NOT COMPRESSED = flags_byte (np_header b)"
  proof (rule u8_eqI)
    have "\<not> bit (flags_byte (np_header b) AND COMPRESSED) 7"
      using assms(2) by (simp add: np_is_compressed_def)
    then show "bit (flags_byte (np_header b) AND NOT COMPRESSED) 7 = bit (flags_byte (np_header b)) 7"
      by (simp add: COMPRESSED_def bit_simps)
  qed (simp_all add: COMPRESSED_def bit_simps)
  then have "np_set_compressed_flag False b = np_header_mut (\<lambda>h. h) b"
    by (simp add: np_set_compressed_flag_def np_header_mut_def h_set_flag_def)
  with assms(1) show ?thesis by (simp add: np_header_mut_id)
qed

section \<open>What compression and decompression build\<close>

lemma compress_cases:
  assumes "np_ok (tb_slice t)" and "packet_compress Z pc t reserve = Inr t1"
  obtains (same) "t1 = t"
  | (smaller) "length (compress_prepend_size Z (np_payload (tb_slice t))) < length (np_payload (tb_slice t))"
      "tb_slice t1 = np_set_compressed_flag True (np_head (tb_slice t)) @ compress_prepend_size Z (np_payload (tb_slice t))"
      "tb_wf t1"
proof (cases "t1 = t")
  case False
  let ?h = "np_head (tb_slice t)" and ?p = "np_payload (tb_slice t)"
  let ?c = "compress_prepend_size Z ?p"
  have h: "length ?h = HEAD_LENGTH" using assms(1) by (simp add: np_head_def np_ok_def)
  from False assms(2) have short: "length ?c < length ?p"
    and t1: "rbind (tb_np_new (tb_map (splice HEAD_LENGTH ?c) (tb_map (splice 0 ?h)
        (tb_zeroed_size (HEAD_LENGTH + length ?c) reserve))))
      (\<lambda>packet. Inr (tb_map (np_set_compressed_flag True) packet)) = Inr t1"
    by (auto simp: packet_compress_def lz4_compress_def Let_def split: option.splits if_splits)
  from rebuilt_packet [OF assms(1) tb_wf_zeroed_size _ t1]
  have "tb_slice t1 = np_set_compressed_flag True ?h @ ?c" "tb_wf t1"
    by (simp_all add: np_flag_append h)
  with short smaller show thesis by blast
qed (rule same)

lemma decompress_marked:
  assumes "np_ok (tb_slice r)" and "np_is_compressed (tb_slice r)"
    and "decompress_size_prepended Z (np_payload (tb_slice r)) = Some p"
  obtains r' where "packet_decompress Z (Some c) r = Inr r'"
    "tb_slice r' = np_set_compressed_flag False (np_head (tb_slice r)) @ p" "tb_wf r'"
proof -
  have h: "length (np_head (tb_slice r)) = HEAD_LENGTH" using assms(1) by (simp add: np_head_def np_ok_def)
  from rebuilt_packet_ok [OF assms(1) tb_wf_zeroed, where p = p and v = False]
  obtain r' where r': "rbind (tb_np_new (tb_map (splice HEAD_LENGTH p) (tb_map (splice 0 (np_head (tb_slice r)))
        (tb_zeroed (HEAD_LENGTH + length p)))))
      (\<lambda>packet. Inr (tb_map (np_set_compressed_flag False) packet)) = Inr r'"
    by auto
  then have "packet_decompress Z (Some c) r = Inr r'"
    using assms(2,3) by (simp add: packet_decompress_def lz4_decompress_def Let_def)
  with that rebuilt_packet [OF assms(1) tb_wf_zeroed _ r'] show ?thesis
    by (simp add: np_flag_append h)
qed

lemma decompress_unmarked: "\<not> np_is_compressed (tb_slice r) \<Longrightarrow> packet_decompress Z (Some c) r = Inr r"
  by (simp add: packet_decompress_def lz4_decompress_def)

lemma length_np_set_compressed [simp]: "np_ok b \<Longrightarrow> length (np_set_compressed_flag v b) = length b"
  by (simp add: np_set_compressed_flag_def length_np_header_mut)

lemma np_is_compressed_set [simp]: "np_is_compressed (np_set_compressed_flag v b) = v"
  by (simp add: np_is_compressed_def np_set_compressed_flag_def h_flags_set)

section \<open>Properties\<close>

text \<open>
  C5. Round trip: whatever \<open>compress\<close> makes of a packet, as is, because it is short or does not
  shrink, or compressed, a receiver with compression enabled gets the packet back byte for
  byte; the result never is longer than the packet, and it is marked exactly when it shrank.
\<close>

theorem compression_roundtrip:
  assumes "lz4_correct Z" and "tb_wf t" and "np_ok (tb_slice t)"
    and "\<not> np_is_compressed (tb_slice t)"
    and "packet_compress Z pc t reserve = Inr t1"
    and "tb_wf r" and "tb_slice r = tb_slice t1"
  shows "\<exists>r'. packet_decompress Z (Some c) r = Inr r' \<and> tb_slice r' = tb_slice t \<and>
    length (tb_slice t1) \<le> length (tb_slice t) \<and>
    (np_is_compressed (tb_slice t1) \<longleftrightarrow> length (tb_slice t1) < length (tb_slice t))"
  using assms(3,5)
proof (cases rule: compress_cases)
  case same
  then show ?thesis using assms(4,7) by (simp add: decompress_unmarked)
next
  case smaller
  let ?h = "np_head (tb_slice t)" and ?p = "np_payload (tb_slice t)"
  have h: "length ?h = HEAD_LENGTH" "np_ok ?h" using assms(3) by (simp_all add: np_head_def np_ok_def)
  have s1: "tb_slice t1 = np_set_compressed_flag True (?h @ compress_prepend_size Z ?p)"
    using smaller(2) h(1) by (simp add: np_flag_append)
  then have okr: "np_ok (tb_slice r)" "np_is_compressed (tb_slice r)"
    by (simp_all add: assms(7)) (simp add: np_set_compressed_flag_def)
  have parts: "np_head (tb_slice r) = np_set_compressed_flag True ?h" "np_payload (tb_slice r) = compress_prepend_size Z ?p"
    using h smaller(2) by (simp_all add: assms(7) np_head_def np_payload_def)
  obtain r' where r': "packet_decompress Z (Some c) r = Inr r'"
    "tb_slice r' = np_set_compressed_flag False (np_head (tb_slice r)) @ ?p"
    using decompress_marked [OF okr] assms(1) parts(2) by (metis lz4_correct_def)
  have "tb_slice r' = tb_slice t"
    using np_flag_id [OF assms(3,4)] h(1) np_flag_append [OF h(1), of False ?p]
    by (simp add: r' parts np_flag_flag np_head_payload)
  moreover have "length (tb_slice t1) < length (tb_slice t)"
    using smaller(1) h np_head_payload [of "tb_slice t"]
    by (metis add_less_cancel_left length_append length_np_set_compressed smaller(2))
  ultimately show ?thesis using r'(1) okr(2) by (simp add: assms(7))
qed

definition toy_lz4 :: lz4 where
  "toy_lz4 = \<lparr>compress_prepend_size = (\<lambda>p. if p = replicate 256 1 then [0] else 1 # p),
     decompress_size_prepended = (\<lambda>c. case c of [] \<Rightarrow> None | x # p \<Rightarrow>
        if x = 0 then Some (replicate 256 1) else Some p)\<rparr>"

lemma toy_lz4_correct: "lz4_correct toy_lz4"
  by (simp add: lz4_correct_def toy_lz4_def)

theorem compression_roundtrip_witness:
  "\<exists>t1 r'. packet_compress toy_lz4 (packet_compression_new True) (tb_from (replicate 16 0 @ replicate 256 1)) 16 = Inr t1 \<and>
     length (tb_slice t1) = 17 \<and>
     packet_decompress toy_lz4 (Some lz4_new) t1 = Inr r' \<and>
     tb_slice r' = replicate 16 0 @ replicate 256 1"
proof -
  let ?b = "replicate 16 0 @ replicate 256 1" let ?t = "tb_from ?b"
  have ok: "np_ok (tb_slice ?t)" by (simp add: np_ok_def HEAD_LENGTH_def)
  have nc: "\<not> np_is_compressed (tb_slice ?t)"
    by (simp add: np_is_compressed_def np_header_def decode_header_def HEAD_LENGTH_def nth_append)
  have p: "np_payload ?b = replicate 256 1"
    by (simp add: np_payload_def HEAD_LENGTH_def)
  from rebuilt_packet_ok [OF ok tb_wf_zeroed_size, where p = "[0]" and v = True and r1 = 16]
  obtain t1 where t1': "rbind (tb_np_new (tb_map (splice HEAD_LENGTH [0]) (tb_map (splice 0 (np_head (tb_slice ?t)))
        (tb_zeroed_size (HEAD_LENGTH + length [0::u8]) 16))))
      (\<lambda>packet. Inr (tb_map (np_set_compressed_flag True) packet)) = Inr t1"
    by auto
  then have t1: "packet_compress toy_lz4 (packet_compression_new True) ?t 16 = Inr t1"
    by (simp add: packet_compress_def packet_compression_new_def lz4_compress_def p toy_lz4_def
        lz4_new_def Let_def)
  from rebuilt_packet [OF ok tb_wf_zeroed_size _ t1'] have wf: "tb_wf t1"
    and s1: "tb_slice t1 = np_set_compressed_flag True (np_head (tb_slice ?t) @ [0])"
    by auto
  have len: "length (tb_slice t1) = 17"
    unfolding s1 np_set_compressed_flag_def
    by (subst length_np_header_mut) (simp_all add: np_ok_def np_head_def HEAD_LENGTH_def)
  from compression_roundtrip [OF toy_lz4_correct tb_wf_from ok nc t1 wf refl, of lz4_new] t1 len
  show ?thesis by auto
qed

end
