(* ===== verification/Route_Table.thy ===== *)
theory Route_Table
  imports VNT_Prelude
begin

text \<open>
  \<open>tunnel_core/p2p/route_table.rs\<close>: the routes of every peer, ordered by round-trip time, the
  time each route was last confirmed, and the peer that owns a route key.

  \<open>RouteKey\<close> is a type parameter and \<open>DEFAULT_RTT\<close> (a constant of \<open>rust_p2p_core\<close>) an
  argument \<open>d\<close>; \<open>Instant::now()\<close> is the argument \<open>now\<close>. The two bubble loops of \<open>add_route\<close>
  are recursive functions on the index. \<open>remove_oldest_route\<close> takes its locks in two stages;
  \<open>expire_scan\<close> and \<open>expire_apply\<close> are the stages, and the step relation \<open>rt_step\<close> lets every
  other operation run between them.
\<close>

section \<open>State\<close>

record 'k Route =
  route_key :: 'k
  metric :: u8
  rtt :: u32

record 'k RouteTable =
  route_table :: "(ipv4, 'k Route list) hashmap"
  route_key_time :: "(ipv4 \<times> 'k, instant) hashmap"
  route_key_owner :: "('k, ipv4) hashmap"

definition route_from :: "'k \<Rightarrow> u8 \<Rightarrow> u32 \<Rightarrow> 'k Route" where
  "route_from k m r = \<lparr>route_key = k, metric = m, rtt = r\<rparr>"

definition from_default_rt :: "u32 \<Rightarrow> 'k \<Rightarrow> u8 \<Rightarrow> 'k Route" where
  "from_default_rt d k m = \<lparr>route_key = k, metric = m, rtt = d\<rparr>"

definition is_direct :: "'k Route \<Rightarrow> bool" where
  "is_direct r \<longleftrightarrow> metric r = 1"

definition rt_new :: "'k RouteTable" where
  "rt_new = \<lparr>route_table = [], route_key_time = [], route_key_owner = []\<rparr>"

section \<open>Queries\<close>

definition get_by_id :: "'k RouteTable \<Rightarrow> ipv4 \<Rightarrow> 'k Route option" where
  "get_by_id s ip =
     (case hm_get (route_table s) ip of
        None \<Rightarrow> None
      | Some l \<Rightarrow> (case l of [] \<Rightarrow> None | r # _ \<Rightarrow> Some r))"

definition get_route_by_id :: "'k RouteTable \<Rightarrow> ipv4 \<Rightarrow> 'k Route result" where
  "get_route_by_id s ip = ok_or OtherError (get_by_id s ip)"

definition rt_exists :: "'k RouteTable \<Rightarrow> ipv4 \<Rightarrow> bool" where
  "rt_exists s ip \<longleftrightarrow> get_by_id s ip \<noteq> None"

definition need_punch :: "'k RouteTable \<Rightarrow> ipv4 \<Rightarrow> bool" where
  "need_punch s ip =
     (case hm_get (route_table s) ip of
        None \<Rightarrow> True
      | Some l \<Rightarrow> \<not> list_ex is_direct l)"

definition p2p_num :: "'k RouteTable \<Rightarrow> ipv4 \<Rightarrow> nat" where
  "p2p_num s ip =
     (case hm_get (route_table s) ip of
        None \<Rightarrow> 0
      | Some l \<Rightarrow> length (filter is_direct l))"

definition get_id_by_route_key :: "'k RouteTable \<Rightarrow> 'k \<Rightarrow> ipv4 option" where
  "get_id_by_route_key s k = hm_get (route_key_owner s) k"

section \<open>Updates\<close>

definition entry_list :: "(ipv4, 'k Route list) hashmap \<Rightarrow> ipv4 \<Rightarrow> 'k Route list" where
  "entry_list tb ip = (case hm_get tb ip of None \<Rightarrow> [] | Some l \<Rightarrow> l)"

definition add_owner_route :: "u32 \<Rightarrow> instant \<Rightarrow> ipv4 \<Rightarrow> 'k \<Rightarrow> 'k RouteTable \<Rightarrow> 'k RouteTable" where
  "add_owner_route d now ip key s =
     (let route = from_default_rt d key 1;
          l = entry_list (route_table s) ip in
      s\<lparr>route_key_owner := hm_put key ip (route_key_owner s),
        route_key_time := hm_put (ip, key) now (route_key_time s),
        route_table := hm_put ip
          (if list_ex (\<lambda>v. route_key v = key) l then l else l @ [route]) (route_table s)\<rparr>)"

definition swap :: "nat \<Rightarrow> nat \<Rightarrow> 'a list \<Rightarrow> 'a list" where
  "swap i j xs = xs[i := xs ! j, j := xs ! i]"

fun bubble_up :: "nat \<Rightarrow> 'k Route list \<Rightarrow> nat \<times> 'k Route list" where
  "bubble_up i xs =
     (if i > 0 \<and> rtt (xs ! i) < rtt (xs ! (i - 1))
      then bubble_up (i - 1) (swap i (i - 1) xs) else (i, xs))"

function bubble_down :: "nat \<Rightarrow> 'k Route list \<Rightarrow> 'k Route list" where
  "bubble_down i xs =
     (if i + 1 < length xs \<and> rtt (xs ! i) > rtt (xs ! (i + 1))
      then bubble_down (i + 1) (swap i (i + 1) xs) else xs)"
  by pat_completeness auto
termination
  by (relation "measure (\<lambda>(i, xs). length xs - i)") (auto simp: swap_def)

declare bubble_up.simps [simp del] bubble_down.simps [simp del]

fun position :: "('a \<Rightarrow> bool) \<Rightarrow> 'a list \<Rightarrow> nat option" where
  "position P [] = None"
| "position P (x # xs) = (if P x then Some 0 else map_option Suc (position P xs))"

text \<open>The scan for the insertion point: the first route with a larger round-trip time.\<close>

fun insert_pos :: "'k Route \<Rightarrow> 'k Route list \<Rightarrow> nat" where
  "insert_pos route [] = 0"
| "insert_pos route (r # rs) = (if rtt route < rtt r then 0 else Suc (insert_pos route rs))"

definition place_route :: "'k Route \<Rightarrow> 'k Route list \<Rightarrow> 'k Route list" where
  "place_route route l =
     (case position (\<lambda>v. route_key v = route_key route) l of
        Some idx \<Rightarrow> (case bubble_up idx (l[idx := route]) of (i, l') \<Rightarrow> bubble_down i l')
      | None \<Rightarrow>
          let pos = insert_pos route l in take pos l @ route # drop pos l)"

definition add_route :: "instant \<Rightarrow> ipv4 \<Rightarrow> 'k Route \<Rightarrow> 'k RouteTable \<Rightarrow> 'k RouteTable" where
  "add_route now ip route s =
     (let key = route_key route in
      if \<not> is_direct route \<and> hm_get (route_table s) ip = None then s
      else
        s\<lparr>route_key_owner :=
            (if is_direct route \<and> hm_get (route_key_owner s) key = None
             then hm_put key ip (route_key_owner s) else route_key_owner s),
          route_key_time := hm_put (ip, key) now (route_key_time s),
          route_table := hm_put ip (place_route route (entry_list (route_table s) ip))
            (route_table s)\<rparr>)"

definition add_route_if_absent :: "instant \<Rightarrow> ipv4 \<Rightarrow> 'k Route \<Rightarrow> 'k RouteTable \<Rightarrow> 'k RouteTable" where
  "add_route_if_absent now ip route s =
     (if hm_get (route_table s) ip \<noteq> None then s else add_route now ip route s)"

text \<open>Removing one route from the table and the owner map, as both removals do.\<close>

definition drop_route :: "ipv4 \<times> 'k \<Rightarrow> 'k RouteTable \<Rightarrow> 'k RouteTable" where
  "drop_route = (\<lambda>(ip, key) s.
     s\<lparr>route_table :=
         (case hm_get (route_table s) ip of
            None \<Rightarrow> route_table s
          | Some l \<Rightarrow>
              let l' = filter (\<lambda>r. route_key r \<noteq> key) l in
              if l' = [] then hm_del ip (route_table s) else hm_put ip l' (route_table s)),
       route_key_owner :=
         (if hm_get (route_key_owner s) key = Some ip
          then hm_del key (route_key_owner s) else route_key_owner s)\<rparr>)"

definition remove_route :: "ipv4 \<Rightarrow> 'k \<Rightarrow> 'k RouteTable \<Rightarrow> 'k RouteTable" where
  "remove_route ip key s =
     (let s = drop_route (ip, key) s in s\<lparr>route_key_time := hm_del (ip, key) (route_key_time s)\<rparr>)"

definition expire_scan :: "instant \<Rightarrow> 'k RouteTable \<Rightarrow> (ipv4 \<times> 'k) list \<times> 'k RouteTable" where
  "expire_scan expired_time s =
     (map fst (filter (\<lambda>(k, t). t \<le> expired_time) (route_key_time s)),
      s\<lparr>route_key_time := filter (\<lambda>(k, t). \<not> t \<le> expired_time) (route_key_time s)\<rparr>)"

definition expire_apply :: "(ipv4 \<times> 'k) list \<Rightarrow> 'k RouteTable \<Rightarrow> 'k RouteTable" where
  "expire_apply expired_keys s = fold drop_route expired_keys s"

definition remove_oldest_route :: "instant \<Rightarrow> 'k RouteTable \<Rightarrow> 'k RouteTable" where
  "remove_oldest_route expired_time s =
     (let (expired_keys, s') = expire_scan expired_time s in
      if expired_keys = [] then s' else expire_apply expired_keys s')"

section \<open>The bubble loops\<close>

abbreviation rtt_sorted :: "'k Route list \<Rightarrow> bool" where
  "rtt_sorted l \<equiv> sorted (map rtt l)"

lemma swap_adjacent: "swap (Suc (length ys)) (length ys) (ys @ y # x # zs) = ys @ x # y # zs"
  "swap (length ys) (Suc (length ys)) (ys @ x # y # zs) = ys @ y # x # zs"
  by (simp_all add: swap_def list_update_append nth_append)

lemma bubble_up_split:
  "\<exists>ys1 ys2. bubble_up (length ys) (ys @ x # zs) = (length ys1, ys1 @ x # ys2 @ zs) \<and>
     ys = ys1 @ ys2 \<and> (ys2 \<noteq> [] \<longrightarrow> rtt x < rtt (hd ys2)) \<and> (ys1 \<noteq> [] \<longrightarrow> rtt (last ys1) \<le> rtt x)"
proof (induction ys arbitrary: zs rule: rev_induct)
  case Nil
  then show ?case by (subst bubble_up.simps) auto
next
  case (snoc y ys)
  show ?case
  proof (cases "rtt x < rtt y")
    case True
    then have step: "bubble_up (length (ys @ [y])) ((ys @ [y]) @ x # zs) =
        bubble_up (length ys) (ys @ x # (y # zs))"
      by (subst bubble_up.simps) (simp add: nth_append swap_adjacent)
    from snoc.IH [of "y # zs"] obtain ys1 ys2 where
      "bubble_up (length ys) (ys @ x # (y # zs)) = (length ys1, ys1 @ x # ys2 @ (y # zs))"
      "ys = ys1 @ ys2" "ys2 \<noteq> [] \<longrightarrow> rtt x < rtt (hd ys2)" "ys1 \<noteq> [] \<longrightarrow> rtt (last ys1) \<le> rtt x"
      by blast
    with step True show ?thesis
      by (intro exI [of _ ys1] exI [of _ "ys2 @ [y]"]) (auto simp: hd_append)
  next
    case False
    then show ?thesis
      by (intro exI [of _ "ys @ [y]"] exI [of _ "[]"]) (subst bubble_up.simps, auto simp: nth_append)
  qed
qed

lemma bubble_down_split:
  "\<exists>zs1 zs2. bubble_down (length ys) (ys @ x # zs) = ys @ zs1 @ x # zs2 \<and>
     zs = zs1 @ zs2 \<and> (zs1 \<noteq> [] \<longrightarrow> rtt (last zs1) < rtt x) \<and> (zs2 \<noteq> [] \<longrightarrow> rtt x \<le> rtt (hd zs2))"
proof (induction zs arbitrary: ys)
  case Nil
  then show ?case by (subst bubble_down.simps) auto
next
  case (Cons z zs)
  show ?case
  proof (cases "rtt z < rtt x")
    case True
    then have step: "bubble_down (length ys) (ys @ x # z # zs) =
        bubble_down (length (ys @ [z])) ((ys @ [z]) @ x # zs)"
      by (subst bubble_down.simps) (simp add: nth_append swap_adjacent)
    from Cons.IH [of "ys @ [z]"] obtain zs1 zs2 where
      "bubble_down (length (ys @ [z])) ((ys @ [z]) @ x # zs) = (ys @ [z]) @ zs1 @ x # zs2"
      "zs = zs1 @ zs2" "zs1 \<noteq> [] \<longrightarrow> rtt (last zs1) < rtt x" "zs2 \<noteq> [] \<longrightarrow> rtt x \<le> rtt (hd zs2)"
      by blast
    with step True show ?thesis
      by (intro exI [of _ "z # zs1"] exI [of _ zs2]) auto
  next
    case False
    then show ?thesis
      by (intro exI [of _ "[]"] exI [of _ "z # zs"]) (subst bubble_down.simps, auto simp: nth_append)
  qed
qed

text \<open>An element fits between two parts of a sorted list when it fits its two neighbours.\<close>

lemma sorted_insert_between:
  "rtt_sorted (xs @ ys) \<Longrightarrow> (xs \<noteq> [] \<longrightarrow> rtt (last xs) \<le> rtt x) \<Longrightarrow> (ys \<noteq> [] \<longrightarrow> rtt x \<le> rtt (hd ys)) \<Longrightarrow>
   rtt_sorted (xs @ x # ys)"
  by (cases xs rule: rev_cases; cases ys) (auto simp: sorted_append intro: order_trans)

lemma position_Some:
  "position P l = Some i \<Longrightarrow> i < length l \<and> P (l ! i) \<and> (\<forall>j<i. \<not> P (l ! j))"
proof (induction l arbitrary: i)
  case (Cons x l)
  then show ?case by (auto split: if_splits simp: nth_Cons less_Suc_eq_0_disj split: nat.splits)
qed simp

lemma position_None: "position P l = None \<longleftrightarrow> (\<forall>x\<in>set l. \<not> P x)"
  by (induction l) auto

lemma insert_pos_split:
  assumes "rtt_sorted l"
  shows "rtt_sorted (take (insert_pos r l) l @ r # drop (insert_pos r l) l)"
  using assms
proof (induction l)
  case (Cons x l)
  show ?case
  proof (cases "rtt r < rtt x")
    case True
    with Cons.prems show ?thesis by (auto intro: order_trans)
  next
    case False
    with Cons have "rtt_sorted (take (insert_pos r l) l @ r # drop (insert_pos r l) l)" by simp
    moreover have "set (take (insert_pos r l) l) \<union> set (drop (insert_pos r l) l) = set l"
      by (metis append_take_drop_id set_append)
    ultimately show ?thesis using Cons.prems False by auto
  qed
qed simp

text \<open>\<open>place_route\<close> keeps a sorted list sorted, and is an insertion or a replacement.\<close>

lemma place_route_cases:
  obtains (replaced) idx ys zs where "l = ys @ l ! idx # zs" "route_key (l ! idx) = route_key r"
      "mset (place_route r l) = add_mset r (mset (ys @ zs))"
      "rtt_sorted l \<longrightarrow> rtt_sorted (place_route r l)"
  | (inserted) "\<forall>v\<in>set l. route_key v \<noteq> route_key r"
      "mset (place_route r l) = add_mset r (mset l)"
      "rtt_sorted l \<longrightarrow> rtt_sorted (place_route r l)"
proof (cases "position (\<lambda>v. route_key v = route_key r) l")
  case None
  let ?p = "insert_pos r l"
  have pr: "place_route r l = take ?p l @ r # drop ?p l"
    using None by (simp add: place_route_def Let_def)
  have "mset (place_route r l) = add_mset r (mset (take ?p l @ drop ?p l))"
    unfolding pr by (simp del: append_take_drop_id)
  then have "mset (place_route r l) = add_mset r (mset l)"
    by (simp only: append_take_drop_id)
  moreover have "rtt_sorted l \<longrightarrow> rtt_sorted (place_route r l)"
    unfolding pr using insert_pos_split by blast
  ultimately show ?thesis using None inserted by (simp add: position_None)
next
  case (Some idx)
  from position_Some [OF this] have idx: "idx < length l" "route_key (l ! idx) = route_key r" by auto
  define ys zs where "ys = take idx l" and "zs = drop (Suc idx) l"
  have l: "l = ys @ l ! idx # zs" and len: "idx = length ys"
    using idx by (simp_all add: ys_def zs_def id_take_nth_drop)
  have upd: "l[idx := r] = ys @ r # zs"
    using l len by (metis list_update_length)
  obtain ys1 ys2 where up: "bubble_up idx (l[idx := r]) = (length ys1, ys1 @ r # ys2 @ zs)"
    and ys: "ys = ys1 @ ys2" "ys2 \<noteq> [] \<longrightarrow> rtt r < rtt (hd ys2)" "ys1 \<noteq> [] \<longrightarrow> rtt (last ys1) \<le> rtt r"
    using bubble_up_split [of ys r zs] unfolding upd len [symmetric] by blast
  obtain zs1 zs2 where down: "bubble_down (length ys1) (ys1 @ r # ys2 @ zs) = ys1 @ zs1 @ r # zs2"
    and zs: "ys2 @ zs = zs1 @ zs2" "zs1 \<noteq> [] \<longrightarrow> rtt (last zs1) < rtt r" "zs2 \<noteq> [] \<longrightarrow> rtt r \<le> rtt (hd zs2)"
    using bubble_down_split [of ys1 r "ys2 @ zs"] by blast
  have pr: "place_route r l = ys1 @ zs1 @ r # zs2"
    using Some up down by (simp add: place_route_def)
  have "ys @ zs = (ys1 @ zs1) @ zs2" using ys(1) zs(1) by simp
  moreover have "rtt_sorted l \<longrightarrow> rtt_sorted (ys @ zs)"
    by (subst l) (auto simp: sorted_append)
  moreover have "ys1 @ zs1 \<noteq> [] \<longrightarrow> rtt (last (ys1 @ zs1)) \<le> rtt r"
    using ys(3) zs(2) by (auto simp: last_append less_imp_le)
  ultimately have "rtt_sorted l \<longrightarrow> rtt_sorted (place_route r l)"
    unfolding pr using sorted_insert_between [of "ys1 @ zs1" zs2 r] zs(3) by simp
  moreover have "mset (place_route r l) = add_mset r (mset (ys @ zs))"
    unfolding pr using ys(1) zs(1) by (metis mset_append union_code(1) append.assoc append_Cons mset.simps(2) union_mset_add_mset_right)
  ultimately show ?thesis using replaced l idx(2) by blast
qed

section \<open>The table invariant\<close>

text \<open>The keys of the routes listed for a peer.\<close>

definition keys_of :: "'k RouteTable \<Rightarrow> ipv4 \<Rightarrow> 'k set" where
  "keys_of s ip = route_key ` set (entry_list (route_table s) ip)"

text \<open>
  \<open>P\<close> are the keys a running \<open>remove_oldest_route\<close> has taken out of the time map and not yet
  out of the table. No list is empty or has a key twice; every listed route has a time entry
  (so that it can expire) or is about to be removed; an owner has a route with its key.
\<close>

definition rt_inv :: "(ipv4 \<times> 'k) set \<Rightarrow> 'k RouteTable \<Rightarrow> bool" where
  "rt_inv P s \<longleftrightarrow>
     hm_ok (route_table s) \<and> hm_ok (route_key_time s) \<and> hm_ok (route_key_owner s) \<and>
     (\<forall>ip l. hm_get (route_table s) ip = Some l \<longrightarrow> l \<noteq> [] \<and> distinct (map route_key l)) \<and>
     (\<forall>ip k. k \<in> keys_of s ip \<longrightarrow> hm_get (route_key_time s) (ip, k) \<noteq> None \<or> (ip, k) \<in> P) \<and>
     (\<forall>ip k. hm_get (route_key_owner s) k = Some ip \<longrightarrow> k \<in> keys_of s ip)"

lemma rt_invI:
  assumes "hm_ok (route_table s)" "hm_ok (route_key_time s)" "hm_ok (route_key_owner s)"
    and "\<And>ip l. hm_get (route_table s) ip = Some l \<Longrightarrow> l \<noteq> [] \<and> distinct (map route_key l)"
    and "\<And>ip k. k \<in> keys_of s ip \<Longrightarrow> (ip, k) \<notin> P \<Longrightarrow> hm_get (route_key_time s) (ip, k) \<noteq> None"
    and "\<And>ip k. hm_get (route_key_owner s) k = Some ip \<Longrightarrow> k \<in> keys_of s ip"
  shows "rt_inv P s"
  using assms unfolding rt_inv_def by blast

lemma rt_invD:
  assumes "rt_inv P s"
  shows rt_inv_ok: "hm_ok (route_table s)" "hm_ok (route_key_time s)" "hm_ok (route_key_owner s)"
    and rt_inv_list: "hm_get (route_table s) ip = Some l \<Longrightarrow> l \<noteq> [] \<and> distinct (map route_key l)"
    and rt_inv_time: "k \<in> keys_of s ip \<Longrightarrow> hm_get (route_key_time s) (ip, k) = None \<Longrightarrow> (ip, k) \<in> P"
    and rt_inv_owner: "hm_get (route_key_owner s) k = Some ip \<Longrightarrow> k \<in> keys_of s ip"
  using assms unfolding rt_inv_def by blast+

lemma keys_place_route: "route_key ` set (place_route r l) = insert (route_key r) (route_key ` set l)"
proof (cases rule: place_route_cases [of l r])
  case (replaced idx ys zs)
  have "set (place_route r l) = insert r (set ys \<union> set zs)"
    by (metis replaced(3) set_mset_add_mset_insert set_mset_mset set_append)
  moreover have "set l = insert (l ! idx) (set ys \<union> set zs)"
    by (subst replaced(1)) auto
  ultimately show ?thesis using replaced(2) by auto
next
  case inserted
  then have "set (place_route r l) = insert r (set l)"
    by (metis set_mset_add_mset_insert set_mset_mset)
  then show ?thesis by auto
qed

lemma distinct_place_route:
  assumes "distinct (map route_key l)"
  shows "distinct (map route_key (place_route r l))"
proof (cases rule: place_route_cases [of l r])
  case (replaced idx ys zs)
  have "distinct (map route_key (ys @ l ! idx # zs))"
    using assms replaced(1) by simp
  then have "distinct (map route_key (r # ys @ zs))" using replaced(2) by auto
  moreover have "mset (map route_key (place_route r l)) = mset (map route_key (r # ys @ zs))"
    using replaced(3) by (simp only: mset_map mset.simps)
  ultimately show ?thesis by (metis mset_eq_imp_distinct_iff)
next
  case inserted
  then have "distinct (map route_key (r # l))" using assms by auto
  moreover have "mset (map route_key (place_route r l)) = mset (map route_key (r # l))"
    using inserted(2) by (simp only: mset_map mset.simps)
  ultimately show ?thesis by (metis mset_eq_imp_distinct_iff)
qed

lemma place_route_not_Nil: "place_route r l \<noteq> []"
  using keys_place_route [of r l] by auto

lemma entry_list_put: "entry_list (hm_put ip l t) ip' = (if ip' = ip then l else entry_list t ip')"
  and entry_list_del: "entry_list (hm_del ip t) ip' = (if ip' = ip then [] else entry_list t ip')"
  by (simp_all add: entry_list_def hm_get_put hm_get_del)

lemma hm_ok_put: "hm_ok m \<Longrightarrow> hm_ok (hm_put k v m)"
  and hm_ok_del: "hm_ok m \<Longrightarrow> hm_ok (hm_del k m)"
  by (rule hm.ok_put, assumption, rule hm.ok_del)

lemmas hm_lookup = hm_get_put hm_get_del hm_ok_put hm_ok_del

lemma rt_inv_new: "rt_inv {} rt_new"
  by (simp add: rt_inv_def rt_new_def keys_of_def entry_list_def)

text \<open>Setting the list of one peer to one with a given key, its time entry and its owner.\<close>

lemma rt_inv_set_list:
  assumes "rt_inv P s" and "l \<noteq> []" and "distinct (map route_key l)"
    and "route_key ` set l = insert k (keys_of s ip)"
    and "ow = route_key_owner s \<or> ow = hm_put k ip (route_key_owner s)"
  shows "rt_inv P (s\<lparr>route_key_owner := ow, route_key_time := hm_put (ip, k) now (route_key_time s),
      route_table := hm_put ip l (route_table s)\<rparr>)"
proof -
  let ?s = "s\<lparr>route_key_owner := ow, route_key_time := hm_put (ip, k) now (route_key_time s),
      route_table := hm_put ip l (route_table s)\<rparr>"
  have keys: "keys_of ?s ip' = (if ip' = ip then insert k (keys_of s ip) else keys_of s ip')" for ip'
    using assms(4) by (simp add: keys_of_def entry_list_put)
  show ?thesis
  proof (rule rt_invI)
    show "hm_ok (route_table ?s)" "hm_ok (route_key_time ?s)" "hm_ok (route_key_owner ?s)"
      using rt_inv_ok [OF assms(1)] assms(5) by (auto simp: hm_ok_put)
    show "l' \<noteq> [] \<and> distinct (map route_key l')" if "hm_get (route_table ?s) ip' = Some l'" for ip' l'
      using that assms(2,3) rt_inv_list [OF assms(1)] by (auto simp: hm_get_put split: if_splits)
    show "hm_get (route_key_time ?s) (ip', k') \<noteq> None" if "k' \<in> keys_of ?s ip'" "(ip', k') \<notin> P" for ip' k'
      using that rt_inv_time [OF assms(1)] unfolding keys by (auto simp: hm_get_put split: if_splits)
    show "k' \<in> keys_of ?s ip'" if "hm_get (route_key_owner ?s) k' = Some ip'" for ip' k'
      using that assms(5) rt_inv_owner [OF assms(1)] unfolding keys
      by (auto simp: hm_get_put split: if_splits)
  qed
qed

lemma rt_inv_add_owner_route: "rt_inv P s \<Longrightarrow> rt_inv P (add_owner_route d now ip k s)"
proof -
  assume inv: "rt_inv P s"
  let ?l = "entry_list (route_table s) ip"
  have "distinct (map route_key ?l)"
    using inv by (auto simp: rt_inv_def entry_list_def split: option.splits)
  then show ?thesis unfolding add_owner_route_def Let_def
    by (intro rt_inv_set_list inv)
      (auto simp: list_ex_iff from_default_rt_def keys_of_def)
qed

lemma rt_inv_add_route: "rt_inv P s \<Longrightarrow> rt_inv P (add_route now ip r s)"
proof -
  assume inv: "rt_inv P s"
  let ?l = "entry_list (route_table s) ip"
  have d: "distinct (map route_key ?l)"
    using inv by (auto simp: rt_inv_def entry_list_def split: option.splits)
  have "rt_inv P (s\<lparr>route_key_owner := (if is_direct r \<and> hm_get (route_key_owner s) (route_key r) = None
             then hm_put (route_key r) ip (route_key_owner s) else route_key_owner s),
          route_key_time := hm_put (ip, route_key r) now (route_key_time s),
          route_table := hm_put ip (place_route r ?l) (route_table s)\<rparr>)"
    by (intro rt_inv_set_list inv place_route_not_Nil distinct_place_route d)
      (auto simp: keys_place_route keys_of_def)
  with inv show ?thesis unfolding add_route_def Let_def by simp
qed

lemma drop_route_fields:
  "keys_of (drop_route (ip, k) s) ip' = keys_of s ip' - (if ip' = ip then {k} else {})"
  "route_key_time (drop_route (ip, k) s) = route_key_time s"
  by (auto simp: drop_route_def keys_of_def Let_def entry_list_def hm_lookup filter_empty_conv
      split: option.splits if_splits)

lemma rt_inv_drop_route:
  assumes "rt_inv P s" shows "rt_inv (P - {(ip, k)}) (drop_route (ip, k) s)"
proof (rule rt_invI)
  let ?s = "drop_route (ip, k) s"
  note ok = rt_inv_ok [OF assms] and inv = rt_inv_list [OF assms]
  show "hm_ok (route_table ?s)" "hm_ok (route_key_time ?s)" "hm_ok (route_key_owner ?s)"
    using ok by (auto simp: drop_route_def Let_def hm_lookup split: option.splits)
  show "l \<noteq> [] \<and> distinct (map route_key l)" if "hm_get (route_table ?s) ip' = Some l" for ip' l
    using that inv by (auto simp: drop_route_def Let_def hm_lookup distinct_map_filter
        split: option.splits if_splits)
  show "hm_get (route_key_time ?s) (ip', k') \<noteq> None"
    if "k' \<in> keys_of ?s ip'" "(ip', k') \<notin> P - {(ip, k)}" for ip' k'
    using that rt_inv_time [OF assms, of k' ip'] unfolding drop_route_fields
    by (auto split: if_splits)
  show "k' \<in> keys_of ?s ip'" if "hm_get (route_key_owner ?s) k' = Some ip'" for ip' k'
    using that rt_inv_owner [OF assms, of k' ip'] unfolding drop_route_fields
    by (auto simp: drop_route_def hm_lookup split: if_splits)
qed

lemma rt_inv_remove_route:
  assumes "rt_inv P s" shows "rt_inv P (remove_route ip k s)"
proof (rule rt_invI)
  let ?d = "drop_route (ip, k) s" and ?s = "remove_route ip k s"
  have inv: "rt_inv (P - {(ip, k)}) ?d" using assms by (rule rt_inv_drop_route)
  have f: "route_table ?s = route_table ?d" "route_key_owner ?s = route_key_owner ?d"
    "route_key_time ?s = hm_del (ip, k) (route_key_time ?d)" "keys_of ?s = keys_of ?d"
    by (simp_all add: remove_route_def Let_def keys_of_def fun_eq_iff)
  show "hm_ok (route_table ?s)" "hm_ok (route_key_time ?s)" "hm_ok (route_key_owner ?s)"
    using rt_inv_ok [OF inv] by (simp_all add: f hm_ok_del)
  show "l \<noteq> [] \<and> distinct (map route_key l)" if "hm_get (route_table ?s) ip' = Some l" for ip' l
    using that rt_inv_list [OF inv] by (simp add: f)
  show "hm_get (route_key_time ?s) (ip', k') \<noteq> None"
    if "k' \<in> keys_of ?s ip'" "(ip', k') \<notin> P" for ip' k'
    using that rt_inv_time [OF inv, of k' ip'] drop_route_fields(1) [of ip k s ip'] unfolding f
    by (auto simp: hm_get_del split: if_splits)
  show "k' \<in> keys_of ?s ip'" if "hm_get (route_key_owner ?s) k' = Some ip'" for ip' k'
    using that rt_inv_owner [OF inv] by (simp add: f)
qed

lemma rt_inv_mono: "rt_inv P s \<Longrightarrow> P \<subseteq> Q \<Longrightarrow> rt_inv Q s"
  unfolding rt_inv_def by blast

lemma rt_inv_expire_scan:
  assumes "rt_inv P s" and "expire_scan t s = (ks, s')"
  shows "rt_inv (P \<union> set ks) s'"
proof -
  let ?tm = "filter (\<lambda>(k, t'). \<not> t' \<le> t) (route_key_time s)"
  have s': "s' = s\<lparr>route_key_time := ?tm\<rparr>" and ks: "ks = map fst (filter (\<lambda>(k, t'). t' \<le> t) (route_key_time s))"
    using assms(2) by (simp_all add: expire_scan_def)
  have ok: "hm_ok (route_key_time s)" using assms(1) by (simp add: rt_inv_def)
  have look: "hm_get ?tm k = (case hm_get (route_key_time s) k of None \<Rightarrow> None | Some t' \<Rightarrow>
      if t' \<le> t then None else Some t')" for k
    using hm_get_filter [OF ok, of "\<lambda>(k, t'). \<not> t' \<le> t" k] by (simp split: option.splits)
  have mem: "k \<in> set ks" if "hm_get (route_key_time s) k = Some t'" "t' \<le> t" for k t'
    using that map_of_SomeD [OF that(1)] by (force simp: ks)
  have keys: "keys_of s' = keys_of s" by (simp add: s' keys_of_def fun_eq_iff)
  show ?thesis
  proof (rule rt_invI)
    show "hm_ok (route_table s')" "hm_ok (route_key_time s')" "hm_ok (route_key_owner s')"
      using rt_inv_ok [OF assms(1)] by (simp_all add: s' hm_ok_filter)
    show "l \<noteq> [] \<and> distinct (map route_key l)" if "hm_get (route_table s') ip = Some l" for ip l
      using that rt_inv_list [OF assms(1)] by (simp add: s')
    show "hm_get (route_key_time s') (ip, k) \<noteq> None"
      if "k \<in> keys_of s' ip" "(ip, k) \<notin> P \<union> set ks" for ip k
      using that rt_inv_time [OF assms(1), of k ip] mem [of "(ip, k)"] unfolding keys
      by (auto simp: s' look split: option.splits)
    show "k \<in> keys_of s' ip" if "hm_get (route_key_owner s') k = Some ip" for ip k
      using that rt_inv_owner [OF assms(1)] unfolding keys by (simp add: s')
  qed
qed

lemma rt_inv_expire_apply: "rt_inv P s \<Longrightarrow> rt_inv (P - set ks) (expire_apply ks s)"
proof (induction ks arbitrary: P s)
  case (Cons a ks)
  obtain ip k where "a = (ip, k)" by fastforce
  have "P - {(ip, k)} - set ks = P - set ((ip, k) # ks)" by auto
  with Cons.IH [OF rt_inv_drop_route [OF Cons.prems, of ip k]] \<open>a = (ip, k)\<close>
  show ?case by (simp add: expire_apply_def)
qed (simp add: expire_apply_def)

section \<open>Interleaved operation\<close>

text \<open>
  A state is the table and the keys a \<open>remove_oldest_route\<close> in progress still has to drop. All
  operations of the other tasks may run in between. \<open>bound\<close> limits the round-trip times given
  to \<open>add_route\<close>.
\<close>

inductive rt_step :: "u32 \<Rightarrow> u32 \<Rightarrow> 'k RouteTable \<times> (ipv4 \<times> 'k) list \<Rightarrow>
    'k RouteTable \<times> (ipv4 \<times> 'k) list \<Rightarrow> bool" for d bound where
  owner: "rt_step d bound (s, p) (add_owner_route d now ip k s, p)"
| add: "rtt r \<le> bound \<Longrightarrow> rt_step d bound (s, p) (add_route now ip r s, p)"
| absent: "rtt r \<le> bound \<Longrightarrow> rt_step d bound (s, p) (add_route_if_absent now ip r s, p)"
| remove: "rt_step d bound (s, p) (remove_route ip k s, p)"
| scan: "expire_scan t s = (ks, s') \<Longrightarrow> rt_step d bound (s, []) (s', ks)"
| drop: "rt_step d bound (s, p) (expire_apply p s, [])"

inductive rt_reach :: "u32 \<Rightarrow> u32 \<Rightarrow> 'k RouteTable \<times> (ipv4 \<times> 'k) list \<Rightarrow> bool" for d bound where
  init: "rt_reach d bound (rt_new, [])"
| step: "rt_reach d bound s \<Longrightarrow> rt_step d bound s s' \<Longrightarrow> rt_reach d bound s'"

inductive_cases rt_stepE: "rt_step d bound (s, p) (s', p')"

lemma rt_inv_add_route_if_absent: "rt_inv P s \<Longrightarrow> rt_inv P (add_route_if_absent now ip r s)"
  by (simp add: add_route_if_absent_def rt_inv_add_route)

lemma rt_step_inv: "rt_step d bound (s, p) (s', p') \<Longrightarrow> rt_inv (set p) s \<Longrightarrow> rt_inv (set p') s'"
proof (erule rt_stepE)
  fix t
  assume "rt_inv (set p) s" "p = []" "expire_scan t s = (p', s')"
  then show "rt_inv (set p') s'" using rt_inv_expire_scan [of "{}" s t p' s'] by simp
next
  assume "rt_inv (set p) s" "s' = expire_apply p s" "p' = []"
  then show "rt_inv (set p') s'" using rt_inv_expire_apply [of "set p" s p] by simp
qed (auto intro: rt_inv_add_owner_route rt_inv_add_route rt_inv_add_route_if_absent rt_inv_remove_route)

lemma rt_reach_inv: "rt_reach d bound st \<Longrightarrow> rt_inv (set (snd st)) (fst st)"
proof (induction rule: rt_reach.induct)
  case (step s s')
  then show ?case by (cases s; cases s') (auto dest: rt_step_inv)
qed (simp add: rt_inv_new)

lemma rt_reach_intros:
  assumes "rt_reach d bound (s, p)"
  shows rt_reach_owner: "rt_reach d bound (add_owner_route d now ip k s, p)"
    and rt_reach_add: "rtt r \<le> bound \<Longrightarrow> rt_reach d bound (add_route now ip r s, p)"
    and rt_reach_scan: "p = [] \<Longrightarrow> expire_scan t s = (ks, s') \<Longrightarrow> rt_reach d bound (s', ks)"
  using assms by (auto intro: rt_reach.step rt_step.intros)

section \<open>Order\<close>

definition rt_ordered :: "u32 \<Rightarrow> 'k RouteTable \<Rightarrow> bool" where
  "rt_ordered d s \<longleftrightarrow>
     (\<forall>ip l. hm_get (route_table s) ip = Some l \<longrightarrow> rtt_sorted l \<and> (\<forall>r\<in>set l. rtt r \<le> d))"

lemma rt_ordered_entry: "rt_ordered d s \<Longrightarrow>
  rtt_sorted (entry_list (route_table s) ip) \<and> (\<forall>r\<in>set (entry_list (route_table s) ip). rtt r \<le> d)"
  by (auto simp: rt_ordered_def entry_list_def split: option.splits)

lemma place_route_sorted: "rtt_sorted l \<Longrightarrow> rtt_sorted (place_route r l)"
  by (cases rule: place_route_cases [of l r]) blast+

lemma place_route_set: "set (place_route r l) \<subseteq> insert r (set l)"
proof (cases rule: place_route_cases [of l r])
  case (replaced idx ys zs)
  have "set (place_route r l) = insert r (set ys \<union> set zs)"
    by (metis replaced(3) set_mset_add_mset_insert set_mset_mset set_append)
  moreover have "set ys \<union> set zs \<subseteq> set l"
    by (subst replaced(1)) auto
  ultimately show ?thesis by auto
next
  case inserted
  then show ?thesis by (metis equalityE set_mset_add_mset_insert set_mset_mset)
qed

lemma rt_ordered_add_owner: "rt_ordered d s \<Longrightarrow> rt_ordered d (add_owner_route d now ip k s)"
  using rt_ordered_entry [of d s ip]
  by (auto simp: rt_ordered_def add_owner_route_def Let_def hm_get_put sorted_append from_default_rt_def)

lemma rt_ordered_add: "rt_ordered d s \<Longrightarrow> rtt r \<le> d \<Longrightarrow> rt_ordered d (add_route now ip r s)"
  using rt_ordered_entry [of d s ip] place_route_sorted [of "entry_list (route_table s) ip" r]
    place_route_set [of r "entry_list (route_table s) ip"]
  by (auto simp: rt_ordered_def add_route_def Let_def hm_get_put)

lemma rt_ordered_drop: "rt_ordered d s \<Longrightarrow> rt_ordered d (drop_route (ip, k) s)"
  by (auto simp: rt_ordered_def drop_route_def Let_def hm_get_put hm_get_del sorted_filter
      split: option.splits if_splits)

lemma rt_ordered_apply: "rt_ordered d s \<Longrightarrow> rt_ordered d (expire_apply ks s)"
  unfolding expire_apply_def
  by (induction ks arbitrary: s) (auto simp: rt_ordered_drop)

lemma rt_ordered_time [simp]: "rt_ordered d (s\<lparr>route_key_time := x\<rparr>) = rt_ordered d s"
  by (simp add: rt_ordered_def)

lemma rt_step_ordered:
  "rt_step d bound (s, p) (s', p') \<Longrightarrow> bound \<le> d \<Longrightarrow> rt_ordered d s \<Longrightarrow> rt_ordered d s'"
  by (erule rt_stepE) (auto simp: rt_ordered_add_owner add_route_if_absent_def remove_route_def Let_def
      expire_scan_def rt_ordered_drop rt_ordered_apply
      intro: rt_ordered_add dest: order_trans)

lemma rt_reach_ordered: "rt_reach d bound st \<Longrightarrow> bound \<le> d \<Longrightarrow> rt_ordered d (fst st)"
proof (induction rule: rt_reach.induct)
  case (step s s')
  then show ?case by (cases s; cases s') (auto dest: rt_step_ordered)
qed (simp add: rt_ordered_def rt_new_def)

section \<open>Properties\<close>

text \<open>
  C21. Under every interleaving of the operations with a two-stage expiry: no list is empty or
  names a key twice, every listed route has a confirmation time or is being expired (no route
  stays for ever), and the owner of a key has a route with it.
\<close>

theorem route_table_invariant:
  assumes "rt_reach d bound (s, p)"
  shows "(\<forall>ip. hm_get (route_table s) ip \<noteq> Some [] \<and> distinct (map route_key (entry_list (route_table s) ip))) \<and>
    (\<forall>ip k. k \<in> keys_of s ip \<and> (ip, k) \<notin> set p \<longrightarrow> hm_get (route_key_time s) (ip, k) \<noteq> None) \<and>
    (\<forall>ip k. get_id_by_route_key s k = Some ip \<longrightarrow> k \<in> keys_of s ip)"
proof -
  have inv: "rt_inv (set p) s" using rt_reach_inv [OF assms] by simp
  have "\<forall>ip. hm_get (route_table s) ip \<noteq> Some [] \<and> distinct (map route_key (entry_list (route_table s) ip))"
    using rt_inv_list [OF inv] by (auto simp: entry_list_def split: option.splits)
  moreover have "\<forall>ip k. k \<in> keys_of s ip \<and> (ip, k) \<notin> set p \<longrightarrow> hm_get (route_key_time s) (ip, k) \<noteq> None"
    using rt_inv_time [OF inv] by blast
  ultimately show ?thesis
    using rt_inv_owner [OF inv] by (simp add: get_id_by_route_key_def)
qed

theorem route_table_invariant_witness:
  "\<exists>s :: nat RouteTable. rt_reach 9999 100 (s, [(5, 1)]) \<and> keys_of s 5 = {1, 2} \<and>
     hm_get (route_key_time s) (5, 2) \<noteq> None"
proof -
  let ?a = "add_route 3 5 (route_from 2 1 40) (add_owner_route 9999 0 5 1 rt_new) :: nat RouteTable"
  have "expire_scan 2 ?a = ([(5, 1)], snd (expire_scan 2 ?a))"
    by (simp add: expire_scan_def add_route_def add_owner_route_def rt_new_def is_direct_def
        route_from_def Let_def)
  then have r: "rt_reach 9999 100 (snd (expire_scan 2 ?a), [(5, 1)])"
    by (intro rt_reach_scan [OF rt_reach_add [OF rt_reach_owner [OF rt_reach.init]] refl])
      (simp_all add: route_from_def)
  have k: "keys_of (snd (expire_scan 2 ?a)) 5 = {1, 2}"
    by (simp add: keys_of_def expire_scan_def add_route_def add_owner_route_def rt_new_def
        is_direct_def route_from_def Let_def entry_list_def place_route_def from_default_rt_def insert_commute)
  from route_table_invariant [OF r] k
  have "hm_get (route_key_time (snd (expire_scan 2 ?a))) (5, 2) \<noteq> None" by simp
  with r k show ?thesis by blast
qed

text \<open>
  C22. When no measured round-trip time exceeds \<open>DEFAULT_RTT\<close>, the route \<open>get_route_by_id\<close>
  returns is one of the peer's routes and none of them is faster.
\<close>

theorem best_route_is_fastest:
  assumes "rt_reach d bound (s, p)" and "bound \<le> d" and "get_route_by_id s ip = Inr r"
  shows "r \<in> set (entry_list (route_table s) ip) \<and>
    (\<forall>r'\<in>set (entry_list (route_table s) ip). rtt r \<le> rtt r')"
proof -
  have "rt_ordered d s" using rt_reach_ordered [OF assms(1,2)] by simp
  from rt_ordered_entry [OF this, of ip] assms(3) show ?thesis
    by (cases "hm_get (route_table s) ip")
      (auto simp: get_route_by_id_def get_by_id_def entry_list_def split: list.splits)
qed

theorem best_route_is_fastest_witness:
  "\<exists>s r. rt_reach 500 500 (s :: nat RouteTable, []) \<and> get_route_by_id s 5 = Inr r \<and> rtt r = 20 \<and>
     length (entry_list (route_table s) 5) = 2 \<and> (\<forall>r'\<in>set (entry_list (route_table s) 5). rtt r \<le> rtt r')"
proof -
  let ?a = "add_route 3 5 (route_from 1 1 20) (add_route 1 5 (route_from 2 1 40) (add_owner_route 500 0 5 1 rt_new)) :: nat RouteTable"
  have r: "rt_reach 500 500 (?a, [])"
    by (intro rt_reach_add [OF rt_reach_add [OF rt_reach_owner [OF rt_reach.init]]])
      (simp_all add: route_from_def)
  have v: "entry_list (route_table ?a) 5 = [route_from 1 1 20, route_from 2 1 40]"
    by (simp add: add_route_def add_owner_route_def rt_new_def is_direct_def route_from_def Let_def
        entry_list_def place_route_def from_default_rt_def bubble_up.simps bubble_down.simps swap_def)
  then have g: "get_route_by_id ?a 5 = Inr (route_from 1 1 20)"
    by (simp add: get_route_by_id_def get_by_id_def entry_list_def split: option.splits list.splits)
  from best_route_is_fastest [OF r order_refl g]
  have "\<forall>r'\<in>set (entry_list (route_table ?a) 5). rtt (route_from (1::nat) 1 20) \<le> rtt r'" by simp
  with r g v show ?thesis
    by (intro exI [of _ ?a] exI [of _ "route_from 1 1 20"]) (simp add: route_from_def)
qed

text \<open>
  Above \<open>DEFAULT_RTT\<close> the order is lost: \<open>add_owner_route\<close> appends its default-time route
  behind a slower one, and \<open>get_route_by_id\<close> goes on returning the slower route.
\<close>

lemma owner_route_breaks_order:
  fixes r :: "'k Route" and ip :: ipv4 and t1 t2 :: instant
  assumes "d < rtt r" and "is_direct r" and "k \<noteq> route_key r"
  defines "s \<equiv> add_owner_route d t2 ip k (add_route t1 ip r rt_new)"
  shows "get_route_by_id s ip = Inr r \<and>
    (\<exists>r'\<in>set (entry_list (route_table s) ip). rtt r' < rtt r)"
  using assms(1-3)
  by (simp add: s_def get_route_by_id_def get_by_id_def add_owner_route_def add_route_def rt_new_def
      Let_def entry_list_def place_route_def from_default_rt_def)

lemma owner_route_breaks_order_witness:
  "\<exists>r'\<in>set (entry_list (route_table (add_owner_route 500 2 5 (1::nat) (add_route 1 5 (route_from 2 1 800) rt_new))) 5).
     rtt r' < 800"
  using owner_route_breaks_order [of 500 "route_from (2::nat) 1 800" 1 2 5 1]
  by (simp add: route_from_def is_direct_def)

text \<open>
  Expiry without interference removes exactly the routes not confirmed after
  \<open>expired_time\<close>: a key stays listed for a peer if and only if it was listed with a later time.
\<close>

lemma remove_oldest_exact:
  assumes "rt_reach d bound (s, [])"
  shows "k \<in> keys_of (remove_oldest_route t s) ip \<longleftrightarrow>
    k \<in> keys_of s ip \<and> (\<exists>c. hm_get (route_key_time s) (ip, k) = Some c \<and> t < c)"
proof -
  have inv: "rt_inv {} s" using rt_reach_inv [OF assms] by simp
  obtain ks s' where sc: "expire_scan t s = (ks, s')" by fastforce
  have keys': "keys_of s' = keys_of s" using sc by (auto simp: expire_scan_def keys_of_def)
  have "keys_of (expire_apply l u) ip = keys_of u ip - {k. (ip, k) \<in> set l}" for l and u :: "'a RouteTable"
  proof (induction l arbitrary: u)
    case (Cons a l)
    obtain ip' k' where "a = (ip', k')" by fastforce
    with Cons show ?case by (auto simp: expire_apply_def drop_route_fields)
  qed (simp add: expire_apply_def)
  then have A: "keys_of (remove_oldest_route t s) ip = keys_of s ip - {k. (ip, k) \<in> set ks}"
    by (simp add: remove_oldest_route_def sc keys')
  have B: "(ip, k) \<in> set ks \<longleftrightarrow> (\<exists>c. hm_get (route_key_time s) (ip, k) = Some c \<and> c \<le> t)"
  proof -
    have "(ip, k) \<in> set ks \<longleftrightarrow> (\<exists>c. ((ip, k), c) \<in> set (route_key_time s) \<and> c \<le> t)"
      using sc by (force simp: expire_scan_def)
    then show ?thesis using rt_inv_ok(2) [OF inv] by (simp add: map_of_eq_Some_iff)
  qed
  have C: "k \<in> keys_of s ip \<Longrightarrow> hm_get (route_key_time s) (ip, k) \<noteq> None"
    using rt_inv_time [OF inv] by auto
  show ?thesis unfolding A Diff_iff mem_Collect_eq B using C
    by (cases "hm_get (route_key_time s) (ip, k)"; cases "k \<in> keys_of s ip") (simp_all add: not_le)
qed

lemma remove_oldest_exact_witness:
  "keys_of (remove_oldest_route 2 (add_route 3 5 (route_from 2 1 40) (add_owner_route 9999 0 5 (1::nat) rt_new))) 5 = {2}"
proof -
  let ?a = "add_route 3 5 (route_from 2 1 40) (add_owner_route 9999 0 5 1 rt_new) :: nat RouteTable"
  have r: "rt_reach 9999 100 (?a, [])"
    by (intro rt_reach_add [OF rt_reach_owner [OF rt_reach.init]]) (simp add: route_from_def)
  have k: "keys_of ?a 5 = {1, 2}" and t: "route_key_time ?a = [((5, 1), 0), ((5, 2), 3)]"
    by (simp_all add: keys_of_def add_route_def add_owner_route_def rt_new_def
        is_direct_def route_from_def Let_def entry_list_def place_route_def from_default_rt_def insert_commute)
  show ?thesis
    using remove_oldest_exact [OF r, of _ 2 5] unfolding k t by auto
qed

end
