(* ===== verification/Subnet_Route.thy ===== *)
theory Subnet_Route
  imports Rust_Text
begin

text \<open>
  \<open>nat/mod.rs\<close>: the routes to subnets behind peers (\<open>SubnetExternalRoute\<close>), the subnets this
  node forwards for (\<open>AllowSubnetExternalRoute\<close>) and the text form of a route (\<open>NetInput\<close>).

  \<open>Ipv4Net::contains\<close> and \<open>Ipv4Net::from_str\<close> of the \<open>ipnet\<close> crate are arguments.
\<close>

section \<open>Routes\<close>

record NetInput =
  ni_net :: ipv4net
  ni_target_ip :: ipv4

definition net_input_from_str :: "(string \<Rightarrow> ipv4net option) \<Rightarrow> string \<Rightarrow> NetInput result" where
  "net_input_from_str parse_net s =
     (let parts = map trim (split_on CHR '','' s) in
      if length parts \<noteq> 2 then Inl (Bail ''expected net,target_ip'')
      else rbind (ok_or (Bail ''bad net'') (parse_net (parts ! 0))) (\<lambda>net.
        rbind (ok_or (Bail ''bad target ip'') (parse_ipv4 (parts ! 1))) (\<lambda>target_ip.
          Inr \<lparr>ni_net = net, ni_target_ip = target_ip\<rparr>)))"

type_synonym SubnetExternalRoute = "NetInput list"

text \<open>\<open>sort_by_key\<close> is stable, and so is \<open>sort_key\<close>; \<open>Reverse\<close> turns the order round.\<close>

definition longest_first :: "NetInput list \<Rightarrow> NetInput list" where
  "longest_first l = sort_key (\<lambda>r. - int (unat (net_prefix (ni_net r)))) l"

definition subnet_new :: "NetInput list \<Rightarrow> SubnetExternalRoute" where
  "subnet_new table = longest_first table"

definition set_route_table :: "NetInput list \<Rightarrow> SubnetExternalRoute \<Rightarrow> SubnetExternalRoute" where
  "set_route_table table s = longest_first table"

definition reset_route :: "NetInput list \<Rightarrow> SubnetExternalRoute \<Rightarrow> SubnetExternalRoute" where
  "reset_route table s = table"

fun subnet_route :: "net_contains \<Rightarrow> SubnetExternalRoute \<Rightarrow> ipv4 \<Rightarrow> ipv4 option" where
  "subnet_route C [] ip = None"
| "subnet_route C (r # rs) ip =
     (if C (ni_net r) ip then Some (ni_target_ip r) else subnet_route C rs ip)"

definition allow_new :: "ipv4net list \<Rightarrow> ipv4net list" where
  "allow_new table = sort_key (\<lambda>r. unat (net_prefix r)) table"

fun allow :: "net_contains \<Rightarrow> ipv4net list \<Rightarrow> ipv4 \<Rightarrow> bool" where
  "allow C [] ip = False"
| "allow C (net # nets) ip = (if C net ip then True else allow C nets ip)"

section \<open>Lookup\<close>

lemma allow_iff: "allow C nets ip \<longleftrightarrow> (\<exists>n\<in>set nets. C n ip)"
  by (induction nets) auto

lemma subnet_route_None: "subnet_route C l ip = None \<longleftrightarrow> (\<forall>r\<in>set l. \<not> C (ni_net r) ip)"
  by (induction l) auto

lemma subnet_route_Some:
  "subnet_route C l ip = Some t \<Longrightarrow>
   \<exists>xs r ys. l = xs @ r # ys \<and> (\<forall>x\<in>set xs. \<not> C (ni_net x) ip) \<and> C (ni_net r) ip \<and> ni_target_ip r = t"
proof (induction l)
  case (Cons a l)
  show ?case
  proof (cases "C (ni_net a) ip")
    case True
    with Cons.prems show ?thesis by (intro exI [of _ "[]"]) simp
  next
    case False
    with Cons obtain xs r ys where "l = xs @ r # ys" "\<forall>x\<in>set xs. \<not> C (ni_net x) ip"
      "C (ni_net r) ip" "ni_target_ip r = t"
      by auto
    with False show ?thesis by (intro exI [of _ "a # xs"]) auto
  qed
qed simp

lemma longest_first_sorted:
  "sorted_wrt (\<lambda>r r'. net_prefix (ni_net r') \<le> net_prefix (ni_net r)) (longest_first l)"
proof -
  have "sorted_wrt (\<le>) (map (\<lambda>r. - int (unat (net_prefix (ni_net r)))) (longest_first l))"
    unfolding longest_first_def by (rule sorted_sort_key)
  then show ?thesis
    by (simp add: sorted_wrt_map word_le_def)
qed

section \<open>Properties\<close>

text \<open>
  C29. Longest prefix match: after \<open>new\<close> or \<open>set_route_table\<close>, a lookup answers with the
  target of a route that contains the address and that no containing route beats in prefix
  length, and answers nothing exactly when no route contains the address.
\<close>

theorem subnet_route_longest_prefix:
  "(case subnet_route C (set_route_table table s) ip of
      None \<Rightarrow> (\<forall>r\<in>set table. \<not> C (ni_net r) ip)
    | Some t \<Rightarrow> (\<exists>r\<in>set table. C (ni_net r) ip \<and> ni_target_ip r = t \<and>
        (\<forall>r'\<in>set table. C (ni_net r') ip \<longrightarrow> net_prefix (ni_net r') \<le> net_prefix (ni_net r)))) \<and>
   subnet_new table = set_route_table table s"
proof (intro conjI)
  let ?l = "longest_first table"
  have set: "set ?l = set table" by (simp add: longest_first_def)
  show "case subnet_route C (set_route_table table s) ip of
      None \<Rightarrow> (\<forall>r\<in>set table. \<not> C (ni_net r) ip)
    | Some t \<Rightarrow> (\<exists>r\<in>set table. C (ni_net r) ip \<and> ni_target_ip r = t \<and>
        (\<forall>r'\<in>set table. C (ni_net r') ip \<longrightarrow> net_prefix (ni_net r') \<le> net_prefix (ni_net r)))"
  proof (cases "subnet_route C ?l ip")
    case None
    with set show ?thesis by (simp add: set_route_table_def) (simp add: subnet_route_None)
  next
    case (Some t)
    then obtain xs r ys where l: "?l = xs @ r # ys" and no: "\<forall>x\<in>set xs. \<not> C (ni_net x) ip"
      and r: "C (ni_net r) ip" "ni_target_ip r = t"
      by (auto dest: subnet_route_Some)
    have "\<forall>y\<in>set ys. net_prefix (ni_net y) \<le> net_prefix (ni_net r)"
      using longest_first_sorted [of table] unfolding l by (simp add: sorted_wrt_append)
    with no r have "\<not> (C (ni_net r') ip \<and> net_prefix (ni_net r') > net_prefix (ni_net r))"
      if "r' \<in> set table" for r'
      using that unfolding set [symmetric] l by auto
    moreover have "r \<in> set table" using l set by (metis in_set_conv_decomp)
    ultimately show ?thesis using Some r
      by (auto simp: set_route_table_def not_less intro!: bexI [of _ r])
  qed
  show "subnet_new table = set_route_table table s"
    by (simp add: subnet_new_def set_route_table_def)
qed

theorem subnet_route_longest_prefix_witness:
  "let C = (\<lambda>net ip. drop_bit (32 - unat (net_prefix net)) ip = drop_bit (32 - unat (net_prefix net)) (net_addr net));
       table = [\<lparr>ni_net = \<lparr>net_addr = 0x0A000000, net_prefix = 8\<rparr>, ni_target_ip = 1\<rparr>,
                \<lparr>ni_net = \<lparr>net_addr = 0x0A010000, net_prefix = 16\<rparr>, ni_target_ip = 2\<rparr>] in
   subnet_route C (set_route_table table []) 0x0A010203 = Some 2 \<and>
   subnet_route C (reset_route table []) 0x0A010203 = Some 1 \<and>
   (\<exists>r\<in>set table. C (ni_net r) 0x0A010203 \<and> ni_target_ip r = 2 \<and>
      (\<forall>r'\<in>set table. C (ni_net r') 0x0A010203 \<longrightarrow> net_prefix (ni_net r') \<le> net_prefix (ni_net r)))"
proof -
  define C :: net_contains where
    "C = (\<lambda>net ip. drop_bit (32 - unat (net_prefix net)) ip = drop_bit (32 - unat (net_prefix net)) (net_addr net))"
  define table :: "NetInput list" where "table = [\<lparr>ni_net = \<lparr>net_addr = 0x0A000000, net_prefix = 8\<rparr>, ni_target_ip = 1\<rparr>,
      \<lparr>ni_net = \<lparr>net_addr = 0x0A010000, net_prefix = 16\<rparr>, ni_target_ip = 2\<rparr>]"
  have v: "subnet_route C (set_route_table table []) 0x0A010203 = Some 2"
    by (simp add: C_def table_def set_route_table_def longest_first_def)
  have w: "subnet_route C (reset_route table []) 0x0A010203 = Some 1"
    by (simp add: C_def table_def reset_route_def)
  from subnet_route_longest_prefix [where C = C and table = table and s = "[]" and ip = "0x0A010203"] v
  have "\<exists>r\<in>set table. C (ni_net r) 0x0A010203 \<and> ni_target_ip r = 2 \<and>
      (\<forall>r'\<in>set table. C (ni_net r') 0x0A010203 \<longrightarrow> net_prefix (ni_net r') \<le> net_prefix (ni_net r))"
    by simp
  with v w show ?thesis unfolding Let_def C_def [symmetric] table_def [symmetric] by blast
qed

end
