(* ===== verification/Context_Stats.thy ===== *)
theory Context_Stats
  imports VNT_Prelude
begin

text \<open>
  The counters of \<open>context/mod.rs\<close>: bytes sent to and received from each peer
  (\<open>TrafficStats\<close>) and pings sent and answered (\<open>PacketLossStats\<close>). The shared cells behind
  \<open>Arc<Mutex<..>>\<close> are owned by the map alone, so a map from peers to counters is the whole
  state. Counters are \<open>u64\<close> and wrap, as in a release build. \<open>loss_rate\<close> is the exact quotient;
  rounding to \<open>f64\<close> is not modelled.
\<close>

section \<open>Traffic\<close>

record TrafficCounter =
  tx_bytes :: u64
  rx_bytes :: u64

type_synonym TrafficStats = "(ipv4, TrafficCounter) hashmap"

record TrafficInfo =
  ti_ip :: ipv4
  ti_tx_bytes :: u64
  ti_rx_bytes :: u64

definition counter_default :: TrafficCounter where
  "counter_default = \<lparr>tx_bytes = 0, rx_bytes = 0\<rparr>"

definition get_or_default :: "'v \<Rightarrow> 'v option \<Rightarrow> 'v" where
  "get_or_default d m = (case m of None \<Rightarrow> d | Some v \<Rightarrow> v)"

definition record_tx :: "ipv4 \<Rightarrow> u64 \<Rightarrow> TrafficStats \<Rightarrow> TrafficStats" where
  "record_tx ip n s =
     (let counter = get_or_default counter_default (hm_get s ip) in
      hm_put ip (counter\<lparr>tx_bytes := tx_bytes counter + n\<rparr>) s)"

definition record_rx :: "ipv4 \<Rightarrow> u64 \<Rightarrow> TrafficStats \<Rightarrow> TrafficStats" where
  "record_rx ip n s =
     (let counter = get_or_default counter_default (hm_get s ip) in
      hm_put ip (counter\<lparr>rx_bytes := rx_bytes counter + n\<rparr>) s)"

definition traffic_info :: "ipv4 \<Rightarrow> TrafficCounter \<Rightarrow> TrafficInfo" where
  "traffic_info ip c = \<lparr>ti_ip = ip, ti_tx_bytes = tx_bytes c, ti_rx_bytes = rx_bytes c\<rparr>"

definition get_traffic_info :: "TrafficStats \<Rightarrow> ipv4 \<Rightarrow> TrafficInfo option" where
  "get_traffic_info s ip = map_option (traffic_info ip) (hm_get s ip)"

definition get_all_traffic_info :: "TrafficStats \<Rightarrow> TrafficInfo list" where
  "get_all_traffic_info s = map (\<lambda>(ip, c). traffic_info ip c) s"

definition traffic_reset :: "ipv4 \<Rightarrow> TrafficStats \<Rightarrow> TrafficStats" where
  "traffic_reset ip s = (case hm_get s ip of None \<Rightarrow> s | Some _ \<Rightarrow> hm_put ip counter_default s)"

definition traffic_reset_all :: "TrafficStats \<Rightarrow> TrafficStats" where
  "traffic_reset_all s = map (\<lambda>(ip, _). (ip, counter_default)) s"

definition traffic_clear :: "TrafficStats \<Rightarrow> TrafficStats" where
  "traffic_clear s = []"

section \<open>Packet loss\<close>

record PingStats =
  ping_sent :: u64
  ping_received :: u64

type_synonym PacketLossStats = "(ipv4, PingStats) hashmap"

record PacketLossInfo =
  pl_ip :: ipv4
  pl_sent :: u64
  pl_received :: u64
  pl_loss_rate :: rat

definition ping_default :: PingStats where
  "ping_default = \<lparr>ping_sent = 0, ping_received = 0\<rparr>"

definition record_sent :: "ipv4 \<Rightarrow> PacketLossStats \<Rightarrow> PacketLossStats" where
  "record_sent ip s =
     (let st = get_or_default ping_default (hm_get s ip) in
      hm_put ip (st\<lparr>ping_sent := ping_sent st + 1\<rparr>) s)"

definition record_received :: "ipv4 \<Rightarrow> PacketLossStats \<Rightarrow> PacketLossStats" where
  "record_received ip s =
     (let st = get_or_default ping_default (hm_get s ip) in
      hm_put ip (st\<lparr>ping_received := ping_received st + 1\<rparr>) s)"

definition loss_info :: "ipv4 \<Rightarrow> PingStats \<Rightarrow> PacketLossInfo" where
  "loss_info ip st =
     (let loss_rate = (if ping_sent st > 0
        then 1 - of_int (uint (ping_received st)) / of_int (uint (ping_sent st)) else 0) in
      \<lparr>pl_ip = ip, pl_sent = ping_sent st, pl_received = ping_received st, pl_loss_rate = loss_rate\<rparr>)"

definition get_loss_info :: "PacketLossStats \<Rightarrow> ipv4 \<Rightarrow> PacketLossInfo option" where
  "get_loss_info s ip = map_option (loss_info ip) (hm_get s ip)"

definition get_all_loss_info :: "PacketLossStats \<Rightarrow> PacketLossInfo list" where
  "get_all_loss_info s = map (\<lambda>(ip, st). loss_info ip st) s"

definition loss_reset :: "ipv4 \<Rightarrow> PacketLossStats \<Rightarrow> PacketLossStats" where
  "loss_reset ip s = (case hm_get s ip of None \<Rightarrow> s | Some _ \<Rightarrow> hm_put ip ping_default s)"

definition loss_reset_all :: "PacketLossStats \<Rightarrow> PacketLossStats" where
  "loss_reset_all s = map (\<lambda>(ip, _). (ip, ping_default)) s"

definition loss_clear :: "PacketLossStats \<Rightarrow> PacketLossStats" where
  "loss_clear s = []"

section \<open>Histories\<close>

datatype traffic_event =
    Tx ipv4 u64
  | Rx ipv4 u64
  | ResetPeer ipv4
  | ResetAll
  | ClearAll

fun traffic_step :: "traffic_event \<Rightarrow> TrafficStats \<Rightarrow> TrafficStats" where
  "traffic_step (Tx ip n) s = record_tx ip n s"
| "traffic_step (Rx ip n) s = record_rx ip n s"
| "traffic_step (ResetPeer ip) s = traffic_reset ip s"
| "traffic_step ResetAll s = traffic_reset_all s"
| "traffic_step ClearAll s = traffic_clear s"

text \<open>
  The specification: what is shown for one peer depends only on the events of that peer since
  the last reset, and is their sum; a peer without an entry has sent and received nothing.
\<close>

fun tx_since_reset :: "ipv4 \<Rightarrow> traffic_event list \<Rightarrow> u64" where
  "tx_since_reset ip [] = 0"
| "tx_since_reset ip (Tx ip' n # es) = (if ip' = ip then n else 0) + tx_since_reset ip es"
| "tx_since_reset ip (Rx ip' n # es) = tx_since_reset ip es"
| "tx_since_reset ip (ResetPeer ip' # es) = (if ip' = ip then 0 else tx_since_reset ip es)"
| "tx_since_reset ip (ResetAll # es) = 0"
| "tx_since_reset ip (ClearAll # es) = 0"

fun rx_since_reset :: "ipv4 \<Rightarrow> traffic_event list \<Rightarrow> u64" where
  "rx_since_reset ip [] = 0"
| "rx_since_reset ip (Rx ip' n # es) = (if ip' = ip then n else 0) + rx_since_reset ip es"
| "rx_since_reset ip (Tx ip' n # es) = rx_since_reset ip es"
| "rx_since_reset ip (ResetPeer ip' # es) = (if ip' = ip then 0 else rx_since_reset ip es)"
| "rx_since_reset ip (ResetAll # es) = 0"
| "rx_since_reset ip (ClearAll # es) = 0"

lemma get_or_default_simps [simp]: "get_or_default d None = d" "get_or_default d (Some v) = v"
  by (simp_all add: get_or_default_def)

lemma hm_get_const: "hm_get (map (\<lambda>(k, _). (k, v)) m) k = map_option (\<lambda>_. v) (hm_get m k)"
  by (induction m) auto

text \<open>The counters of one peer after one event; \<open>foldr\<close> runs the newest event, the head, last.\<close>

lemma traffic_step_counters:
  "get_or_default counter_default (hm_get (traffic_step e s) ip) =
     (let c = get_or_default counter_default (hm_get s ip) in
      case e of Tx ip' n \<Rightarrow> if ip' = ip then c\<lparr>tx_bytes := tx_bytes c + n\<rparr> else c
        | Rx ip' n \<Rightarrow> if ip' = ip then c\<lparr>rx_bytes := rx_bytes c + n\<rparr> else c
        | ResetPeer ip' \<Rightarrow> if ip' = ip then counter_default else c
        | ResetAll \<Rightarrow> counter_default | ClearAll \<Rightarrow> counter_default)"
  by (cases e) (auto simp: record_tx_def record_rx_def traffic_reset_def traffic_reset_all_def
      traffic_clear_def Let_def hm_get_put hm_get_const get_or_default_def split: option.splits)

section \<open>Properties\<close>

text \<open>
  The traffic counters of a peer are, whatever the interleaving with other peers, the sums
  modulo \<open>2 ^ 64\<close> of its records since the last reset or clear (events newest first).
\<close>

lemma traffic_counts_events:
  "get_or_default counter_default (hm_get (foldr traffic_step es []) ip) =
     \<lparr>tx_bytes = tx_since_reset ip es, rx_bytes = rx_since_reset ip es\<rparr>"
proof (induction es)
  case Nil
  then show ?case by (simp add: counter_default_def)
next
  case (Cons e es)
  then show ?case
    by (cases e) (simp_all add: traffic_step_counters Let_def del: traffic_step.simps,
        simp_all add: counter_default_def)
qed

lemma ping_run_sent:
  "get_or_default ping_default (hm_get (fold record_sent ips s) ip) =
     (let st = get_or_default ping_default (hm_get s ip) in
      st\<lparr>ping_sent := ping_sent st + of_nat (count_list ips ip)\<rparr>)"
  by (induction ips arbitrary: s) (auto simp: record_sent_def Let_def hm_get_put)

end
