(* ===== verification/Messages.thy ===== *)
theory Messages
  imports VNT_Prelude
begin

text \<open>
  \<open>protocol/control_message.rs\<close> and \<open>protocol/client_message.rs\<close>: the messages a node exchanges
  with a server and with its peers, as the program sees them and as protobuf carries them
  (records \<open>P...\<close>, one per message of \<open>proto/*.proto\<close> that these files use).

  The codec that \<open>prost\<close> generates is an argument: \<open>codec_at c m\<close> says that decoding the
  encoded message \<open>m\<close> gives it back. Fields of \<open>rust_p2p_core::nat::NatInfo\<close> are those the program names.
\<close>

record 'm codec =
  enc :: "'m \<Rightarrow> bytes"
  dec :: "bytes \<Rightarrow> 'm option"

definition codec_at :: "'m codec \<Rightarrow> 'm \<Rightarrow> bool" where
  "codec_at c m \<longleftrightarrow> dec c (enc c m) = Some m"

text \<open>A codec for one message only, for concrete instances.\<close>

definition codec_for :: "'m \<Rightarrow> 'm codec" where
  "codec_for m = \<lparr>enc = (\<lambda>m'. if m' = m then [1] else []), dec = (\<lambda>b. if b = [1] then Some m else None)\<rparr>"

lemma codec_at_for: "codec_at (codec_for m) m"
  by (simp add: codec_at_def codec_for_def)

section \<open>Registration\<close>

datatype RegistrationMode = Normal | PreRegister

fun registration_mode_code :: "RegistrationMode \<Rightarrow> int" where
  "registration_mode_code Normal = 0"
| "registration_mode_code PreRegister = 1"

record RegRequestMsg =
  rq_network_code :: string
  rq_device_id :: string
  rq_ip :: "ipv4 option"
  rq_name :: string
  rq_version :: string
  rq_key_sign :: "string option"
  rq_ip_variable :: bool
  rq_server_id :: u32
  rq_registration_mode :: RegistrationMode

record PRegRequestMsg =
  prq_network_code :: string
  prq_device_id :: string
  prq_ip :: "u32 option"
  prq_name :: string
  prq_version :: string
  prq_key_sign :: "string option"
  prq_ip_variable :: bool
  prq_server_id :: u32
  prq_registration_mode :: int

definition reg_request_to :: "RegRequestMsg \<Rightarrow> PRegRequestMsg" where
  "reg_request_to m =
     \<lparr>prq_network_code = rq_network_code m, prq_device_id = rq_device_id m, prq_ip = rq_ip m,
      prq_name = rq_name m, prq_version = rq_version m, prq_key_sign = rq_key_sign m,
      prq_ip_variable = rq_ip_variable m, prq_server_id = rq_server_id m,
      prq_registration_mode = registration_mode_code (rq_registration_mode m)\<rparr>"

record RegResponseMsg =
  rs_ip :: ipv4
  rs_prefix_len :: u8
  rs_gateway :: ipv4
  rs_server_version :: string

record PRegResponseMsg =
  prs_ip :: u32
  prs_prefix_len :: u32
  prs_gateway :: u32
  prs_server_version :: string

definition reg_response_from :: "PRegResponseMsg \<Rightarrow> RegResponseMsg result" where
  "reg_response_from m =
     Inr \<lparr>rs_ip = prs_ip m, rs_prefix_len = ucast (prs_prefix_len m AND 0xFF),
          rs_gateway = prs_gateway m, rs_server_version = prs_server_version m\<rparr>"

definition reg_response_to :: "RegResponseMsg \<Rightarrow> PRegResponseMsg" where
  "reg_response_to m =
     \<lparr>prs_ip = rs_ip m, prs_prefix_len = ucast (rs_prefix_len m), prs_gateway = rs_gateway m,
      prs_server_version = rs_server_version m\<rparr>"

record ErrorResponseMsg =
  er_code :: u32
  er_message :: string

record ConfirmRegResponseMsg =
  cr_success :: bool

datatype RequestMessage = ReqReg RegRequestMsg | ReqConfirmReg
datatype ResponseMessage = ResReg RegResponseMsg | ResError ErrorResponseMsg | ResConfirmReg ConfirmRegResponseMsg

text \<open>The protobuf \<open>oneof\<close> of a request and of a response; a response may lack its payload.\<close>

datatype PRequestPayload = PReqReg PRegRequestMsg | PReqConfirmReg
datatype PResponsePayload = PResReg PRegResponseMsg | PResError ErrorResponseMsg | PResConfirmReg ConfirmRegResponseMsg

definition request_encode :: "PRequestPayload option codec \<Rightarrow> RequestMessage \<Rightarrow> bytes" where
  "request_encode c m =
     enc c (Some (case m of ReqReg reg \<Rightarrow> PReqReg (reg_request_to reg) | ReqConfirmReg \<Rightarrow> PReqConfirmReg))"

definition response_from_slice :: "PResponsePayload option codec \<Rightarrow> bytes \<Rightarrow> ResponseMessage result" where
  "response_from_slice c buf =
     rbind (ok_or InvalidData (dec c buf)) (\<lambda>msg.
     rbind (ok_or (Bail ''unsupported'') msg) (\<lambda>payload.
       case payload of
         PResReg reg \<Rightarrow> rbind (reg_response_from reg) (\<lambda>r. Inr (ResReg r))
       | PResError e \<Rightarrow> Inr (ResError e)
       | PResConfirmReg r \<Rightarrow> Inr (ResConfirmReg r)))"

definition response_payload :: "ResponseMessage \<Rightarrow> PResponsePayload" where
  "response_payload m =
     (case m of ResReg reg \<Rightarrow> PResReg (reg_response_to reg)
      | ResError e \<Rightarrow> PResError e | ResConfirmReg r \<Rightarrow> PResConfirmReg r)"

definition response_encode :: "PResponsePayload option codec \<Rightarrow> ResponseMessage \<Rightarrow> bytes" where
  "response_encode c m = enc c (Some (response_payload m))"

section \<open>Broadcasts and client lists\<close>

record SelectiveBroadcast =
  sb_ips :: "u32 list"
  sb_data :: bytes

definition selective_broadcast_new :: "ipv4 list \<Rightarrow> bytes \<Rightarrow> SelectiveBroadcast" where
  "selective_broadcast_new ips data = \<lparr>sb_ips = ips, sb_data = data\<rparr>"

record ClientSimpleInfo =
  cs_ip :: ipv4
  cs_online :: bool

record PClientSimpleInfoList =
  pcl_data_version :: u64
  pcl_list :: "(u32 \<times> bool) list"
  pcl_is_all :: bool
  pcl_time :: int

record ClientSimpleInfoList =
  cl_data_version :: u64
  cl_list :: "ClientSimpleInfo list"
  cl_is_all :: bool
  cl_time :: int

definition client_list_from_slice ::
  "PClientSimpleInfoList codec \<Rightarrow> bytes \<Rightarrow> ClientSimpleInfoList result" where
  "client_list_from_slice c buf =
     rbind (ok_or InvalidData (dec c buf)) (\<lambda>msg.
       Inr \<lparr>cl_data_version = pcl_data_version msg,
            cl_list = map (\<lambda>(ip, online). \<lparr>cs_ip = ip, cs_online = online\<rparr>) (pcl_list msg),
            cl_is_all = pcl_is_all msg, cl_time = pcl_time msg\<rparr>)"

section \<open>NAT information\<close>

datatype NatType = Cone | Symmetric

datatype SocketAddr =
    V4 ipv4 u16
  | V6 "u16 list" u16

record NatInfo =
  nat_type :: NatType
  public_ips :: "ipv4 list"
  public_udp_ports :: "u16 list"
  mapping_tcp_addr :: "SocketAddr list"
  mapping_udp_addr :: "SocketAddr list"
  public_port_range :: u16
  local_ipv4 :: ipv4
  local_ipv4s :: "ipv4 list"
  ipv6 :: "bytes option"
  local_udp_ports :: "u16 list"
  local_tcp_port :: u16
  public_tcp_port :: u16

record PNatInfo =
  pn_nat_type :: int
  pn_public_ips :: "u32 list"
  pn_public_udp_ports :: "u32 list"
  pn_public_port_range :: u32
  pn_local_ipv4s :: "u32 list"
  pn_ipv6 :: "bytes option"
  pn_local_udp_ports :: "u32 list"
  pn_local_tcp_port :: u32
  pn_public_tcp_port :: u32

definition encode_nat_info :: "NatInfo \<Rightarrow> PNatInfo" where
  "encode_nat_info n =
     \<lparr>pn_nat_type = (case nat_type n of Cone \<Rightarrow> 0 | Symmetric \<Rightarrow> 1),
      pn_public_ips = public_ips n,
      pn_public_udp_ports = map ucast (public_udp_ports n),
      pn_public_port_range = ucast (public_port_range n),
      pn_local_ipv4s = local_ipv4s n,
      pn_ipv6 = ipv6 n,
      pn_local_udp_ports = map ucast (local_udp_ports n),
      pn_local_tcp_port = ucast (local_tcp_port n),
      pn_public_tcp_port = ucast (public_tcp_port n)\<rparr>"

text \<open>\<open>u16::try_from\<close>, and collecting results: the first error wins.\<close>

definition validate_port :: "u32 \<Rightarrow> u16 result" where
  "validate_port p = (if unat p < 65536 then Inr (ucast p) else Inl (Bail ''invalid port number''))"

fun collect_results :: "'a result list \<Rightarrow> 'a list result" where
  "collect_results [] = Inr []"
| "collect_results (r # rs) = rbind r (\<lambda>x. rbind (collect_results rs) (\<lambda>xs. Inr (x # xs)))"

text \<open>An enumeration field with an unknown number reads as its default, \<open>Cone\<close>.\<close>

definition decode_nat_info :: "PNatInfo \<Rightarrow> NatInfo result" where
  "decode_nat_info m =
     (let nat_type = (if pn_nat_type m = 1 then Symmetric else Cone);
          ipv6 = (case pn_ipv6 m of None \<Rightarrow> None | Some v \<Rightarrow> if length v = 16 then Some v else None);
          public_udp_ports = collect_results (map validate_port (pn_public_udp_ports m));
          local_udp_ports = collect_results (map validate_port (pn_local_udp_ports m)) in
      rbind public_udp_ports (\<lambda>public_udp_ports.
      rbind (validate_port (pn_public_port_range m)) (\<lambda>public_port_range.
      rbind local_udp_ports (\<lambda>local_udp_ports.
      rbind (validate_port (pn_local_tcp_port m)) (\<lambda>local_tcp_port.
      rbind (validate_port (pn_public_tcp_port m)) (\<lambda>public_tcp_port.
        Inr \<lparr>nat_type = nat_type, public_ips = pn_public_ips m,
             public_udp_ports = public_udp_ports,
             mapping_tcp_addr = [], mapping_udp_addr = [],
             public_port_range = public_port_range,
             local_ipv4 = (case pn_local_ipv4s m of [] \<Rightarrow> 0 | v # _ \<Rightarrow> v),
             local_ipv4s = pn_local_ipv4s m, ipv6 = ipv6,
             local_udp_ports = local_udp_ports, local_tcp_port = local_tcp_port,
             public_tcp_port = public_tcp_port\<rparr>))))))"

text \<open>\<open>PunchInfo\<close> wraps one \<open>NatInfo\<close>; its protobuf message may lack it.\<close>

definition punch_info_from_slice :: "PNatInfo option codec \<Rightarrow> bytes \<Rightarrow> NatInfo result" where
  "punch_info_from_slice c buf =
     rbind (ok_or InvalidData (dec c buf)) (\<lambda>msg.
     rbind (ok_or (Bail ''Punched info decode failed.'') msg) decode_nat_info)"

definition punch_info_encode :: "PNatInfo option codec \<Rightarrow> NatInfo \<Rightarrow> bytes" where
  "punch_info_encode c n = enc c (Some (encode_nat_info n))"

section \<open>Round trips\<close>

lemma validate_port_ucast [simp]: "validate_port (ucast p) = Inr p"
proof -
  have lt: "unat p < 65536" using unsigned_less [of p] by simp
  then have "unat (ucast p :: u32) = unat p"
    by (subst unsigned_ucast_eq) (rule take_bit_nat_eq_self, simp)
  with lt have "unat (ucast p :: u32) < 65536" by simp
  moreover have "ucast (ucast p :: u32) = p" by (rule bit_word_eqI) (simp add: bit_simps)
  ultimately show ?thesis by (simp add: validate_port_def)
qed

lemma collect_results_Inr: "collect_results (map (\<lambda>p. Inr (f p)) ps) = Inr (map f ps)"
  by (induction ps) simp_all

lemma collect_ports [simp]: "collect_results (map (validate_port \<circ> ucast) ps) = Inr ps"
  by (induction ps) simp_all

lemma punch_info_from_encoded:
  assumes "codec_at c (Some (encode_nat_info n))"
  shows "punch_info_from_slice c (punch_info_encode c n) =
    Inr (n\<lparr>mapping_tcp_addr := [], mapping_udp_addr := [],
      local_ipv4 := (case local_ipv4s n of [] \<Rightarrow> 0 | v # _ \<Rightarrow> v),
      ipv6 := (case ipv6 n of None \<Rightarrow> None | Some v \<Rightarrow> if length v = 16 then Some v else None)\<rparr>)"
proof -
  have "decode_nat_info (encode_nat_info n) = Inr (n\<lparr>mapping_tcp_addr := [], mapping_udp_addr := [],
      local_ipv4 := (case local_ipv4s n of [] \<Rightarrow> 0 | v # _ \<Rightarrow> v),
      ipv6 := (case ipv6 n of None \<Rightarrow> None | Some v \<Rightarrow> if length v = 16 then Some v else None)\<rparr>)"
    by (cases "nat_type n") (simp_all add: decode_nat_info_def encode_nat_info_def Let_def)
  with assms show ?thesis
    by (simp add: punch_info_from_slice_def punch_info_encode_def codec_at_def)
qed

section \<open>Properties\<close>

text \<open>
  What a peer learns from a punch message: the sender's NAT information, except that the
  local address becomes the first of the advertised local addresses (or \<open>0.0.0.0\<close>), the mapping
  addresses are dropped, and an IPv6 address must have 16 bytes. So filtering only
  \<open>local_ipv4\<close> before sending has no effect on the receiver; the list decides.
\<close>

lemma punch_info_roundtrip:
  assumes "codec_at c (Some (encode_nat_info n))"
  shows "punch_info_from_slice c (punch_info_encode c n) =
    Inr (n\<lparr>mapping_tcp_addr := [], mapping_udp_addr := [],
      local_ipv4 := (case local_ipv4s n of [] \<Rightarrow> 0 | v # _ \<Rightarrow> v),
      ipv6 := (case ipv6 n of None \<Rightarrow> None | Some v \<Rightarrow> if length v = 16 then Some v else None)\<rparr>)"
  using assms by (rule punch_info_from_encoded)

lemma punch_info_roundtrip_witness:
  "let n = \<lparr>nat_type = Symmetric, public_ips = [1], public_udp_ports = [80, 65535], mapping_tcp_addr = [],
       mapping_udp_addr = [], public_port_range = 7, local_ipv4 = 0, local_ipv4s = [5, 6], ipv6 = Some [1, 2],
       local_udp_ports = [9], local_tcp_port = 10, public_tcp_port = 11\<rparr>;
       c = codec_for (Some (encode_nat_info n)) in
   punch_info_from_slice c (punch_info_encode c n) = Inr (n\<lparr>local_ipv4 := 5, ipv6 := None\<rparr>)"
  unfolding Let_def by (subst punch_info_roundtrip) (simp_all add: codec_at_for)

text \<open>
  Registration replies survive encoding and decoding, errors and confirmations included;
  decoding never invents a prefix length above 255 and never fails on an encoded reply.
\<close>

lemma response_roundtrip:
  assumes "codec_at c (Some (response_payload m))"
  shows "response_from_slice c (response_encode c m) = Inr m"
proof -
  have "ucast ((ucast p :: u32) AND 0xFF) = p" for p :: u8
    by (rule u8_eqI) (simp_all add: bit_simps)
  then show ?thesis using assms
    by (cases m) (simp_all add: response_from_slice_def response_encode_def response_payload_def
        codec_at_def reg_response_from_def reg_response_to_def)
qed

lemma response_roundtrip_witness:
  "let m = ResReg \<lparr>rs_ip = 0x0A1A0002, rs_prefix_len = 24, rs_gateway = 0x0A1A0001, rs_server_version = ''2.0''\<rparr>;
       c = codec_for (Some (response_payload m)) in
   response_from_slice c (response_encode c m) = Inr m"
  unfolding Let_def by (rule response_roundtrip [OF codec_at_for])

end
