(* ===== verification/Nat_State.thy ===== *)
theory Nat_State
  imports Context_Stats Messages
begin

text \<open>
  \<open>context/nat.rs\<close>: what this node knows about its own NAT (\<open>MyNatInfo\<close>) and how long it
  waits between two hole-punching attempts at one peer (\<open>PunchBackoff\<close>).

  \<open>Index\<close> and \<open>is_ipv4_global\<close> belong to \<open>rust_p2p_core\<close>: the index keeps the cases the
  program matches on, the predicate is an argument. Clock readings are integers, as the \<open>i64\<close> milliseconds of the code.
\<close>

section \<open>This node's NAT\<close>

datatype UDPIndex = MainV4 nat | MainV6 nat | SubV4 nat
datatype Index = Udp UDPIndex | Tcp nat | OtherIndex

type_synonym MyNatInfo = "NatInfo option"

text \<open>\<open>Ipv6Addr::to_ipv4_mapped\<close>: \<open>::ffff:a.b.c.d\<close>, as eight 16-bit segments.\<close>

definition to_ipv4_mapped :: "u16 list \<Rightarrow> ipv4 option" where
  "to_ipv4_mapped segs =
     (case segs of
        [a, b, c, d, e, f, g, h] \<Rightarrow>
          if a = 0 \<and> b = 0 \<and> c = 0 \<and> d = 0 \<and> e = 0 \<and> f = 0xFFFF
          then Some (push_bit 16 (ucast g) OR ucast h) else None
      | _ \<Rightarrow> None)"

definition mapping_addr :: "SocketAddr \<Rightarrow> (ipv4 \<times> u16) option" where
  "mapping_addr a =
     (case a of
        V4 ip port \<Rightarrow> Some (ip, port)
      | V6 segs port \<Rightarrow> map_option (\<lambda>ip. (ip, port)) (to_ipv4_mapped segs))"

definition add_public_ip :: "ipv4 \<Rightarrow> NatInfo \<Rightarrow> NatInfo" where
  "add_public_ip ip n = (if ip \<in> set (public_ips n) then n else n\<lparr>public_ips := public_ips n @ [ip]\<rparr>)"

definition update_public_addr ::
  "(ipv4 \<Rightarrow> bool) \<Rightarrow> Index \<Rightarrow> SocketAddr \<Rightarrow> MyNatInfo \<Rightarrow> MyNatInfo" where
  "update_public_addr is_global idx a s =
     (case mapping_addr a of
        None \<Rightarrow> s
      | Some (ip, port) \<Rightarrow>
          (case s of
             None \<Rightarrow> None
           | Some n \<Rightarrow>
               if is_global ip then
                 let n = add_public_ip ip n in
                 case idx of
                   Udp u \<Rightarrow>
                     (case u of
                        SubV4 _ \<Rightarrow> Some n
                      | MainV4 i \<Rightarrow> Some (n\<lparr>public_udp_ports := (public_udp_ports n)[i := port]\<rparr>)
                      | MainV6 i \<Rightarrow> Some (n\<lparr>public_udp_ports := (public_udp_ports n)[i := port]\<rparr>))
                 | Tcp _ \<Rightarrow> Some (n\<lparr>public_tcp_port := port\<rparr>)
                 | OtherIndex \<Rightarrow> Some n
               else Some n))"

definition update_tcp_public_addr ::
  "(ipv4 \<Rightarrow> bool) \<Rightarrow> SocketAddr \<Rightarrow> MyNatInfo \<Rightarrow> MyNatInfo" where
  "update_tcp_public_addr is_global a s =
     (case a of
        V6 _ _ \<Rightarrow> s
      | V4 ip port \<Rightarrow>
          (case s of
             None \<Rightarrow> None
           | Some n \<Rightarrow>
               if is_unspecified ip \<and> port = 0 then Some (n\<lparr>public_tcp_port := 0\<rparr>)
               else if is_global ip then Some ((add_public_ip ip n)\<lparr>public_tcp_port := port\<rparr>)
               else Some n))"

definition replace_nat_info :: "NatInfo \<Rightarrow> MyNatInfo \<Rightarrow> MyNatInfo" where
  "replace_nat_info n s = Some n"

definition nat_info_clear :: "MyNatInfo \<Rightarrow> MyNatInfo" where
  "nat_info_clear s = None"

section \<open>Backoff\<close>

record PunchState =
  pb_count :: int
  pb_last_ts :: int

type_synonym PunchBackoff = "(ipv4, PunchState) hashmap"

definition MAX_BACKOFF_MS :: int where "MAX_BACKOFF_MS = 3600000"
definition BASE_MS :: int where "BASE_MS = 3000"

definition punch_record :: "int \<Rightarrow> ipv4 \<Rightarrow> PunchBackoff \<Rightarrow> PunchBackoff" where
  "punch_record now ip s =
     (let entry = get_or_default \<lparr>pb_count = 0, pb_last_ts = 0\<rparr> (hm_get s ip) in
      hm_put ip (entry\<lparr>pb_count := pb_count entry + 1, pb_last_ts := now\<rparr>) s)"

definition punch_reset :: "ipv4 \<Rightarrow> PunchBackoff \<Rightarrow> PunchBackoff" where
  "punch_reset ip s = hm_del ip s"

definition punch_get :: "PunchBackoff \<Rightarrow> ipv4 \<Rightarrow> PunchState option" where
  "punch_get s ip = hm_get s ip"

definition should_punch :: "int \<Rightarrow> PunchBackoff \<Rightarrow> ipv4 \<Rightarrow> bool" where
  "should_punch now s ip =
     (case hm_get s ip of
        None \<Rightarrow> True
      | Some st \<Rightarrow>
          let elapsed = now - pb_last_ts st;
              backoff = BASE_MS * pb_count st;
              backoff = (if backoff > MAX_BACKOFF_MS then MAX_BACKOFF_MS else backoff) in
          elapsed \<ge> backoff)"

definition punch_clear :: "PunchBackoff \<Rightarrow> PunchBackoff" where
  "punch_clear s = []"

section \<open>Properties\<close>

lemma punch_record_get:
  "hm_get (punch_record t ip' s) ip =
     (if ip = ip' then Some \<lparr>pb_count = pb_count (get_or_default \<lparr>pb_count = 0, pb_last_ts = 0\<rparr> (hm_get s ip)) + 1,
        pb_last_ts = t\<rparr> else hm_get s ip)"
  by (simp add: punch_record_def Let_def hm_get_put)

text \<open>The state after a run of attempts, the oldest first.\<close>

lemma punch_run:
  "hm_get (fold (\<lambda>(t, ip) s. punch_record t ip s) as s) ip =
     (let mine = filter (\<lambda>(_, ip'). ip' = ip) as in
      if mine = [] then hm_get s ip
      else Some \<lparr>pb_count = pb_count (get_or_default \<lparr>pb_count = 0, pb_last_ts = 0\<rparr> (hm_get s ip)) + int (length mine),
                pb_last_ts = fst (last mine)\<rparr>)"
proof (induction as arbitrary: s)
  case (Cons a as)
  obtain t ip' where "a = (t, ip')" by fastforce
  with Cons [of "punch_record t ip' s"] show ?case
    by (simp add: Let_def punch_record_get)
qed simp

text \<open>
  Backoff: after \<open>n > 0\<close> attempts at a peer, the last at time \<open>t\<close>, and any attempts at
  others, punching is allowed again exactly from \<open>min (3 s * n) 1 h\<close> after \<open>t\<close>; a peer never
  tried is always allowed. So no peer is ever held off for more than an hour.
\<close>

lemma punch_backoff_window:
  fixes as :: "(int \<times> ipv4) list" and ip :: ipv4
  defines "s \<equiv> fold (\<lambda>(t, ip) s. punch_record t ip s) as []"
    and "mine \<equiv> filter (\<lambda>(_, ip'). ip' = ip) as"
  shows "should_punch now s ip \<longleftrightarrow>
    mine = [] \<or> now - fst (last mine) \<ge> min (3000 * int (length mine)) 3600000"
proof -
  have "hm_get s ip = (if mine = [] then None else Some \<lparr>pb_count = int (length mine), pb_last_ts = fst (last mine)\<rparr>)"
    using punch_run [of as "[]" ip] by (simp add: s_def mine_def Let_def)
  then show ?thesis
    by (auto simp: should_punch_def Let_def BASE_MS_def MAX_BACKOFF_MS_def min_def)
qed

end
