(* ===== verification/Config_Address.thy ===== *)
theory Config_Address
  imports Subnet_Route Messages Packet_Crypto
begin

text \<open>
  The configuration of a node and the addresses it connects to: \<open>context/config.rs\<close>
  (\<open>Config::check\<close> and what is derived from a configuration),
  \<open>tunnel_core/server/transport/config.rs\<close> (server addresses, registration requests, dynamic
  addresses read from DNS TXT records), \<open>utils/dns_query.rs\<close> (the order in which answers of
  name servers are used), \<open>tls/verifier.rs\<close> (certificate validation modes) and
  \<open>port_mapping/mod.rs\<close> (the text form of a port mapping).

  Answers of name servers, random choices (\<open>shuffle\<close>), the \<open>hex\<close> crate, and the parsers of
  socket addresses and networks are arguments.
\<close>

section \<open>Server addresses\<close>

datatype ProtocolType = QuicProto | TlsTcp | Wss | Dynamic

record ProtocolAddress =
  protocol_type :: ProtocolType
  address :: string

definition protocol_address_default :: ProtocolAddress where
  "protocol_address_default = \<lparr>protocol_type = TlsTcp, address = ''127.0.0.1:29872''\<rparr>"

definition parse_server :: "string \<Rightarrow> (ProtocolType \<times> string) result" where
  "parse_server v =
     (let val = to_lowercase (trim v) in
      case strip_prefix ''quic://'' val of Some s \<Rightarrow> Inr (QuicProto, s) | None \<Rightarrow>
      case strip_prefix ''tcp://'' val of Some s \<Rightarrow> Inr (TlsTcp, s) | None \<Rightarrow>
      case strip_prefix ''wss://'' val of Some s \<Rightarrow> Inr (Wss, s) | None \<Rightarrow>
      case strip_prefix ''dynamic://'' val of Some s \<Rightarrow> Inr (Dynamic, s) | None \<Rightarrow>
      if str_contains ''://'' val then Inl (Bail ''Unknown protocol in server address'')
      else Inr (TlsTcp, val))"

definition protocol_address_from_str :: "string \<Rightarrow> ProtocolAddress result" where
  "protocol_address_from_str s =
     rbind (parse_server s) (\<lambda>(p, a). Inr \<lparr>protocol_type = p, address = a\<rparr>)"

fun protocol_prefix :: "ProtocolType \<Rightarrow> string" where
  "protocol_prefix QuicProto = ''quic://''"
| "protocol_prefix TlsTcp = ''tcp://''"
| "protocol_prefix Wss = ''wss://''"
| "protocol_prefix Dynamic = ''dynamic://''"

definition protocol_address_display :: "ProtocolAddress \<Rightarrow> string" where
  "protocol_address_display a = protocol_prefix (protocol_type a) @ address a"

definition strip_port :: "string \<Rightarrow> string" where
  "strip_port addr =
     (case (case strip_prefix ''['' addr of
              None \<Rightarrow> None
            | Some stripped \<Rightarrow> map_option fst (split_once '']'' stripped)) of
        Some inner \<Rightarrow> inner
      | None \<Rightarrow>
          if str_contains '':'' addr \<and> \<not> str_contains ''.'' addr \<and> count_list addr CHR '':'' > 1
          then addr
          else case rsplit_once CHR '':'' addr of
            Some (host, port) \<Rightarrow> if list_all is_digit port then host else addr
          | None \<Rightarrow> addr)"

section \<open>DNS answers\<close>

text \<open>
  \<open>dns_query_txt\<close>: the first name server with a non-empty answer decides; otherwise the last
  error is returned. \<open>txt_dns\<close> is the outcome of asking one server.
\<close>

fun dns_txt_loop :: "(string \<Rightarrow> string list result) \<Rightarrow> error option \<Rightarrow> string list \<Rightarrow> string list result" where
  "dns_txt_loop txt_dns err [] =
     (case err of Some e \<Rightarrow> Inl e | None \<Rightarrow> Inl OtherError)"
| "dns_txt_loop txt_dns err (ns # rest) =
     (case txt_dns ns of
        Inr a \<Rightarrow> if a \<noteq> [] then Inr a else dns_txt_loop txt_dns err rest
      | Inl e \<Rightarrow> dns_txt_loop txt_dns (Some e) rest)"

definition dns_query_txt :: "(string \<Rightarrow> string list result) \<Rightarrow> string list \<Rightarrow> string list result" where
  "dns_query_txt txt_dns name_servers =
     dns_txt_loop txt_dns None
       (if name_servers = [] then [''223.5.5.5:53'', ''114.114.114.114:53''] else name_servers)"

text \<open>
  \<open>dns_query_all\<close>: an address is its own answer; without name servers the system resolver is
  asked; otherwise each name server for both families, the first that yields an address wins.
  \<open>dns_a\<close> and \<open>dns_aaaa\<close> are the outcomes of the two queries.
\<close>

record ('a, 'b) resolver =
  parse_sock :: "string \<Rightarrow> 'a option"
  lookup_host :: "string \<Rightarrow> 'a list result"
  dns_a :: "string \<Rightarrow> string \<Rightarrow> 'b list result"
  dns_aaaa :: "string \<Rightarrow> string \<Rightarrow> 'b list result"
  sock_of :: "'b \<Rightarrow> u16 \<Rightarrow> 'a"

fun dns_all_loop :: "('a, 'b) resolver \<Rightarrow> string \<Rightarrow> error option \<Rightarrow> string list \<Rightarrow> 'a list result" where
  "dns_all_loop R domain err [] = (case err of Some e \<Rightarrow> Inl e | None \<Rightarrow> Inl OtherError)"
| "dns_all_loop R domain err (ns # rest) =
     (case rsplit_once CHR '':'' domain of
        None \<Rightarrow> Inl OtherError
      | Some (host, p) \<Rightarrow>
          (case parse_u16 p of
             None \<Rightarrow> Inl OtherError
           | Some port \<Rightarrow>
               let addr4 = (case dns_a R host ns of Inr rs \<Rightarrow> map (\<lambda>ip. sock_of R ip port) rs | Inl _ \<Rightarrow> []);
                   err4 = (case dns_a R host ns of Inr _ \<Rightarrow> err | Inl e \<Rightarrow> Some e) in
               case dns_aaaa R host ns of
                 Inr rs \<Rightarrow>
                   let addr = addr4 @ map (\<lambda>ip. sock_of R ip port) rs in
                   if addr = [] then dns_all_loop R domain err4 rest else Inr addr
               | Inl e \<Rightarrow>
                   if addr4 = [] then dns_all_loop R domain (Some e) rest else Inr addr4))"

definition dns_query_all :: "('a, 'b) resolver \<Rightarrow> string \<Rightarrow> string list \<Rightarrow> 'a list result" where
  "dns_query_all R domain name_servers =
     (case parse_sock R domain of
        Some a \<Rightarrow> Inr [a]
      | None \<Rightarrow>
          if name_servers = [] then (case lookup_host R domain of Inr as \<Rightarrow> Inr as | Inl _ \<Rightarrow> Inl OtherError)
          else dns_all_loop R domain None name_servers)"

text \<open>\<open>pop\<close> takes the last of the shuffled answers.\<close>

definition dns_query_one ::
  "('a, 'b) resolver \<Rightarrow> ('a list \<Rightarrow> 'a list) \<Rightarrow> string \<Rightarrow> string list \<Rightarrow> 'a result" where
  "dns_query_one R shuffle domain name_servers =
     rbind (dns_query_all R domain name_servers) (\<lambda>vec.
       case rev (shuffle vec) of [] \<Rightarrow> Inl (Bail ''DNS query failed'') | a # _ \<Rightarrow> Inr a)"

section \<open>Connecting\<close>

datatype CertValidationMode = InsecureSkipVerification | VerifyFingerprint bytes | Standard

record ConnectRegConfig =
  cc_server_addr :: ProtocolAddress
  cc_cert_mode :: CertValidationMode
  cc_network_code :: string
  cc_device_id :: string
  cc_device_name :: string
  cc_ip :: "ipv4 option"
  cc_key_sign :: "string option"
  cc_ip_variable :: bool

record 'a ConnectConfig =
  con_protocol_type :: ProtocolType
  con_server_addr :: 'a
  con_server_domain :: string
  con_cert_mode :: CertValidationMode

definition reg_msg_request ::
  "string \<Rightarrow> ConnectRegConfig \<Rightarrow> u32 \<Rightarrow> RegistrationMode \<Rightarrow> RegRequestMsg" where
  "reg_msg_request pkg_version c server_id registration_mode =
     \<lparr>rq_network_code = cc_network_code c, rq_device_id = cc_device_id c, rq_ip = cc_ip c,
      rq_name = cc_device_name c, rq_version = pkg_version, rq_key_sign = cc_key_sign c,
      rq_ip_variable = cc_ip_variable c, rq_server_id = server_id,
      rq_registration_mode = registration_mode\<rparr>"

text \<open>The protocol a TXT record of a dynamic address names.\<close>

definition dynamic_target :: "string \<Rightarrow> ProtocolType \<times> string" where
  "dynamic_target x =
     (case strip_prefix ''udp://'' x of Some v \<Rightarrow> (QuicProto, v) | None \<Rightarrow>
      case strip_prefix ''quic://'' x of Some v \<Rightarrow> (QuicProto, v) | None \<Rightarrow>
      case strip_prefix ''tcp://'' x of Some v \<Rightarrow> (TlsTcp, v) | None \<Rightarrow>
      case strip_prefix ''ws://'' x of Some v \<Rightarrow> (TlsTcp, v) | None \<Rightarrow>
      case strip_prefix ''wss://'' x of Some v \<Rightarrow> (TlsTcp, v) | None \<Rightarrow>
      (TlsTcp, x))"

definition to_connect_config ::
  "(string \<Rightarrow> string \<Rightarrow> string list result) \<Rightarrow> (string list \<Rightarrow> string list) \<Rightarrow> ('a, 'b) resolver \<Rightarrow>
   ('a list \<Rightarrow> 'a list) \<Rightarrow> ConnectRegConfig \<Rightarrow> 'a ConnectConfig result" where
  "to_connect_config txt_dns shuffle_txt R shuffle c =
     rbind
       (case protocol_type (cc_server_addr c) of
          Dynamic \<Rightarrow>
            rbind (dns_query_txt (txt_dns (address (cc_server_addr c))) []) (\<lambda>txt.
              case shuffle_txt txt of
                [] \<Rightarrow> Inl (Bail ''DNS query failed'')
              | x # _ \<Rightarrow> Inr (dynamic_target (to_lowercase x)))
        | v \<Rightarrow> Inr (v, address (cc_server_addr c)))
       (\<lambda>(protocol_type, server_domain).
          rbind (dns_query_one R shuffle server_domain []) (\<lambda>server_addr.
            Inr \<lparr>con_protocol_type = protocol_type, con_server_addr = server_addr,
                 con_server_domain = strip_port server_domain, con_cert_mode = cc_cert_mode c\<rparr>))"

section \<open>Certificate validation\<close>

text \<open>\<open>hex_decode\<close> and \<open>hex_encode\<close> are the functions of the \<open>hex\<close> crate.\<close>

definition cert_mode_from_str :: "(string \<Rightarrow> bytes option) \<Rightarrow> string \<Rightarrow> CertValidationMode result" where
  "cert_mode_from_str hex_decode value =
     (let val = to_lowercase (trim value) in
      if val = ''skip'' then Inr InsecureSkipVerification
      else if val = ''standard'' then Inr Standard
      else case strip_prefix ''finger:'' val of
        Some hex_str \<Rightarrow>
          rbind (ok_or (Bail ''Invalid hex in fingerprint'') (hex_decode hex_str)) (\<lambda>decoded.
            if length decoded \<noteq> 32 then Inl (Bail ''Fingerprint must be 32 bytes'')
            else Inr (VerifyFingerprint decoded))
      | None \<Rightarrow> Inl (Bail ''Unknown certificate validation mode''))"

definition cert_mode_display :: "(bytes \<Rightarrow> string) \<Rightarrow> CertValidationMode \<Rightarrow> string" where
  "cert_mode_display hex_encode m =
     (case m of InsecureSkipVerification \<Rightarrow> ''skip'' | Standard \<Rightarrow> ''standard''
      | VerifyFingerprint f \<Rightarrow> ''finger:'' @ hex_encode f)"

text \<open>
  The verifier \<open>build_verifier\<close> makes of a mode, as the pair of its decisions: on the server's
  certificate and on the handshake signature, which proves possession of the certificate's key.
  \<open>webpki\<close> are the two decisions of the standard verifier.
\<close>

record verifier =
  verify_server_cert :: "bytes \<Rightarrow> bool"
  verify_tls_signature :: "bytes \<Rightarrow> bytes \<Rightarrow> bool"

definition fingerprint_verifier :: "(bytes \<Rightarrow> bytes) \<Rightarrow> bytes \<Rightarrow> verifier" where
  "fingerprint_verifier sha expected =
     \<lparr>verify_server_cert = (\<lambda>end_entity. sha end_entity = expected),
      verify_tls_signature = (\<lambda>cert message. True)\<rparr>"

definition insecure_verifier :: verifier where
  "insecure_verifier = \<lparr>verify_server_cert = (\<lambda>_. True), verify_tls_signature = (\<lambda>_ _. True)\<rparr>"

definition build_verifier :: "(bytes \<Rightarrow> bytes) \<Rightarrow> verifier result \<Rightarrow> CertValidationMode \<Rightarrow> verifier result" where
  "build_verifier sha webpki m =
     (case m of
        InsecureSkipVerification \<Rightarrow> Inr insecure_verifier
      | VerifyFingerprint f \<Rightarrow> Inr (fingerprint_verifier sha f)
      | Standard \<Rightarrow> webpki)"

section \<open>Port mappings\<close>

datatype ip_proto = Icmp | ProtoTcp | ProtoUdp | OtherProto u8

record PortMapping =
  pm_protocol :: ip_proto
  pm_src_addr :: SocketAddr
  pm_virtual_target_ip :: ipv4
  pm_dst_host :: string
  pm_dst_port :: u16

definition str_to_protocol :: "string \<Rightarrow> ip_proto option" where
  "str_to_protocol s =
     (let l = to_lowercase s in
      if l = ''tcp'' then Some ProtoTcp else if l = ''udp'' then Some ProtoUdp else None)"

definition protocol_to_str :: "ip_proto \<Rightarrow> string" where
  "protocol_to_str p = (case p of ProtoTcp \<Rightarrow> ''tcp'' | ProtoUdp \<Rightarrow> ''udp'' | _ \<Rightarrow> ''unknown'')"

definition port_mapping_from_str ::
  "(string \<Rightarrow> SocketAddr option) \<Rightarrow> string \<Rightarrow> PortMapping result" where
  "port_mapping_from_str parse_sock_addr s =
     rbind (ok_or (Bail ''missing ://'') (split_once ''://'' s)) (\<lambda>(proto_str, rest).
     rbind (ok_or (Bail ''unknown protocol'') (str_to_protocol proto_str)) (\<lambda>protocol.
       let parts = splitn 3 CHR ''-'' rest in
       rbind (ok_or (Bail ''missing src_addr'') (if parts = [] then None else Some (parts ! 0))) (\<lambda>src.
       rbind (ok_or (Bail ''invalid src_addr'') (parse_sock_addr src)) (\<lambda>src_addr.
       rbind (ok_or (Bail ''missing virtual_target_ip'') (if length parts \<le> 1 then None else Some (parts ! 1))) (\<lambda>vip.
       rbind (ok_or (Bail ''invalid virtual_target_ip'') (parse_ipv4 vip)) (\<lambda>virtual_target_ip.
       rbind (ok_or (Bail ''missing destination'') (if length parts \<le> 2 then None else Some (parts ! 2))) (\<lambda>dst.
       rbind (ok_or (Bail ''missing dst port'') (rsplit_once CHR '':'' dst)) (\<lambda>(dst_host, dst_port).
       rbind (ok_or (Bail ''invalid dst_port'') (parse_u16 dst_port)) (\<lambda>dst_port.
         if dst_port = 0 then Inl (Bail ''invalid dst port: 0'')
         else Inr \<lparr>pm_protocol = protocol, pm_src_addr = src_addr,
                   pm_virtual_target_ip = virtual_target_ip, pm_dst_host = dst_host,
                   pm_dst_port = dst_port\<rparr>)))))))))"

definition port_mapping_display :: "(SocketAddr \<Rightarrow> string) \<Rightarrow> (ipv4 \<Rightarrow> string) \<Rightarrow> (u16 \<Rightarrow> string) \<Rightarrow> PortMapping \<Rightarrow> string" where
  "port_mapping_display show_sock show_ip show_port m =
     protocol_to_str (pm_protocol m) @ ''://'' @ show_sock (pm_src_addr m) @ ''-'' @
     show_ip (pm_virtual_target_ip m) @ ''-'' @ pm_dst_host m @ '':'' @ show_port (pm_dst_port m)"

section \<open>The configuration\<close>

definition MAX_NETWORK_CODE_LEN :: nat where "MAX_NETWORK_CODE_LEN = 32"
definition MAX_DEVICE_ID_LEN :: nat where "MAX_DEVICE_ID_LEN = 64"
definition MAX_NAME_LEN :: nat where "MAX_NAME_LEN = 128"
definition MAX_MTU :: u16 where "MAX_MTU = 1500"

record Config =
  cfg_server_addr :: "ProtocolAddress list"
  cfg_cert_mode :: CertValidationMode
  cfg_network_code :: string
  cfg_device_id :: string
  cfg_device_name :: string
  cfg_tun_name :: "string option"
  cfg_ip :: "ipv4 option"
  cfg_password :: "string option"
  cfg_no_punch :: bool
  cfg_compress :: bool
  cfg_rtx :: bool
  cfg_fec :: bool
  cfg_input :: "NetInput list"
  cfg_output :: "ipv4net list"
  cfg_no_nat :: bool
  cfg_no_tun :: bool
  cfg_mtu :: "u16 option"
  cfg_port_mapping :: "PortMapping list"
  cfg_allow_port_mapping :: bool
  cfg_udp_stun :: "string list"
  cfg_tcp_stun :: "string list"

text \<open>The loop over the addresses: \<open>set.insert\<close> is false for one seen before.\<close>

fun insert_all_new :: "string list \<Rightarrow> ProtocolAddress list \<Rightarrow> bool" where
  "insert_all_new seen [] = True"
| "insert_all_new seen (a # as) =
     (if address a \<in> set seen then False else insert_all_new (address a # seen) as)"

definition config_check :: "Config \<Rightarrow> unit result" where
  "config_check c =
     (if cfg_server_addr c = [] then Inl (Bail ''no server address'')
      else if length (cfg_server_addr c) > 1 \<and> \<not> insert_all_new [] (cfg_server_addr c)
      then Inl (Bail ''equal server addresses'')
      else if length (cfg_network_code c) > MAX_NETWORK_CODE_LEN
      then Inl (Bail ''network_code length exceeds'')
      else if length (cfg_device_id c) > MAX_DEVICE_ID_LEN
      then Inl (Bail ''device_id length exceeds'')
      else if length (cfg_device_name c) > MAX_NAME_LEN
      then Inl (Bail ''name length exceeds'')
      else if (case cfg_mtu c of Some mtu \<Rightarrow> mtu > MAX_MTU | None \<Rightarrow> False)
      then Inl (Bail ''MTU is too large'')
      else Inr ())"

definition utf8 :: "string \<Rightarrow> bytes" where
  "utf8 s = map of_char s"

definition config_key_sign :: "('k, 'z) aead_scheme \<Rightarrow> Config \<Rightarrow> string option" where
  "config_key_sign A c = map_option (\<lambda>p. key_sign A (utf8 p)) (cfg_password c)"

text \<open>Indexing past the last server address panics.\<close>

definition config_to_connect_config ::
  "('k, 'z) aead_scheme \<Rightarrow> Config \<Rightarrow> nat \<Rightarrow> ConnectRegConfig result" where
  "config_to_connect_config A c index =
     (if index < length (cfg_server_addr c) then
        Inr \<lparr>cc_server_addr = cfg_server_addr c ! index, cc_cert_mode = cfg_cert_mode c,
             cc_network_code = cfg_network_code c, cc_device_id = cfg_device_id c,
             cc_device_name = cfg_device_name c, cc_ip = cfg_ip c,
             cc_key_sign = config_key_sign A c, cc_ip_variable = (cfg_ip c = None)\<rparr>
      else Inl Panic)"

section \<open>Lemmas\<close>

lemma insert_all_new_iff:
  "insert_all_new seen as \<longleftrightarrow> distinct (map address as) \<and> set seen \<inter> address ` set as = {}"
  by (induction seen as rule: insert_all_new.induct) auto

lemma bracket_none: "s = [] \<or> hd s \<noteq> CHR ''['' \<Longrightarrow> strip_prefix ''['' s = None"
  by (cases s) auto

lemma rsplit_digits: "list_all is_digit p \<Longrightarrow> CHR '':'' \<notin> set p"
  by (auto simp: list_all_iff is_digit_def digit_val_def dest!: bspec)

lemma lower_prefix: "to_lowercase (protocol_prefix p) = protocol_prefix p"
  by (cases p) (simp_all add: to_lowercase_def to_lower_def)

lemma prefix_hd: "protocol_prefix p \<noteq> [] \<and> \<not> is_space (hd (protocol_prefix p))"
  by (cases p) (simp_all add: is_space_def)

lemma prefix_last: "\<not> is_space (last (protocol_prefix p))"
  by (cases p) (simp_all add: is_space_def)

lemma trim_prefixed: "a = [] \<or> \<not> is_space (last a) \<Longrightarrow> trim (protocol_prefix p @ a) = protocol_prefix p @ a"
  using prefix_hd [of p] prefix_last [of p] by (intro trim_id) (auto simp: hd_append last_append)

section \<open>Properties\<close>

text \<open>
  \<open>strip_port\<close> on the forms a server address has: a host name or IPv4 address loses a
  decimal port and only that, a bracketed IPv6 address its brackets and whatever follows, a bare
  IPv6 address (two colons or more, no dot) stays whole, a name without a colon too.
\<close>

lemma strip_port_forms:
  assumes "CHR '':'' \<notin> set host" and "host = [] \<or> hd host \<noteq> CHR ''[''"
    and "host \<noteq> []" and "list_all is_digit port" and "CHR '']'' \<notin> set v6"
    and "CHR ''.'' \<notin> set bare" and "1 < count_list bare CHR '':''" and "hd bare \<noteq> CHR ''[''"
  shows "strip_port (host @ CHR '':'' # port) = host \<and> strip_port host = host \<and>
    strip_port (CHR ''['' # v6 @ CHR '']'' # rest) = v6 \<and> strip_port bare = bare"
proof (intro conjI)
  have np: "CHR '':'' \<notin> set port" using assms(4) by (rule rsplit_digits)
  have "hd (host @ CHR '':'' # port) \<noteq> CHR ''[''" using assms(2,3) by (cases host) auto
  then have b: "strip_prefix ''['' (host @ CHR '':'' # port) = None" by (simp add: bracket_none)
  have c: "count_list (host @ CHR '':'' # port) CHR '':'' = 1"
    using assms(1) np by simp
  show "strip_port (host @ CHR '':'' # port) = host"
    using b c np assms(4) by (simp add: strip_port_def rsplit_once_append)
  show "strip_port host = host"
    using assms(1) bracket_none [OF assms(2)]
    by (simp add: strip_port_def str_contains_char rsplit_once_None [THEN iffD2])
  show "strip_port (CHR ''['' # v6 @ CHR '']'' # rest) = v6"
    using assms(5) by (simp add: strip_port_def split_once_char)
  have "CHR '':'' \<in> set bare"
    using assms(7) by (metis count_notin less_numeral_extra(3) not_one_less_zero)
  then show "strip_port bare = bare"
    using assms(6-8) bracket_none [of bare] by (simp add: strip_port_def str_contains_char)
qed

lemma strip_port_forms_witness:
  "strip_port ''vnt.example.com:29872'' = ''vnt.example.com'' \<and> strip_port ''[::1]:443'' = ''::1'' \<and>
   strip_port ''fe80::1'' = ''fe80::1''"
  using strip_port_forms [of "''vnt.example.com''" "''29872''" "''::1''" "''fe80::1''" "'':443''"]
  by (simp add: is_digit_def digit_val_def)

text \<open>
  A server address written by \<open>Display\<close> reads back as itself, with its protocol, as long as
  it is in lower case and does not end in white space.
\<close>

lemma protocol_address_roundtrip:
  assumes "to_lowercase (address a) = address a" and "address a = [] \<or> \<not> is_space (last (address a))"
  shows "protocol_address_from_str (protocol_address_display a) = Inr a"
proof -
  have t: "trim (protocol_address_display a) = protocol_address_display a"
    unfolding protocol_address_display_def using assms(2) by (rule trim_prefixed)
  have l: "to_lowercase (protocol_address_display a) = protocol_address_display a"
    using assms(1) by (simp add: protocol_address_display_def lower_prefix)
  have "parse_server (protocol_address_display a) = Inr (protocol_type a, address a)"
    unfolding parse_server_def t l Let_def unfolding protocol_address_display_def
    by (cases "protocol_type a") simp_all
  then show ?thesis by (simp add: protocol_address_from_str_def)
qed

lemma protocol_address_roundtrip_witness:
  "protocol_address_from_str (protocol_address_display \<lparr>protocol_type = Wss, address = ''a.b:443''\<rparr>) =
     Inr \<lparr>protocol_type = Wss, address = ''a.b:443''\<rparr>"
  by (rule protocol_address_roundtrip) (simp_all add: to_lowercase_def to_lower_def is_space_def)

text \<open>
  A port mapping written by \<open>Display\<close> reads back as itself: for TCP and UDP, a port other
  than zero and any destination host, dashes and colons included, provided the printed source
  address has no dash and the printed parts read back.
\<close>

lemma port_mapping_roundtrip:
  assumes "pm_protocol m = ProtoTcp \<or> pm_protocol m = ProtoUdp" and "pm_dst_port m \<noteq> 0"
    and "parse_sock_addr (show_sock (pm_src_addr m)) = Some (pm_src_addr m)"
    and "CHR ''-'' \<notin> set (show_sock (pm_src_addr m))"
    and "parse_ipv4 (show_ip (pm_virtual_target_ip m)) = Some (pm_virtual_target_ip m)"
    and "CHR ''-'' \<notin> set (show_ip (pm_virtual_target_ip m))"
    and "parse_u16 (show_port (pm_dst_port m)) = Some (pm_dst_port m)"
    and "CHR '':'' \<notin> set (show_port (pm_dst_port m))"
  shows "port_mapping_from_str parse_sock_addr (port_mapping_display show_sock show_ip show_port m) = Inr m"
proof -
  let ?dst = "pm_dst_host m @ CHR '':'' # show_port (pm_dst_port m)"
  let ?rest = "show_sock (pm_src_addr m) @ CHR ''-'' # show_ip (pm_virtual_target_ip m) @ CHR ''-'' # ?dst"
  have disp: "port_mapping_display show_sock show_ip show_port m =
      protocol_to_str (pm_protocol m) @ ''://'' @ ?rest"
    by (simp add: port_mapping_display_def)
  have proto: "split_once ''://'' (protocol_to_str (pm_protocol m) @ ''://'' @ ?rest) =
      Some (protocol_to_str (pm_protocol m), ?rest)"
    "str_to_protocol (protocol_to_str (pm_protocol m)) = Some (pm_protocol m)"
    using assms(1) by (auto simp: protocol_to_str_def str_to_protocol_def to_lowercase_def to_lower_def)
  have parts: "splitn 3 CHR ''-'' ?rest =
      [show_sock (pm_src_addr m), show_ip (pm_virtual_target_ip m), ?dst]"
    using assms(4,6) by (simp add: numeral_3_eq_3 split_once_char)
  show ?thesis
    unfolding disp port_mapping_from_str_def proto(1)
    using assms by (simp add: proto(2) parts rsplit_once_append Let_def)
qed

lemma port_mapping_roundtrip_witness:
  "port_mapping_from_str (\<lambda>s. if s = ''0.0.0.0:81'' then Some (V4 0 81) else None)
     (port_mapping_display (\<lambda>_. ''0.0.0.0:81'') (\<lambda>_. ''10.26.0.2'') (\<lambda>_. ''80'')
       \<lparr>pm_protocol = ProtoUdp, pm_src_addr = V4 0 81, pm_virtual_target_ip = 0x0A1A0002,
        pm_dst_host = ''my-host'', pm_dst_port = 80\<rparr>) =
   Inr \<lparr>pm_protocol = ProtoUdp, pm_src_addr = V4 0 81, pm_virtual_target_ip = 0x0A1A0002,
        pm_dst_host = ''my-host'', pm_dst_port = 80\<rparr>"
  by (rule port_mapping_roundtrip)
    (simp_all add: parse_ipv4_def parse_octet_def parse_u16_def digit_val_def of_be32_def)

end
