(* ===== verification/Server_Info.thy ===== *)
theory Server_Info
  imports Config_Address Context_Stats
begin

text \<open>
  \<open>ServerInfoCollection\<close> of \<open>context/mod.rs\<close>: what each server last reported (round-trip time,
  version of its client list, its clients) and the client list merged over all servers.

  Both maps of the code are behind locks that every operation holds while it runs, so an
  operation is a function on the pair. Client times are \<open>i64\<close> milliseconds; the cast to \<open>u32\<close>
  truncates.
\<close>

section \<open>State\<close>

record ServerNodeInfo =
  sn_server_id :: u32
  sn_server_addr :: ProtocolAddress
  sn_connected :: bool
  sn_rtt :: "u32 option"
  sn_data_version :: u64
  sn_client_map :: "(ipv4, ClientSimpleInfo) hashmap"
  sn_last_connected_time :: "int option"
  sn_disconnected_time :: "int option"
  sn_server_version :: "string option"

record ServerInfoCollection =
  client_simple_list :: "ClientSimpleInfo list"
  server_node_map :: "(u32, ServerNodeInfo) hashmap"

definition server_node_default :: ServerNodeInfo where
  "server_node_default =
     \<lparr>sn_server_id = 0, sn_server_addr = protocol_address_default, sn_connected = False,
      sn_rtt = None, sn_data_version = 0, sn_client_map = [], sn_last_connected_time = None,
      sn_disconnected_time = None, sn_server_version = None\<rparr>"

definition server_info_new :: ServerInfoCollection where
  "server_info_new = \<lparr>client_simple_list = [], server_node_map = []\<rparr>"

section \<open>Queries\<close>

definition server_client_ip_map :: "ServerInfoCollection \<Rightarrow> (u32, ipv4 list \<times> u32) hashmap" where
  "server_client_ip_map s =
     map (\<lambda>(k, v). (k, (map fst (filter (\<lambda>(_, c). cs_online c) (sn_client_map v)),
                        get_or_default 500 (sn_rtt v)))) (server_node_map s)"

definition server_node_list :: "ServerInfoCollection \<Rightarrow> ServerNodeInfo list" where
  "server_node_list s = map snd (server_node_map s)"

text \<open>\<open>min_by_key\<close> on pairs: the first of the pairs with the least second component.\<close>

fun min_by_snd :: "('a \<times> u32) list \<Rightarrow> ('a \<times> u32) option" where
  "min_by_snd [] = None"
| "min_by_snd ((a, r) # xs) =
     (case min_by_snd xs of
        None \<Rightarrow> Some (a, r)
      | Some (b, q) \<Rightarrow> if q < r then Some (b, q) else Some (a, r))"

definition find_connected_server :: "ServerInfoCollection \<Rightarrow> u32 list \<Rightarrow> u32 option" where
  "find_connected_server s server_ids =
     map_option fst (min_by_snd (List.map_filter (\<lambda>i.
       case hm_get (server_node_map s) i of
         None \<Rightarrow> None
       | Some server \<Rightarrow>
           if \<not> sn_connected server then None
           else Some (i, get_or_default (-1) (sn_rtt server))) server_ids))"

definition find_ip_to_server :: "ServerInfoCollection \<Rightarrow> u32 list \<Rightarrow> ipv4 \<Rightarrow> u32 option" where
  "find_ip_to_server s server_ids ip =
     map_option fst (min_by_snd (List.map_filter (\<lambda>i.
       case hm_get (server_node_map s) i of
         None \<Rightarrow> None
       | Some server \<Rightarrow>
           if \<not> sn_connected server then None
           else (case hm_get (sn_client_map server) ip of
             None \<Rightarrow> None
           | Some client \<Rightarrow>
               if \<not> cs_online client then None
               else Some (i, get_or_default (-1) (sn_rtt server)))) server_ids))"

definition client_online_ips :: "ServerInfoCollection \<Rightarrow> ipv4 list" where
  "client_online_ips s = map cs_ip (filter cs_online (client_simple_list s))"

definition data_version :: "ServerInfoCollection \<Rightarrow> u32 \<Rightarrow> u64" where
  "data_version s i = get_or_default 0 (map_option sn_data_version (hm_get (server_node_map s) i))"

definition is_any_server_connected :: "ServerInfoCollection \<Rightarrow> u32 list option \<Rightarrow> bool" where
  "is_any_server_connected s server_ids =
     (case server_ids of
        Some ids \<Rightarrow> list_ex (\<lambda>i. get_or_default False (map_option sn_connected (hm_get (server_node_map s) i))) ids
      | None \<Rightarrow> list_ex (\<lambda>(_, n). sn_connected n) (server_node_map s))"

definition is_server_connected :: "ServerInfoCollection \<Rightarrow> u32 \<Rightarrow> bool" where
  "is_server_connected s i = get_or_default False (map_option sn_connected (hm_get (server_node_map s) i))"

fun server_rtt_loop :: "(u32 \<times> ServerNodeInfo) list \<Rightarrow> ipv4 \<Rightarrow> u32 option" where
  "server_rtt_loop [] ip = None"
| "server_rtt_loop ((_, n) # ns) ip =
     (if \<not> sn_connected n then server_rtt_loop ns ip
      else case hm_get (sn_client_map n) ip of
        Some v \<Rightarrow> if cs_online v then sn_rtt n else server_rtt_loop ns ip
      | None \<Rightarrow> server_rtt_loop ns ip)"

definition get_server_rtt :: "ServerInfoCollection \<Rightarrow> ipv4 \<Rightarrow> u32 option" where
  "get_server_rtt s ip = server_rtt_loop (server_node_map s) ip"

definition exists_online_client_ip :: "ServerInfoCollection \<Rightarrow> ipv4 \<Rightarrow> bool" where
  "exists_online_client_ip s ip \<longleftrightarrow> list_ex (\<lambda>v. cs_ip v = ip \<and> cs_online v) (client_simple_list s)"

section \<open>Updates\<close>

definition update_server :: "(u32 \<times> ProtocolAddress) list \<Rightarrow> ServerInfoCollection \<Rightarrow> ServerInfoCollection" where
  "update_server addrs s =
     \<lparr>client_simple_list = [],
      server_node_map = fold (\<lambda>(i, a). hm_put i (server_node_default\<lparr>sn_server_id := i, sn_server_addr := a\<rparr>)) addrs []\<rparr>"

definition on_node :: "u32 \<Rightarrow> (ServerNodeInfo \<Rightarrow> ServerNodeInfo) \<Rightarrow> ServerInfoCollection \<Rightarrow> ServerInfoCollection" where
  "on_node i f s =
     s\<lparr>server_node_map := hm_put i (f (get_or_default server_node_default (hm_get (server_node_map s) i)))
        (server_node_map s)\<rparr>"

text \<open>One client merged into the map of all: online if any server says so.\<close>

definition merge_client :: "ClientSimpleInfo \<Rightarrow> (ipv4, ClientSimpleInfo) hashmap \<Rightarrow> (ipv4, ClientSimpleInfo) hashmap" where
  "merge_client x m =
     (case hm_get m (cs_ip x) of
        Some v \<Rightarrow> if cs_online x then hm_put (cs_ip x) (v\<lparr>cs_online := True\<rparr>) m else m
      | None \<Rightarrow> hm_put (cs_ip x) x m)"

definition merged_clients :: "(u32, ServerNodeInfo) hashmap \<Rightarrow> (ipv4, ClientSimpleInfo) hashmap" where
  "merged_clients nodes =
     fold (\<lambda>(_, node) m. fold (\<lambda>(_, x). merge_client x) (sn_client_map node) m) nodes []"

definition update_client_simple_list ::
  "u32 \<Rightarrow> ipv4 \<Rightarrow> ClientSimpleInfoList \<Rightarrow> int \<Rightarrow> ServerInfoCollection \<Rightarrow> ServerInfoCollection" where
  "update_client_simple_list server_id self_ip l now s =
     (let mp = fold (\<lambda>c. hm_put (cs_ip c) c) (filter (\<lambda>v. cs_ip v \<noteq> self_ip) (cl_list l)) [];
          s' = on_node server_id (\<lambda>node.
            let node = (if now > cl_time l then node\<lparr>sn_rtt := Some (word_of_int (now - cl_time l))\<rparr> else node);
                node = node\<lparr>sn_data_version := cl_data_version l\<rparr> in
            node\<lparr>sn_client_map := if cl_is_all l then mp
              else fold (\<lambda>(ip, c). hm_put ip c) mp (sn_client_map node)\<rparr>) s in
      s'\<lparr>client_simple_list := map snd (merged_clients (server_node_map s'))\<rparr>)"

definition set_server_connected ::
  "u32 \<Rightarrow> bool \<Rightarrow> ServerInfoCollection \<Rightarrow> bool \<times> ServerInfoCollection" where
  "set_server_connected i val s =
     (sn_connected (get_or_default server_node_default (hm_get (server_node_map s) i)),
      on_node i (\<lambda>n. n\<lparr>sn_connected := val\<rparr>) s)"

definition set_last_connected_time :: "u32 \<Rightarrow> int option \<Rightarrow> ServerInfoCollection \<Rightarrow> ServerInfoCollection" where
  "set_last_connected_time i t s = on_node i (\<lambda>n. n\<lparr>sn_last_connected_time := t\<rparr>) s"

definition set_disconnected_time :: "u32 \<Rightarrow> int option \<Rightarrow> ServerInfoCollection \<Rightarrow> ServerInfoCollection" where
  "set_disconnected_time i t s = on_node i (\<lambda>n. n\<lparr>sn_disconnected_time := t\<rparr>) s"

definition set_server_rtt :: "u32 \<Rightarrow> u32 \<Rightarrow> ServerInfoCollection \<Rightarrow> ServerInfoCollection" where
  "set_server_rtt i r s =
     (case hm_get (server_node_map s) i of None \<Rightarrow> s | Some _ \<Rightarrow> on_node i (\<lambda>n. n\<lparr>sn_rtt := Some r\<rparr>) s)"

definition set_server_version :: "u32 \<Rightarrow> string \<Rightarrow> ServerInfoCollection \<Rightarrow> ServerInfoCollection" where
  "set_server_version i v s =
     (case hm_get (server_node_map s) i of None \<Rightarrow> s
      | Some _ \<Rightarrow> on_node i (\<lambda>n. n\<lparr>sn_server_version := Some v\<rparr>) s)"

definition server_info_clear :: "ServerInfoCollection \<Rightarrow> ServerInfoCollection" where
  "server_info_clear s =
     \<lparr>client_simple_list = [],
      server_node_map = map (\<lambda>(i, n). (i, n\<lparr>sn_connected := False, sn_rtt := None, sn_data_version := 0,
        sn_client_map := [], sn_last_connected_time := None, sn_disconnected_time := None\<rparr>))
        (server_node_map s)\<rparr>"

section \<open>Choosing a server\<close>

lemma min_by_snd_None: "min_by_snd xs = None \<longleftrightarrow> xs = []"
  by (cases xs rule: min_by_snd.cases) (auto split: option.splits)

lemma min_by_snd_Some:
  "min_by_snd xs = Some (a, r) \<Longrightarrow> (a, r) \<in> set xs \<and> (\<forall>(b, q)\<in>set xs. r \<le> q)"
proof (induction xs arbitrary: a r rule: min_by_snd.induct)
  case (2 b q xs)
  show ?case
  proof (cases "min_by_snd xs")
    case None
    with 2 show ?thesis by (simp add: min_by_snd_None)
  next
    case (Some p)
    obtain c t where p: "p = (c, t)" by fastforce
    with 2 Some have IH: "(c, t) \<in> set xs" "\<And>d u. (d, u) \<in> set xs \<Longrightarrow> t \<le> u" by auto
    show ?thesis
    proof (cases "t < q")
      case True
      with 2 Some p IH show ?thesis by auto
    next
      case False
      then have "q \<le> u" if "(d, u) \<in> set xs" for d u
        using IH(2) [OF that] by simp
      with False 2 Some p show ?thesis by auto
    qed
  qed
qed simp

lemma set_map_filter: "y \<in> set (List.map_filter f xs) \<longleftrightarrow> (\<exists>x\<in>set xs. f x = Some y)"
  by (induction xs) (auto simp: map_filter_simps split: option.splits)

definition reaches :: "ServerInfoCollection \<Rightarrow> ipv4 \<Rightarrow> u32 \<Rightarrow> ServerNodeInfo \<Rightarrow> bool" where
  "reaches s ip i n \<longleftrightarrow> hm_get (server_node_map s) i = Some n \<and> sn_connected n \<and>
     (case hm_get (sn_client_map n) ip of None \<Rightarrow> False | Some c \<Rightarrow> cs_online c)"

section \<open>The merged list\<close>

lemma merge_client_get:
  "hm_get (merge_client x m) ip =
     (if cs_ip x = ip then Some (case hm_get m ip of None \<Rightarrow> x
        | Some v \<Rightarrow> if cs_online x then v\<lparr>cs_online := True\<rparr> else v)
      else hm_get m ip)"
  by (auto simp: merge_client_def hm_get_put split: option.splits)

lemma merge_client_ok: "hm_ok m \<Longrightarrow> hm_ok (merge_client x m)"
  by (auto simp: merge_client_def distinct_update split: option.splits)

text \<open>After merging a list: an address is present if it was or is listed, online if ever online.\<close>

definition merged_inv :: "(ipv4, ClientSimpleInfo) hashmap \<Rightarrow> ClientSimpleInfo list \<Rightarrow> bool" where
  "merged_inv m xs \<longleftrightarrow> hm_ok m \<and> (\<forall>ip.
     (case hm_get m ip of
        None \<Rightarrow> \<forall>x\<in>set xs. cs_ip x \<noteq> ip
      | Some v \<Rightarrow> cs_ip v = ip \<and> (\<exists>x\<in>set xs. cs_ip x = ip) \<and>
          (cs_online v \<longleftrightarrow> (\<exists>x\<in>set xs. cs_ip x = ip \<and> cs_online x))))"

lemma merged_inv_step:
  assumes "merged_inv m xs" shows "merged_inv (merge_client x m) (xs @ [x])"
proof -
  have "case hm_get (merge_client x m) ip of
        None \<Rightarrow> \<forall>x\<in>set (xs @ [x]). cs_ip x \<noteq> ip
      | Some v \<Rightarrow> cs_ip v = ip \<and> (\<exists>x\<in>set (xs @ [x]). cs_ip x = ip) \<and>
          (cs_online v \<longleftrightarrow> (\<exists>x\<in>set (xs @ [x]). cs_ip x = ip \<and> cs_online x))" for ip
  proof -
    have old: "case hm_get m ip of
        None \<Rightarrow> \<forall>x\<in>set xs. cs_ip x \<noteq> ip
      | Some v \<Rightarrow> cs_ip v = ip \<and> (\<exists>x\<in>set xs. cs_ip x = ip) \<and>
          (cs_online v \<longleftrightarrow> (\<exists>x\<in>set xs. cs_ip x = ip \<and> cs_online x))"
      using assms by (simp add: merged_inv_def)
    show ?thesis
    proof (cases "hm_get m ip")
      case None
      with old show ?thesis by (simp add: merge_client_get)
    next
      case (Some v)
      with old show ?thesis by (simp add: merge_client_get)
    qed
  qed
  with assms show ?thesis by (simp add: merged_inv_def merge_client_ok)
qed

lemma merged_inv_fold:
  "merged_inv m xs \<Longrightarrow> merged_inv (fold merge_client ys m) (xs @ ys)"
proof (induction ys arbitrary: m xs)
  case (Cons y ys)
  from Cons.IH [OF merged_inv_step [OF Cons.prems, of y]] show ?case by simp
qed simp

definition all_clients :: "(u32, ServerNodeInfo) hashmap \<Rightarrow> ClientSimpleInfo list" where
  "all_clients nodes = concat (map (\<lambda>(_, n). map snd (sn_client_map n)) nodes)"

lemma merged_clients_flat: "merged_clients nodes = fold merge_client (all_clients nodes) []"
proof -
  have "fold (\<lambda>(_, x). merge_client x) l m = fold merge_client (map snd l) m" for l :: "(ipv4 \<times> ClientSimpleInfo) list" and m
    by (simp add: fold_map comp_def case_prod_unfold)
  then have "fold (\<lambda>(_, node) m. fold (\<lambda>(_, x). merge_client x) (sn_client_map node) m) nodes m =
      fold merge_client (all_clients nodes) m" for m
    by (induction nodes arbitrary: m) (auto simp: all_clients_def)
  then show ?thesis by (simp add: merged_clients_def)
qed

lemma merged_clients_inv: "merged_inv (merged_clients nodes) (all_clients nodes)"
proof -
  have "merged_inv [] []" by (simp add: merged_inv_def)
  from merged_inv_fold [OF this, of "all_clients nodes"] show ?thesis
    by (simp add: merged_clients_flat)
qed

lemma merged_list_mem:
  assumes "hm_ok m" "\<And>ip v. hm_get m ip = Some v \<Longrightarrow> cs_ip v = ip"
  shows "distinct (map cs_ip (map snd m)) \<and> (\<forall>v. v \<in> set (map snd m) \<longleftrightarrow> hm_get m (cs_ip v) = Some v)"
proof -
  have key: "cs_ip v = k" if "(k, v) \<in> set m" for k v
    using assms that by (simp add: map_of_eq_Some_iff)
  then have "map cs_ip (map snd m) = map fst m" by auto
  moreover have "v \<in> set (map snd m) \<longleftrightarrow> hm_get m (cs_ip v) = Some v" for v
  proof
    assume "v \<in> set (map snd m)"
    then obtain k where "(k, v) \<in> set m" by auto
    with key [OF this] show "hm_get m (cs_ip v) = Some v" using assms(1) by simp
  next
    assume "hm_get m (cs_ip v) = Some v"
    then have "snd (cs_ip v, v) \<in> snd ` set m" by (intro imageI map_of_SomeD)
    then show "v \<in> set (map snd m)" by simp
  qed
  ultimately show ?thesis using assms(1) by (simp del: map_map)
qed

section \<open>Properties\<close>

text \<open>
  Relay choice: \<open>find_ip_to_server\<close> answers with a listed, connected server that has the
  peer online, and no such server has a smaller round-trip time (unknown counts as largest); it
  answers nothing exactly when there is none.
\<close>

lemma find_ip_to_server_best:
  "case find_ip_to_server s ids ip of
     None \<Rightarrow> (\<forall>i\<in>set ids. \<nexists>n. reaches s ip i n)
   | Some i \<Rightarrow> i \<in> set ids \<and> (\<exists>n. reaches s ip i n \<and>
       (\<forall>j\<in>set ids. \<forall>n'. reaches s ip j n' \<longrightarrow> get_or_default (-1) (sn_rtt n) \<le> get_or_default (-1) (sn_rtt n')))"
proof -
  define f where "f i = (case hm_get (server_node_map s) i of None \<Rightarrow> None
     | Some server \<Rightarrow> if \<not> sn_connected server then None
         else (case hm_get (sn_client_map server) ip of None \<Rightarrow> None
           | Some client \<Rightarrow> if \<not> cs_online client then None
               else Some (i, get_or_default (-1) (sn_rtt server))))" for i
  have f: "f i = Some (j, r) \<longleftrightarrow> i = j \<and> (\<exists>n. reaches s ip i n \<and> r = get_or_default (-1) (sn_rtt n))" for i j r
    by (auto simp: f_def reaches_def split: option.splits if_splits)
  have find: "find_ip_to_server s ids ip = map_option fst (min_by_snd (List.map_filter f ids))"
    by (simp add: find_ip_to_server_def f_def [abs_def])
  have mem: "(j, r) \<in> set (List.map_filter f ids) \<longleftrightarrow>
      j \<in> set ids \<and> (\<exists>n. reaches s ip j n \<and> r = get_or_default (-1) (sn_rtt n))" for j r
    by (auto simp: set_map_filter f)
  show ?thesis
  proof (cases "min_by_snd (List.map_filter f ids)")
    case None
    then have "List.map_filter f ids = []" by (simp add: min_by_snd_None)
    then have "\<not> reaches s ip j n" if "j \<in> set ids" for j n
      using mem that by fastforce
    then show ?thesis using None by (auto simp: find)
  next
    case (Some p)
    obtain i r where p: "p = (i, r)" by fastforce
    from min_by_snd_Some [OF Some [unfolded p]]
    have "(i, r) \<in> set (List.map_filter f ids)"
      and least: "\<And>j q. (j, q) \<in> set (List.map_filter f ids) \<Longrightarrow> r \<le> q" by auto
    then show ?thesis
      unfolding find Some p by (simp add: mem) metis
  qed
qed

lemma find_ip_to_server_best_witness:
  "let n = (\<lambda>r. server_node_default\<lparr>sn_connected := True, sn_rtt := r, sn_client_map := [(7, \<lparr>cs_ip = 7, cs_online = True\<rparr>)]\<rparr>);
       s = \<lparr>client_simple_list = [], server_node_map = [(0, n None), (1, n (Some 40)), (2, n (Some 30))]\<rparr> in
   find_ip_to_server s [0, 1, 2, 3] 7 = Some 2 \<and>
   (\<exists>m. reaches s 7 2 m \<and> (\<forall>j\<in>set [0, 1, 2, 3]. \<forall>n'. reaches s 7 j n' \<longrightarrow>
      get_or_default (-1) (sn_rtt m) \<le> get_or_default (-1) (sn_rtt n')))"
proof -
  define n where "n = (\<lambda>r. server_node_default\<lparr>sn_connected := True, sn_rtt := r, sn_client_map := [(7, \<lparr>cs_ip = 7, cs_online = True\<rparr>)]\<rparr>)"
  define s where "s = \<lparr>client_simple_list = [], server_node_map = [(0, n None), (1, n (Some 40)), (2, n (Some 30))]\<rparr>"
  have v: "find_ip_to_server s [0, 1, 2, 3] 7 = Some 2"
    by (simp add: s_def n_def find_ip_to_server_def List.map_filter_def)
  show ?thesis
    using find_ip_to_server_best [where s = s and ids = "[0, 1, 2, 3]" and ip = 7] v
    unfolding Let_def n_def [symmetric] s_def [symmetric] by simp
qed

text \<open>
  After \<open>update_client_simple_list\<close> the merged client list names every client of every
  server exactly once, and calls it online exactly when some server reports it online.
\<close>

lemma client_list_merges_servers:
  fixes s :: ServerInfoCollection and i :: u32 and self ip :: ipv4 and l :: ClientSimpleInfoList and now :: int
  defines "s' \<equiv> update_client_simple_list i self l now s"
  shows "distinct (map cs_ip (client_simple_list s')) \<and>
    ip \<in> cs_ip ` set (client_simple_list s') = (ip \<in> cs_ip ` set (all_clients (server_node_map s'))) \<and>
    exists_online_client_ip s' ip =
      (\<exists>x\<in>set (all_clients (server_node_map s')). cs_ip x = ip \<and> cs_online x)"
proof -
  let ?m = "merged_clients (server_node_map s')"
  have l: "client_simple_list s' = map snd ?m"
    by (simp add: s'_def update_client_simple_list_def Let_def)
  have inv: "merged_inv ?m (all_clients (server_node_map s'))" by (rule merged_clients_inv)
  then have ok: "hm_ok ?m" and own: "\<And>ip v. hm_get ?m ip = Some v \<Longrightarrow> cs_ip v = ip"
    by (auto simp: merged_inv_def split: option.splits)
  note mem = merged_list_mem [OF ok own]
  have mem': "(\<exists>v\<in>set (map snd ?m). cs_ip v = ip \<and> P v) \<longleftrightarrow> (\<exists>v. hm_get ?m ip = Some v \<and> P v)" for P
    using mem own by blast
  have "ip \<in> cs_ip ` set (map snd ?m) \<longleftrightarrow> hm_get ?m ip \<noteq> None"
    using mem' [of "\<lambda>_. True"] by (auto simp del: set_map)
  moreover have "exists_online_client_ip s' ip \<longleftrightarrow> (\<exists>v. hm_get ?m ip = Some v \<and> cs_online v)"
    using mem' [of cs_online] by (auto simp: exists_online_client_ip_def list_ex_iff l simp del: set_map)
  moreover have "case hm_get ?m ip of
        None \<Rightarrow> \<forall>x\<in>set (all_clients (server_node_map s')). cs_ip x \<noteq> ip
      | Some v \<Rightarrow> (\<exists>x\<in>set (all_clients (server_node_map s')). cs_ip x = ip) \<and>
          (cs_online v \<longleftrightarrow> (\<exists>x\<in>set (all_clients (server_node_map s')). cs_ip x = ip \<and> cs_online x))"
    using inv [unfolded merged_inv_def, THEN conjunct2, THEN spec, of ip] by (auto split: option.splits)
  moreover have "ip \<in> cs_ip ` set (all_clients (server_node_map s')) \<longleftrightarrow>
      (\<exists>x\<in>set (all_clients (server_node_map s')). cs_ip x = ip)" by auto
  ultimately show ?thesis
    using mem unfolding l by (cases "hm_get ?m ip") (simp_all del: set_map map_map, blast?)
qed

end
