(* ===== verification/Fec_Encoder.thy ===== *)
theory Fec_Encoder
  imports Packet_Crypto Messages Context_Stats
begin

text \<open>
  \<open>fec/encoder.rs\<close>: packets to one destination are numbered in groups; a full or overdue group
  gives Reed-Solomon parity packets.

  The erasure code (\<open>reed_solomon_erasure\<close>) and the protobuf codec are arguments, as are clock
  readings and whether the channel to the worker has room. A batch buffer is made by
  \<open>TransmissionBytes::zeroed\<close> and grown by \<open>extend_end\<close> only, so it is the list of its bytes and
  growing appends zeros. \<open>REDUNDANCY_RATE\<close> is 0.2: for the at most \<open>BATCH_SIZE\<close> packets of a
  group the \<open>f32\<close> product rounds to the exact fifth, and its ceiling is \<open>(n + 4) div 5\<close>.
\<close>

record ParityData =
  pd_data_shards :: u32
  pd_parity_shards :: u32

record FecPacket =
  fp_group_id :: u64
  fp_packet_index :: u32
  fp_payload :: bytes
  fp_parity_data :: "ParityData option"

text \<open>
  \<open>rs_new\<close> says whether a code with these numbers of shards exists, \<open>rs_encode\<close> gives the parity
  shards for data shards of one length, \<open>rs_reconstruct\<close> fills in the missing shards.
\<close>

record reed_solomon =
  rs_new :: "nat \<Rightarrow> nat \<Rightarrow> bool"
  rs_encode :: "nat \<Rightarrow> nat \<Rightarrow> bytes list \<Rightarrow> bytes list result"
  rs_reconstruct :: "nat \<Rightarrow> nat \<Rightarrow> bytes option list \<Rightarrow> bytes option list result"

definition BATCH_SIZE :: nat where "BATCH_SIZE = 10"
definition BATCH_TIMEOUT_MS :: nat where "BATCH_TIMEOUT_MS = 20"
definition MIN_PARITY :: nat where "MIN_PARITY = 1"

record DestBatchState =
  db_group_id :: u64
  db_current_batch :: "bytes list"
  db_deadline :: instant
  db_src_ip :: ipv4

type_synonym batch_states = "(ipv4, DestBatchState) hashmap"
type_synonym batch = "ipv4 \<times> ipv4 \<times> u64 \<times> bytes list"

text \<open>The shard of a packet: type byte, flags byte, payload length, payload.\<close>

definition batch_shard :: "bytes \<Rightarrow> bytes" where
  "batch_shard pkt =
     [np_head pkt ! 0, np_head pkt ! 2] @ be16 (of_nat (length (np_payload pkt))) @ np_payload pkt"

definition fec_encode ::
  "FecPacket codec \<Rightarrow> instant \<Rightarrow> bool \<Rightarrow> transmission \<Rightarrow> batch_states \<Rightarrow>
   transmission result \<times> batch option \<times> batch_states" where
  "fec_encode c now room packet states =
     (let src_ip = np_src_id (tb_slice packet); dest = np_dest_id (tb_slice packet) in
      if length (np_payload (tb_slice packet)) > 65535 then (Inl (Bail ''Payload too big''), None, states)
      else
        let original_payload = np_payload (tb_slice packet);
            batch_buffer = batch_shard (tb_slice packet);
            state = get_or_default \<lparr>db_group_id = 0, db_current_batch = [],
              db_deadline = now + millis BATCH_TIMEOUT_MS, db_src_ip = src_ip\<rparr> (hm_get states dest);
            group_id = db_group_id state;
            packet_index = length (db_current_batch state);
            items = db_current_batch state @ [batch_buffer];
            full = length items \<ge> BATCH_SIZE;
            state = (if full then state\<lparr>db_current_batch := [], db_group_id := group_id + 1,
                db_deadline := now + millis BATCH_TIMEOUT_MS\<rparr>
              else state\<lparr>db_current_batch := items\<rparr>);
            sent = (if full \<and> room then Some (src_ip, dest, group_id, items) else None);
            fec_payload = enc c \<lparr>fp_group_id = group_id, fp_packet_index = of_nat packet_index,
              fp_payload = original_payload, fp_parity_data = None\<rparr>;
            packet = tb_resize packet (HEAD_LENGTH + length fec_payload) 0 in
        (rbind (np_set_payload fec_payload (tb_slice packet)) (\<lambda>b.
           Inr (tb_map (np_set_fec_flag True) (tb_write packet b))),
         sent, hm_put dest state states))"

text \<open>The worker's timer: every overdue group is closed, in iteration order.\<close>

definition close_overdue :: "instant \<Rightarrow> ipv4 \<times> DestBatchState \<Rightarrow> (ipv4 \<times> DestBatchState) \<times> batch option" where
  "close_overdue now = (\<lambda>(dest, state).
     if db_current_batch state \<noteq> [] \<and> now \<ge> db_deadline state
     then ((dest, state\<lparr>db_current_batch := [], db_group_id := db_group_id state + 1,
              db_deadline := now + millis BATCH_TIMEOUT_MS\<rparr>),
           Some (db_src_ip state, dest, db_group_id state, db_current_batch state))
     else ((dest, state), None))"

definition fec_tick :: "instant \<Rightarrow> batch_states \<Rightarrow> batch list \<times> batch_states" where
  "fec_tick now states =
     (List.map_filter (snd \<circ> close_overdue now) states, map (fst \<circ> close_overdue now) states)"

definition parity_count :: "nat \<Rightarrow> nat" where
  "parity_count data_shards = max ((data_shards + 4) div 5) MIN_PARITY"

definition pad_to :: "nat \<Rightarrow> bytes \<Rightarrow> bytes" where
  "pad_to n b = b @ replicate (n - length b) 0"

definition parity_packet ::
  "FecPacket codec \<Rightarrow> batch \<Rightarrow> nat \<Rightarrow> nat \<Rightarrow> nat \<Rightarrow> bytes \<Rightarrow> bytes result" where
  "parity_packet c b data_shards parity_shards i parity = (case b of (src, dest, group_id, _) \<Rightarrow>
     (let fec_payload = enc c \<lparr>fp_group_id = group_id, fp_packet_index = of_nat (data_shards + i),
            fp_payload = parity,
            fp_parity_data = Some \<lparr>pd_data_shards = of_nat data_shards, pd_parity_shards = of_nat parity_shards\<rparr>\<rparr> in
      rbind (np_new (replicate (HEAD_LENGTH + length fec_payload) 0)) (\<lambda>p.
      rbind (np_set_payload fec_payload
          (np_set_ttl 5 (np_set_dest_id dest (np_set_src_id src (np_set_msg_type Turn p))))) (\<lambda>p.
        Inr (np_set_fec_flag True p)))))"

text \<open>
  \<open>encode_and_send_parity\<close>, up to the sends: the parity packets of a batch, all for the
  destination of the batch. A send that fails is logged and the next is tried.
\<close>

definition encode_parity :: "FecPacket codec \<Rightarrow> reed_solomon \<Rightarrow> batch \<Rightarrow> bytes list result" where
  "encode_parity c rs b = (case b of (src, dest, group_id, items) \<Rightarrow>
     if items = [] then Inr []
     else
       let data_shards = length items;
           parity_shards = parity_count data_shards;
           max_len = fold max (map length items) 0 in
       if max_len = 0 then Inr []
       else
         let shards = map (pad_to max_len) items in
         if \<not> rs_new rs data_shards parity_shards then Inl OtherError
         else rbind (rs_encode rs data_shards parity_shards shards) (\<lambda>parity.
           collect_results (map (\<lambda>(i, p). parity_packet c b data_shards parity_shards i p)
             (zip [0..<length parity] parity))))"

section \<open>Lemmas\<close>

text \<open>The group state \<open>encode\<close> works on, and the message it wraps the payload in.\<close>

definition batch_state :: "instant \<Rightarrow> bytes \<Rightarrow> batch_states \<Rightarrow> DestBatchState" where
  "batch_state now pkt states =
     get_or_default \<lparr>db_group_id = 0, db_current_batch = [],
       db_deadline = now + millis BATCH_TIMEOUT_MS, db_src_ip = np_src_id pkt\<rparr> (hm_get states (np_dest_id pkt))"

definition fec_message :: "instant \<Rightarrow> bytes \<Rightarrow> batch_states \<Rightarrow> FecPacket" where
  "fec_message now pkt states =
     \<lparr>fp_group_id = db_group_id (batch_state now pkt states),
      fp_packet_index = of_nat (length (db_current_batch (batch_state now pkt states))),
      fp_payload = np_payload pkt, fp_parity_data = None\<rparr>"

text \<open>The packet \<open>encode\<close> returns: the old head with the flag, and the message.\<close>

lemma fec_encode_packet:
  assumes "tb_wf t" and "np_ok (tb_slice t)" and "length (np_payload (tb_slice t)) \<le> 65535"
  obtains t' where "fst (fec_encode c now room t states) = Inr t'" "tb_wf t'"
    "tb_slice t' = np_set_fec_flag True (np_head (tb_slice t) @ enc c (fec_message now (tb_slice t) states))"
proof -
  define p where "p = enc c (fec_message now (tb_slice t) states)"
  let ?r = "tb_resize t (HEAD_LENGTH + length p) 0"
  have s: "tb_slice ?r = resize_list (HEAD_LENGTH + length p) 0 (drop (tb_start t) (tb_buf t))"
    using assms(1) by (rule tb_slice_resize)
  have h: "take HEAD_LENGTH (tb_slice ?r) = np_head (tb_slice t)"
  proof -
    have "HEAD_LENGTH \<le> length (drop (tb_start t) (tb_buf t))"
      and "np_head (tb_slice t) = take HEAD_LENGTH (drop (tb_start t) (tb_buf t))"
      using assms(1,2) by (auto simp: np_ok_def np_head_def tb_slice_def tb_wf_def drop_take min_def split: if_splits)
    then show ?thesis by (simp add: s resize_list_def)
  qed
  have len: "length (tb_slice ?r) = HEAD_LENGTH + length p" by (simp add: s)
  have body: "np_set_payload p (tb_slice ?r) = Inr (np_head (tb_slice t) @ p)"
    using h len by (simp add: np_set_payload_def splice_exact)
  let ?w = "tb_write ?r (np_head (tb_slice t) @ p)"
  have hl: "length (np_head (tb_slice t)) = HEAD_LENGTH" using assms(2) by (simp add: np_head_def np_ok_def)
  then have wr: "length (np_head (tb_slice t) @ p) = tb_len ?r"
    using len length_tb_slice [OF tb_wf_resize, of t "HEAD_LENGTH + length p" 0] by simp
  have w: "tb_slice ?w = np_head (tb_slice t) @ p" "tb_wf ?w"
    using wr by (simp_all add: tb_slice_write tb_wf_write tb_wf_resize)
  have okw: "np_ok (tb_slice ?w)" using hl by (simp add: w np_ok_def)
  have fl: "length (np_set_fec_flag True (tb_slice ?w)) = length (tb_slice ?w)"
    unfolding np_set_fec_flag_def using okw by (rule length_np_header_mut)
  have "fst (fec_encode c now room t states) = Inr (tb_map (np_set_fec_flag True) ?w)"
    using assms(3) body by (simp add: fec_encode_def Let_def p_def fec_message_def batch_state_def)
  moreover have "tb_slice (tb_map (np_set_fec_flag True) ?w) = np_set_fec_flag True (np_head (tb_slice t) @ p)"
    using w fl by (simp add: tb_slice_map)
  moreover have "tb_wf (tb_map (np_set_fec_flag True) ?w)" using w(2) fl by (rule tb_wf_map)
  ultimately show ?thesis using that unfolding p_def by blast
qed

text \<open>Groups stay below \<open>BATCH_SIZE\<close>, whatever happens.\<close>

definition batches_ok :: "batch_states \<Rightarrow> bool" where
  "batches_ok states \<longleftrightarrow> (\<forall>ip st. hm_get states ip = Some st \<longrightarrow> length (db_current_batch st) < BATCH_SIZE)"

lemma batch_state_small: "batches_ok states \<Longrightarrow> length (db_current_batch (batch_state now pkt states)) < BATCH_SIZE"
  by (auto simp: batches_ok_def batch_state_def get_or_default_def BATCH_SIZE_def split: option.splits)

lemma batches_ok_encode:
  assumes "batches_ok states" shows "batches_ok (snd (snd (fec_encode c now room t states)))"
proof (cases "length (np_payload (tb_slice t)) > 65535")
  case True
  with assms show ?thesis by (simp add: fec_encode_def Let_def)
next
  case False
  then have "hm_get (snd (snd (fec_encode c now room t states))) ip =
    (if ip = np_dest_id (tb_slice t) then Some
      (let st = batch_state now (tb_slice t) states; items = db_current_batch st @ [batch_shard (tb_slice t)] in
       if length items \<ge> BATCH_SIZE then st\<lparr>db_current_batch := [], db_group_id := db_group_id st + 1,
          db_deadline := now + millis BATCH_TIMEOUT_MS\<rparr> else st\<lparr>db_current_batch := items\<rparr>)
     else hm_get states ip)" for ip
    by (simp add: fec_encode_def Let_def hm_get_put batch_state_def)
  with assms show ?thesis
    by (auto simp: batches_ok_def Let_def BATCH_SIZE_def split: if_splits)
qed

lemma batches_ok_tick:
  assumes "batches_ok states" shows "batches_ok (snd (fec_tick now states))"
proof -
  define F where "F k st = snd (fst (close_overdue now (k, st)))" for k st
  have "fst \<circ> close_overdue now = (\<lambda>(k, st). (k, F k st))"
    by (auto simp: F_def close_overdue_def)
  then have "snd (fec_tick now states) = map (\<lambda>(k, st). (k, F k st)) states"
    by (simp add: fec_tick_def)
  moreover have "hm_get (map (\<lambda>(k, st). (k, F k st)) m) ip = map_option (F ip) (hm_get m ip)"
    for m :: batch_states and ip
    by (induction m) auto
  moreover have "length (db_current_batch (F k st)) \<le> length (db_current_batch st)" for k st
    by (simp add: F_def close_overdue_def)
  ultimately show ?thesis using assms
    by (auto simp: batches_ok_def) (metis le_less_trans)
qed

end
