(* ===== verification/Fec_Decoder.thy ===== *)
theory Fec_Decoder
  imports Fec_Encoder
begin

text \<open>
  \<open>fec/decoder.rs\<close>: packets and parity packets are collected per source and group; a group with
  enough shards is completed by Reed-Solomon reconstruction.

  A packet is its bytes (\<open>NetPacket\<close> over buffers made with \<open>zeroed\<close>). \<open>receive\<close> returns the new
  state with its result, so that what an early return leaves behind is part of the model. The
  clock is read once per call.
\<close>

definition GROUP_TIMEOUT :: nat where "GROUP_TIMEOUT = secs 3"
definition MAX_GROUPS :: nat where "MAX_GROUPS = 1000"
definition MAX_NUM :: nat where "MAX_NUM = 50"

record FecGroup =
  fg_data_shards :: nat
  fg_parity_shards :: nat
  fg_received_original_count :: nat
  fg_received_shards :: "bytes option list"
  fg_last_update :: instant

record FecDecoder =
  fd_groups :: "(ipv4 \<times> u64, FecGroup) hashmap"
  fd_last_cleanup :: instant

definition group_is_done :: "FecGroup \<Rightarrow> bool" where
  "group_is_done g \<longleftrightarrow> fg_data_shards g \<noteq> 0 \<and> fg_received_original_count g = fg_data_shards g"

definition group_done :: "FecGroup \<Rightarrow> FecGroup" where
  "group_done g = g\<lparr>fg_received_original_count := fg_data_shards g, fg_received_shards := []\<rparr>"

definition group_default :: "instant \<Rightarrow> FecGroup" where
  "group_default now = \<lparr>fg_data_shards = 0, fg_parity_shards = 0, fg_received_original_count = 0,
     fg_received_shards = [], fg_last_update = now\<rparr>"

definition decoder_new :: "instant \<Rightarrow> FecDecoder" where
  "decoder_new now = \<lparr>fd_groups = [], fd_last_cleanup = now\<rparr>"

section \<open>Recovery\<close>

definition rebuild_net_packet :: "bytes \<Rightarrow> bytes \<Rightarrow> bytes result" where
  "rebuild_net_packet current_packet recovered_data =
     (if length recovered_data < 4 then Inl (Bail ''recovered_data too short'')
      else
        let payload_len = unat (of_be16 (recovered_data ! 2) (recovered_data ! 3)) in
        if payload_len + 4 > length recovered_data then Inl (Bail ''invalid payload_len in recovered_data'')
        else
          let payload = sub 4 (4 + payload_len) recovered_data in
          rbind (np_new (replicate (HEAD_LENGTH + length payload) 0)) (\<lambda>p.
            let p = p[0 := recovered_data ! 0];
                p = p[2 := recovered_data ! 1];
                p = np_set_src_id (np_src_id current_packet) p;
                p = np_set_dest_id (np_dest_id current_packet) p;
                p = np_set_ttl (np_ttl current_packet) p;
                p = np_set_fec_flag False p in
            np_set_payload payload p))"

text \<open>The loop over the reconstructed data shards: those not delivered before are rebuilt.\<close>

fun rebuild_missing :: "bytes \<Rightarrow> bool list \<Rightarrow> bytes option list \<Rightarrow> bytes list result" where
  "rebuild_missing cur (True # ds) (_ # ss) = rebuild_missing cur ds ss"
| "rebuild_missing cur (False # ds) (None # ss) = rebuild_missing cur ds ss"
| "rebuild_missing cur (False # ds) (Some s # ss) =
     rbind (rebuild_net_packet cur s) (\<lambda>p. rbind (rebuild_missing cur ds ss) (\<lambda>ps. Inr (p # ps)))"
| "rebuild_missing cur _ _ = Inr []"

text \<open>\<open>decode_with_rs\<close>: the new group, and the packets recovered.\<close>

definition decode_with_rs ::
  "reed_solomon \<Rightarrow> FecGroup \<Rightarrow> bytes \<Rightarrow> FecGroup \<times> bytes list option result" where
  "decode_with_rs rs g cur =
     (if length (fg_received_shards g) \<noteq> fg_data_shards g + fg_parity_shards g
      then (g, Inl (Bail ''received_shards.len() != data_shards+parity_shards''))
      else
        let delivered = map (\<lambda>x. x \<noteq> None) (take (fg_data_shards g) (fg_received_shards g)) in
        if \<not> rs_new rs (fg_data_shards g) (fg_parity_shards g) then (g, Inl OtherError)
        else case rs_reconstruct rs (fg_data_shards g) (fg_parity_shards g) (fg_received_shards g) of
          Inl e \<Rightarrow> (g, Inl e)
        | Inr shards \<Rightarrow>
            (case rebuild_missing cur delivered (take (fg_data_shards g) shards) of
               Inl e \<Rightarrow> (g\<lparr>fg_received_shards := shards\<rparr>, Inl e)
             | Inr result \<Rightarrow> (group_done (g\<lparr>fg_received_shards := shards\<rparr>), Inr (Some result))))"

definition try_decode ::
  "reed_solomon \<Rightarrow> FecGroup \<Rightarrow> bytes \<Rightarrow> FecGroup \<times> bytes list option result" where
  "try_decode rs g cur =
     (if fg_data_shards g = 0 then (g, Inr None)
      else if fg_received_original_count g = fg_data_shards g then (g, Inr None)
      else if length (filter (\<lambda>s. s \<noteq> None) (fg_received_shards g)) < fg_data_shards g then (g, Inr None)
      else decode_with_rs rs g cur)"

section \<open>Reception\<close>

definition cleanup_old_groups ::
  "instant \<Rightarrow> (ipv4 \<times> u64, FecGroup) hashmap \<Rightarrow> (ipv4 \<times> u64, FecGroup) hashmap" where
  "cleanup_old_groups now groups =
     (let groups = filter (\<lambda>(_, g). now - fg_last_update g < GROUP_TIMEOUT) groups in
      if length groups > MAX_GROUPS then
        let group_ids = sort_key snd (map (\<lambda>(i, g). (i, fg_last_update g)) groups);
            to_remove = length group_ids - MAX_GROUPS in
        fold (\<lambda>(i, _). hm_del i) (take to_remove group_ids) groups
      else groups)"

definition maybe_cleanup :: "instant \<Rightarrow> FecDecoder \<Rightarrow> FecDecoder" where
  "maybe_cleanup now d =
     (if now - fd_last_cleanup d > secs 1
      then d\<lparr>fd_groups := cleanup_old_groups now (fd_groups d), fd_last_cleanup := now\<rparr> else d)"

text \<open>\<open>Vec::resize\<close> upwards, then the assignment of one slot.\<close>

definition put_shard :: "nat \<Rightarrow> nat \<Rightarrow> bytes \<Rightarrow> bytes option list \<Rightarrow> bytes option list" where
  "put_shard n i s l = ((if length l < n then resize_list n None l else l))[i := Some s]"

text \<open>The shard a received packet is stored as; the packet is delivered without the flag.\<close>

definition decoder_shard :: "bytes \<Rightarrow> bytes \<Rightarrow> bytes" where
  "decoder_shard pkt payload =
     [np_head pkt ! 0, np_head pkt ! 2] @ be16 (of_nat (length payload)) @ payload"

definition parity_checks :: "FecGroup \<Rightarrow> nat \<Rightarrow> nat \<Rightarrow> nat \<Rightarrow> error option" where
  "parity_checks g packet_index data_shards parity_shards =
     (if data_shards > MAX_NUM then Some (Bail ''data_shards overflow'')
      else if parity_shards > MAX_NUM then Some (Bail ''parity_shards overflow'')
      else if data_shards + parity_shards \<le> packet_index then Some (Bail ''packet_index overflow'')
      else if fg_data_shards g \<noteq> 0 \<and> fg_data_shards g \<noteq> data_shards
      then Some (Bail ''group data_shards!=data_shards'')
      else if fg_parity_shards g \<noteq> 0 \<and> fg_parity_shards g \<noteq> parity_shards
      then Some (Bail ''group parity_shards!=parity_shards'')
      else None)"

text \<open>A shard stored in its group, with the packet to deliver when it is an original.\<close>

definition store_shard ::
  "bytes \<Rightarrow> nat \<Rightarrow> FecPacket \<Rightarrow> FecGroup \<Rightarrow> (FecGroup \<times> bytes option) result" where
  "store_shard net_packet packet_index fec g =
     (case fp_parity_data fec of
        Some pd \<Rightarrow>
          let data_shards = unat (pd_data_shards pd); parity_shards = unat (pd_parity_shards pd) in
          (case parity_checks g packet_index data_shards parity_shards of
             Some e \<Rightarrow> Inl e
           | None \<Rightarrow>
               Inr (g\<lparr>fg_data_shards := data_shards, fg_parity_shards := parity_shards,
                      fg_received_shards := put_shard (data_shards + parity_shards) packet_index
                        (fp_payload fec) (fg_received_shards g)\<rparr>, None))
      | None \<Rightarrow>
          rbind (np_new (replicate (HEAD_LENGTH + length (fp_payload fec)) 0)) (\<lambda>p.
          rbind (np_set_payload (fp_payload fec) (np_set_fec_flag False (splice 0 (np_head net_packet) p))) (\<lambda>p.
            Inr (g\<lparr>fg_received_shards := put_shard (packet_index + 1) packet_index
                       (decoder_shard net_packet (fp_payload fec)) (fg_received_shards g),
                   fg_received_original_count := fg_received_original_count g + 1\<rparr>, Some p))))"

definition combine_results :: "bytes option \<Rightarrow> bytes list option \<Rightarrow> bytes list option" where
  "combine_results packet recovered =
     (case (packet, recovered) of
        (Some p, Some r) \<Rightarrow> Some (r @ [p])
      | (Some p, None) \<Rightarrow> Some [p]
      | (None, Some r) \<Rightarrow> Some r
      | (None, None) \<Rightarrow> None)"

definition set_group :: "ipv4 \<times> u64 \<Rightarrow> FecGroup \<Rightarrow> FecDecoder \<Rightarrow> FecDecoder" where
  "set_group k g d = d\<lparr>fd_groups := hm_put k g (fd_groups d)\<rparr>"

definition fec_receive ::
  "FecPacket codec \<Rightarrow> reed_solomon \<Rightarrow> instant \<Rightarrow> bytes \<Rightarrow> FecDecoder \<Rightarrow>
   FecDecoder \<times> bytes list option result" where
  "fec_receive c rs now net_packet d =
     (let src_ip = np_src_id net_packet in
      case dec c (np_payload net_packet) of
        None \<Rightarrow> (d, Inl InvalidData)
      | Some fec \<Rightarrow>
          let key = (src_ip, fp_group_id fec); packet_index = unat (fp_packet_index fec) in
          if packet_index > MAX_NUM then (d, Inl (Bail ''packet_index overflow''))
          else
            let g = get_or_default (group_default now) (hm_get (fd_groups d) key);
                d = set_group key g d in
            if group_is_done g then (d, Inr None)
            else if packet_index < length (fg_received_shards g) \<and> fg_received_shards g ! packet_index \<noteq> None
            then (d, Inr None)
            else case store_shard net_packet packet_index fec g of
              Inl e \<Rightarrow> (d, Inl e)
            | Inr (g, packet) \<Rightarrow>
                let g = g\<lparr>fg_last_update := now\<rparr> in
                if group_is_done g
                then (maybe_cleanup now (set_group key (group_done g) d), Inr (map_option (\<lambda>v. [v]) packet))
                else case try_decode rs g net_packet of
                  (g, Inl e) \<Rightarrow> (set_group key g d, Inl e)
                | (g, Inr result) \<Rightarrow>
                    (maybe_cleanup now (set_group key g d), Inr (combine_results packet result)))"

section \<open>Bounds\<close>

text \<open>
  What a group may hold. An index up to \<open>MAX_NUM\<close> itself is let through, so there is a place for one more original than a group may declare, and as many may come
  while no parity packet has said how many there are. Each original counted is in one of these places until the group is done.
\<close>

definition places_taken :: "bytes option list \<Rightarrow> nat" where
  "places_taken l = length (filter (\<lambda>s. s \<noteq> None) (take (MAX_NUM + 1) l))"

definition group_bounded :: "FecGroup \<Rightarrow> bool" where
  "group_bounded g \<longleftrightarrow> fg_data_shards g \<le> MAX_NUM \<and> fg_parity_shards g \<le> MAX_NUM \<and>
     length (fg_received_shards g) \<le> 2 * MAX_NUM \<and>
     (fg_received_original_count g \<le> places_taken (fg_received_shards g) \<or> group_is_done g)"

definition decoder_bounded :: "FecDecoder \<Rightarrow> bool" where
  "decoder_bounded d \<longleftrightarrow> (\<forall>k g. hm_get (fd_groups d) k = Some g \<longrightarrow> group_bounded g) \<and> hm_ok (fd_groups d)"

lemma group_bounded_originals: "group_bounded g \<Longrightarrow> fg_received_original_count g \<le> MAX_NUM + 1"
proof -
  have "places_taken l \<le> MAX_NUM + 1" for l
    unfolding places_taken_def by (rule order_trans [OF length_filter_le]) simp
  then show "group_bounded g \<Longrightarrow> fg_received_original_count g \<le> MAX_NUM + 1"
    unfolding group_bounded_def group_is_done_def by (metis le_add1 order_trans)
qed

text \<open>Reconstruction keeps the number of shards and the shards that are there.\<close>

definition rs_keeps_shards :: "reed_solomon \<Rightarrow> bool" where
  "rs_keeps_shards rs \<longleftrightarrow> (\<forall>d p l l'. rs_reconstruct rs d p l = Inr l' \<longrightarrow>
     list_all2 (\<lambda>x x'. x \<noteq> None \<longrightarrow> x' = x) l l')"

lemma places_taken_mono: "list_all2 (\<lambda>x x'. x \<noteq> None \<longrightarrow> x' = x) l l' \<Longrightarrow> places_taken l \<le> places_taken l'"
proof -
  have "length (filter (\<lambda>s. s \<noteq> None) l) \<le> length (filter (\<lambda>s. s \<noteq> None) l')"
    if "list_all2 (\<lambda>x x'. x \<noteq> None \<longrightarrow> x' = x) l l'" for l l' :: "bytes option list"
    using that by (induction rule: list_all2_induct) auto
  then show "list_all2 (\<lambda>x x'. x \<noteq> None \<longrightarrow> x' = x) l l' \<Longrightarrow> places_taken l \<le> places_taken l'"
    by (simp add: places_taken_def list_all2_takeI)
qed

text \<open>A shard put into a free place takes one more of them.\<close>

lemma places_taken_put:
  assumes "i \<le> MAX_NUM" and "i < n" and "\<not> (i < length l \<and> l ! i \<noteq> None)"
  shows "places_taken (put_shard n i s l) = Suc (places_taken l)"
proof -
  define l' where "l' = (if length l < n then resize_list n None l else l)"
  have more: "places_taken l' = places_taken l"
    by (simp add: places_taken_def l'_def resize_list_def filter_empty_conv)
  have i: "i < length (take (MAX_NUM + 1) l')" using assms(1,2) by (simp add: l'_def)
  have free: "take (MAX_NUM + 1) l' ! i = None"
    using assms by (auto simp: l'_def resize_list_def nth_append)
  let ?t = "take (MAX_NUM + 1) l'"
  have "length (filter (\<lambda>s. s \<noteq> None) (?t[i := Some s])) = Suc (length (filter (\<lambda>s. s \<noteq> None) ?t))"
    unfolding upd_conv_take_nth_drop [OF i] using free by (subst (3) id_take_nth_drop [OF i]) simp
  then show ?thesis
    using more by (simp add: put_shard_def places_taken_def take_update_swap flip: l'_def)
qed

lemma length_put_shard: "length (put_shard n i s l) = max n (length l)"
  by (simp add: put_shard_def)

lemma group_bounded_default: "group_bounded (group_default now)"
  by (simp add: group_bounded_def group_default_def)

lemma group_bounded_done: "group_bounded g \<Longrightarrow> group_bounded (group_done g)"
  by (auto simp: group_bounded_def group_done_def group_is_done_def)

lemma group_bounded_update: "group_bounded g \<Longrightarrow> group_bounded (g\<lparr>fg_last_update := t\<rparr>)"
  by (simp add: group_bounded_def group_is_done_def)

lemma store_shard_bounded:
  assumes "store_shard p i fec g = Inr (g', r)" "group_bounded g" "i \<le> MAX_NUM" "\<not> group_is_done g"
    and "\<not> (i < length (fg_received_shards g) \<and> fg_received_shards g ! i \<noteq> None)"
  shows "group_bounded g'"
proof (cases "fp_parity_data fec")
  case None
  with assms places_taken_put [OF assms(3) _ assms(5)] show ?thesis
    by (auto simp: store_shard_def rbind_eq_Inr group_bounded_def length_put_shard MAX_NUM_def)
next
  case (Some pd)
  with assms places_taken_put [OF assms(3) _ assms(5)] show ?thesis
    by (auto simp: store_shard_def parity_checks_def Let_def group_bounded_def length_put_shard
        split: if_splits)
qed

lemma try_decode_bounded:
  assumes "rs_keeps_shards rs" "group_bounded g" shows "group_bounded (fst (try_decode rs g cur))"
proof -
  have "length l' = length (fg_received_shards g) \<and> places_taken (fg_received_shards g) \<le> places_taken l'"
    if "rs_reconstruct rs (fg_data_shards g) (fg_parity_shards g) (fg_received_shards g) = Inr l'" for l'
  proof -
    have "list_all2 (\<lambda>x x'. x \<noteq> None \<longrightarrow> x' = x) (fg_received_shards g) l'"
      using assms(1) that unfolding rs_keeps_shards_def by blast
    then show ?thesis using places_taken_mono by (simp add: list_all2_lengthD)
  qed
  with assms(2) show ?thesis
    by (fastforce simp: try_decode_def decode_with_rs_def Let_def group_bounded_def group_done_def group_is_done_def
        split: sum.splits)
qed

lemma cleanup_bounded:
  assumes "hm_ok groups" "\<And>k g. hm_get groups k = Some g \<Longrightarrow> group_bounded g"
  shows "hm_ok (cleanup_old_groups now groups)"
    "hm_get (cleanup_old_groups now groups) k = Some g \<Longrightarrow> group_bounded g"
proof -
  let ?f = "filter (\<lambda>(_, g). now - fg_last_update g < GROUP_TIMEOUT) groups"
  have del: "fold (\<lambda>(i, _). hm_del i) l m = fold hm_del (map fst l) m" for l :: "((ipv4 \<times> u64) \<times> instant) list" and m :: "(ipv4 \<times> u64, FecGroup) hashmap"
    by (simp add: fold_map comp_def case_prod_unfold)
  have get: "hm_get ?f k = Some g \<Longrightarrow> group_bounded g" for k g
    using assms by (auto simp: hm_get_filter split: option.splits if_splits)
  show "hm_ok (cleanup_old_groups now groups)"
    unfolding cleanup_old_groups_def Let_def del using hm_ok_filter [OF assms(1)]
    by (auto simp: hm.ok_fold_del)
  show "hm_get (cleanup_old_groups now groups) k = Some g \<Longrightarrow> group_bounded g"
    unfolding cleanup_old_groups_def Let_def del using get
    by (auto simp: hm.get_fold_del split: if_splits)
qed

lemma decoder_boundedD:
  "decoder_bounded d \<Longrightarrow> hm_get (fd_groups d) k = Some g \<Longrightarrow> group_bounded g"
  "decoder_bounded d \<Longrightarrow> hm_ok (fd_groups d)"
  unfolding decoder_bounded_def by blast+

lemma decoder_boundedI:
  "(\<And>k g. hm_get (fd_groups d) k = Some g \<Longrightarrow> group_bounded g) \<Longrightarrow> hm_ok (fd_groups d) \<Longrightarrow> decoder_bounded d"
  unfolding decoder_bounded_def by blast

lemma maybe_cleanup_bounded:
  assumes "decoder_bounded d" shows "decoder_bounded (maybe_cleanup now d)"
proof (cases "now - fd_last_cleanup d > secs 1")
  case True
  then have "fd_groups (maybe_cleanup now d) = cleanup_old_groups now (fd_groups d)"
    by (simp add: maybe_cleanup_def)
  with cleanup_bounded [OF decoder_boundedD(2) decoder_boundedD(1), OF assms assms]
  show ?thesis by (intro decoder_boundedI) simp_all
next
  case False
  then have "maybe_cleanup now d = d" by (simp add: maybe_cleanup_def)
  with assms show ?thesis by simp
qed

lemma set_group_bounded:
  assumes "decoder_bounded d" "group_bounded g" shows "decoder_bounded (set_group k g d)"
proof (rule decoder_boundedI)
  show "group_bounded g'" if "hm_get (fd_groups (set_group k g d)) k' = Some g'" for k' g'
    using that assms(2) decoder_boundedD(1) [OF assms(1), of k' g']
    by (auto simp: set_group_def hm_get_put split: if_splits)
  show "hm_ok (fd_groups (set_group k g d))"
    using decoder_boundedD(2) [OF assms(1)] by (simp add: set_group_def distinct_update)
qed

lemma group_of_bounded:
  "decoder_bounded d \<Longrightarrow> group_bounded (get_or_default (group_default now) (hm_get (fd_groups d) k))"
  by (cases "hm_get (fd_groups d) k") (auto simp: group_bounded_default intro: decoder_boundedD(1))

lemmas decoder_bounded_intros =
  maybe_cleanup_bounded set_group_bounded group_bounded_done group_bounded_update group_of_bounded

lemma fec_receive_bounded:
  assumes "rs_keeps_shards rs" "decoder_bounded d"
  shows "decoder_bounded (fst (fec_receive c rs now p d))"
proof (cases "dec c (np_payload p)")
  case (Some fec)
  define key where "key = (np_src_id p, fp_group_id fec)"
  define i where "i = unat (fp_packet_index fec)"
  define g where "g = get_or_default (group_default now) (hm_get (fd_groups d) key)"
  have g: "group_bounded g" unfolding g_def using assms(2) by (rule group_of_bounded)
  show ?thesis
  proof (cases "i > MAX_NUM \<or> group_is_done g \<or>
      (i < length (fg_received_shards g) \<and> fg_received_shards g ! i \<noteq> None)")
    case True
    with Some assms(2) g show ?thesis
      by (auto simp: fec_receive_def Let_def key_def i_def g_def intro: decoder_bounded_intros)
  next
    case False
    show ?thesis
    proof (cases "store_shard p i fec g")
      case (Inl e)
      with Some False assms(2) g show ?thesis
        by (auto simp: fec_receive_def Let_def key_def i_def g_def intro: decoder_bounded_intros)
    next
      case (Inr gr)
      obtain g1 r where gr: "gr = (g1, r)" by fastforce
      have b1: "group_bounded (g1\<lparr>fg_last_update := now\<rparr>)"
        using store_shard_bounded [OF Inr [unfolded gr] g] False by (auto intro: group_bounded_update)
      have b2: "group_bounded (fst (try_decode rs (g1\<lparr>fg_last_update := now\<rparr>) p))"
        using assms(1) b1 by (rule try_decode_bounded)
      have "decoder_bounded (set_group key g d)" using assms(2) g by (rule set_group_bounded)
      with Some False Inr gr b1 b2 show ?thesis
        by (cases "try_decode rs (g1\<lparr>fg_last_update := now\<rparr>) p")
          (auto simp: fec_receive_def Let_def key_def i_def g_def intro!: decoder_bounded_intros
            split: sum.splits)
    qed
  qed
qed (use assms in \<open>simp add: fec_receive_def Let_def\<close>)

section \<open>Delivery\<close>

text \<open>What reception does with an original packet of a group whose size is not yet known.\<close>

lemma receive_original:
  assumes "dec c (np_payload p) = Some fec" "fp_parity_data fec = None" "np_ok p"
    and "unat (fp_packet_index fec) \<le> MAX_NUM"
    and "hm_get (fd_groups d) (np_src_id p, fp_group_id fec) = None"
  shows "snd (fec_receive c rs now p d) =
    Inr (Some [np_set_fec_flag False (np_head p) @ fp_payload fec])"
proof -
  have hl: "length (np_head p) = HEAD_LENGTH" using assms(3) by (simp add: np_head_def np_ok_def)
  let ?z = "replicate (HEAD_LENGTH + length (fp_payload fec)) (0::u8)"
  have s0: "splice 0 (np_head p) ?z = np_head p @ replicate (length (fp_payload fec)) 0"
    using hl by (simp add: splice_def)
  have flag: "np_set_fec_flag False (np_head p @ r) = np_set_fec_flag False (np_head p) @ r" for r
    using hl by (simp add: np_set_fec_flag_def np_header_mut_def np_header_def)
  have fl: "length (np_set_fec_flag False (np_head p)) = HEAD_LENGTH"
    using hl by (simp add: np_set_fec_flag_def length_np_header_mut np_ok_def)
  have body: "np_set_payload (fp_payload fec) (np_set_fec_flag False (splice 0 (np_head p) ?z)) =
      Inr (np_set_fec_flag False (np_head p) @ fp_payload fec)"
    unfolding s0 flag using fl by (simp add: np_set_payload_def splice_def)
  let ?g = "group_default now"
  obtain g' where st: "store_shard p (unat (fp_packet_index fec)) fec ?g =
      Inr (g', Some (np_set_fec_flag False (np_head p) @ fp_payload fec))" and g': "fg_data_shards g' = 0"
    using assms(2) body by (auto simp: store_shard_def np_new_def group_default_def)
  show ?thesis
    using assms(1,4,5) st g'
    by (simp add: fec_receive_def Let_def group_is_done_def try_decode_def combine_results_def group_default_def)
qed

lemma fec_message_index:
  assumes "batches_ok states"
  shows "unat (fp_packet_index (fec_message now pkt states)) \<le> MAX_NUM"
proof -
  have "length (db_current_batch (batch_state now pkt states)) < 10"
    using batch_state_small [OF assms] by (simp add: BATCH_SIZE_def)
  then show ?thesis
    by (simp add: fec_message_def MAX_NUM_def unat_of_nat)
qed

text \<open>The shards the two ends keep of one packet.\<close>

lemma flag_bits_differ: "x AND FEC = 0 \<Longrightarrow> x OR FEC \<noteq> x"
proof
  assume "x AND FEC = 0" "x OR FEC = x"
  then have "\<not> bit (x AND FEC) 5" "bit (x OR FEC) 5 = bit x 5" by simp_all
  then show False by (simp add: FEC_def bit_simps)
qed

lemma np_head_nth2: "np_ok b \<Longrightarrow> np_head b ! 2 = flags_byte (np_header b)"
  and np_head_nth0: "np_ok b \<Longrightarrow> np_head b ! 0 = type_byte (np_header b)"
  by (simp_all add: np_head_def np_header_def decode_header_def)

lemma np_set_fec_head:
  assumes "length h = HEAD_LENGTH"
  shows "np_head (np_set_fec_flag True (h @ r)) ! 2 = (h ! 2) OR FEC"
    "np_head (np_set_fec_flag True (h @ r)) ! 0 = h ! 0"
  using assms by (simp_all add: np_head_def np_set_fec_flag_def np_header_mut_def h_set_flag_def
      encode_header_def np_header_def decode_header_def HEAD_LENGTH_def)

section \<open>Properties\<close>

text \<open>
  C25. A packet wrapped by \<open>encode\<close>, whatever the batches before it, and received as the first
  of its group is delivered at once and alone: the same header without the FEC flag and the same
  payload.
\<close>

theorem fec_original_delivered:
  assumes "tb_wf t" and "np_ok (tb_slice t)" and "length (np_payload (tb_slice t)) \<le> 65535"
    and "batches_ok states" and "codec_at c (fec_message now (tb_slice t) states)"
    and "fst (fec_encode c now room t states) = Inr t'"
    and "hm_get (fd_groups d) (np_src_id (tb_slice t), db_group_id (batch_state now (tb_slice t) states)) = None"
  shows "snd (fec_receive c rs now' (tb_slice t') d) = Inr (Some [np_set_fec_flag False (tb_slice t)])"
proof -
  let ?h = "np_head (tb_slice t)" and ?m = "fec_message now (tb_slice t) states"
  have hl: "length ?h = HEAD_LENGTH" using assms(2) by (simp add: np_head_def np_ok_def)
  have s': "tb_slice t' = np_set_fec_flag True (?h @ enc c ?m)"
    using fec_encode_packet [OF assms(1-3), of c now room states] assms(6) by auto
  have pay: "np_payload (tb_slice t') = enc c ?m"
    using hl by (simp add: s' np_set_fec_flag_def) (simp add: np_payload_def)
  have hd: "np_header (tb_slice t') = h_set_flag FEC True (np_header (tb_slice t))"
    using hl by (simp add: s' np_set_fec_flag_def) (simp add: np_header_def np_head_def)
  have head: "np_set_fec_flag False (np_head (tb_slice t')) = np_set_fec_flag False ?h"
  proof -
    have "h_set_flag FEC False (h_set_flag FEC True h) = h_set_flag FEC False h" for h
      by (simp add: h_set_flag_def and.assoc bit.conj_disj_distrib2)
    then show ?thesis
      using hd hl by (simp add: np_set_fec_flag_def np_header_mut_def np_header_def np_head_def)
  qed
  have "snd (fec_receive c rs now' (tb_slice t') d) =
      Inr (Some [np_set_fec_flag False (np_head (tb_slice t')) @ fp_payload ?m])"
  proof (rule receive_original)
    show "dec c (np_payload (tb_slice t')) = Some ?m" using assms(5) by (simp add: pay codec_at_def)
    show "fp_parity_data ?m = None" by (simp add: fec_message_def)
    show "np_ok (tb_slice t')" by (simp add: s' np_set_fec_flag_def)
    show "unat (fp_packet_index ?m) \<le> MAX_NUM" using assms(4) by (rule fec_message_index)
    show "hm_get (fd_groups d) (np_src_id (tb_slice t'), fp_group_id ?m) = None"
      using assms(7) hd by (simp add: np_src_id_def fec_message_def h_set_flag_def)
  qed
  moreover have "np_set_fec_flag False (tb_slice t) = np_set_fec_flag False ?h @ np_payload (tb_slice t)"
    using hl by (simp add: np_set_fec_flag_def np_header_mut_def np_header_def np_head_def np_payload_def)
  ultimately show ?thesis by (simp add: head fec_message_def)
qed

theorem fec_original_delivered_witness:
  "let t = tb_from (replicate 20 3); m = fec_message 0 (replicate 20 3) []; c = codec_for m in
   \<exists>t'. fst (fec_encode c 0 True t []) = Inr t' \<and>
     (\<forall>rs. snd (fec_receive c rs 9 (tb_slice t') (decoder_new 0)) = Inr (Some [np_set_fec_flag False (replicate 20 3)]))"
proof -
  let ?t = "tb_from (replicate 20 (3::u8))" let ?c = "codec_for (fec_message 0 (replicate 20 3) [])"
  have ok: "np_ok (tb_slice ?t)" "length (np_payload (tb_slice ?t)) \<le> 65535" "batches_ok []"
    by (simp_all add: np_ok_def HEAD_LENGTH_def np_payload_def batches_ok_def)
  obtain t' where t': "fst (fec_encode ?c 0 True ?t []) = Inr t'"
    using fec_encode_packet [OF tb_wf_from ok(1,2)] by blast
  have "snd (fec_receive ?c rs 9 (tb_slice t') (decoder_new 0)) = Inr (Some [np_set_fec_flag False (tb_slice ?t)])" for rs
    by (rule fec_original_delivered [OF tb_wf_from ok _ t'])
      (simp_all add: codec_at_for decoder_new_def)
  with t' show ?thesis by auto
qed

text \<open>
  The two ends disagree on the shard of every packet: the encoder computes parity over the
  flags byte without the FEC flag, the decoder stores it with the flag, so that no padding makes
  the decoder's shard the encoder's; they differ exactly in byte 1.
\<close>

lemma fec_shards_disagree:
  assumes "tb_wf t" and "np_ok (tb_slice t)" and "length (np_payload (tb_slice t)) \<le> 65535"
    and "\<not> np_is_fec (tb_slice t)" and "fst (fec_encode c now room t states) = Inr t'"
  shows "decoder_shard (tb_slice t') (np_payload (tb_slice t)) =
      (batch_shard (tb_slice t))[1 := (np_head (tb_slice t) ! 2) OR FEC] \<and>
    decoder_shard (tb_slice t') (np_payload (tb_slice t)) \<noteq> pad_to n (batch_shard (tb_slice t))"
proof -
  let ?h = "np_head (tb_slice t)"
  have hl: "length ?h = HEAD_LENGTH" using assms(2) by (simp add: np_head_def np_ok_def)
  have s': "tb_slice t' = np_set_fec_flag True (?h @ enc c (fec_message now (tb_slice t) states))"
    using fec_encode_packet [OF assms(1-3), of c now room states] assms(5) by auto
  have d: "decoder_shard (tb_slice t') (np_payload (tb_slice t)) =
      (batch_shard (tb_slice t))[1 := (?h ! 2) OR FEC]"
    using np_set_fec_head [OF hl] by (simp add: decoder_shard_def batch_shard_def s')
  have "?h ! 2 AND FEC = 0"
    using assms(2,4) by (simp add: np_head_nth2 np_is_fec_def)
  then have "(?h ! 2) OR FEC \<noteq> ?h ! 2" by (rule flag_bits_differ)
  then have "(batch_shard (tb_slice t))[1 := (?h ! 2) OR FEC] ! 1 \<noteq> pad_to n (batch_shard (tb_slice t)) ! 1"
    by (simp add: batch_shard_def pad_to_def)
  with d show ?thesis by metis
qed

lemma fec_shards_disagree_witness:
  "\<exists>t'. fst (fec_encode (codec_for (fec_message 0 (replicate 20 3) [])) 0 True (tb_from (replicate 20 3)) []) = Inr t' \<and>
     decoder_shard (tb_slice t') [3, 3, 3, 3] \<noteq> pad_to 9 (batch_shard (replicate 20 3))"
proof -
  let ?t = "tb_from (replicate 20 (3::u8))" let ?c = "codec_for (fec_message 0 (replicate 20 3) [])"
  have p: "np_payload (replicate 20 (3::u8)) = [3, 3, 3, 3]"
    by (simp add: np_payload_def HEAD_LENGTH_def eval_nat_numeral)
  have ok: "np_ok (tb_slice ?t)" "length (np_payload (tb_slice ?t)) \<le> 65535"
    by (simp_all add: np_ok_def HEAD_LENGTH_def np_payload_def)
  have nf: "\<not> np_is_fec (tb_slice ?t)"
    by (simp add: np_is_fec_def np_header_def decode_header_def FEC_def HEAD_LENGTH_def)
  obtain t' where t': "fst (fec_encode ?c 0 True ?t []) = Inr t'"
    using fec_encode_packet [OF tb_wf_from ok] by blast
  from fec_shards_disagree [OF tb_wf_from ok nf t', of 9] p t' show ?thesis by auto
qed

definition rs_refuses_unequal :: "reed_solomon \<Rightarrow> bool" where
  "rs_refuses_unequal rs \<longleftrightarrow> (\<forall>d p l a b. Some a \<in> set l \<and> Some b \<in> set l \<and> length a \<noteq> length b \<longrightarrow>
     rs_reconstruct rs d p l = Inl InvalidData)"

text \<open>
  Reconstruction works on unpadded shards: when the erasure code refuses shards of different
  lengths, as it documents, a group that would be completed by the packet just received, and
  holds two shards of different lengths, fails; the call returns the error and with it drops the
  received packet, which was intact.
\<close>

lemma fec_unequal_lengths_drop_packet:
  assumes "rs_refuses_unequal rs" and "dec c (np_payload pkt) = Some fec"
    and "unat (fp_packet_index fec) \<le> MAX_NUM"
    and "hm_get (fd_groups d) (np_src_id pkt, fp_group_id fec) = Some g" and "\<not> group_is_done g"
    and "length (fg_received_shards g) \<le> unat (fp_packet_index fec) \<or>
      fg_received_shards g ! unat (fp_packet_index fec) = None"
    and "store_shard pkt (unat (fp_packet_index fec)) fec g = Inr (g', delivered)"
    and "fg_data_shards g' \<noteq> 0" and "\<not> group_is_done g'"
    and "fg_data_shards g' \<le> length (filter (\<lambda>s. s \<noteq> None) (fg_received_shards g'))"
    and "Some a \<in> set (fg_received_shards g')" and "Some b \<in> set (fg_received_shards g')"
    and "length a \<noteq> length b"
  shows "\<exists>e. snd (fec_receive c rs now pkt d) = Inl e"
proof -
  let ?g = "g'\<lparr>fg_last_update := now\<rparr>"
  have "rs_reconstruct rs (fg_data_shards ?g) (fg_parity_shards ?g) (fg_received_shards ?g) = Inl InvalidData"
    using assms(1) [unfolded rs_refuses_unequal_def, rule_format, of a "fg_received_shards ?g" b] assms(11-13)
    by simp
  then have "\<exists>e. snd (try_decode rs ?g pkt) = Inl e"
    using assms(8-10) by (auto simp: try_decode_def decode_with_rs_def Let_def group_is_done_def)
  then obtain g2 e where td: "try_decode rs ?g pkt = (g2, Inl e)"
    by (metis prod.collapse)
  have "\<not> group_is_done ?g" using assms(9) by (simp add: group_is_done_def)
  with assms(2-7) td show ?thesis
    by (auto simp: fec_receive_def Let_def)
qed

definition toy_rs :: reed_solomon where
  "toy_rs = \<lparr>rs_new = (\<lambda>_ _. True), rs_encode = (\<lambda>d p l. Inr (replicate p [])),
     rs_reconstruct = (\<lambda>d p l. if \<exists>a\<in>set l. \<exists>b\<in>set l. a \<noteq> None \<and> b \<noteq> None \<and> length (the a) \<noteq> length (the b)
       then Inl InvalidData else Inr l)\<rparr>"

lemma toy_rs_laws: "rs_refuses_unequal toy_rs" "rs_keeps_shards toy_rs"
  by (auto simp: rs_refuses_unequal_def rs_keeps_shards_def toy_rs_def list_all2_refl split: if_splits) force

lemma fec_unequal_lengths_drop_packet_witness:
  "let fec = \<lparr>fp_group_id = 0, fp_packet_index = 1, fp_payload = [9, 9], fp_parity_data = None\<rparr>;
       g = \<lparr>fg_data_shards = 2, fg_parity_shards = 1, fg_received_original_count = 0,
            fg_received_shards = [None, None, Some [1]], fg_last_update = 0\<rparr>;
       d = \<lparr>fd_groups = [((0, 0), g)], fd_last_cleanup = 0\<rparr> in
   \<exists>e. snd (fec_receive \<lparr>enc = (\<lambda>_. []), dec = (\<lambda>_. Some fec)\<rparr> toy_rs 5 (replicate 17 0) d) = Inl e"
proof -
  let ?fec = "\<lparr>fp_group_id = 0, fp_packet_index = 1, fp_payload = [9, 9], fp_parity_data = None\<rparr> :: FecPacket"
  let ?g = "\<lparr>fg_data_shards = 2, fg_parity_shards = 1, fg_received_original_count = 0,
            fg_received_shards = [None, None, Some [1]], fg_last_update = 0\<rparr>"
  let ?d = "\<lparr>fd_groups = [((0, 0), ?g)], fd_last_cleanup = 0\<rparr>"
  have src: "np_src_id (replicate 17 0) = 0"
    by (simp add: np_src_id_def np_header_def decode_header_def HEAD_LENGTH_def of_be32_def)
  have store: "\<exists>p. store_shard (replicate 17 0) 1 ?fec ?g = Inr (?g\<lparr>fg_received_original_count := 1,
      fg_received_shards := [None, Some [0, 0, 0, 2, 9, 9], Some [1]]\<rparr>, Some p)"
    by (simp add: store_shard_def put_shard_def decoder_shard_def np_new_def np_set_payload_def
        np_set_fec_flag_def length_np_header_mut np_ok_def splice_def np_head_def be16_def
        HEAD_LENGTH_def length_encode_header)
  then obtain p where st: "store_shard (replicate 17 0) 1 ?fec ?g = Inr (?g\<lparr>fg_received_original_count := 1,
      fg_received_shards := [None, Some [0, 0, 0, 2, 9, 9], Some [1]]\<rparr>, Some p)" ..
  show ?thesis
    unfolding Let_def
    by (rule fec_unequal_lengths_drop_packet [OF toy_rs_laws(1), where fec = ?fec and g = ?g and
          g' = "?g\<lparr>fg_received_original_count := 1, fg_received_shards := [None, Some [0, 0, 0, 2, 9, 9], Some [1]]\<rparr>" and
          a = "[0, 0, 0, 2, 9, 9]" and b = "[1]" and delivered = "Some p"])
      (simp_all add: src st [simplified] group_is_done_def MAX_NUM_def)
qed

text \<open>
  A finished group swallows every later packet of its source and number, at whatever time it
  arrives: nothing is delivered, nothing is reported and the group is kept as it is. Numbers start
  from zero again when a peer restarts.
\<close>

lemma fec_done_group_swallows:
  assumes "hm_get (fd_groups d) (np_src_id pkt, fp_group_id fec) = Some g" and "group_is_done g"
    and "dec c (np_payload pkt) = Some fec" and "unat (fp_packet_index fec) \<le> MAX_NUM"
  shows "snd (fec_receive c rs now pkt d) = Inr None \<and>
    hm_get (fd_groups (fst (fec_receive c rs now pkt d))) (np_src_id pkt, fp_group_id fec) = Some g"
  using assms by (simp add: fec_receive_def Let_def set_group_def hm_get_put)

lemma fec_done_group_swallows_witness:
  "let fec = \<lparr>fp_group_id = 0, fp_packet_index = 0, fp_payload = [9, 9], fp_parity_data = None\<rparr>;
       g = \<lparr>fg_data_shards = 2, fg_parity_shards = 1, fg_received_original_count = 2,
            fg_received_shards = [], fg_last_update = 0\<rparr>;
       d = \<lparr>fd_groups = [((np_src_id (replicate 17 0), 0), g)], fd_last_cleanup = 0\<rparr> in
   snd (fec_receive \<lparr>enc = (\<lambda>_. []), dec = (\<lambda>_. Some fec)\<rparr> toy_rs (secs 1000) (replicate 17 0) d) = Inr None"
  unfolding Let_def
  by (rule fec_done_group_swallows [where
      fec = "\<lparr>fp_group_id = 0, fp_packet_index = 0, fp_payload = [9, 9], fp_parity_data = None\<rparr>" and
      g = "\<lparr>fg_data_shards = 2, fg_parity_shards = 1, fg_received_original_count = 2,
            fg_received_shards = [], fg_last_update = 0\<rparr>", THEN conjunct1])
    (simp_all add: group_is_done_def MAX_NUM_def)

text \<open>
  C26. What a group can take up is bounded whatever is received: after any sequence of packets no group
  declares more than 50 shards of either kind, holds more than 100, or has taken more than 51 originals (an index of 50 is let through, so one more
  than may be declared), and the keys stay distinct.
\<close>

theorem fec_decoder_memory_bound:
  assumes "rs_keeps_shards rs"
  shows "let d = fold (\<lambda>(now, p) d. fst (fec_receive c rs now p d)) ps (decoder_new t) in
    hm_ok (fd_groups d) \<and>
    (\<forall>k g. hm_get (fd_groups d) k = Some g \<longrightarrow>
       fg_data_shards g \<le> 50 \<and> fg_parity_shards g \<le> 50 \<and> length (fg_received_shards g) \<le> 100 \<and> fg_received_original_count g \<le> 51)"
proof -
  have *: "decoder_bounded d \<Longrightarrow> decoder_bounded (fold (\<lambda>(now, p) d. fst (fec_receive c rs now p d)) ps d)" for d
    by (induction ps arbitrary: d) (auto simp: fec_receive_bounded [OF assms])
  have "decoder_bounded (fold (\<lambda>(now, p) d. fst (fec_receive c rs now p d)) ps (decoder_new t))"
    by (rule *) (simp add: decoder_bounded_def decoder_new_def)
  then show ?thesis
    using group_bounded_originals by (fastforce simp: decoder_bounded_def group_bounded_def MAX_NUM_def Let_def)
qed

text \<open>A packet whose last byte is its index: the fifty-first is kept.\<close>

definition numbered_codec :: "FecPacket codec" where
  "numbered_codec = \<lparr>enc = (\<lambda>_. []), dec = (\<lambda>b. Some \<lparr>fp_group_id = 0, fp_packet_index = ucast (hd b), fp_payload = [], fp_parity_data = None\<rparr>)\<rparr>"

theorem fec_decoder_memory_bound_witness:
  "let pkt = replicate 16 0 @ [50]; d = fold (\<lambda>(now, p) d. fst (fec_receive numbered_codec toy_rs now p d)) [(1, pkt)] (decoder_new 0) in
   map_option (\<lambda>g. (fg_received_original_count g, length (fg_received_shards g))) (hm_get (fd_groups d) (np_src_id pkt, 0)) = Some (1, 51) \<and>
   (\<forall>k g. hm_get (fd_groups d) k = Some g \<longrightarrow> fg_received_original_count g \<le> 51)"
proof -
  let ?pkt = "replicate 16 0 @ [50 :: u8]"
  let ?d = "fold (\<lambda>(now, p) d. fst (fec_receive numbered_codec toy_rs now p d)) [(1, ?pkt)] (decoder_new 0)"
  have fec: "dec numbered_codec (np_payload ?pkt) = Some \<lparr>fp_group_id = 0, fp_packet_index = 50, fp_payload = [], fp_parity_data = None\<rparr>"
    by (simp add: numbered_codec_def np_payload_def HEAD_LENGTH_def)
  have new: "np_new (replicate (HEAD_LENGTH + length []) 0) = Inr (replicate HEAD_LENGTH 0)" by (simp add: np_new_def)
  have set: "np_set_payload [] (encode_header h) = Inr (encode_header h)" for h
    by (simp add: np_set_payload_def splice_def HEAD_LENGTH_def)
  obtain v where "store_shard ?pkt 50 \<lparr>fp_group_id = 0, fp_packet_index = 50, fp_payload = [], fp_parity_data = None\<rparr> (group_default 1) =
      Inr ((group_default 1)\<lparr>fg_received_shards := put_shard 51 50 (decoder_shard ?pkt []) [], fg_received_original_count := 1\<rparr>, Some v)"
    unfolding store_shard_def FecPacket.simps option.simps new rbind_Inr
    by (simp add: set splice_def np_head_def HEAD_LENGTH_def np_set_fec_flag_def np_header_mut_def group_default_def)
  then have "map_option (\<lambda>g. (fg_received_original_count g, length (fg_received_shards g))) (hm_get (fd_groups ?d) (np_src_id ?pkt, 0)) = Some (1, 51)"
    by (simp add: fec_receive_def Let_def fec decoder_new_def MAX_NUM_def set_group_def maybe_cleanup_def try_decode_def
        length_put_shard group_default_def group_is_done_def secs_def)
  then show ?thesis using fec_decoder_memory_bound [OF toy_rs_laws(2), of numbered_codec "[(1, ?pkt)]" 0] unfolding Let_def by blast
qed

end
