(* ===== verification/App_State.thy ===== *)
theory App_State
  imports Server_Info Nat_State Route_Table
begin

text \<open>
  The shared state of a node, \<open>AppState\<close> of \<open>context/mod.rs\<close>: its network address, what it
  knows about peers and itself, and the queries that combine these. \<open>Ipv4Net::contains\<close> is the
  argument \<open>C\<close>. \<open>SharedNetworkAddr\<close> and \<open>PeerInfoMap\<close> are a cell and a map behind a lock.
\<close>

section \<open>Network address\<close>

record NetworkAddr =
  na_gateway :: ipv4
  na_broadcast :: ipv4
  na_ip :: ipv4
  na_prefix_len :: u8

text \<open>\<open>Ipv4Net::new_assert\<close>; \<open>register\<close> stores only addresses with a valid prefix length.\<close>

definition addr_network :: "NetworkAddr \<Rightarrow> ipv4net" where
  "addr_network a = \<lparr>net_addr = na_ip a, net_prefix = na_prefix_len a\<rparr>"

type_synonym SharedNetworkAddr = "NetworkAddr option"

definition shared_network :: "SharedNetworkAddr \<Rightarrow> ipv4net option" where
  "shared_network s = map_option addr_network s"

definition shared_ip :: "SharedNetworkAddr \<Rightarrow> ipv4 option" where
  "shared_ip s = map_option na_ip s"

definition shared_set :: "NetworkAddr \<Rightarrow> SharedNetworkAddr \<Rightarrow> SharedNetworkAddr" where
  "shared_set a s = Some a"

definition shared_clear :: "SharedNetworkAddr \<Rightarrow> SharedNetworkAddr" where
  "shared_clear s = None"

text \<open>\<open>NetworkRoute\<close>: the network and the subnet routes together.\<close>

record NetworkRoute =
  nr_network :: SharedNetworkAddr
  nr_subnet_route :: SubnetExternalRoute

definition route_network_contains :: "net_contains \<Rightarrow> NetworkRoute \<Rightarrow> ipv4 \<Rightarrow> bool" where
  "route_network_contains C r ip \<longleftrightarrow>
     (case shared_network (nr_network r) of Some n \<Rightarrow> C n ip | None \<Rightarrow> False) \<or>
     subnet_route C (nr_subnet_route r) ip \<noteq> None"

section \<open>Peers\<close>

type_synonym PeerInfoMap = "(ipv4, NatInfo option) hashmap"

definition peer_get :: "PeerInfoMap \<Rightarrow> ipv4 \<Rightarrow> NatInfo option option" where
  "peer_get m ip = hm_get m ip"

definition update_nat_info :: "ipv4 \<Rightarrow> NatInfo \<Rightarrow> PeerInfoMap \<Rightarrow> PeerInfoMap" where
  "update_nat_info ip n m = hm_put ip (Some n) m"

section \<open>The application state\<close>

record 'k AppState =
  as_config :: "Config option"
  as_network :: SharedNetworkAddr
  as_server_info :: ServerInfoCollection
  as_peer_map :: PeerInfoMap
  as_route_table :: "'k RouteTable"
  as_subnet_route :: SubnetExternalRoute
  as_nat_info :: MyNatInfo
  as_punch_backoff :: PunchBackoff
  as_packet_loss_stats :: PacketLossStats
  as_traffic_stats :: TrafficStats

definition app_state_default :: "'k AppState" where
  "app_state_default = \<lparr>as_config = None, as_network = None, as_server_info = server_info_new,
     as_peer_map = [], as_route_table = rt_new, as_subnet_route = [], as_nat_info = None,
     as_punch_backoff = [], as_packet_loss_stats = [], as_traffic_stats = []\<rparr>"

text \<open>\<open>stop_network\<close> leaves the route table and the subnet routes alone.\<close>

definition app_stop_network :: "'k AppState \<Rightarrow> 'k AppState" where
  "app_stop_network s =
     s\<lparr>as_network := shared_clear (as_network s),
       as_server_info := server_info_clear (as_server_info s),
       as_peer_map := [],
       as_nat_info := nat_info_clear (as_nat_info s),
       as_punch_backoff := punch_clear (as_punch_backoff s),
       as_packet_loss_stats := loss_clear (as_packet_loss_stats s),
       as_traffic_stats := traffic_clear (as_traffic_stats s)\<rparr>"

definition app_network_contains :: "net_contains \<Rightarrow> 'k AppState \<Rightarrow> ipv4 \<Rightarrow> bool" where
  "app_network_contains C s ip =
     (case shared_network (as_network s) of
        None \<Rightarrow> False
      | Some network \<Rightarrow>
          if C network ip then True else subnet_route C (as_subnet_route s) ip \<noteq> None)"

definition set_config :: "Config \<Rightarrow> 'k AppState \<Rightarrow> 'k AppState" where
  "set_config c s = s\<lparr>as_config := Some c\<rparr>"

definition udp_stun :: "'k AppState \<Rightarrow> string list" where
  "udp_stun s = get_or_default [] (map_option cfg_udp_stun (as_config s))"

definition tcp_stun :: "'k AppState \<Rightarrow> string list" where
  "tcp_stun s = get_or_default [] (map_option cfg_tcp_stun (as_config s))"

text \<open>Addresses inside the virtual network are not offered to peers for hole punching.\<close>

definition filter_ip_by :: "(ipv4 \<Rightarrow> bool) \<Rightarrow> NatInfo \<Rightarrow> NatInfo" where
  "filter_ip_by contains info =
     (let info = (if contains (local_ipv4 info) then info\<lparr>local_ipv4 := 0\<rparr> else info) in
      info\<lparr>local_ipv4s := filter (\<lambda>ip. \<not> contains ip) (local_ipv4s info)\<rparr>)"

definition filter_ip :: "net_contains \<Rightarrow> 'k AppState \<Rightarrow> NatInfo \<Rightarrow> NatInfo" where
  "filter_ip C s info = filter_ip_by (app_network_contains C s) info"

definition get_punch_info :: "net_contains \<Rightarrow> 'k AppState \<Rightarrow> NatInfo option" where
  "get_punch_info C s = map_option (filter_ip C s) (as_nat_info s)"

definition get_nat_info :: "net_contains \<Rightarrow> 'k AppState \<Rightarrow> NatInfo option" where
  "get_nat_info C s = map_option (filter_ip C s) (as_nat_info s)"

section \<open>The API\<close>

text \<open>\<open>api/mod.rs\<close>: what the front ends ask for. A relayed path counts the server twice.\<close>

definition api_is_direct :: "'k AppState \<Rightarrow> ipv4 \<Rightarrow> bool" where
  "api_is_direct s ip \<longleftrightarrow> p2p_num (as_route_table s) ip > 0"

definition api_find_route :: "'k AppState \<Rightarrow> ipv4 \<Rightarrow> 'k Route option" where
  "api_find_route s ip = (case get_route_by_id (as_route_table s) ip of Inr r \<Rightarrow> Some r | Inl _ \<Rightarrow> None)"

definition api_get_rtt :: "'k AppState \<Rightarrow> ipv4 \<Rightarrow> u32 option" where
  "api_get_rtt s ip =
     (case api_find_route s ip of
        Some route \<Rightarrow> Some (rtt route)
      | None \<Rightarrow> map_option (\<lambda>v. v * 2) (get_server_rtt (as_server_info s) ip))"

definition api_peer_nat_info :: "'k AppState \<Rightarrow> ipv4 \<Rightarrow> NatInfo option" where
  "api_peer_nat_info s ip = (case peer_get (as_peer_map s) ip of None \<Rightarrow> None | Some n \<Rightarrow> n)"

section \<open>Lemmas\<close>

lemma filter_ip_by_local:
  "set (local_ipv4s (filter_ip_by contains info)) = {ip \<in> set (local_ipv4s info). \<not> contains ip}"
  by (auto simp: filter_ip_by_def Let_def)

lemma api_is_direct_need_punch: "api_is_direct s ip \<longleftrightarrow> \<not> need_punch (as_route_table s) ip"
  by (auto simp: api_is_direct_def p2p_num_def need_punch_def list_ex_iff length_greater_0_conv
      filter_empty_conv split: option.splits)

section \<open>Properties\<close>

text \<open>
  What a peer decodes from this node's punch message: no local address, neither the main one
  nor one of the list, lies in the virtual network or in a routed subnet, while the node has a
  network; the addresses outside are all offered, in order.
\<close>

lemma advertised_addresses_outside_network:
  assumes "as_network s = Some a" and "as_nat_info s = Some info"
    and "codec_at c (Some (encode_nat_info (filter_ip C s info)))"
  shows "\<exists>n peer. get_punch_info C s = Some n \<and> punch_info_from_slice c (punch_info_encode c n) = Inr peer \<and>
    local_ipv4s peer = filter (\<lambda>ip. \<not> app_network_contains C s ip) (local_ipv4s info) \<and>
    (local_ipv4 peer = 0 \<or> \<not> app_network_contains C s (local_ipv4 peer))"
proof -
  let ?n = "filter_ip C s info" and ?k = "\<lambda>ip. \<not> app_network_contains C s ip"
  have l: "local_ipv4s ?n = filter ?k (local_ipv4s info)"
    by (simp add: filter_ip_def filter_ip_by_def Let_def)
  have first: "(case filter ?k xs of [] \<Rightarrow> 0 | v # _ \<Rightarrow> v) = 0 \<or> ?k (case filter ?k xs of [] \<Rightarrow> 0 | v # _ \<Rightarrow> v)" for xs
    by (induction xs) auto
  show ?thesis
    using assms(2) punch_info_from_encoded [OF assms(3)] l first [of "local_ipv4s info"]
    by (simp add: get_punch_info_def)
qed

lemma advertised_addresses_outside_network_witness:
  "let C = (\<lambda>net ip. drop_bit 8 (ip :: ipv4) = drop_bit 8 (net_addr net));
       info = \<lparr>nat_type = Cone, public_ips = [], public_udp_ports = [], mapping_tcp_addr = [], mapping_udp_addr = [],
         public_port_range = 0, local_ipv4 = 0x0A1A0005, local_ipv4s = [0x0A1A0005, 0xC0A80102], ipv6 = None,
         local_udp_ports = [], local_tcp_port = 0, public_tcp_port = 0\<rparr>;
       s = app_state_default\<lparr>as_network := Some \<lparr>na_gateway = 0x0A1A0001, na_broadcast = 0x0A1A00FF, na_ip = 0x0A1A0002, na_prefix_len = 24\<rparr>,
         as_nat_info := Some info\<rparr> :: nat AppState;
       c = codec_for (Some (encode_nat_info (filter_ip C s info))) in
   \<exists>n peer. get_punch_info C s = Some n \<and> punch_info_from_slice c (punch_info_encode c n) = Inr peer \<and>
     local_ipv4s peer = [0xC0A80102]"
proof -
  define C :: net_contains where "C = (\<lambda>net ip. drop_bit 8 (ip :: ipv4) = drop_bit 8 (net_addr net))"
  define info where "info = \<lparr>nat_type = Cone, public_ips = [], public_udp_ports = [], mapping_tcp_addr = [], mapping_udp_addr = [],
         public_port_range = 0, local_ipv4 = 0x0A1A0005, local_ipv4s = [0x0A1A0005, 0xC0A80102], ipv6 = None,
         local_udp_ports = [], local_tcp_port = 0, public_tcp_port = 0\<rparr>"
  define s :: "nat AppState" where "s = app_state_default\<lparr>as_network := Some \<lparr>na_gateway = 0x0A1A0001, na_broadcast = 0x0A1A00FF, na_ip = 0x0A1A0002, na_prefix_len = 24\<rparr>,
         as_nat_info := Some info\<rparr>"
  have f: "filter (\<lambda>ip. \<not> app_network_contains C s ip) (local_ipv4s info) = [0xC0A80102]"
    by (simp add: info_def s_def C_def app_network_contains_def shared_network_def addr_network_def app_state_default_def)
  have a: "as_network s = Some \<lparr>na_gateway = 0x0A1A0001, na_broadcast = 0x0A1A00FF, na_ip = 0x0A1A0002, na_prefix_len = 24\<rparr>"
    and i: "as_nat_info s = Some info" by (simp_all add: s_def)
  show ?thesis
    unfolding Let_def C_def [symmetric] info_def [symmetric] s_def [symmetric]
    using advertised_addresses_outside_network [OF a i codec_at_for [of "Some (encode_nat_info (filter_ip C s info))"]] f
    by metis
qed

end
