(* ===== verification/Outbound.thy ===== *)
theory Outbound
  imports App_State Packet_Compression Fec_Encoder
begin

text \<open>
  The sending side of the tunnel: \<open>tunnel_core/server/outbound.rs\<close> (through a server),
  \<open>tunnel_core/p2p/outbound.rs\<close> (over a direct or relayed route), and
  \<open>tunnel_core/outbound.rs\<close>, which puts a packet together and chooses between them.

  What a send does to the world is an event: \<open>ToServer i b d\<close> hands the bytes \<open>b\<close> with the lifetime
  \<open>d\<close> to the channel of server \<open>i\<close>, \<open>ToPeer k b\<close> writes them to the socket of route \<open>k\<close>. An
  operation gives the events in order and its result. Whether a channel takes a message in time
  and whether a socket takes a datagram are arguments (\<open>out_crates\<close>), as is every crate.
\<close>

section \<open>Events and the world outside\<close>

datatype 'k event =
    ToServer u32 bytes nat
  | ToPeer 'k bytes

type_synonym 'e effects = "'e list \<times> unit result"
type_synonym 'k sends = "'k event effects"

record ('k, 'c) out_crates =
  oc_aead :: "'c aead"
  oc_lz4 :: lz4
  oc_contains :: net_contains
  oc_broadcast_codec :: "SelectiveBroadcast codec"
  oc_fec_codec :: "FecPacket codec"
  oc_ipv4_destination :: "bytes \<Rightarrow> ipv4 option"
  oc_channel :: "u32 \<Rightarrow> bytes \<Rightarrow> bool"
  oc_socket :: "'k \<Rightarrow> bytes \<Rightarrow> bool"
  oc_try_socket :: "'k \<Rightarrow> bytes \<Rightarrow> bool"
  oc_fec_now :: instant
  oc_fec_room :: bool

definition no_send :: "unit result \<Rightarrow> 'e effects" where
  "no_send r = ([], r)"

definition after :: "'a result \<Rightarrow> ('a \<Rightarrow> 'e effects) \<Rightarrow> 'e effects" where
  "after r f = (case r of Inl e \<Rightarrow> no_send (Inl e) | Inr x \<Rightarrow> f x)"

lemma after_simps [simp]: "after (Inl e) f = ([], Inl e)" "after (Inr x) f = f x"
  by (simp_all add: after_def no_send_def)

section \<open>Through a server\<close>

text \<open>
  \<open>ServerOutbound\<close>: the ids of the servers with a channel (the keys of \<open>sender\<close>, which are also
  \<open>server_id_list\<close>), the shared server information and the cipher.
\<close>

record 'c ServerOutbound =
  so_server_id_list :: "u32 list"
  so_sender :: "u32 list"
  so_crypto :: "'c option"

definition server_outbound_new :: "u32 list \<Rightarrow> 'c option \<Rightarrow> 'c ServerOutbound" where
  "server_outbound_new sender pc = \<lparr>so_server_id_list = sender, so_sender = sender, so_crypto = pc\<rparr>"

text \<open>\<open>sender.send_timeout\<close> on one channel, and the lookup of the channel before it.\<close>

definition channel_send :: "('k, 'c) out_crates \<Rightarrow> u32 \<Rightarrow> bytes \<Rightarrow> nat \<Rightarrow> 'k sends" where
  "channel_send W i b expired =
     (if oc_channel W i b then ([ToServer i b expired], Inr ())
      else no_send (Inl (Bail ''connect server task failed'')))"

definition send_to_server :: "('k, 'c) out_crates \<Rightarrow> 'c ServerOutbound \<Rightarrow> u32 \<Rightarrow> bytes \<Rightarrow> nat \<Rightarrow> 'k sends" where
  "send_to_server W so i b expired =
     (if i \<notin> set (so_sender so) then no_send (Inl (Bail ''not found server''))
      else channel_send W i b expired)"

definition send_expired_impl ::
  "('k, 'c) out_crates \<Rightarrow> 'c ServerOutbound \<Rightarrow> u32 \<Rightarrow> transmission \<Rightarrow> nat \<Rightarrow> 'k sends" where
  "send_expired_impl W so server_id buf expired =
     after (if \<not> np_is_gateway (tb_slice buf) then pc_encrypt (oc_aead W) (so_crypto so) buf else Inr buf) (\<lambda>buf.
     after (tb_into_bytes buf) (\<lambda>b. send_to_server W so server_id b expired))"

definition send_to_gateway_expired ::
  "('k, 'c) out_crates \<Rightarrow> 'c ServerOutbound \<Rightarrow> ServerInfoCollection \<Rightarrow> u32 \<Rightarrow> transmission \<Rightarrow> nat \<Rightarrow> 'k sends" where
  "send_to_gateway_expired W so info server_id buf expired =
     (if \<not> is_server_connected info server_id then no_send (Inl (Bail ''not connected''))
      else send_expired_impl W so server_id (tb_map (np_set_gateway_flag True) buf) expired)"

definition send_expired ::
  "('k, 'c) out_crates \<Rightarrow> 'c ServerOutbound \<Rightarrow> ServerInfoCollection \<Rightarrow> ipv4 \<Rightarrow> transmission \<Rightarrow> nat \<Rightarrow> 'k sends" where
  "send_expired W so info dest_ip buf expired =
     (case find_ip_to_server info (so_server_id_list so) dest_ip of
        None \<Rightarrow> no_send (Inl (Bail ''not found ip route''))
      | Some server_id \<Rightarrow> send_expired_impl W so server_id buf expired)"

definition server_send ::
  "('k, 'c) out_crates \<Rightarrow> 'c ServerOutbound \<Rightarrow> ServerInfoCollection \<Rightarrow> ipv4 \<Rightarrow> transmission \<Rightarrow> 'k sends" where
  "server_send W so info dest_ip buf = send_expired W so info dest_ip buf (secs 5)"

definition server_send_raw ::
  "('k, 'c) out_crates \<Rightarrow> 'c ServerOutbound \<Rightarrow> ServerInfoCollection \<Rightarrow> ipv4 \<Rightarrow> bytes \<Rightarrow> 'k sends" where
  "server_send_raw W so info dest_ip buf =
     (case find_ip_to_server info (so_server_id_list so) dest_ip of
        None \<Rightarrow> no_send (Inl (Bail ''not found ip route''))
      | Some server_id \<Rightarrow> send_to_server W so server_id buf (secs 5))"

definition server_send_default_raw ::
  "('k, 'c) out_crates \<Rightarrow> 'c ServerOutbound \<Rightarrow> ServerInfoCollection \<Rightarrow> bytes \<Rightarrow> 'k sends" where
  "server_send_default_raw W so info buf =
     (case find_connected_server info (so_server_id_list so) of
        None \<Rightarrow> no_send (Inl (Bail ''not found default route''))
      | Some server_id \<Rightarrow> send_to_server W so server_id buf (secs 5))"

text \<open>A broadcast with a list of addresses to leave out, or of the only addresses to reach.\<close>

definition selective_packet ::
  "('k, 'c) out_crates \<Rightarrow> MsgType \<Rightarrow> ipv4 list \<Rightarrow> bytes \<Rightarrow> bytes result" where
  "selective_packet W mt ips buf =
     (let bs = enc (oc_broadcast_codec W) (selective_broadcast_new ips buf) in
      rbind (tb_np_new (tb_zeroed (HEAD_LENGTH + length bs))) (\<lambda>packet.
        let packet = tb_map (np_set_msg_type mt) packet;
            packet = tb_map (np_set_ttl 5) packet;
            packet = tb_map (splice HEAD_LENGTH bs) packet in
        tb_into_bytes packet))"

definition send_exclude_broadcast ::
  "('k, 'c) out_crates \<Rightarrow> u32 \<Rightarrow> bytes \<Rightarrow> ipv4 list \<Rightarrow> nat \<Rightarrow> 'k sends" where
  "send_exclude_broadcast W i buf exclude_ips expired =
     after (selective_packet W ExcludeBroadcast exclude_ips buf) (\<lambda>b. channel_send W i b expired)"

definition send_direct :: "('k, 'c) out_crates \<Rightarrow> u32 \<Rightarrow> bytes \<Rightarrow> nat \<Rightarrow> 'k sends" where
  "send_direct W i buf expired = channel_send W i buf expired"

definition send_target_broadcast ::
  "('k, 'c) out_crates \<Rightarrow> u32 \<Rightarrow> ipv4 list \<Rightarrow> bytes \<Rightarrow> nat \<Rightarrow> 'k sends" where
  "send_target_broadcast W i target_ips buf expired =
     after (selective_packet W TargetBroadcast target_ips buf) (\<lambda>b. channel_send W i b expired)"

text \<open>
  \<open>max_by\<close> on the score of a server, clients per millisecond: the last of the greatest. The code
  compares \<open>f64\<close> quotients; rounding keeps the strict order of the exact quotients, compared here by
  cross-multiplication, as long as the number of clients times the round-trip time stays below \<open>2^52\<close>.
\<close>

definition score_gt :: "(u32 \<times> ipv4 list \<times> u32) \<Rightarrow> (u32 \<times> ipv4 list \<times> u32) \<Rightarrow> bool" where
  "score_gt a b \<longleftrightarrow>
     (case a of (_, ips_a, rtt_a) \<Rightarrow> case b of (_, ips_b, rtt_b) \<Rightarrow>
        length ips_a * (unat rtt_b + 1) > length ips_b * (unat rtt_a + 1))"

fun max_by_score :: "(u32 \<times> ipv4 list \<times> u32) \<Rightarrow> (u32 \<times> ipv4 list \<times> u32) list \<Rightarrow> (u32 \<times> ipv4 list \<times> u32)" where
  "max_by_score best [] = best"
| "max_by_score best (x # xs) = max_by_score (if score_gt best x then best else x) xs"

text \<open>
  The tasks of a broadcast over several servers, as \<open>(server, sends)\<close> in the order they are
  spawned. They run concurrently and touch different channels; the result is an error if any of
  them failed.
\<close>

definition other_server_task ::
  "('k, 'c) out_crates \<Rightarrow> 'c ServerOutbound \<Rightarrow> (u32 \<times> ipv4 list \<times> u32) \<Rightarrow> ipv4 list \<Rightarrow> bytes \<Rightarrow> (u32 \<times> ipv4 list \<times> u32) \<Rightarrow>
   'k sends option" where
  "other_server_task W so max_server exclude buf x =
     (case x of (server_id, ips, _) \<Rightarrow>
        if server_id = fst max_server then None
        else
          let target_ips = filter (\<lambda>ip. ip \<notin> set (fst (snd max_server)) \<and> ip \<notin> set exclude) ips in
          if target_ips = [] then None
          else if server_id \<notin> set (so_sender so) then None
          else Some (send_target_broadcast W server_id target_ips buf (secs 5)))"

definition join_tasks :: "'k sends list \<Rightarrow> 'k sends" where
  "join_tasks ts =
     (concat (map fst ts),
      if list_ex (\<lambda>t. case snd t of Inl _ \<Rightarrow> True | Inr _ \<Rightarrow> False) ts then Inl (Bail ''broadcast failed'') else Inr ())"

definition main_broadcast ::
  "('k, 'c) out_crates \<Rightarrow> u32 \<Rightarrow> ipv4 list option \<Rightarrow> bytes \<Rightarrow> 'k sends" where
  "main_broadcast W i exclude_ips buf =
     (case exclude_ips of
        Some ex \<Rightarrow> send_exclude_broadcast W i buf ex (secs 5)
      | None \<Rightarrow> send_direct W i buf (secs 5))"

definition server_send_raw_broadcast ::
  "('k, 'c) out_crates \<Rightarrow> 'c ServerOutbound \<Rightarrow> ServerInfoCollection \<Rightarrow> ipv4 list option \<Rightarrow> bytes \<Rightarrow> 'k sends" where
  "server_send_raw_broadcast W so info exclude_ips buf =
     (case server_client_ip_map info of
        [] \<Rightarrow> no_send (Inl (Bail ''no connected servers with clients''))
      | [(server_id, ips, _)] \<Rightarrow>
          if ips = [] then no_send (Inr ())
          else if server_id \<notin> set (so_sender so) then no_send (Inl (Bail ''server sender not found''))
          else main_broadcast W server_id exclude_ips buf
      | x # xs \<Rightarrow>
          let max_server = max_by_score x xs in
          if fst (snd max_server) = [] then no_send (Inr ())
          else if fst max_server \<notin> set (so_sender so) then no_send (Inl (Bail ''max server sender not found''))
          else join_tasks (main_broadcast W (fst max_server) exclude_ips buf #
            List.map_filter (other_server_task W so max_server (get_or_default [] exclude_ips) buf) (x # xs)))"

section \<open>To a peer\<close>

record ('k, 'c) P2pOutbound =
  po_route_table :: "'k RouteTable"
  po_crypto :: "'c option"

definition p2p_send_raw_to :: "('k, 'c) out_crates \<Rightarrow> bytes \<Rightarrow> 'k \<Rightarrow> 'k sends" where
  "p2p_send_raw_to W buf key =
     (if oc_socket W key buf then ([ToPeer key buf], Inr ()) else no_send (Inl OtherError))"

definition p2p_send_to :: "('k, 'c) out_crates \<Rightarrow> ('k, 'c) P2pOutbound \<Rightarrow> transmission \<Rightarrow> 'k \<Rightarrow> 'k sends" where
  "p2p_send_to W po buf key =
     after (pc_encrypt (oc_aead W) (po_crypto po) buf) (\<lambda>buf.
     after (tb_into_bytes buf) (\<lambda>b. p2p_send_raw_to W b key))"

definition p2p_get_route_by_id :: "('k, 'c) P2pOutbound \<Rightarrow> ipv4 \<Rightarrow> 'k Route option" where
  "p2p_get_route_by_id po ip =
     (case get_route_by_id (po_route_table po) ip of Inr r \<Rightarrow> Some r | Inl _ \<Rightarrow> None)"

definition p2p_get_p2p_route_by_id :: "('k, 'c) P2pOutbound \<Rightarrow> ipv4 \<Rightarrow> 'k Route option" where
  "p2p_get_p2p_route_by_id po ip =
     (case p2p_get_route_by_id po ip of Some r \<Rightarrow> if is_direct r then Some r else None | None \<Rightarrow> None)"

definition p2p_exists_route_by_id :: "('k, 'c) P2pOutbound \<Rightarrow> ipv4 \<Rightarrow> bool" where
  "p2p_exists_route_by_id po ip \<longleftrightarrow> rt_exists (po_route_table po) ip"

text \<open>\<open>sent\<close> counts the addresses already reached (\<open>list.len()\<close>).\<close>

fun p2p_broadcast_loop ::
  "('k, 'c) out_crates \<Rightarrow> ('k, 'c) P2pOutbound \<Rightarrow> ipv4 list \<Rightarrow> nat \<Rightarrow> bytes \<Rightarrow> nat \<Rightarrow> 'k event list \<times> ipv4 list" where
  "p2p_broadcast_loop W po [] max_count buf sent = ([], [])"
| "p2p_broadcast_loop W po (ip # ips) max_count buf sent =
     (case p2p_get_p2p_route_by_id po ip of
        None \<Rightarrow> p2p_broadcast_loop W po ips max_count buf sent
      | Some route \<Rightarrow>
          if oc_try_socket W (route_key route) buf then
            let (es, l) = (if sent + 1 \<ge> max_count then ([], [])
                           else p2p_broadcast_loop W po ips max_count buf (sent + 1)) in
            (ToPeer (route_key route) buf # es, ip # l)
          else p2p_broadcast_loop W po ips max_count buf sent)"

definition p2p_broadcast ::
  "('k, 'c) out_crates \<Rightarrow> ('k, 'c) P2pOutbound \<Rightarrow> ipv4 list \<Rightarrow> nat \<Rightarrow> bytes \<Rightarrow> 'k event list \<times> ipv4 list" where
  "p2p_broadcast W po ips max_count buf = p2p_broadcast_loop W po ips max_count buf 0"

section \<open>Choosing the path\<close>

text \<open>\<open>BasicOutbound\<close>: a server always, a peer tunnel unless disabled, one cipher.\<close>

record ('k, 'c) BasicOutbound =
  bo_server :: "'c ServerOutbound"
  bo_p2p :: "('k, 'c) P2pOutbound option"
  bo_crypto :: "'c option"

definition bo_route :: "('k, 'c) BasicOutbound \<Rightarrow> ipv4 \<Rightarrow> 'k Route option" where
  "bo_route bo dest = (case bo_p2p bo of None \<Rightarrow> None | Some p2p \<Rightarrow> p2p_get_route_by_id p2p dest)"

definition basic_send_raw ::
  "('k, 'c) out_crates \<Rightarrow> ('k, 'c) BasicOutbound \<Rightarrow> ServerInfoCollection \<Rightarrow> ipv4 \<Rightarrow> transmission \<Rightarrow> 'k sends" where
  "basic_send_raw W bo info dest packet =
     after (tb_np_into_bytes packet) (\<lambda>b.
       case bo_route bo dest of
         Some route \<Rightarrow> p2p_send_raw_to W b (route_key route)
       | None \<Rightarrow> server_send_raw W (bo_server bo) info dest b)"

definition basic_send_default_raw ::
  "('k, 'c) out_crates \<Rightarrow> ('k, 'c) BasicOutbound \<Rightarrow> ServerInfoCollection \<Rightarrow> transmission \<Rightarrow> 'k sends" where
  "basic_send_default_raw W bo info packet =
     after (rbind (tb_into_bytes packet) np_new) (server_send_default_raw W (bo_server bo) info)"

definition basic_exists_route :: "('k, 'c) BasicOutbound \<Rightarrow> ServerInfoCollection \<Rightarrow> ipv4 \<Rightarrow> bool" where
  "basic_exists_route bo info dest \<longleftrightarrow>
     (case bo_p2p bo of Some p2p \<Rightarrow> p2p_exists_route_by_id p2p dest | None \<Rightarrow> False) \<or>
     exists_online_client_ip info dest"

definition p2p_broadcast_transmission ::
  "('k, 'c) out_crates \<Rightarrow> ('k, 'c) BasicOutbound \<Rightarrow> ipv4 list \<Rightarrow> nat \<Rightarrow> bytes \<Rightarrow> 'k event list \<times> ipv4 list option" where
  "p2p_broadcast_transmission W bo l max_count packet =
     (case bo_p2p bo of
        None \<Rightarrow> ([], None)
      | Some p2p \<Rightarrow>
          let (es, reached) = p2p_broadcast W p2p l max_count packet in
          (es, if reached = [] then None else Some reached))"

definition send_encrypted_packet ::
  "('k, 'c) out_crates \<Rightarrow> ('k, 'c) BasicOutbound \<Rightarrow> ServerInfoCollection \<Rightarrow> ipv4 \<Rightarrow> transmission \<Rightarrow> 'k sends" where
  "send_encrypted_packet W bo info dest packet =
     after (pc_encrypt (oc_aead W) (bo_crypto bo) packet) (\<lambda>packet.
     after (rbind (tb_into_bytes packet) np_new) (\<lambda>b.
       case bo_route bo dest of
         Some route \<Rightarrow> p2p_send_raw_to W b (route_key route)
       | None \<Rightarrow> server_send_raw W (bo_server bo) info dest b))"

section \<open>The tunnel's outlet\<close>

text \<open>
  \<open>HybridOutbound\<close>. What an operation changes besides the world is the FEC encoder and the traffic
  counters, so it gives the new record with its events and result.
\<close>

record ('k, 'c) HybridOutbound =
  ho_network :: SharedNetworkAddr
  ho_server_info :: ServerInfoCollection
  ho_traffic_stats :: TrafficStats
  ho_basic_outbound :: "('k, 'c) BasicOutbound"
  ho_compression :: "LZ4Compression option"
  ho_external_route :: SubnetExternalRoute
  ho_fec_encoder :: "batch_states option"

text \<open>The FEC step of both senders; a full group goes to the worker, which the sender does not wait for.\<close>

definition fec_stage ::
  "('k, 'c) out_crates \<Rightarrow> ('k, 'c) HybridOutbound \<Rightarrow> transmission \<Rightarrow> transmission result \<times> ('k, 'c) HybridOutbound" where
  "fec_stage W h packet =
     (case ho_fec_encoder h of
        None \<Rightarrow> (Inr packet, h)
      | Some batches \<Rightarrow>
          (case fec_encode (oc_fec_codec W) (oc_fec_now W) (oc_fec_room W) packet batches of
             (r, _, batches') \<Rightarrow> (r, h\<lparr>ho_fec_encoder := Some batches'\<rparr>)))"

text \<open>The last step of both: send, and count the bytes if that went well.\<close>

definition counted :: "'k sends \<Rightarrow> ipv4 \<Rightarrow> nat \<Rightarrow> ('k, 'c) HybridOutbound \<Rightarrow> ('k, 'c) HybridOutbound \<times> 'k sends" where
  "counted s dest n h =
     (case snd s of
        Inl e \<Rightarrow> (h, s)
      | Inr _ \<Rightarrow> (h\<lparr>ho_traffic_stats := record_tx dest (of_nat n) (ho_traffic_stats h)\<rparr>, s))"

definition outbound_raw ::
  "('k, 'c) out_crates \<Rightarrow> ipv4 \<Rightarrow> transmission \<Rightarrow> ('k, 'c) HybridOutbound \<Rightarrow> ('k, 'c) HybridOutbound \<times> 'k sends" where
  "outbound_raw W dest packet h =
     (if np_src_id (tb_slice packet) = 0 \<and> shared_ip (ho_network h) = None
      then (h, no_send (Inl (Bail ''Not src ip'')))
      else
        let packet = (if np_src_id (tb_slice packet) = 0
              then (case shared_ip (ho_network h) of Some ip \<Rightarrow> tb_map (np_set_src_id ip) packet | None \<Rightarrow> packet)
              else packet);
            n = length (tb_slice packet) in
        (case fec_stage W h packet of
           (Inl e, h) \<Rightarrow> (h, no_send (Inl e))
         | (Inr packet, h) \<Rightarrow>
             counted (basic_send_raw W (ho_basic_outbound h) (ho_server_info h) dest packet) dest n h))"

text \<open>The destination of the tunnel packet: the address itself, or the gateway of its subnet.\<close>

definition next_hop :: "('k, 'c) out_crates \<Rightarrow> NetworkAddr \<Rightarrow> ('k, 'c) HybridOutbound \<Rightarrow> ipv4 \<Rightarrow> ipv4 option" where
  "next_hop W net h dest =
     (if \<not> oc_contains W (addr_network net) dest then subnet_route (oc_contains W) (ho_external_route h) dest
      else Some dest)"

definition ipv4_outbound ::
  "('k, 'c) out_crates \<Rightarrow> NetworkAddr \<Rightarrow> transmission \<Rightarrow> ('k, 'c) HybridOutbound \<Rightarrow> ('k, 'c) HybridOutbound \<times> 'k sends" where
  "ipv4_outbound W net data h =
     (case oc_ipv4_destination W (tb_slice data) of
        None \<Rightarrow> (h, no_send (Inr ()))
      | Some dest \<Rightarrow>
          let n = tb_len data in
          case rbind (tb_retreat_head data HEAD_LENGTH) tb_np_new of
            Inl e \<Rightarrow> (h, no_send (Inl e))
          | Inr packet \<Rightarrow>
              let packet = tb_map (np_set_msg_type Turn) packet;
                  packet = tb_map (np_set_src_id (na_ip net)) packet;
                  packet = tb_map (np_set_ttl 5) packet in
              (case next_hop W net h dest of
                 None \<Rightarrow> (h, no_send (Inr ()))
               | Some dest \<Rightarrow>
                   let packet = tb_map (np_set_dest_id dest) packet in
                   (case packet_compress (oc_lz4 W) (ho_compression h) packet (encrypt_reserve (bo_crypto (ho_basic_outbound h))) of
                      Inl e \<Rightarrow> (h, no_send (Inl e))
                    | Inr packet \<Rightarrow>
                        (case fec_stage W h packet of
                           (Inl e, h) \<Rightarrow> (h, no_send (Inl e))
                         | (Inr packet, h) \<Rightarrow>
                             counted (send_encrypted_packet W (ho_basic_outbound h) (ho_server_info h) dest packet) dest n h))))"

definition ipv4_outbound_common ::
  "('k, 'c) out_crates \<Rightarrow> transmission \<Rightarrow> ('k, 'c) HybridOutbound \<Rightarrow> ('k, 'c) HybridOutbound \<times> 'k sends" where
  "ipv4_outbound_common W data h =
     (case ho_network h of
        None \<Rightarrow> (h, no_send (Inl (Bail ''Not src ip'')))
      | Some net \<Rightarrow> ipv4_outbound W net data h)"

definition ipv4_gateway_outbound ::
  "('k, 'c) out_crates \<Rightarrow> NetworkAddr \<Rightarrow> transmission \<Rightarrow> ('k, 'c) HybridOutbound \<Rightarrow> 'k sends" where
  "ipv4_gateway_outbound W net data h =
     after (rbind (tb_retreat_head data HEAD_LENGTH) tb_np_new) (\<lambda>packet.
       let packet = tb_map (np_set_msg_type Turn) packet;
           packet = tb_map (np_set_src_id (na_ip net)) packet;
           packet = tb_map (np_set_dest_id (na_gateway net)) packet;
           packet = tb_map (np_set_ttl 5) packet;
           packet = tb_map (np_set_gateway_flag True) packet in
       basic_send_default_raw W (ho_basic_outbound h) (ho_server_info h) packet)"

definition ipv4_broadcast_outbound ::
  "('k, 'c) out_crates \<Rightarrow> NetworkAddr \<Rightarrow> transmission \<Rightarrow> ('k, 'c) HybridOutbound \<Rightarrow> 'k sends" where
  "ipv4_broadcast_outbound W net data h =
     after (rbind (tb_retreat_head data HEAD_LENGTH) tb_np_new) (\<lambda>packet.
       let bo = ho_basic_outbound h;
           packet = tb_map (np_set_msg_type Broadcast) packet;
           packet = tb_map (np_set_src_id (na_ip net)) packet;
           packet = tb_map (np_set_dest_id 0xFFFFFFFF) packet;
           packet = tb_map (np_set_ttl 5) packet in
       after (packet_compress (oc_lz4 W) (ho_compression h) packet (encrypt_reserve (bo_crypto bo))) (\<lambda>packet.
       after (pc_encrypt (oc_aead W) (bo_crypto bo) packet) (\<lambda>packet.
       after (tb_np_into_bytes packet) (\<lambda>packet_bytes.
         let l = client_online_ips (ho_server_info h);
             (es, exclude_ips) = p2p_broadcast_transmission W bo l 16 packet_bytes in
         if (case exclude_ips of Some ex \<Rightarrow> length ex = length l | None \<Rightarrow> False) then (es, Inr ())
         else (case server_send_raw_broadcast W (bo_server bo) (ho_server_info h) exclude_ips packet_bytes of
                 (es', r) \<Rightarrow> (es @ es', r))))))"

section \<open>Broadcasting over servers\<close>

definition score :: "(u32 \<times> ipv4 list \<times> u32) \<Rightarrow> rat" where
  "score x = of_nat (length (fst (snd x))) / of_nat (unat (snd (snd x)) + 1)"

lemma frac_less: "0 < P \<Longrightarrow> 0 < Q \<Longrightarrow> a / P < b / Q \<longleftrightarrow> a * Q < b * P" for P Q a b :: rat
  by (simp add: field_simps)

lemma score_gt_score: "score_gt a b \<longleftrightarrow> score a > score b"
proof -
  obtain i xs p j ys q where ab: "a = (i, xs, p)" "b = (j, ys, q)" by (metis prod.collapse)
  have pos: "(0 :: rat) < of_nat (unat r + 1)" for r :: u32
    unfolding of_nat_0_less_iff by simp
  show ?thesis
    unfolding score_def score_gt_def ab fst_conv snd_conv prod.case
      frac_less [OF pos pos] of_nat_mult [symmetric] of_nat_less_iff ..
qed

lemma max_by_score_mem: "max_by_score x xs \<in> set (x # xs)"
proof (induction xs arbitrary: x)
  case (Cons y ys)
  show ?case
    using Cons.IH [of x] Cons.IH [of y] by (cases "score_gt x y") auto
qed simp

lemma max_by_score_max: "y \<in> set (x # xs) \<Longrightarrow> score y \<le> score (max_by_score x xs)"
proof (induction xs arbitrary: x y)
  case (Cons z zs)
  let ?b = "if score_gt x z then x else z"
  have "score x \<le> score ?b" "score z \<le> score ?b" by (auto simp: score_gt_score)
  moreover have "score ?b \<le> score (max_by_score ?b zs)" by (rule Cons.IH) simp
  ultimately show ?case
    using Cons.prems Cons.IH [of y ?b] by (auto intro: order_trans)
qed simp

lemma score_zero: "score x \<le> 0 \<longleftrightarrow> fst (snd x) = []"
proof -
  have pos: "(0 :: rat) < of_nat (unat (snd (snd x)) + 1)"
    unfolding of_nat_0_less_iff by simp
  have "score x \<le> 0 \<longleftrightarrow> (of_nat (length (fst (snd x))) :: rat) \<le> 0"
    unfolding score_def pos_divide_le_eq [OF pos] by simp
  then show ?thesis by simp
qed

text \<open>If the best server has no client, none has.\<close>

lemma max_by_score_empty:
  assumes "fst (snd (max_by_score x xs)) = []" and "y \<in> set (x # xs)"
  shows "fst (snd y) = []"
  using max_by_score_max [OF assms(2)] assms(1) by (metis order_trans score_zero)

lemma after_ok: "after r f = (es, Inr ()) \<longleftrightarrow> (\<exists>x. r = Inr x \<and> f x = (es, Inr ()))"
  by (cases r) auto

lemma channel_send_ok: "channel_send W i b d = (es, Inr ()) \<longleftrightarrow> es = [ToServer i b d] \<and> oc_channel W i b"
  by (auto simp: channel_send_def no_send_def)

lemma join_tasks_ok:
  "join_tasks ts = (es, Inr ()) \<longleftrightarrow> es = concat (map fst ts) \<and> (\<forall>t\<in>set ts. snd t = Inr ())"
proof -
  have "(case r of Inl _ \<Rightarrow> True | Inr _ \<Rightarrow> False) \<longleftrightarrow> r \<noteq> Inr ()" for r :: "unit result"
    by (cases r) auto
  then show ?thesis by (auto simp: join_tasks_def list_ex_iff)
qed

lemma join_tasks_succeeds: "(\<And>t. t \<in> set ts \<Longrightarrow> snd t = Inr ()) \<Longrightarrow> snd (join_tasks ts) = Inr ()"
  by (metis join_tasks_ok snd_conv)

text \<open>What a broadcast hands to the main server, and what reaches an address at all.\<close>

definition main_packet :: "('k, 'c) out_crates \<Rightarrow> ipv4 list option \<Rightarrow> bytes \<Rightarrow> bytes result" where
  "main_packet W ex buf = (case ex of None \<Rightarrow> Inr buf | Some l \<Rightarrow> selective_packet W ExcludeBroadcast l buf)"

definition main_event :: "('k, 'c) out_crates \<Rightarrow> ipv4 list option \<Rightarrow> bytes \<Rightarrow> u32 \<Rightarrow> 'k event \<Rightarrow> bool" where
  "main_event W ex buf j e \<longleftrightarrow> (\<exists>b. main_packet W ex buf = Inr b \<and> e = ToServer j b (secs 5))"

definition target_event :: "('k, 'c) out_crates \<Rightarrow> ipv4 list \<Rightarrow> bytes \<Rightarrow> u32 \<Rightarrow> 'k event \<Rightarrow> bool" where
  "target_event W targets buf j e \<longleftrightarrow>
     (\<exists>b. selective_packet W TargetBroadcast targets buf = Inr b \<and> e = ToServer j b (secs 5))"

lemma main_broadcast_ok:
  "main_broadcast W i ex buf = (es, Inr ()) \<Longrightarrow> \<exists>e. es = [e] \<and> main_event W ex buf i e"
  by (auto simp: main_broadcast_def send_exclude_broadcast_def send_direct_def after_ok channel_send_ok
      main_event_def main_packet_def split: option.splits)

lemma other_server_task_Some:
  "other_server_task W so m ex buf x = Some t \<longleftrightarrow>
     fst x \<noteq> fst m \<and> fst x \<in> set (so_sender so) \<and>
     (let targets = filter (\<lambda>ip. ip \<notin> set (fst (snd m)) \<and> ip \<notin> set ex) (fst (snd x)) in
      targets \<noteq> [] \<and> t = send_target_broadcast W (fst x) targets buf (secs 5))"
  by (cases x) (auto simp: other_server_task_def Let_def)

lemma target_broadcast_ok:
  "send_target_broadcast W i targets buf (secs 5) = (es, Inr ()) \<Longrightarrow> \<exists>e. es = [e] \<and> target_event W targets buf i e"
  by (auto simp: send_target_broadcast_def after_ok channel_send_ok target_event_def)


lemma server_broadcast_more:
  assumes "server_client_ip_map info = x # y # xs"
  shows "server_send_raw_broadcast W so info ex buf =
    (let m = max_by_score x (y # xs) in
     if fst (snd m) = [] then no_send (Inr ())
     else if fst m \<notin> set (so_sender so) then no_send (Inl (Bail ''max server sender not found''))
     else join_tasks (main_broadcast W (fst m) ex buf #
       List.map_filter (other_server_task W so m (get_or_default [] ex) buf) (x # y # xs)))"
  by (cases x) (simp only: server_send_raw_broadcast_def assms list.case prod.case)

text \<open>One server, or several: a client that is online somewhere and not excluded is reached.\<close>

lemma server_broadcast_covers:
  assumes "hm_ok (server_node_map info)"
    and "server_send_raw_broadcast W so info ex buf = (es, Inr ())"
    and "(i, ips, r) \<in> set (server_client_ip_map info)" and "ip \<in> set ips"
    and "ip \<notin> set (get_or_default [] ex)" and "i \<in> set (so_sender so)"
  shows "\<exists>j js q e. (j, js, q) \<in> set (server_client_ip_map info) \<and> ip \<in> set js \<and> e \<in> set es \<and>
    (main_event W ex buf j e \<or>
     (\<exists>targets. ip \<in> set targets \<and> set targets \<inter> set (get_or_default [] ex) = {} \<and> target_event W targets buf j e))"
    (is "\<exists>j js q e. ?ok j js q e")
proof -
  let ?map = "server_client_ip_map info" and ?ex = "get_or_default [] ex"
  have map_fst: "map fst ?map = map fst (server_node_map info)"
    by (simp add: server_client_ip_map_def comp_def case_prod_unfold)
  have dist: "distinct (map fst ?map)"
    unfolding map_fst by (rule assms(1))
  consider (one) x where "?map = [x]" | (more) x y xs where "?map = x # y # xs"
    using assms(3) by (cases ?map rule: list.exhaust; cases "tl ?map") auto
  then show ?thesis
  proof cases
    case one
    then have x: "x = (i, ips, r)" using assms(3) by simp
    have "ips \<noteq> []" using assms(4) by auto
    then have "main_broadcast W i ex buf = (es, Inr ())"
      using assms(2,6) one by (simp add: server_send_raw_broadcast_def x)
    then obtain e where "e \<in> set es" "main_event W ex buf i e" by (auto dest: main_broadcast_ok)
    with assms(3,4) have "?ok i ips r e" by blast
    then show ?thesis by blast
  next
    case more
    define m where "m = max_by_score x (y # xs)"
    obtain mi mips mr where m: "m = (mi, mips, mr)" by (cases m) auto
    have m_mem: "(mi, mips, mr) \<in> set ?map"
      using max_by_score_mem [of x "y # xs"] unfolding m_def [symmetric] m more .
    have mips: "mips \<noteq> []"
      using max_by_score_empty [of x "y # xs" "(i, ips, r)"] assms(3,4)
      unfolding m_def [symmetric] m more by fastforce
    define ts where "ts = List.map_filter (other_server_task W so m ?ex buf) ?map"
    have "server_send_raw_broadcast W so info ex buf =
      (if mips = [] then no_send (Inr ())
       else if mi \<notin> set (so_sender so) then no_send (Inl (Bail ''max server sender not found''))
       else join_tasks (main_broadcast W mi ex buf # ts))"
      using server_broadcast_more [OF more, of W so ex buf] unfolding Let_def m_def [symmetric] m ts_def more fst_conv snd_conv .
    with assms(2) mips have "join_tasks (main_broadcast W mi ex buf # ts) = (es, Inr ())"
      by (simp add: no_send_def split: if_splits)
    then have es: "es = concat (map fst (main_broadcast W mi ex buf # ts))"
      and ok: "snd (main_broadcast W mi ex buf) = Inr ()" "\<And>t. t \<in> set ts \<Longrightarrow> snd t = Inr ()"
      by (auto simp: join_tasks_ok)
    have ok': "t = (fst t, Inr ())" if "snd t = Inr ()" for t :: "'a sends"
      using that by (cases t) simp
    obtain e0 where e0': "fst (main_broadcast W mi ex buf) = [e0]" and e0: "main_event W ex buf mi e0"
      using main_broadcast_ok [OF ok' [OF ok(1)]] by auto
    have "e0 \<in> set es" unfolding es by (simp add: e0')
    note e0 = this e0
    show ?thesis
    proof (cases "ip \<in> set mips")
      case True
      with e0 m_mem show ?thesis by blast
    next
      case False
      let ?targets = "filter (\<lambda>ip. ip \<notin> set mips \<and> ip \<notin> set ?ex) ips"
      let ?t = "send_target_broadcast W i ?targets buf (secs 5)"
      have ip: "ip \<in> set ?targets" using False assms(4,5) by simp
      have "i \<noteq> mi"
        using False assms(3,4) m_mem dist by (metis eq_key_imp_eq_value fst_conv)
      with ip assms(6) have "other_server_task W so m ?ex buf (i, ips, r) = Some ?t"
        by (auto simp: other_server_task_Some m Let_def filter_empty_conv)
      with assms(3) have t: "?t \<in> set ts" by (auto simp: ts_def set_map_filter)
      obtain e where e: "fst ?t = [e]" "target_event W ?targets buf i e"
        using target_broadcast_ok [OF ok' [OF ok(2) [OF t]]] by auto
      have "set (fst ?t) \<subseteq> set es" using t unfolding es by auto
      with e(1) have "e \<in> set es" by simp
      moreover have "set ?targets \<inter> set ?ex = {}" by auto
      ultimately have "?ok i ips r e" using e(2) ip assms(3,4) by blast
      then show ?thesis by blast
    qed
  qed
qed


text \<open>A broadcast fails only for want of servers, of a channel, or of room in one.\<close>

lemma tb_spliced:
  assumes "tb_wf t" and "HEAD_LENGTH + length bs = length (tb_slice t)"
  shows "tb_slice (tb_map (splice HEAD_LENGTH bs) t) = np_head (tb_slice t) @ bs" "tb_wf (tb_map (splice HEAD_LENGTH bs) t)"
  using assms by (simp_all add: tb_slice_map tb_wf_map np_head_def splice_def)

lemma tb_header_mut:
  assumes "tb_wf t" and "np_ok (tb_slice t)"
  shows "tb_slice (tb_map (np_header_mut f) t) = np_header_mut f (tb_slice t)"
    and "tb_wf (tb_map (np_header_mut f) t)"
  using assms by (simp_all add: tb_slice_map tb_wf_map length_np_header_mut)

lemma selective_packet_Inr:
  "selective_packet W mt ips buf = Inr (np_head (np_set_ttl 5 (np_set_msg_type mt (replicate HEAD_LENGTH 0))) @
     enc (oc_broadcast_codec W) (selective_broadcast_new ips buf))"
proof -
  let ?bs = "enc (oc_broadcast_codec W) (selective_broadcast_new ips buf)"
  let ?z = "tb_zeroed (HEAD_LENGTH + length ?bs)"
  let ?p = "tb_map (np_set_ttl 5) (tb_map (np_set_msg_type mt) ?z)"
  have z: "tb_wf ?z" "np_ok (tb_slice ?z)" "tb_slice ?z = replicate HEAD_LENGTH 0 @ replicate (length ?bs) 0"
    by (simp_all add: tb_wf_zeroed np_ok_def replicate_add)
  have p: "tb_wf ?p" "tb_slice ?p = np_set_ttl 5 (np_set_msg_type mt (tb_slice ?z))" "length (tb_slice ?p) = HEAD_LENGTH + length ?bs"
    using z by (simp_all add: np_set_ttl_def np_set_msg_type_def tb_header_mut length_np_header_mut)
  have q: "tb_slice (tb_map (splice HEAD_LENGTH ?bs) ?p) = np_head (tb_slice ?p) @ ?bs" "tb_wf (tb_map (splice HEAD_LENGTH ?bs) ?p)"
    using p by (simp_all add: tb_spliced)
  have "tb_np_new ?z = Inr ?z" using z(2) by (simp add: tb_np_new_def np_new_def np_ok_def)
  moreover have "np_head (tb_slice ?p) = np_head (np_set_ttl 5 (np_set_msg_type mt (replicate HEAD_LENGTH 0)))"
    unfolding p(2) z(3) by (simp add: np_head_def np_set_ttl_def np_set_msg_type_def np_header_mut_def np_header_def)
  ultimately show ?thesis
    using q by (simp add: selective_packet_def Let_def tb_into_bytes_wf)
qed

lemma server_broadcast_succeeds:
  assumes "server_client_ip_map info \<noteq> []" and "\<And>i b. oc_channel W i b"
    and "\<And>x. x \<in> set (server_client_ip_map info) \<Longrightarrow> fst x \<in> set (so_sender so)"
  shows "snd (server_send_raw_broadcast W so info ex buf) = Inr ()"
proof -
  have main: "snd (main_broadcast W i ex buf) = Inr ()" for i
    by (simp add: main_broadcast_def send_exclude_broadcast_def send_direct_def selective_packet_Inr
        channel_send_def assms(2) split: option.splits)
  have other: "snd t = Inr ()" if "other_server_task W so m l buf x = Some t" for m l x t
    using that by (auto simp: other_server_task_Some Let_def send_target_broadcast_def selective_packet_Inr
        channel_send_def assms(2))
  consider (one) x where "server_client_ip_map info = [x]" | (more) x y xs where "server_client_ip_map info = x # y # xs"
    using assms(1) by (cases "server_client_ip_map info" rule: list.exhaust; cases "tl (server_client_ip_map info)") auto
  then show ?thesis
  proof cases
    case one
    then show ?thesis using assms(3) [of x] main by (cases x) (auto simp: server_send_raw_broadcast_def no_send_def)
  next
    case more
    have "fst (max_by_score x (y # xs)) \<in> set (so_sender so)"
      using max_by_score_mem [of x "y # xs"] more by (intro assms(3)) (simp only: more)
    moreover have "snd (join_tasks (main_broadcast W i ex buf # List.map_filter (other_server_task W so m l buf) l')) = Inr ()" for i m l l'
      by (rule join_tasks_succeeds) (simp only: list.set insert_iff set_map_filter, use main other in blast)
    ultimately show ?thesis
      unfolding server_broadcast_more [OF more] by (simp only: Let_def no_send_def snd_conv split: if_splits) simp
  qed
qed

section \<open>Broadcasting over peers\<close>

text \<open>Who was reached directly: a sublist of the asked, at most so many, each on a direct route.\<close>

lemma p2p_broadcast_loop_spec:
  "p2p_broadcast_loop W po ips k buf sent = (es, l) \<Longrightarrow> sent < k \<Longrightarrow>
   set l \<subseteq> set ips \<and> length l \<le> length ips \<and> sent + length l \<le> k \<and> (length l = length ips \<longrightarrow> l = ips) \<and>
   (\<forall>ip\<in>set l. \<exists>route. p2p_get_p2p_route_by_id po ip = Some route \<and> ToPeer (route_key route) buf \<in> set es)"
proof (induction ips arbitrary: sent es l)
  case (Cons ip ips)
  show ?case
  proof (cases "p2p_get_p2p_route_by_id po ip")
    case None
    with Cons.prems Cons.IH [of sent es l] show ?thesis by auto
  next
    case (Some route)
    show ?thesis
    proof (cases "oc_try_socket W (route_key route) buf")
      case False
      with Some Cons.prems Cons.IH [of sent es l] show ?thesis by auto
    next
      case True
      obtain es' l' where rest: "(if sent + 1 \<ge> k then ([], []) else p2p_broadcast_loop W po ips k buf (sent + 1)) = (es', l')"
        by fastforce
      with Some True Cons.prems have es: "es = ToPeer (route_key route) buf # es'" "l = ip # l'"
        by (auto split: prod.splits)
      show ?thesis
      proof (cases "sent + 1 \<ge> k")
        case True
        with rest Some es Cons.prems(2) show ?thesis by auto
      next
        case False
        with rest Cons.IH [of "sent + 1" es' l'] Some es show ?thesis by auto
      qed
    qed
  qed
qed simp

lemma p2p_broadcast_transmission_spec:
  assumes "p2p_broadcast_transmission W bo ips k buf = (es, ex)" and "0 < k"
  shows "length (get_or_default [] ex) \<le> k \<and> set (get_or_default [] ex) \<subseteq> set ips \<and>
    (length (get_or_default [] ex) = length ips \<longrightarrow> set (get_or_default [] ex) = set ips) \<and>
    (\<forall>ip\<in>set (get_or_default [] ex). \<exists>po route. bo_p2p bo = Some po \<and> p2p_get_p2p_route_by_id po ip = Some route \<and>
       ToPeer (route_key route) buf \<in> set es)"
proof (cases "bo_p2p bo")
  case None
  with assms(1) show ?thesis by (auto simp: p2p_broadcast_transmission_def get_or_default_def)
next
  case (Some po)
  obtain l where l: "p2p_broadcast_loop W po ips k buf 0 = (es, l)" "get_or_default [] ex = l"
    using assms(1) Some by (auto simp: p2p_broadcast_transmission_def p2p_broadcast_def get_or_default_def
        split: prod.splits if_splits)
  from p2p_broadcast_loop_spec [OF l(1) assms(2)] Some show ?thesis by (auto simp: l(2))
qed


section \<open>Packets built in place\<close>

text \<open>Making room for the head in front of the data.\<close>

lemma retreat_packet:
  assumes "tb_wf data" and "rbind (tb_retreat_head data HEAD_LENGTH) tb_np_new = Inr packet"
  shows "tb_wf packet" "np_ok (tb_slice packet)" "np_payload (tb_slice packet) = tb_slice data"
    "np_header (tb_slice packet) = decode_header (drop (tb_start data - HEAD_LENGTH) (take (tb_start data) (tb_buf data)))"
proof -
  from assms(2) have r: "tb_retreat_head data HEAD_LENGTH = Inr packet" and ok: "\<not> length (tb_slice packet) < HEAD_LENGTH"
    by (auto simp: rbind_eq_Inr tb_np_new_def np_new_def split: if_splits)
  show wf: "tb_wf packet" using assms(1) r by (rule tb_wf_retreat)
  show "np_ok (tb_slice packet)" using ok by (simp add: np_ok_def)
  let ?room = "drop (tb_start data - HEAD_LENGTH) (take (tb_start data) (tb_buf data))"
  have room: "HEAD_LENGTH \<le> tb_start data"
    using r by (auto simp: tb_retreat_head_def tb_head_room_def split: if_splits)
  have sl: "tb_slice packet = ?room @ tb_slice data"
    using tb_slice_retreat [OF assms(1) r] by simp
  have len: "length ?room = HEAD_LENGTH"
    using assms(1) room by (simp add: tb_wf_def)
  show "np_payload (tb_slice packet) = tb_slice data" "np_header (tb_slice packet) = decode_header ?room"
    using len by (simp_all add: sl np_payload_def np_header_def)
qed


text \<open>Compressing and encrypting a packet changes its head in one flag at most.\<close>

lemma packed_header:
  assumes "aead_correct A" and "tb_wf t" and "np_ok (tb_slice t)"
    and "packet_compress Z cp t reserve = Inr t1" and "pc_encrypt A pc t1 = Inr t2"
  shows "tb_wf t1" "np_ok (tb_slice t1)" "tb_wf t2" "np_ok (tb_slice t2)"
    "np_header (tb_slice t2) = np_header (tb_slice t) \<or>
     np_header (tb_slice t2) = h_set_flag COMPRESSED True (np_header (tb_slice t))"
proof -
  have h: "np_ok (np_head (tb_slice t))" "length (np_head (tb_slice t)) = HEAD_LENGTH"
    using assms(3) by (simp_all add: np_head_def np_ok_def)
  have c: "tb_wf t1 \<and> np_ok (tb_slice t1) \<and> (np_header (tb_slice t1) = np_header (tb_slice t) \<or>
     np_header (tb_slice t1) = h_set_flag COMPRESSED True (np_header (tb_slice t)))"
    using assms(3,4)
  proof (cases rule: compress_cases)
    case same
    then show ?thesis using assms(2,3) by simp
  next
    case smaller
    then show ?thesis using h
      by (simp add: np_ok_def np_header_def np_set_compressed_flag_def np_header_mut_def np_head_def decode_encode_header)
  qed
  then have wf: "tb_wf t1" and ok: "np_ok (tb_slice t1)" by auto
  note e = pc_encrypt_head [OF assms(1) wf ok assms(5)]
  have "np_header (tb_slice t2) = np_header (tb_slice t1)"
    using e(1) by (simp add: np_header_def np_head_def)
  with c e show "tb_wf t1" "np_ok (tb_slice t1)" "tb_wf t2" "np_ok (tb_slice t2)"
    "np_header (tb_slice t2) = np_header (tb_slice t) \<or>
     np_header (tb_slice t2) = h_set_flag COMPRESSED True (np_header (tb_slice t))"
    by simp_all
qed

text \<open>One send, to the best route of the destination or else to its best server.\<close>

definition path_of :: "('k, 'c) BasicOutbound \<Rightarrow> ServerInfoCollection \<Rightarrow> ipv4 \<Rightarrow> bytes \<Rightarrow> 'k event \<Rightarrow> bool" where
  "path_of bo info dest b e \<longleftrightarrow>
     (case bo_route bo dest of
        Some route \<Rightarrow> e = ToPeer (route_key route) b
      | None \<Rightarrow> \<exists>i. find_ip_to_server info (so_server_id_list (bo_server bo)) dest = Some i \<and>
          i \<in> set (so_sender (bo_server bo)) \<and> e = ToServer i b (secs 5))"

lemma routed_send:
  assumes "(case bo_route bo dest of
         Some route \<Rightarrow> p2p_send_raw_to W b (route_key route)
       | None \<Rightarrow> server_send_raw W (bo_server bo) info dest b) = (es, r)"
  shows "(es = [] \<and> r \<noteq> Inr ()) \<or> (r = Inr () \<and> (\<exists>e. es = [e] \<and> path_of bo info dest b e))"
  using assms by (auto simp: p2p_send_raw_to_def server_send_raw_def send_to_server_def channel_send_def
      no_send_def path_of_def split: option.splits if_splits)

lemma send_encrypted_cases:
  assumes "send_encrypted_packet W bo info dest packet = (es, r)"
  shows "(es = [] \<and> r \<noteq> Inr ()) \<or>
    (r = Inr () \<and> (\<exists>e t b. pc_encrypt (oc_aead W) (bo_crypto bo) packet = Inr t \<and> tb_into_bytes t = Inr b \<and>
       es = [e] \<and> path_of bo info dest b e))"
proof (cases "pc_encrypt (oc_aead W) (bo_crypto bo) packet")
  case (Inl e)
  with assms show ?thesis by (auto simp: send_encrypted_packet_def)
next
  case (Inr t)
  show ?thesis
  proof (cases "rbind (tb_into_bytes t) np_new")
    case (Inl e)
    with assms Inr show ?thesis by (auto simp: send_encrypted_packet_def)
  next
    case b: (Inr b)
    then have "tb_into_bytes t = Inr b" by (auto simp: rbind_eq_Inr np_new_def split: if_splits)
    with routed_send [of W bo info dest b es r] assms Inr b show ?thesis
      by (auto simp: send_encrypted_packet_def)
  qed
qed

lemma counted_cases:
  "counted (es, r) dest n h = (h', es', r') \<longleftrightarrow> es' = es \<and> r' = r \<and>
     h' = (if r = Inr () then h\<lparr>ho_traffic_stats := record_tx dest (of_nat n) (ho_traffic_stats h)\<rparr> else h)"
  by (cases r) (auto simp: counted_def)

lemma fec_stage_frame:
  "fec_stage W h packet = (r, h') \<Longrightarrow> ho_traffic_stats h' = ho_traffic_stats h \<and>
     ho_basic_outbound h' = ho_basic_outbound h \<and> ho_server_info h' = ho_server_info h"
  by (auto simp: fec_stage_def split: option.splits prod.splits)

text \<open>A run of \<open>ipv4_outbound\<close> either sends nothing, without an error only if the packet has no destination or no next hop, or comes to its last line.\<close>

definition no_next_hop :: "('k, 'c) out_crates \<Rightarrow> NetworkAddr \<Rightarrow> transmission \<Rightarrow> ('k, 'c) HybridOutbound \<Rightarrow> bool" where
  "no_next_hop W net data h \<longleftrightarrow> Option.bind (oc_ipv4_destination W (tb_slice data)) (next_hop W net h) = None"

definition turn_packet :: "NetworkAddr \<Rightarrow> ipv4 \<Rightarrow> transmission \<Rightarrow> transmission" where
  "turn_packet net dest p = tb_map (np_set_dest_id dest) (tb_map (np_set_ttl 5) (tb_map (np_set_src_id (na_ip net)) (tb_map (np_set_msg_type Turn) p)))"

lemma ipv4_outbound_run:
  assumes "ipv4_outbound W net data h = (h', es, r)"
  shows "(es = [] \<and> ho_traffic_stats h' = ho_traffic_stats h \<and> (r = Inr () \<longrightarrow> no_next_hop W net data h)) \<or>
    (\<exists>d dest p q fp hf. oc_ipv4_destination W (tb_slice data) = Some d \<and> next_hop W net h d = Some dest \<and>
       rbind (tb_retreat_head data HEAD_LENGTH) tb_np_new = Inr p \<and>
       packet_compress (oc_lz4 W) (ho_compression h) (turn_packet net dest p) (encrypt_reserve (bo_crypto (ho_basic_outbound h))) = Inr q \<and>
       fec_stage W h q = (Inr fp, hf) \<and>
       counted (send_encrypted_packet W (ho_basic_outbound hf) (ho_server_info hf) dest fp) dest (tb_len data) hf = (h', es, r))"
  using assms unfolding ipv4_outbound_def no_send_def no_next_hop_def Let_def turn_packet_def [symmetric]
  by (auto split: option.splits sum.splits prod.splits dest: fec_stage_frame)

text \<open>A socket that takes nothing makes the send an error.\<close>

lemma send_encrypted_refused:
  assumes "send_encrypted_packet W bo info dest packet = (es, r)" and "bo_route bo dest = Some route"
    and "\<And>b. \<not> oc_socket W (route_key route) b"
  shows "es = [] \<and> r \<noteq> Inr ()"
  using assms by (auto simp: send_encrypted_packet_def after_def p2p_send_raw_to_def no_send_def split: sum.splits)

section \<open>Properties\<close>

text \<open>What makes a client receive a broadcast: an event of its own, or of a server that has it online.\<close>

definition broadcast_to ::
  "('k, 'c) out_crates \<Rightarrow> ('k, 'c) BasicOutbound \<Rightarrow> ServerInfoCollection \<Rightarrow> bytes \<Rightarrow> ipv4 \<Rightarrow> 'k event \<Rightarrow> bool" where
  "broadcast_to W bo info pkt ip e \<longleftrightarrow>
     (\<exists>po route. bo_p2p bo = Some po \<and> p2p_get_p2p_route_by_id po ip = Some route \<and> e = ToPeer (route_key route) pkt) \<or>
     (\<exists>j js q ex. (j, js, q) \<in> set (server_client_ip_map info) \<and> ip \<in> set js \<and> ip \<notin> set (get_or_default [] ex) \<and>
        (main_event W ex pkt j e \<or> (\<exists>targets. ip \<in> set targets \<and> target_event W targets pkt j e)))"

text \<open>
  C2. A broadcast that reports success reaches every client that is online at a server: over its
  own direct route, through the main server without being excluded, or in the target list of
  another server; and what is sent is one packet, of type \<open>Broadcast\<close> from this node to
  \<open>255.255.255.255\<close>.
\<close>

theorem broadcast_covers_online_clients:
  assumes "aead_correct (oc_aead W)" and "tb_wf data"
    and "hm_ok (server_node_map (ho_server_info h))"
    and "\<forall>x\<in>set (server_client_ip_map (ho_server_info h)). fst x \<in> set (so_sender (bo_server (ho_basic_outbound h)))"
    and "ipv4_broadcast_outbound W net data h = (es, Inr ())"
  shows "\<exists>pkt. np_msg_type pkt = Inr Broadcast \<and> np_src_id pkt = na_ip net \<and> np_dest_id pkt = 0xFFFFFFFF \<and>
    (\<forall>ip\<in>set (client_online_ips (ho_server_info h)). \<forall>x\<in>set (server_client_ip_map (ho_server_info h)).
       ip \<in> set (fst (snd x)) \<longrightarrow> (\<exists>e\<in>set es. broadcast_to W (ho_basic_outbound h) (ho_server_info h) pkt ip e))"
proof -
  let ?bo = "ho_basic_outbound h" and ?info = "ho_server_info h"
  let ?l = "client_online_ips ?info"
  define build where "build = (\<lambda>packet. tb_map (np_set_ttl 5) (tb_map (np_set_dest_id 0xFFFFFFFF)
    (tb_map (np_set_src_id (na_ip net)) (tb_map (np_set_msg_type Broadcast) packet))))"
  from assms(5) obtain t0 t1 t2 b where
    t0: "rbind (tb_retreat_head data HEAD_LENGTH) tb_np_new = Inr t0"
    and t1: "packet_compress (oc_lz4 W) (ho_compression h) (build t0) (encrypt_reserve (bo_crypto ?bo)) = Inr t1"
    and t2: "pc_encrypt (oc_aead W) (bo_crypto ?bo) t1 = Inr t2" and b: "tb_np_into_bytes t2 = Inr b"
    and fin: "(let (es, exclude_ips) = p2p_broadcast_transmission W ?bo ?l 16 b in
         if (case exclude_ips of Some ex \<Rightarrow> length ex = length ?l | None \<Rightarrow> False) then (es, Inr ())
         else (case server_send_raw_broadcast W (bo_server ?bo) ?info exclude_ips b of (es', r) \<Rightarrow> (es @ es', r))) = (es, Inr ())"
    unfolding ipv4_broadcast_outbound_def Let_def build_def after_ok by blast
  note p0 = retreat_packet [OF assms(2) t0]
  have built: "tb_wf (build t0)" "np_ok (tb_slice (build t0))" "np_msg_type (tb_slice (build t0)) = Inr Broadcast"
    "np_src_id (tb_slice (build t0)) = na_ip net" "np_dest_id (tb_slice (build t0)) = 0xFFFFFFFF"
    using p0 by (simp_all add: build_def np_op_defs tb_header_mut h_set_ttl_def h_msg_type_def h_set_msg_type_def msg_try_from_def)
  have "np_msg_type (tb_slice t2) = Inr Broadcast \<and> np_src_id (tb_slice t2) = na_ip net \<and> np_dest_id (tb_slice t2) = 0xFFFFFFFF"
    using packed_header(5) [OF assms(1) built(1,2) t1 t2] built(3-5)
    by (auto simp: np_msg_type_def np_src_id_def np_dest_id_def h_set_flag_def h_msg_type_def)
  moreover have "b = tb_slice t2"
    using b packed_header(3) [OF assms(1) built(1,2) t1 t2] by (simp add: tb_np_into_bytes_def tb_into_bytes_wf)
  ultimately have hdr: "np_msg_type b = Inr Broadcast \<and> np_src_id b = na_ip net \<and> np_dest_id b = 0xFFFFFFFF"
    by simp
  obtain es1 ex where p2p: "p2p_broadcast_transmission W ?bo ?l 16 b = (es1, ex)" by fastforce
  note reached = p2p_broadcast_transmission_spec [OF p2p]
  have "\<exists>e\<in>set es. broadcast_to W ?bo ?info b ip e"
    if ip: "ip \<in> set ?l" and x: "x \<in> set (server_client_ip_map ?info)" "ip \<in> set (fst (snd x))" for ip x
  proof (cases "ip \<in> set (get_or_default [] ex)")
    case True
    have "set es1 \<subseteq> set es" using fin by (auto simp: p2p split: if_splits prod.splits option.splits)
    with True reached show ?thesis unfolding broadcast_to_def by (metis subsetD zero_less_numeral)
  next
    case False
    have "\<not> (case ex of Some ex \<Rightarrow> length ex = length ?l | None \<Rightarrow> False)"
      using False ip reached by (auto simp: get_or_default_def split: option.splits)
    with fin obtain es2 where es2: "server_send_raw_broadcast W (bo_server ?bo) ?info ex b = (es2, Inr ())"
      and es: "es = es1 @ es2"
      by (auto simp: p2p split: prod.splits)
    obtain i ips r where i: "x = (i, ips, r)" by (cases x) auto
    have "fst x \<in> set (so_sender (bo_server ?bo))" using assms(4) x(1) by (rule bspec)
    with server_broadcast_covers [OF assms(3) es2 _ _ False, of i ips r] x
    obtain j js q e where "(j, js, q) \<in> set (server_client_ip_map ?info)" "ip \<in> set js" "e \<in> set es2"
      "main_event W ex b j e \<or> (\<exists>targets. ip \<in> set targets \<and> target_event W targets b j e)"
      unfolding i fst_conv snd_conv by blast
    with False show ?thesis unfolding broadcast_to_def es by (metis Un_iff set_append)
  qed
  with hdr show ?thesis by blast
qed


text \<open>A concrete node: two servers, one client at both, one at the second only, one over a direct route.\<close>

definition demo_crates :: "(nat, bytes) out_crates" where
  "demo_crates = \<lparr>oc_aead = toy_aead, oc_lz4 = toy_lz4,
     oc_contains = (\<lambda>net ip. drop_bit 8 ip = drop_bit 8 (net_addr net)),
     oc_broadcast_codec = \<lparr>enc = (\<lambda>s. concat (map be32 (sb_ips s)) @ sb_data s), dec = (\<lambda>_. None)\<rparr>,
     oc_fec_codec = \<lparr>enc = fp_payload, dec = (\<lambda>_. None)\<rparr>,
     oc_ipv4_destination = (\<lambda>b. if length b < 20 then None else Some (of_be32 (b ! 16) (b ! 17) (b ! 18) (b ! 19))),
     oc_channel = (\<lambda>_ _. True), oc_socket = (\<lambda>_ _. True), oc_try_socket = (\<lambda>_ _. True),
     oc_fec_now = 0, oc_fec_room = True\<rparr>"

definition demo_servers :: ServerInfoCollection where
  "demo_servers = (let c = \<lambda>ip. (ip, \<lparr>cs_ip = ip, cs_online = True\<rparr>) in
     \<lparr>client_simple_list = map (snd \<circ> c) [0x0A1A0003, 0x0A1A0004, 0x0A1A0005],
      server_node_map =
        [(1, server_node_default\<lparr>sn_connected := True, sn_rtt := Some 10, sn_client_map := [c 0x0A1A0003]\<rparr>),
         (2, server_node_default\<lparr>sn_connected := True, sn_client_map := [c 0x0A1A0003, c 0x0A1A0004, c 0x0A1A0005]\<rparr>)]\<rparr>)"

definition demo_net :: NetworkAddr where
  "demo_net = \<lparr>na_gateway = 0x0A1A0001, na_broadcast = 0x0A1A00FF, na_ip = 0x0A1A0002, na_prefix_len = 24\<rparr>"

definition demo_node :: "(nat, bytes) HybridOutbound" where
  "demo_node = \<lparr>ho_network = Some demo_net, ho_server_info = demo_servers, ho_traffic_stats = [],
     ho_basic_outbound = \<lparr>bo_server = server_outbound_new [1, 2] (Some [1]),
       bo_p2p = Some \<lparr>po_route_table = add_route 0 0x0A1A0005 (route_from 9 1 20) rt_new, po_crypto = Some [1]\<rparr>,
       bo_crypto = Some [1]\<rparr>,
     ho_compression = None, ho_external_route = [], ho_fec_encoder = None\<rparr>"

definition demo_data :: "bytes \<Rightarrow> transmission" where
  "demo_data b = \<lparr>tb_buf = replicate HEAD_LENGTH 0 @ b, tb_start = HEAD_LENGTH, tb_end = HEAD_LENGTH + length b\<rparr>"

lemma demo_data_wf [simp]: "tb_wf (demo_data b)" "tb_slice (demo_data b) = b" "tb_start (demo_data b) = HEAD_LENGTH"
  by (simp_all add: demo_data_def tb_wf_def tb_slice_def HEAD_LENGTH_def)


lemma toy_encrypts:
  assumes "tb_wf t" and "np_ok (tb_slice t)"
  obtains t1 where "pc_encrypt toy_aead pc t = Inr t1"
proof (cases pc)
  case (Some k)
  obtain room where room: "tb_slice (tb_extend_end t TAG_LEN) = tb_slice t @ room" "length room = TAG_LEN"
    using assms(1) by (rule tb_slice_extend_room)
  have "np_ok (tb_slice t @ room)" using assms(2) by (simp add: np_ok_def)
  then obtain n where "make_nonce (tb_slice t @ room) = Inr n" using chacha_nonce_ok by blast
  moreover have "aead_seal toy_aead k n p = Some (map (\<lambda>x. x XOR 0x5A) p, replicate 16 (hd n))" for p
    by (simp add: toy_aead_def)
  moreover have "\<not> length (np_payload (tb_slice t @ room)) < TAG_LEN"
    using room(2) assms(2) by (simp add: np_payload_def np_ok_def)
  ultimately have "\<exists>t1. pc_encrypt toy_aead pc t = Inr t1"
    by (simp add: Some pc_encrypt_def chacha_encrypt_def room Let_def)
  with that show thesis by blast
qed (use that in \<open>simp add: pc_encrypt_def\<close>)

theorem broadcast_covers_online_clients_witness:
  "\<exists>es pkt. ipv4_broadcast_outbound demo_crates demo_net (demo_data (replicate 20 9)) demo_node = (es, Inr ()) \<and>
     np_msg_type pkt = Inr Broadcast \<and>
     (\<exists>e\<in>set es. broadcast_to demo_crates (ho_basic_outbound demo_node) demo_servers pkt 0x0A1A0004 e)"
proof -
  let ?run = "ipv4_broadcast_outbound demo_crates demo_net (demo_data (replicate 20 9)) demo_node"
  have wf: "aead_correct (oc_aead demo_crates)"
    by (simp add: demo_crates_def toy_aead_correct)
  have map: "server_client_ip_map demo_servers =
      [(1, [0x0A1A0003], 10), (2, [0x0A1A0003, 0x0A1A0004, 0x0A1A0005], 500)]"
    by (simp add: demo_servers_def server_client_ip_map_def Let_def get_or_default_def server_node_default_def)
  have senders: "so_sender (bo_server (ho_basic_outbound demo_node)) = [1, 2]" "ho_server_info demo_node = demo_servers"
    by (simp_all add: demo_node_def server_outbound_new_def)
  have ips: "0x0A1A0004 \<in> set (client_online_ips demo_servers)"
    by (simp add: demo_servers_def client_online_ips_def Let_def)
  have ok: "hm_ok (server_node_map (ho_server_info demo_node))"
    by (simp add: demo_node_def demo_servers_def Let_def)
  have run: "snd ?run = Inr ()"
  proof -
    let ?b = "\<lambda>p. tb_map (np_set_ttl 5) (tb_map (np_set_dest_id 0xFFFFFFFF)
      (tb_map (np_set_src_id (na_ip demo_net)) (tb_map (np_set_msg_type Broadcast) p)))"
    obtain t0 where t0: "rbind (tb_retreat_head (demo_data (replicate 20 9)) HEAD_LENGTH) tb_np_new = Inr t0"
      by (auto simp: demo_data_def tb_retreat_head_def tb_head_room_def tb_np_new_def np_new_def tb_slice_def HEAD_LENGTH_def)
    note t0' = retreat_packet [OF demo_data_wf(1) t0]
    have b: "tb_wf (?b t0)" "np_ok (tb_slice (?b t0))"
      using t0' by (simp_all add: np_op_defs tb_header_mut)
    then obtain t2 where t2: "pc_encrypt toy_aead (Some [1]) (?b t0) = Inr t2" by (rule toy_encrypts)
    have "tb_np_into_bytes t2 = Inr (tb_slice t2)"
      using pc_encrypt_head(2) [OF toy_aead_correct b t2] by (simp add: tb_np_into_bytes_def tb_into_bytes_wf)
    moreover have "snd (server_send_raw_broadcast demo_crates (bo_server (ho_basic_outbound demo_node)) demo_servers ex b) = Inr ()" for ex b
      by (rule server_broadcast_succeeds) (auto simp: map senders demo_crates_def)
    moreover have "oc_aead demo_crates = toy_aead" "bo_crypto (ho_basic_outbound demo_node) = Some [1]" "ho_compression demo_node = None"
      by (simp_all add: demo_crates_def demo_node_def)
    ultimately show ?thesis
      by (simp add: ipv4_broadcast_outbound_def t0 t2 Let_def packet_compress_def senders split: prod.splits) (metis snd_conv)
  qed
  then obtain es where es: "?run = (es, Inr ())" by (cases ?run) auto
  show ?thesis
    using broadcast_covers_online_clients [OF wf demo_data_wf(1) ok _ es] es ips
    by (simp add: senders map) blast
qed

text \<open>
  C3. Sending an IP packet into the tunnel: at most one message leaves, to the next hop (the
  destination itself, or the gateway of the subnet it is in), over the first route of that peer
  if there is one, and only otherwise over the best server. The bytes of the packet are counted for
  the next hop exactly when a message left. When none left, that is an error, unless the packet has no
  destination or no next hop; in particular a route whose socket takes nothing is an error, not a reason to
  try the other way.
\<close>

theorem ipv4_outbound_single_path:
  assumes "ipv4_outbound W net data h = (h', es, r)"
  shows "((es = [] \<and> ho_traffic_stats h' = ho_traffic_stats h \<and> (r = Inr () \<longrightarrow> no_next_hop W net data h)) \<or>
      (r = Inr () \<and> (\<exists>e b d dest. es = [e] \<and> oc_ipv4_destination W (tb_slice data) = Some d \<and> next_hop W net h d = Some dest \<and>
         path_of (ho_basic_outbound h) (ho_server_info h) dest b e \<and>
         ho_traffic_stats h' = record_tx dest (of_nat (tb_len data)) (ho_traffic_stats h)))) \<and>
    (\<forall>d dest route. oc_ipv4_destination W (tb_slice data) = Some d \<longrightarrow> next_hop W net h d = Some dest \<longrightarrow>
       bo_route (ho_basic_outbound h) dest = Some route \<longrightarrow> (\<forall>b. \<not> oc_socket W (route_key route) b) \<longrightarrow> es = [] \<and> r \<noteq> Inr ())"
  using ipv4_outbound_run [OF assms]
proof (elim disjE exE conjE)
  fix d dest p q fp hf
  assume d: "oc_ipv4_destination W (tb_slice data) = Some d" "next_hop W net h d = Some dest"
    and f: "fec_stage W h q = (Inr fp, hf)"
    and c: "counted (send_encrypted_packet W (ho_basic_outbound hf) (ho_server_info hf) dest fp) dest (tb_len data) hf = (h', es, r)"
  obtain es2 r2 where s: "send_encrypted_packet W (ho_basic_outbound hf) (ho_server_info hf) dest fp = (es2, r2)"
    by fastforce
  from c s have "es2 = es" "r2 = r"
    "h' = (if r = Inr () then hf\<lparr>ho_traffic_stats := record_tx dest (of_nat (tb_len data)) (ho_traffic_stats hf)\<rparr> else hf)"
    by (auto simp: counted_cases)
  with send_encrypted_cases [OF s] send_encrypted_refused [OF s] fec_stage_frame [OF f] d show ?thesis by auto
qed (auto simp: no_next_hop_def)

text \<open>The concrete node sending an IP packet to the client it has a direct route to.\<close>

definition demo_ip :: "ipv4 \<Rightarrow> bytes" where
  "demo_ip d = 0x45 # replicate 15 0 @ be32 d"

lemma demo_sends:
  assumes "tb_wf data" and "tb_slice data = demo_ip 0x0A1A0005" and "tb_start data = HEAD_LENGTH"
  obtains h' t p where
    "ipv4_outbound demo_crates demo_net data demo_node = (h', [ToPeer 9 (tb_slice t)], Inr ())"
    "rbind (tb_retreat_head data HEAD_LENGTH) tb_np_new = Inr p"
    "pc_encrypt toy_aead (Some [1]) (turn_packet demo_net 0x0A1A0005 p) = Inr t"
proof -
  have d: "oc_ipv4_destination demo_crates (tb_slice data) = Some 0x0A1A0005"
    unfolding assms(2) by (simp add: demo_crates_def demo_ip_def) code_simp
  have hop: "next_hop demo_crates demo_net demo_node 0x0A1A0005 = Some 0x0A1A0005"
    by (simp add: next_hop_def demo_crates_def demo_net_def addr_network_def)
  have route: "bo_route (ho_basic_outbound demo_node) 0x0A1A0005 = Some (route_from 9 1 20)"
    by code_simp
  obtain u where u: "tb_retreat_head data HEAD_LENGTH = Inr u"
    using assms(3) by (simp add: tb_retreat_head_def tb_head_room_def)
  have "HEAD_LENGTH \<le> length (tb_slice u)"
    using tb_slice_retreat [OF assms(1) u] assms(2) by (simp add: demo_ip_def HEAD_LENGTH_def)
  then obtain p where p: "rbind (tb_retreat_head data HEAD_LENGTH) tb_np_new = Inr p"
    by (simp add: u tb_np_new_def np_new_def)
  let ?q = "turn_packet demo_net 0x0A1A0005 p"
  have q: "tb_wf ?q" "np_ok (tb_slice ?q)"
    using retreat_packet [OF assms(1) p] by (simp_all add: turn_packet_def np_op_defs tb_header_mut)
  then obtain t where t: "pc_encrypt toy_aead (Some [1]) ?q = Inr t" by (rule toy_encrypts)
  note t' = pc_encrypt_head [OF toy_aead_correct q t]
  have b: "rbind (tb_into_bytes t) np_new = Inr (tb_slice t)"
    using t'(2,3) by (simp add: tb_into_bytes_wf np_new_def np_ok_def)
  have node: "ho_compression demo_node = None" "ho_fec_encoder demo_node = None"
    "bo_crypto (ho_basic_outbound demo_node) = Some [1]" "oc_aead demo_crates = toy_aead" "\<And>k b. oc_socket demo_crates k b"
    by (simp_all add: demo_node_def demo_crates_def)
  have "send_encrypted_packet demo_crates (ho_basic_outbound demo_node) (ho_server_info demo_node) 0x0A1A0005 ?q =
      ([ToPeer 9 (tb_slice t)], Inr ())"
    by (simp add: send_encrypted_packet_def node t b route p2p_send_raw_to_def route_from_def)
  then have "\<exists>h'. ipv4_outbound demo_crates demo_net data demo_node = (h', [ToPeer 9 (tb_slice t)], Inr ())"
    using d hop p by (simp add: ipv4_outbound_def Let_def packet_compress_def node fec_stage_def
        counted_def turn_packet_def)
  with p t that show thesis by blast
qed

theorem ipv4_outbound_single_path_witness:
  "let data = demo_data (demo_ip 0x0A1A0005) in
   \<exists>h' b. ipv4_outbound demo_crates demo_net data demo_node = (h', [ToPeer 9 b], Inr ()) \<and>
     ho_traffic_stats h' = record_tx 0x0A1A0005 20 []"
proof -
  let ?data = "demo_data (demo_ip 0x0A1A0005)"
  obtain h' t where run: "ipv4_outbound demo_crates demo_net ?data demo_node = (h', [ToPeer 9 (tb_slice t)], Inr ())"
    by (rule demo_sends [OF demo_data_wf])
  have "oc_ipv4_destination demo_crates (tb_slice ?data) = Some 0x0A1A0005"
    by (simp add: demo_crates_def demo_ip_def) code_simp
  moreover have "next_hop demo_crates demo_net demo_node 0x0A1A0005 = Some 0x0A1A0005"
    by (simp add: next_hop_def demo_crates_def demo_net_def addr_network_def)
  moreover have "tb_len ?data = 20" "ho_traffic_stats demo_node = []"
    by (simp_all add: demo_data_def tb_len_def demo_node_def demo_ip_def)
  ultimately show ?thesis using ipv4_outbound_single_path [OF run] run by simp
qed

end
