(* ===== verification/Enhanced_Outbound.thy ===== *)
theory Enhanced_Outbound
  imports Outbound
begin

text \<open>
  From the network interface into the tunnel: the framing of \<open>tun/general.rs\<close>
  (\<open>BytesCodec\<close>), the choice of \<open>enhanced_tunnel/outbound.rs\<close> between gateway, broadcast, QUIC
  and plain tunnel, and the choice of \<open>quic_over/quic_outbound.rs\<close>.

  \<open>pnet\<close>'s packet views and the tables of the IP stack are arguments: \<open>pn_ipv4\<close> and \<open>pn_tcp\<close>
  are the parsed fields the code asks for, \<open>has_tcp_connection\<close> and \<open>has_tcp_half_open\<close> are the
  lookups, an error read as \<open>False\<close>.
\<close>

section \<open>Framing\<close>

text \<open>
  \<open>decode\<close>: the whole buffer becomes one packet, behind room for the head. \<open>cp\<close> is the capacity
  the allocator gave the buffer of \<open>DEFAULT_BUF_SIZE\<close> bytes.
\<close>

definition tun_decode :: "nat \<Rightarrow> bytes \<Rightarrow> transmission option result" where
  "tun_decode cp buf =
     (if buf \<noteq> [] then rbind (tb_put cp (tb_new_offset HEAD_LENGTH) buf) (\<lambda>b. Inr (Some b)) else Inr None)"

definition tun_encode :: "transmission \<Rightarrow> bytes \<Rightarrow> bytes" where
  "tun_encode data buf = buf @ tb_slice data"

section \<open>QUIC or not\<close>

record ipv4_view =
  iv_source :: ipv4
  iv_destination :: ipv4
  iv_is_tcp :: bool
  iv_more_fragments :: bool
  iv_fragment_offset :: u16
  iv_payload :: bytes

record tcp_view =
  tv_source :: u16
  tv_destination :: u16
  tv_syn :: bool
  tv_ack :: bool

type_synonym socket4 = "ipv4 \<times> u16"

record pnet =
  pn_ipv4 :: "bytes \<Rightarrow> ipv4_view option"
  pn_tcp :: "bytes \<Rightarrow> tcp_view option"
  has_tcp_connection :: "socket4 \<Rightarrow> socket4 \<Rightarrow> bool"
  has_tcp_half_open :: "socket4 \<Rightarrow> socket4 \<Rightarrow> bool"

datatype quic_choice = ToStack | Dropped | Declined

text \<open>
  \<open>outbound\<close> answers \<open>true\<close> for the first two. With a QUIC client every packet is the stack's
  but the later segments of TCP connections it does not know; without one, none is but the
  replies of connections that came in over QUIC.
\<close>

definition quic_outbound :: "pnet \<Rightarrow> bool \<Rightarrow> bytes \<Rightarrow> quic_choice" where
  "quic_outbound P open_quic_client data =
     (case pn_ipv4 P data of
        None \<Rightarrow> Dropped
      | Some ip \<Rightarrow>
          let segmented = iv_more_fragments ip \<or> iv_fragment_offset ip > 0 in
          if open_quic_client then
            if iv_is_tcp ip \<and> \<not> segmented then
              (case pn_tcp P (iv_payload ip) of
                 None \<Rightarrow> Dropped
               | Some tcp \<Rightarrow>
                   let local_addr = (iv_source ip, tv_source tcp);
                       peer_addr = (iv_destination ip, tv_destination tcp) in
                   if \<not> (tv_syn tcp \<and> \<not> tv_ack tcp) \<and>
                      \<not> has_tcp_connection P local_addr peer_addr \<and>
                      \<not> has_tcp_connection P peer_addr local_addr \<and>
                      \<not> has_tcp_half_open P peer_addr local_addr
                   then Declined else ToStack)
            else ToStack
          else if iv_is_tcp ip \<and> \<not> segmented then
            (case pn_tcp P (iv_payload ip) of
               None \<Rightarrow> Declined
             | Some tcp \<Rightarrow>
                 let peer_addr = (iv_source ip, tv_source tcp);
                     local_addr = (iv_destination ip, tv_destination tcp) in
                 if has_tcp_connection P local_addr peer_addr then ToStack else Declined)
          else Declined)"

section \<open>The choice of the path\<close>

text \<open>What an IP packet from the interface causes: nothing, a packet for the IP stack, or tunnel messages.\<close>

datatype 'k out_event = IpStack bytes | Tunnel "'k event"

definition tunnel_effects :: "'k sends \<Rightarrow> 'k out_event effects" where
  "tunnel_effects x = (map Tunnel (fst x), snd x)"

definition ipv4_outbound_impl ::
  "('k, 'c) out_crates \<Rightarrow> pnet \<Rightarrow> bool \<Rightarrow> transmission \<Rightarrow> ('k, 'c) HybridOutbound \<Rightarrow>
   ('k, 'c) HybridOutbound \<times> 'k out_event effects" where
  "ipv4_outbound_impl W P open_quic_client data h =
     (case pn_ipv4 P (tb_slice data) of
        None \<Rightarrow> (h, no_send (Inr ()))
      | Some ip \<Rightarrow>
          (case ho_network h of
             None \<Rightarrow> (h, no_send (Inr ()))
           | Some net \<Rightarrow>
               let src = iv_source ip; dest = iv_destination ip in
               if dest = src \<or> is_unspecified dest then (h, no_send (Inr ()))
               else if dest = na_gateway net then (h, tunnel_effects (ipv4_gateway_outbound W net data h))
               else if is_multicast dest \<or> dest = na_broadcast net \<or> is_broadcast dest
               then (h, tunnel_effects (ipv4_broadcast_outbound W net data h))
               else (case quic_outbound P open_quic_client (tb_slice data) of
                   ToStack \<Rightarrow> (h, [IpStack (tb_slice data)], Inr ())
                 | Dropped \<Rightarrow> (h, no_send (Inr ()))
                 | Declined \<Rightarrow> (case ipv4_outbound W net data h of (h', x) \<Rightarrow> (h', tunnel_effects x)))))"

text \<open>\<open>ipv4_outbound\<close> of the interface: only version 4; an error is logged.\<close>

definition enhanced_ipv4_outbound ::
  "('k, 'c) out_crates \<Rightarrow> pnet \<Rightarrow> bool \<Rightarrow> transmission \<Rightarrow> ('k, 'c) HybridOutbound \<Rightarrow>
   ('k, 'c) HybridOutbound \<times> 'k out_event list" where
  "enhanced_ipv4_outbound W P open_quic_client data h =
     (if tb_is_empty data \<or> drop_bit 4 (tb_slice data ! 0) \<noteq> 4 then (h, [])
      else (case ipv4_outbound_impl W P open_quic_client data h of (h', es, _) \<Rightarrow> (h', es)))"

section \<open>Lemmas\<close>

lemma tun_decode_data:
  assumes "tun_decode cp ip = Inr (Some data)"
  shows "tb_wf data" "tb_slice data = ip" "tb_start data = HEAD_LENGTH" "ip \<noteq> []"
    "take HEAD_LENGTH (tb_buf data) = replicate HEAD_LENGTH 0"
proof -
  let ?n = "tb_new_offset HEAD_LENGTH"
  have n: "tb_wf ?n" "tb_slice ?n = []"
    by (simp_all add: tb_new_offset_def tb_wf_def DEFAULT_BUF_SIZE_def HEAD_LENGTH_def tb_slice_def)
  from assms have put: "tb_put cp ?n ip = Inr data" and ne: "ip \<noteq> []"
    by (auto simp: tun_decode_def rbind_eq_Inr split: if_splits)
  show "tb_wf data" using n(1) put by (rule tb_wf_put)
  show "tb_slice data = ip" using tb_slice_put [OF n(1) put] n(2) by simp
  show "ip \<noteq> []" by (fact ne)
  from put have d: "data = ?n\<lparr>tb_buf := splice (tb_end ?n) ip (tb_buf ?n), tb_end := tb_end ?n + length ip\<rparr>"
    by (auto simp: tb_put_def Let_def split: if_splits)
  show "tb_start data = HEAD_LENGTH" by (simp add: d tb_new_offset_def)
  show "take HEAD_LENGTH (tb_buf data) = replicate HEAD_LENGTH 0"
    by (simp add: d tb_new_offset_def take_splice DEFAULT_BUF_SIZE_def HEAD_LENGTH_def min_def)
qed

section \<open>What leaves in the clear\<close>

definition sealed :: "'c aead \<Rightarrow> 'c \<Rightarrow> bytes \<Rightarrow> bool" where
  "sealed A k b \<longleftrightarrow> (\<exists>t t'. pc_encrypt A (Some k) t = Inr t' \<and> tb_into_bytes t' = Inr b)"

text \<open>A message carries a sealed packet itself, or inside a selective broadcast.\<close>

definition carries :: "('k, 'c) out_crates \<Rightarrow> bytes \<Rightarrow> 'k event \<Rightarrow> bool" where
  "carries W pkt e \<longleftrightarrow>
     (case e of
        ToPeer _ b \<Rightarrow> b = pkt
      | ToServer _ b _ \<Rightarrow> b = pkt \<or> (\<exists>mt ips. selective_packet W mt ips pkt = Inr b))"

lemma channel_send_carries:
  "e \<in> set (fst (channel_send W i b d)) \<Longrightarrow> b = pkt \<or> (\<exists>mt ips. selective_packet W mt ips pkt = Inr b) \<Longrightarrow> carries W pkt e"
  by (auto simp: channel_send_def no_send_def carries_def split: if_splits)

lemma after_carries:
  "e \<in> set (fst (after r f)) \<Longrightarrow> (\<And>x. r = Inr x \<Longrightarrow> e \<in> set (fst (f x)) \<Longrightarrow> P) \<Longrightarrow> P"
  by (cases r) auto

lemma main_broadcast_carries: "e \<in> set (fst (main_broadcast W i ex pkt)) \<Longrightarrow> carries W pkt e"
  by (auto simp: main_broadcast_def send_direct_def send_exclude_broadcast_def split: option.splits
      elim!: after_carries intro: channel_send_carries)

lemma other_server_carries:
  "other_server_task W so m ex pkt x = Some t \<Longrightarrow> e \<in> set (fst t) \<Longrightarrow> carries W pkt e"
  by (auto simp: other_server_task_Some Let_def send_target_broadcast_def elim!: after_carries intro: channel_send_carries)

lemma join_tasks_events:
  "e \<in> set (fst (join_tasks (m # ts))) \<longleftrightarrow> e \<in> set (fst m) \<or> (\<exists>t\<in>set ts. e \<in> set (fst t))"
  by (auto simp: join_tasks_def)

lemma server_broadcast_carries:
  assumes "e \<in> set (fst (server_send_raw_broadcast W so info ex pkt))"
  shows "carries W pkt e"
proof -
  consider (none) "server_client_ip_map info = []" | (one) x where "server_client_ip_map info = [x]"
    | (more) x y xs where "server_client_ip_map info = x # y # xs"
    by (cases "server_client_ip_map info" rule: list.exhaust; cases "tl (server_client_ip_map info)") auto
  then show ?thesis
  proof cases
    case none
    with assms show ?thesis by (simp add: server_send_raw_broadcast_def no_send_def)
  next
    case one
    with assms show ?thesis
      by (cases x) (auto simp: server_send_raw_broadcast_def no_send_def split: if_splits intro: main_broadcast_carries)
  next
    case more
    define ts where "ts m = List.map_filter (other_server_task W so m (get_or_default [] ex) pkt) (x # y # xs)" for m
    define m where "m = max_by_score x (y # xs)"
    have "e \<in> set (fst (join_tasks (main_broadcast W (fst m) ex pkt # ts m)))"
      using assms unfolding server_broadcast_more [OF more] Let_def ts_def [symmetric] m_def [symmetric] no_send_def
      by (simp split: if_splits)
    then consider (a) i where "e \<in> set (fst (main_broadcast W i ex pkt))"
      | (b) m t where "t \<in> set (ts m)" "e \<in> set (fst t)"
      unfolding join_tasks_events by blast
    then show ?thesis
    proof cases
      case b
      then show ?thesis
        unfolding ts_def set_map_filter using other_server_carries by blast
    qed (rule main_broadcast_carries)
  qed
qed

lemma p2p_broadcast_carries:
  "p2p_broadcast_loop W po ips k pkt n = (es, l) \<Longrightarrow> e \<in> set es \<Longrightarrow> carries W pkt e"
proof (induction ips arbitrary: n es l)
  case (Cons ip ips)
  then show ?case
    by (fastforce simp: carries_def split: option.splits if_splits prod.splits)
qed simp


lemma ipv4_broadcast_carries:
  assumes "e \<in> set (fst (ipv4_broadcast_outbound W net data h))" and "bo_crypto (ho_basic_outbound h) = Some k"
  shows "\<exists>pkt. sealed (oc_aead W) k pkt \<and> carries W pkt e"
proof -
  let ?bo = "ho_basic_outbound h" and ?info = "ho_server_info h"
  from assms(1) obtain t1 t2 b where t2: "pc_encrypt (oc_aead W) (bo_crypto ?bo) t1 = Inr t2" "tb_np_into_bytes t2 = Inr b"
    and e: "e \<in> set (fst (let l = client_online_ips ?info;
             (es, exclude_ips) = p2p_broadcast_transmission W ?bo l 16 b in
         if (case exclude_ips of Some ex \<Rightarrow> length ex = length l | None \<Rightarrow> False) then (es, Inr ())
         else (case server_send_raw_broadcast W (bo_server ?bo) ?info exclude_ips b of (es', r) \<Rightarrow> (es @ es', r))))"
    unfolding ipv4_broadcast_outbound_def Let_def by (elim after_carries) blast
  obtain es ex where p: "p2p_broadcast_transmission W ?bo (client_online_ips ?info) 16 b = (es, ex)" by fastforce
  from e consider "e \<in> set es" | "e \<in> set (fst (server_send_raw_broadcast W (bo_server ?bo) ?info ex b))"
    by (auto simp: p split: if_splits prod.splits option.splits)
  then have "carries W b e"
  proof cases
    case 1
    with p show ?thesis
      by (auto simp: p2p_broadcast_transmission_def p2p_broadcast_def split: option.splits prod.splits
          intro: p2p_broadcast_carries)
  qed (rule server_broadcast_carries)
  moreover have "sealed (oc_aead W) k b" using t2 assms(2) by (auto simp: sealed_def tb_np_into_bytes_def)
  ultimately show ?thesis by blast
qed

lemma ipv4_outbound_carries:
  assumes "ipv4_outbound W net data h = (h', es, r)" and "e \<in> set es" and "bo_crypto (ho_basic_outbound h) = Some k"
  shows "\<exists>pkt. sealed (oc_aead W) k pkt \<and> carries W pkt e"
  using ipv4_outbound_run [OF assms(1)] assms(2)
proof (elim disjE exE conjE)
  fix d dest p q fp hf
  assume f: "fec_stage W h q = (Inr fp, hf)"
    and c: "counted (send_encrypted_packet W (ho_basic_outbound hf) (ho_server_info hf) dest fp) dest (tb_len data) hf = (h', es, r)"
  obtain es2 r2 where s: "send_encrypted_packet W (ho_basic_outbound hf) (ho_server_info hf) dest fp = (es2, r2)"
    by fastforce
  with c assms(2) have "e \<in> set es2" by (simp add: counted_cases)
  with send_encrypted_cases [OF s] obtain t b where "pc_encrypt (oc_aead W) (bo_crypto (ho_basic_outbound hf)) fp = Inr t"
    "tb_into_bytes t = Inr b" "path_of (ho_basic_outbound hf) (ho_server_info hf) dest b e"
    by auto
  moreover have "bo_crypto (ho_basic_outbound hf) = Some k" using fec_stage_frame [OF f] assms(3) by simp
  ultimately have "sealed (oc_aead W) k b" "carries W b e"
    by (auto simp: sealed_def carries_def path_of_def split: option.splits)
  then show ?thesis by blast
qed simp

section \<open>Properties\<close>

text \<open>What goes to the gateway is the packet as it came, behind a head with the gateway flag, for the first connected server.\<close>

lemma gateway_sends:
  assumes "tb_wf data" and "e \<in> set (fst (ipv4_gateway_outbound W net data h))"
  obtains i b where "e = ToServer i b (secs 5)"
    "find_connected_server (ho_server_info h) (so_server_id_list (bo_server (ho_basic_outbound h))) = Some i"
    "np_is_gateway b" "np_msg_type b = Inr Turn" "np_src_id b = na_ip net" "np_dest_id b = na_gateway net" "np_payload b = tb_slice data"
proof -
  obtain p where p: "rbind (tb_retreat_head data HEAD_LENGTH) tb_np_new = Inr p"
    using assms(2) by (cases "rbind (tb_retreat_head data HEAD_LENGTH) tb_np_new") (auto simp: ipv4_gateway_outbound_def after_def no_send_def)
  let ?q = "tb_map (np_set_gateway_flag True) (tb_map (np_set_ttl 5) (tb_map (np_set_dest_id (na_gateway net))
    (tb_map (np_set_src_id (na_ip net)) (tb_map (np_set_msg_type Turn) p))))"
  note r = retreat_packet [OF assms(1) p]
  have q: "tb_wf ?q" "np_payload (tb_slice ?q) = tb_slice data"
    "np_header (tb_slice ?q) = h_set_flag GATEWAY True (h_set_ttl 5 5 ((h_set_msg_type (msg_code Turn) (np_header (tb_slice p)))
      \<lparr>h_src_id := na_ip net, h_dest_id := na_gateway net\<rparr>))"
    using r(1-3) by (simp_all add: np_op_defs tb_header_mut)
  have "e \<in> set (fst (basic_send_default_raw W (ho_basic_outbound h) (ho_server_info h) ?q))"
    using assms(2) by (simp add: ipv4_gateway_outbound_def p Let_def)
  then obtain i where "e = ToServer i (tb_slice ?q) (secs 5)"
    "find_connected_server (ho_server_info h) (so_server_id_list (bo_server (ho_basic_outbound h))) = Some i"
    by (auto simp: basic_send_default_raw_def server_send_default_raw_def send_to_server_def channel_send_def no_send_def after_def
        tb_into_bytes_wf [OF q(1)] np_new_def split: if_splits option.splits)
  moreover have "np_is_gateway (tb_slice ?q)" "np_msg_type (tb_slice ?q) = Inr Turn" "np_src_id (tb_slice ?q) = na_ip net"
    "np_dest_id (tb_slice ?q) = na_gateway net"
    unfolding np_is_gateway_def np_msg_type_def np_src_id_def np_dest_id_def q(3)
    by (simp_all add: h_flags_set) (simp_all add: h_msg_type_def h_set_msg_type_def h_set_ttl_def h_set_flag_def msg_try_from_def)
  ultimately show thesis using that q(2) by blast
qed

text \<open>
  C27. With an encryption key set, every packet that a packet from the interface makes the tunnel send is
  sealed under that key, alone or inside a selective broadcast, except packets for the gateway:
  these go in the clear to the first connected server, the very bytes of the interface behind a head with the gateway flag. (Packets that are
  diverted to the IP stack or to QUIC are not sent by these calls.)
\<close>

theorem only_gateway_traffic_in_clear:
  assumes "bo_crypto (ho_basic_outbound h) = Some k" and "tb_wf data"
    and "enhanced_ipv4_outbound W P q data h = (h', es)" and "Tunnel e \<in> set es"
  shows "(\<exists>pkt. sealed (oc_aead W) k pkt \<and> carries W pkt e) \<or>
    (\<exists>net ip i b. ho_network h = Some net \<and> pn_ipv4 P (tb_slice data) = Some ip \<and> iv_destination ip = na_gateway net \<and>
       e = ToServer i b (secs 5) \<and>
       find_connected_server (ho_server_info h) (so_server_id_list (bo_server (ho_basic_outbound h))) = Some i \<and>
       np_is_gateway b \<and> np_msg_type b = Inr Turn \<and> np_src_id b = na_ip net \<and> np_dest_id b = na_gateway net \<and>
       np_payload b = tb_slice data)"
proof -
  obtain ip net where ip: "pn_ipv4 P (tb_slice data) = Some ip" and net: "ho_network h = Some net"
    and e: "e \<in> set (fst (ipv4_gateway_outbound W net data h)) \<and> iv_destination ip = na_gateway net \<or>
      e \<in> set (fst (ipv4_broadcast_outbound W net data h)) \<or>
      e \<in> set (fst (snd (ipv4_outbound W net data h)))"
    using assms(3,4)
    by (auto simp: enhanced_ipv4_outbound_def ipv4_outbound_impl_def no_send_def tunnel_effects_def Let_def
        split: if_splits option.splits prod.splits quic_choice.splits)
  consider "e \<in> set (fst (ipv4_gateway_outbound W net data h))" "iv_destination ip = na_gateway net"
    | "e \<in> set (fst (ipv4_broadcast_outbound W net data h))"
    | "e \<in> set (fst (snd (ipv4_outbound W net data h)))"
    using e by blast
  then show ?thesis
  proof cases
    case 1
    from gateway_sends [OF assms(2) this(1)] 1(2) ip net show ?thesis by metis
  next
    case 2
    from ipv4_broadcast_carries [OF this assms(1)] show ?thesis ..
  next
    case 3
    obtain h2 es2 r2 where run: "ipv4_outbound W net data h = (h2, es2, r2)" by (metis prod.collapse)
    from ipv4_outbound_carries [OF run _ assms(1)] 3 show ?thesis by (simp add: run)
  qed
qed

definition demo_pnet :: pnet where
  "demo_pnet = \<lparr>pn_ipv4 = (\<lambda>b. if length b < 20 then None else Some
       \<lparr>iv_source = of_be32 (b ! 12) (b ! 13) (b ! 14) (b ! 15), iv_destination = of_be32 (b ! 16) (b ! 17) (b ! 18) (b ! 19),
        iv_is_tcp = (b ! 9 = 6), iv_more_fragments = bit (b ! 6) 5, iv_fragment_offset = 0, iv_payload = drop 20 b\<rparr>),
     pn_tcp = (\<lambda>_. None), has_tcp_connection = (\<lambda>_ _. False), has_tcp_half_open = (\<lambda>_ _. False)\<rparr>"

theorem only_gateway_traffic_in_clear_witness:
  "\<exists>h' b pkt. enhanced_ipv4_outbound demo_crates demo_pnet False (demo_data (demo_ip 0x0A1A0005)) demo_node =
      (h', [Tunnel (ToPeer 9 b)]) \<and> sealed toy_aead [1] pkt \<and> carries demo_crates pkt (ToPeer 9 b)"
proof -
  let ?data = "demo_data (demo_ip 0x0A1A0005)"
  obtain h' t where run: "ipv4_outbound demo_crates demo_net ?data demo_node = (h', [ToPeer 9 (tb_slice t)], Inr ())"
    by (rule demo_sends [OF demo_data_wf])
  define ip where "ip = the (pn_ipv4 demo_pnet (demo_ip 0x0A1A0005))"
  have "pn_ipv4 demo_pnet (demo_ip 0x0A1A0005) \<noteq> None" by (simp add: demo_pnet_def demo_ip_def)
  then have ip: "pn_ipv4 demo_pnet (demo_ip 0x0A1A0005) = Some ip" by (simp add: ip_def)
  have "iv_source ip = 0" "iv_destination ip = 0x0A1A0005" "\<not> iv_is_tcp ip"
    unfolding ip_def by code_simp+
  note ip = ip this
  have node: "ho_network demo_node = Some demo_net" "bo_crypto (ho_basic_outbound demo_node) = Some [1]" "oc_aead demo_crates = toy_aead"
    by (simp_all add: demo_node_def demo_crates_def)
  have "\<not> tb_is_empty ?data" "drop_bit 4 (demo_ip 0x0A1A0005 ! 0) = 4"
    by (simp_all add: demo_data_def tb_is_empty_def tb_len_def demo_ip_def)
  moreover have "quic_outbound demo_pnet False (demo_ip 0x0A1A0005) = Declined"
    by (simp add: quic_outbound_def ip)
  ultimately have e: "enhanced_ipv4_outbound demo_crates demo_pnet False ?data demo_node = (h', [Tunnel (ToPeer 9 (tb_slice t))])"
    using run by (simp add: enhanced_ipv4_outbound_def ipv4_outbound_impl_def ip node Let_def is_unspecified_def
        is_multicast_def is_broadcast_def demo_net_def tunnel_effects_def)
  have "\<not> iv_destination ip = na_gateway demo_net" by (simp add: ip demo_net_def)
  with only_gateway_traffic_in_clear [OF node(2) demo_data_wf(1) e, of "ToPeer 9 (tb_slice t)"] e ip show ?thesis
    by (auto simp: node)
qed

end
