(* ===== verification/Enhanced_Inbound.thy ===== *)
theory Enhanced_Inbound
  imports Outbound Fec_Decoder
begin

text \<open>
  What happens to the content of a tunnel packet: \<open>enhanced_tunnel/inbound.rs\<close> and the sinks
  behind it, the network interface (\<open>tun/sender.rs\<close>, \<open>tun/enhanced_tun.rs\<close>) and the user-mode
  address translation (\<open>nat/internal_nat/mod.rs\<close>). Also the vocabulary of the packet handlers:
  an action changes a state, has effects in order, and succeeds or fails.
\<close>

section \<open>Actions\<close>

type_synonym ('s, 'e) action = "'s \<Rightarrow> 's \<times> 'e effects"

definition done_ok :: "('s, 'e) action" where
  "done_ok s = (s, [], Inr ())"

definition failing :: "error \<Rightarrow> ('s, 'e) action" where
  "failing e s = (s, [], Inl e)"

definition update_state :: "('s \<Rightarrow> 's) \<Rightarrow> ('s, 'e) action" where
  "update_state f s = (f s, [], Inr ())"

definition effect :: "'e effects \<Rightarrow> ('s, 'e) action" where
  "effect x s = (s, x)"

definition then_do :: "('s, 'e) action \<Rightarrow> ('s, 'e) action \<Rightarrow> ('s, 'e) action" where
  "then_do a b s =
     (case a s of
        (s1, es, Inl e) \<Rightarrow> (s1, es, Inl e)
      | (s1, es, Inr _) \<Rightarrow> (case b s1 of (s2, es2, r) \<Rightarrow> (s2, es @ es2, r)))"

text \<open>A computation that may fail, before an action; and a \<open>for\<close> loop that stops at an error.\<close>

definition try_do :: "'a result \<Rightarrow> ('a \<Rightarrow> ('s, 'e) action) \<Rightarrow> ('s, 'e) action" where
  "try_do r f = (case r of Inl e \<Rightarrow> failing e | Inr x \<Rightarrow> f x)"

fun for_each :: "('a \<Rightarrow> ('s, 'e) action) \<Rightarrow> 'a list \<Rightarrow> ('s, 'e) action" where
  "for_each f [] = done_ok"
| "for_each f (x # xs) = then_do (f x) (for_each f xs)"

lemma try_do_simps [simp]: "try_do (Inl e) f = failing e" "try_do (Inr x) f = f x"
  by (simp_all add: try_do_def)

section \<open>Deliveries\<close>

datatype delivery =
    TunData bytes
  | NatData bytes
  | QuicData bytes ipv4

text \<open>
  \<open>sink_accepts\<close> is the fate of a channel or of the IP stack; \<open>ipv4_destination\<close> is \<open>pnet\<close>'s
  parser, which fails on what is no IPv4 header, the same as on the sending side.
\<close>

record sink_crates =
  sc_contains :: net_contains
  sc_ipv4_destination :: "bytes \<Rightarrow> ipv4 option"
  sc_accepts :: "delivery \<Rightarrow> bool"

definition put_sink :: "sink_crates \<Rightarrow> delivery \<Rightarrow> delivery effects" where
  "put_sink K d = (if sc_accepts K d then ([d], Inr ()) else no_send (Inl OtherError))"

text \<open>
  The check before both sinks: version 4, and a destination in the network, a broadcast or
  multicast address, or in a subnet this node answers for. \<open>data[0]\<close> panics on an empty slice.
\<close>

definition checked_sink ::
  "sink_crates \<Rightarrow> ipv4net list \<Rightarrow> (bytes \<Rightarrow> delivery) \<Rightarrow> bytes \<Rightarrow> NetworkAddr \<Rightarrow> delivery effects" where
  "checked_sink K allow_subnet sink data net =
     (if data = [] then no_send (Inl Panic)
      else if drop_bit 4 (data ! 0) \<noteq> 4 then no_send (Inr ())
      else case sc_ipv4_destination K data of
        None \<Rightarrow> no_send (Inr ())
      | Some dest \<Rightarrow>
          if sc_contains K (addr_network net) dest \<or> dest = na_broadcast net \<or> is_broadcast dest \<or>
             is_multicast dest \<or> allow (sc_contains K) allow_subnet dest
          then put_sink K (sink data) else no_send (Inr ()))"

definition tun_send :: "sink_crates \<Rightarrow> ipv4net list \<Rightarrow> bytes \<Rightarrow> NetworkAddr \<Rightarrow> delivery effects" where
  "tun_send K allow_subnet data net = checked_sink K allow_subnet TunData data net"

record InternalNatInbound =
  in_no_tun :: bool
  in_allow_subnet :: "ipv4net list"
  in_network :: SharedNetworkAddr

definition nat_send :: "sink_crates \<Rightarrow> InternalNatInbound \<Rightarrow> bytes \<Rightarrow> NetworkAddr \<Rightarrow> delivery effects" where
  "nat_send K n data net = checked_sink K (in_allow_subnet n) NatData data net"

definition nat_network_contains :: "sink_crates \<Rightarrow> InternalNatInbound \<Rightarrow> ipv4 \<Rightarrow> bool" where
  "nat_network_contains K n ip = (case shared_network (in_network n) of None \<Rightarrow> False | Some net \<Rightarrow> sc_contains K net ip)"

definition allow_nat :: "sink_crates \<Rightarrow> InternalNatInbound \<Rightarrow> ipv4 \<Rightarrow> bool" where
  "allow_nat K n dst \<longleftrightarrow> allow (sc_contains K) (in_allow_subnet n) dst \<or> nat_network_contains K n dst"

definition use_nat :: "sink_crates \<Rightarrow> InternalNatInbound \<Rightarrow> ipv4 \<Rightarrow> bool" where
  "use_nat K n dst =
     (if in_no_tun n then allow_nat K n dst
      else if nat_network_contains K n dst then False
      else allow (sc_contains K) (in_allow_subnet n) dst)"

text \<open>Where a translated TCP stream connects to: nowhere, or an address and a port.\<close>

definition tcp_nat_target :: "sink_crates \<Rightarrow> InternalNatInbound \<Rightarrow> ipv4 \<Rightarrow> u16 \<Rightarrow> (ipv4 \<times> u16) option result" where
  "tcp_nat_target K n dest_ip dest_port =
     (if in_no_tun n then
        rbind (ok_or (Bail ''no network'') (in_network n)) (\<lambda>net.
          if dest_ip = na_ip net then Inr (Some (localhost, dest_port))
          else if sc_contains K (addr_network net) dest_ip then Inr None
          else Inr (Some (dest_ip, dest_port)))
      else Inr (Some (dest_ip, dest_port)))"

datatype EnhancedTunInbound = Tun "ipv4net list" | Nat InternalNatInbound

definition enhanced_tun_inbound ::
  "sink_crates \<Rightarrow> EnhancedTunInbound \<Rightarrow> bytes \<Rightarrow> NetworkAddr \<Rightarrow> delivery effects" where
  "enhanced_tun_inbound K t data net =
     (case t of Tun allow_subnet \<Rightarrow> tun_send K allow_subnet data net | Nat n \<Rightarrow> nat_send K n data net)"

record EnhancedInbound =
  ei_tun_data_inbound :: EnhancedTunInbound
  ei_internal_nat_inbound :: "InternalNatInbound option"

definition enhanced_deliver ::
  "sink_crates \<Rightarrow> EnhancedInbound \<Rightarrow> NetworkAddr \<Rightarrow> MsgType \<Rightarrow> ipv4 \<Rightarrow> transmission \<Rightarrow> delivery effects" where
  "enhanced_deliver K ei net msg_type src buf =
     (let data = tb_slice buf in
      case msg_type of
        Turn \<Rightarrow>
          (case ei_internal_nat_inbound ei of
             Some n \<Rightarrow>
               (case sc_ipv4_destination K data of
                  None \<Rightarrow> no_send (Inl (Bail ''EnhancedInbound not ipv4''))
                | Some dest \<Rightarrow>
                    if dest \<noteq> na_ip net \<and> \<not> sc_contains K (addr_network net) dest then nat_send K n data net
                    else enhanced_tun_inbound K (ei_tun_data_inbound ei) data net)
           | None \<Rightarrow> enhanced_tun_inbound K (ei_tun_data_inbound ei) data net)
      | Broadcast \<Rightarrow> enhanced_tun_inbound K (ei_tun_data_inbound ei) data net
      | ExcludeBroadcast \<Rightarrow> enhanced_tun_inbound K (ei_tun_data_inbound ei) data net
      | Quic \<Rightarrow> after (tb_into_bytes buf) (\<lambda>payload. put_sink K (QuicData payload src))
      | _ \<Rightarrow> no_send (Inr ()))"

text \<open>\<open>EnhancedInbound::inbound\<close>: count, cut the head off, deliver.\<close>

definition enhanced_inbound ::
  "sink_crates \<Rightarrow> EnhancedInbound \<Rightarrow> NetworkAddr \<Rightarrow> MsgType \<Rightarrow> ipv4 \<Rightarrow> transmission \<Rightarrow> (TrafficStats, delivery) action" where
  "enhanced_inbound K ei net msg_type src packet =
     then_do (update_state (record_rx src (of_nat (length (tb_slice packet)))))
       (effect (after (tb_advance_head packet HEAD_LENGTH) (enhanced_deliver K ei net msg_type src)))"

section \<open>What reaches the interface\<close>

lemma checked_sink_only:
  assumes "checked_sink K al sink data net = (es, r)" and "d \<in> set es"
  shows "d = sink data \<and> data \<noteq> [] \<and> drop_bit 4 (data ! 0) = 4 \<and> (\<exists>dest. sc_ipv4_destination K data = Some dest \<and>
    (sc_contains K (addr_network net) dest \<or> dest = na_broadcast net \<or> is_broadcast dest \<or>
     is_multicast dest \<or> allow (sc_contains K) al dest))"
  using assms by (auto simp: checked_sink_def no_send_def put_sink_def split: if_splits option.splits)

lemma advance_packet:
  assumes "tb_wf p" and "np_ok (tb_slice p)"
  obtains buf where "tb_advance_head p HEAD_LENGTH = Inr buf" "tb_slice buf = np_payload (tb_slice p)" "tb_wf buf"
proof -
  have "HEAD_LENGTH \<le> tb_len p" using assms by (simp add: np_ok_def length_tb_slice)
  then have "\<exists>buf. tb_advance_head p HEAD_LENGTH = Inr buf" by (simp add: tb_advance_head_def)
  then obtain buf where buf: "tb_advance_head p HEAD_LENGTH = Inr buf" ..
  with that tb_slice_advance [OF buf] tb_wf_advance [OF assms(1) buf] show thesis
    by (simp add: np_payload_def)
qed

end
