(* ===== verification/P2p_Inbound.thy ===== *)
theory P2p_Inbound
  imports Enhanced_Inbound
begin

text \<open>
  \<open>tunnel_core/p2p/inbound.rs\<close>: what a node does with a packet that arrives over a peer tunnel:
  drop it, forward it, deliver it, or take part in the ping and hole-punching exchanges. At the
  end, the tunnel as a whole: what one node sends, over any number of relays, another delivers.

  Addresses, sockets and clocks are arguments (\<open>in_crates\<close>): \<open>ic_key_ip\<close> is the IPv4 address of
  a route key, if it has one, \<open>ic_default_rtt\<close> is \<open>DEFAULT_RTT\<close>.
\<close>

section \<open>State and effects\<close>

record ('k, 'c) in_crates =
  ic_aead :: "'c aead"
  ic_lz4 :: lz4
  ic_sinks :: sink_crates
  ic_fec_codec :: "FecPacket codec"
  ic_rs :: reed_solomon
  ic_now :: instant
  ic_now_ms :: u64
  ic_default_rtt :: u32
  ic_key_ip :: "'k \<Rightarrow> ipv4 option"
  ic_socket :: "'k \<Rightarrow> bytes \<Rightarrow> bool"
  ic_tunnel :: "'k \<Rightarrow> bytes \<Rightarrow> bool"

datatype 'k in_event =
    Forward 'k bytes
  | Reply 'k bytes
  | Deliver delivery

record 'k InboundState =
  is_route_table :: "'k RouteTable"
  is_packet_loss :: PacketLossStats
  is_traffic :: TrafficStats
  is_fec_decoder :: FecDecoder

record ('k, 'c) P2pInboundHandler =
  pi_network_route :: NetworkRoute
  pi_crypto :: "'c option"
  pi_compression :: "LZ4Compression option"
  pi_enhanced_inbound :: EnhancedInbound

record PacketContext =
  ctx_msg_type :: MsgType
  ctx_src_ip :: ipv4
  ctx_dest_ip :: ipv4
  ctx_max_ttl :: u8
  ctx_ttl :: u8

text \<open>An action on one part of the state.\<close>

definition deliver_part :: "(TrafficStats, delivery) action \<Rightarrow> ('k InboundState, 'k in_event) action" where
  "deliver_part a s =
     (case a (is_traffic s) of (t, es, r) \<Rightarrow> (s\<lparr>is_traffic := t\<rparr>, map Deliver es, r))"

definition change_routes :: "('k RouteTable \<Rightarrow> 'k RouteTable) \<Rightarrow> ('k InboundState, 'e) action" where
  "change_routes f = update_state (\<lambda>s. s\<lparr>is_route_table := f (is_route_table s)\<rparr>)"

definition count_received :: "ipv4 \<Rightarrow> ('k InboundState, 'e) action" where
  "count_received ip = update_state (\<lambda>s. s\<lparr>is_packet_loss := record_received ip (is_packet_loss s)\<rparr>)"

definition tunnel_send :: "('k, 'c) in_crates \<Rightarrow> 'k \<Rightarrow> bytes \<Rightarrow> 'k in_event effects" where
  "tunnel_send W key b = (if ic_tunnel W key b then ([Reply key b], Inr ()) else no_send (Inl OtherError))"

definition forward :: "('k, 'c) in_crates \<Rightarrow> 'k \<Rightarrow> bytes \<Rightarrow> 'k in_event effects" where
  "forward W key b = (if ic_socket W key b then ([Forward key b], Inr ()) else no_send (Inl OtherError))"

section \<open>Control packets\<close>

text \<open>A reply: eight bytes of payload, one hop, addresses swapped, encrypted.\<close>

definition reply_packet ::
  "('k, 'c) in_crates \<Rightarrow> 'c option \<Rightarrow> MsgType \<Rightarrow> ipv4 \<Rightarrow> ipv4 \<Rightarrow> bytes \<Rightarrow> bytes result" where
  "reply_packet W pc mt src dest payload =
     rbind (tb_np_new (tb_zeroed_size (HEAD_LENGTH + 8) (encrypt_reserve pc))) (\<lambda>packet.
       let packet = tb_map (np_set_msg_type mt) packet;
           packet = tb_map (np_set_ttl 1) packet;
           packet = tb_map (np_set_src_id src) packet;
           packet = tb_map (np_set_dest_id dest) packet in
       rbind (np_set_payload payload (tb_slice packet)) (\<lambda>b.
       rbind (pc_encrypt (ic_aead W) pc (tb_write packet b)) tb_np_into_bytes))"

definition ping_time :: "bytes \<Rightarrow> int" where
  "ping_time payload = sint (of_be64 (take 8 payload))"

definition loop_address :: "('k, 'c) in_crates \<Rightarrow> ('k, 'c) P2pInboundHandler \<Rightarrow> 'k \<Rightarrow> bool" where
  "loop_address W h key \<longleftrightarrow>
     (case ic_key_ip W key of
        None \<Rightarrow> False
      | Some ip \<Rightarrow> route_network_contains (sc_contains (ic_sinks W)) (pi_network_route h) ip)"

definition process_decompressed_packet ::
  "('k, 'c) in_crates \<Rightarrow> ('k, 'c) P2pInboundHandler \<Rightarrow> NetworkAddr \<Rightarrow> 'k \<Rightarrow> transmission \<Rightarrow> PacketContext \<Rightarrow>
   ('k InboundState, 'k in_event) action" where
  "process_decompressed_packet W h net key net_packet ctx =
     (let src = ctx_src_ip ctx; dest = ctx_dest_ip ctx; metric = ctx_max_ttl ctx - ctx_ttl ctx;
          payload = np_payload (tb_slice net_packet);
          deliver = deliver_part (enhanced_inbound (ic_sinks W) (pi_enhanced_inbound h) net (ctx_msg_type ctx) src net_packet) in
      case ctx_msg_type ctx of
        Turn \<Rightarrow> deliver
      | Broadcast \<Rightarrow> deliver
      | ExcludeBroadcast \<Rightarrow> deliver
      | Ping \<Rightarrow>
          then_do (change_routes (add_route_if_absent (ic_now W) src (from_default_rt (ic_default_rtt W) key metric)))
            (effect (after (reply_packet W (pi_crypto h) Pong dest src payload) (tunnel_send W key)))
      | Pong \<Rightarrow>
          if length payload \<ge> 8 \<and> sint (ic_now_ms W) \<ge> ping_time payload then
            then_do (change_routes (add_route (ic_now W) src
                (route_from key metric (word_of_int (sint (ic_now_ms W) - ping_time payload)))))
              (count_received src)
          else done_ok
      | PunchReq \<Rightarrow>
          if loop_address W h key then done_ok
          else then_do (change_routes (add_owner_route (ic_default_rtt W) (ic_now W) src key))
            (effect (after (reply_packet W (pi_crypto h) PunchRes dest src (be64 (ic_now_ms W))) (tunnel_send W key)))
      | PunchRes \<Rightarrow>
          if loop_address W h key then done_ok
          else change_routes (add_owner_route (ic_default_rtt W) (ic_now W) src key)
      | _ \<Rightarrow> done_ok)"

section \<open>The handler\<close>

text \<open>\<open>fec_decoder.receive\<close>: the decoder keeps its new state even when it fails.\<close>

definition fec_do ::
  "('k, 'c) in_crates \<Rightarrow> bytes \<Rightarrow> (bytes list option \<Rightarrow> ('k InboundState, 'e) action) \<Rightarrow> ('k InboundState, 'e) action" where
  "fec_do W pkt f s =
     (case fec_receive (ic_fec_codec W) (ic_rs W) (ic_now W) pkt (is_fec_decoder s) of
        (d, r) \<Rightarrow> try_do r f (s\<lparr>is_fec_decoder := d\<rparr>))"

definition get_or_empty :: "'a list option \<Rightarrow> 'a list" where
  "get_or_empty l = (case l of None \<Rightarrow> [] | Some x \<Rightarrow> x)"

text \<open>A QUIC packet is neither encrypted nor compressed.\<close>

definition quic_packet ::
  "('k, 'c) in_crates \<Rightarrow> ('k, 'c) P2pInboundHandler \<Rightarrow> NetworkAddr \<Rightarrow> MsgType \<Rightarrow> ipv4 \<Rightarrow> transmission \<Rightarrow>
   ('k InboundState, 'k in_event) action" where
  "quic_packet W h net msg_type src net_packet =
     (let deliver = (\<lambda>p. deliver_part (enhanced_inbound (ic_sinks W) (pi_enhanced_inbound h) net msg_type src p)) in
      if np_is_fec (tb_slice net_packet)
      then fec_do W (tb_slice net_packet) (\<lambda>packets. for_each (deliver \<circ> tb_from) (get_or_empty packets))
      else deliver net_packet)"

definition open_packet ::
  "('k, 'c) in_crates \<Rightarrow> ('k, 'c) P2pInboundHandler \<Rightarrow> NetworkAddr \<Rightarrow> 'k \<Rightarrow> PacketContext \<Rightarrow> transmission \<Rightarrow>
   ('k InboundState, 'k in_event) action" where
  "open_packet W h net key ctx net_packet =
     try_do (pc_decrypt (ic_aead W) (pi_crypto h) net_packet) (\<lambda>net_packet.
       let process = (\<lambda>p. try_do (packet_decompress (ic_lz4 W) (pi_compression h) p)
             (\<lambda>p. process_decompressed_packet W h net key p ctx)) in
       if np_is_fec (tb_slice net_packet)
       then fec_do W (tb_slice net_packet) (\<lambda>packets. for_each (process \<circ> tb_from) (get_or_empty packets))
       else process net_packet)"

definition for_this_node :: "NetworkAddr \<Rightarrow> ipv4 \<Rightarrow> bool" where
  "for_this_node net dest \<longleftrightarrow> na_ip net = dest \<or> is_broadcast dest \<or> is_unspecified dest \<or> dest = na_broadcast net"

definition forward_packet ::
  "('k, 'c) in_crates \<Rightarrow> ('k, 'c) P2pInboundHandler \<Rightarrow> ipv4 \<Rightarrow> transmission \<Rightarrow> ('k InboundState, 'k in_event) action" where
  "forward_packet W h dest net_packet s =
     (if np_ttl (tb_slice net_packet) \<ge> 1 then
        (case get_route_by_id (is_route_table s) dest of
           Inr route \<Rightarrow> effect (after (tb_np_into_bytes net_packet) (forward W (route_key route))) s
         | Inl _ \<Rightarrow> done_ok s)
      else done_ok s)"

definition next_handle_impl ::
  "('k, 'c) in_crates \<Rightarrow> ('k, 'c) P2pInboundHandler \<Rightarrow> transmission \<Rightarrow> 'k \<Rightarrow> ('k InboundState, 'k in_event) action" where
  "next_handle_impl W h buf key =
     try_do (tb_np_new buf) (\<lambda>net_packet.
     try_do (np_msg_type (tb_slice net_packet)) (\<lambda>msg_type.
       let src = np_src_id (tb_slice net_packet); dest = np_dest_id (tb_slice net_packet) in
       if src = dest then done_ok
       else
         let net_packet = tb_map np_decr_ttl net_packet;
             max_ttl = np_max_ttl (tb_slice net_packet); ttl = np_ttl (tb_slice net_packet) in
         if max_ttl \<le> ttl then done_ok
         else try_do (ok_or (Bail ''no own ip'') (nr_network (pi_network_route h))) (\<lambda>net.
           if \<not> for_this_node net dest then forward_packet W h dest net_packet
           else if msg_type = Quic then quic_packet W h net msg_type src net_packet
           else open_packet W h net key
             \<lparr>ctx_msg_type = msg_type, ctx_src_ip = src, ctx_dest_ip = dest, ctx_max_ttl = max_ttl, ctx_ttl = ttl\<rparr>
             net_packet)))"

text \<open>\<open>next_handle\<close> logs an error and goes on; \<open>tcp_disconnect\<close> removes the route of a closed connection.\<close>

definition next_handle ::
  "('k, 'c) in_crates \<Rightarrow> ('k, 'c) P2pInboundHandler \<Rightarrow> transmission \<Rightarrow> 'k \<Rightarrow> 'k InboundState \<Rightarrow> 'k InboundState \<times> 'k in_event list" where
  "next_handle W h buf key s = (case next_handle_impl W h buf key s of (s', es, _) \<Rightarrow> (s', es))"

definition tcp_disconnect :: "'k \<Rightarrow> 'k InboundState \<Rightarrow> 'k InboundState" where
  "tcp_disconnect key s =
     (case get_id_by_route_key (is_route_table s) key of
        None \<Rightarrow> s
      | Some ip \<Rightarrow> s\<lparr>is_route_table := remove_route ip key (is_route_table s)\<rparr>)"

section \<open>Forwarding\<close>

lemma np_msg_type_decr [simp]: "np_msg_type (np_decr_ttl b) = np_msg_type b"
  by (simp add: np_op_defs h_decr_ttl_def h_msg_type_def Let_def)

lemma np_decr_fields [simp]:
  "np_src_id (np_decr_ttl b) = np_src_id b" "np_dest_id (np_decr_ttl b) = np_dest_id b"
  "np_is_fec (np_decr_ttl b) = np_is_fec b" "np_is_compressed (np_decr_ttl b) = np_is_compressed b"
  "np_payload (np_decr_ttl b) = np_payload b" "np_ok (np_decr_ttl b)"
  by (simp_all add: np_op_defs h_decr_ttl_def Let_def)

lemma np_decr_max [simp]: "np_max_ttl (np_decr_ttl b) = np_max_ttl b"
  by (simp add: np_op_defs h_decr_ttl_max)

lemma np_decr_ttl_ttl: "unat (np_ttl (np_decr_ttl b)) = unat (np_ttl b) - 1"
  by (simp add: np_op_defs h_decr_ttl_curr)

lemma tb_decr:
  assumes "tb_wf t" and "np_ok (tb_slice t)"
  shows "tb_slice (tb_map np_decr_ttl t) = np_decr_ttl (tb_slice t)" "tb_wf (tb_map np_decr_ttl t)"
  using assms by (simp_all add: np_decr_ttl_def tb_header_mut)

text \<open>A packet for another node leaves the state alone and is forwarded at most once.\<close>

lemma forward_cases:
  assumes "tb_wf buf" and "nr_network (pi_network_route h) = Some net" and "\<not> for_this_node net (np_dest_id (tb_slice buf))"
    and "next_handle_impl W h buf key s = (s', es, r)"
  shows "s' = s \<and> (es = [] \<or>
    (\<exists>route. get_route_by_id (is_route_table s) (np_dest_id (tb_slice buf)) = Inr route \<and>
       es = [Forward (route_key route) (np_decr_ttl (tb_slice buf))] \<and> np_ok (tb_slice buf) \<and> 2 \<le> unat (np_ttl (tb_slice buf))))"
proof (cases "np_ok (tb_slice buf)")
  case False
  then show ?thesis using assms(4)
    by (simp add: next_handle_impl_def tb_np_new_def np_new_def np_ok_def failing_def)
next
  case True
  note decr = tb_decr [OF assms(1) True]
  have bytes: "tb_np_into_bytes (tb_map np_decr_ttl buf) = Inr (np_decr_ttl (tb_slice buf))"
    using decr by (simp add: tb_np_into_bytes_def tb_into_bytes_wf)
  have ttl: "1 \<le> np_ttl (np_decr_ttl (tb_slice buf)) \<longleftrightarrow> 2 \<le> unat (np_ttl (tb_slice buf))"
    using np_decr_ttl_ttl [of "tb_slice buf"] by (simp add: word_le_nat_alt) arith
  have new: "tb_np_new buf = Inr buf" using True by (simp add: tb_np_new_def np_new_def np_ok_def)
  have ours: "na_ip net \<noteq> np_dest_id (tb_slice buf)" using assms(3) by (simp add: for_this_node_def)
  show ?thesis
  proof (cases "np_msg_type (tb_slice buf)")
    case (Inl e)
    then show ?thesis using assms(4) new by (simp add: next_handle_impl_def failing_def)
  next
    case (Inr mt)
    then show ?thesis using assms(2-4) new decr bytes ttl True
      by (auto simp: next_handle_impl_def Let_def done_ok_def forward_packet_def effect_def forward_def no_send_def
          split: if_splits sum.splits)
  qed
qed

text \<open>
  The bytes of a packet after passing through relays: each relay is a node with a network of its
  own, for which the packet is not meant, in any state.
\<close>

inductive relayed :: "('k, 'c) in_crates \<Rightarrow> bytes \<Rightarrow> nat \<Rightarrow> bytes \<Rightarrow> bool" for W where
  sent: "relayed W b 0 b"
| hop: "relayed W b n b1 \<Longrightarrow> tb_wf buf \<Longrightarrow> tb_slice buf = b1 \<Longrightarrow>
    nr_network (pi_network_route h) = Some net \<Longrightarrow> \<not> for_this_node net (np_dest_id b1) \<Longrightarrow>
    next_handle_impl W h buf key s = (s', es, r) \<Longrightarrow> Forward k b2 \<in> set es \<Longrightarrow> relayed W b (Suc n) b2"

inductive_cases relayed_SucE: "relayed W b (Suc n) b2"

lemma unat_ttl_hops: "unat (np_ttl ((np_decr_ttl ^^ n) b)) = unat (np_ttl b) - n"
  by (induction n) (simp_all add: np_decr_ttl_ttl)

lemma relayed_bytes:
  "relayed W b n b' \<Longrightarrow> b' = (np_decr_ttl ^^ n) b \<and> (n = 0 \<or> (np_ok b \<and> n < unat (np_ttl b)))"
proof (induction rule: relayed.induct)
  case (hop b n b1 buf h net key s s' es r k b2)
  from forward_cases [OF hop.hyps(2,4) _ hop.hyps(6)] hop.hyps(3,5,7)
  have "b2 = np_decr_ttl b1" "np_ok b1" "2 \<le> unat (np_ttl b1)" by auto
  moreover have "np_ok b" using hop.IH \<open>np_ok b1\<close> by (cases n) auto
  ultimately show ?case using hop.IH unat_ttl_hops [of n b] by auto
qed simp

lemma np_decr_iterated:
  "np_msg_type ((np_decr_ttl ^^ n) b) = np_msg_type b" "np_src_id ((np_decr_ttl ^^ n) b) = np_src_id b"
  "np_dest_id ((np_decr_ttl ^^ n) b) = np_dest_id b" "np_is_fec ((np_decr_ttl ^^ n) b) = np_is_fec b"
  "np_is_compressed ((np_decr_ttl ^^ n) b) = np_is_compressed b" "np_payload ((np_decr_ttl ^^ n) b) = np_payload b"
  "np_max_ttl ((np_decr_ttl ^^ n) b) = np_max_ttl b" "np_ok b \<Longrightarrow> np_ok ((np_decr_ttl ^^ n) b)"
  by (induction n) simp_all

lemma type_byte_decr: "type_byte (np_header ((np_decr_ttl ^^ n) b)) = type_byte (np_header b)"
    "np_seq ((np_decr_ttl ^^ n) b) = np_seq b"
  by (induction n) (simp_all add: np_op_defs h_decr_ttl_def Let_def)

section \<open>From sender to receiver\<close>

lemma np_header_head: "np_header (np_head b) = np_header b"
  by (simp add: np_header_def np_head_def)

text \<open>Whoever has the key and compression enabled recovers the payload, after any number of hops.\<close>

lemma decrypt_sent:
  assumes "aead_correct A" and "tb_wf t" and "np_ok (tb_slice t)"
    and "packet_compress Z cp t reserve = Inr t1" and "pc_encrypt A pc t1 = Inr t2"
    and "tb_wf r" and "tb_slice r = (np_decr_ttl ^^ n) (tb_slice t2)"
  obtains q where "pc_decrypt A pc r = Inr q" "np_header (tb_slice q) = np_header (tb_slice r)" "tb_wf q"
    "np_ok (tb_slice q)" "np_payload (tb_slice q) = np_payload (tb_slice t1)"
    "np_is_compressed (tb_slice q) \<longleftrightarrow> np_is_compressed (tb_slice t1)"
proof -
  note p = packed_header [OF assms(1-5)]
  have head: "np_head (tb_slice t2) = np_head (tb_slice t1)" "np_header (tb_slice t2) = np_header (tb_slice t1)"
    using pc_encrypt_head(1) [OF assms(1) p(1,2) assms(5)] by (simp_all add: np_header_def np_head_def)
  let ?h = "np_head (tb_slice r)"
  have ok_r: "np_ok (tb_slice r)" using p(4) by (simp add: assms(7) np_decr_iterated)
  have h: "length ?h = HEAD_LENGTH" using ok_r by (simp add: np_head_def np_ok_def)
  have r: "tb_slice r = ?h @ np_payload (tb_slice t2)"
    using np_head_payload [of "tb_slice r"] by (simp add: assms(7) np_decr_iterated)
  have nonce: "make_nonce ?h = make_nonce (np_head (tb_slice t1))"
  proof (rule make_nonce_cong)
    show "np_ok ?h" "np_ok (np_head (tb_slice t1))" using h p(2) by (simp_all add: np_ok_def np_head_def)
    show "type_byte (np_header ?h) = type_byte (np_header (np_head (tb_slice t1)))" "np_seq ?h = np_seq (np_head (tb_slice t1))"
      "np_src_id ?h = np_src_id (np_head (tb_slice t1))" "np_dest_id ?h = np_dest_id (np_head (tb_slice t1))"
      using type_byte_decr [of n "tb_slice t2"] np_decr_iterated(2,3) [of n "tb_slice t2"]
      by (simp_all add: np_seq_def np_src_id_def np_dest_id_def np_header_head assms(7) head)
  qed
  obtain q where q: "pc_decrypt A pc r = Inr q" "tb_slice q = ?h @ np_payload (tb_slice t1)" "tb_wf q"
    using pc_decrypt_arrived [OF assms(1) p(1,2) assms(5,6) r h nonce] .
  have q_hdr: "np_header (tb_slice q) = np_header (tb_slice r)" "np_head (tb_slice q) = ?h" "np_ok (tb_slice q)"
    "np_payload (tb_slice q) = np_payload (tb_slice t1)"
    using h by (simp_all add: q(2) np_header_def np_head_def np_ok_def np_payload_def)
  have flag: "np_is_compressed (tb_slice q) \<longleftrightarrow> np_is_compressed (tb_slice t1)"
    using np_decr_iterated(5) [of n "tb_slice t2"]
    by (simp add: np_is_compressed_def q_hdr(1) assms(7) head)
  show thesis by (rule that [OF q(1) q_hdr(1) q(3) q_hdr(3,4) flag])
qed

text \<open>The packet is opened by a node that decompresses, and by any node if the sender does not compress.\<close>

lemma open_sent:
  assumes "aead_correct A" and "lz4_correct Z" and "tb_wf t" and "np_ok (tb_slice t)"
    and "\<not> np_is_compressed (tb_slice t)"
    and "packet_compress Z cp t reserve = Inr t1" and "pc_encrypt A pc t1 = Inr t2"
    and "tb_wf r" and "tb_slice r = (np_decr_ttl ^^ n) (tb_slice t2)" and "co = None \<longrightarrow> cp = None"
  obtains q q' where "pc_decrypt A pc r = Inr q" "np_header (tb_slice q) = np_header (tb_slice r)"
    "packet_decompress Z co q = Inr q'" "np_payload (tb_slice q') = np_payload (tb_slice t)"
    "tb_wf q'" "np_ok (tb_slice q')"
proof -
  obtain q where q: "pc_decrypt A pc r = Inr q" "np_header (tb_slice q) = np_header (tb_slice r)" "tb_wf q" "np_ok (tb_slice q)"
    "np_payload (tb_slice q) = np_payload (tb_slice t1)" "np_is_compressed (tb_slice q) \<longleftrightarrow> np_is_compressed (tb_slice t1)"
    using decrypt_sent [OF assms(1,3,4,6-9)] .
  show thesis
    using assms(4,6)
  proof (cases rule: compress_cases)
    case same
    then have "packet_decompress Z co q = Inr q"
      using q(6) assms(5) by (cases co) (simp_all add: decompress_unmarked, simp add: packet_decompress_def)
    with that [OF q(1,2)] same q(3-5) show thesis by metis
  next
    case smaller
    let ?h = "np_head (tb_slice q)"
    have hp: "length (np_head (tb_slice t)) = HEAD_LENGTH" "np_ok (np_head (tb_slice t))"
      using assms(4) by (simp_all add: np_head_def np_ok_def)
    then have pay: "np_payload (tb_slice t1) = compress_prepend_size Z (np_payload (tb_slice t))"
      by (simp add: smaller(2) np_payload_def)
    have marked: "np_is_compressed (tb_slice t1)"
      by (simp only: smaller(2) np_flag_append [OF hp(1), symmetric] np_is_compressed_set)
    with assms(5,6,10) obtain c where c: "co = Some c" by (cases cp) (auto simp: packet_compress_def)
    from pay marked obtain q' where q': "packet_decompress Z co q = Inr q'"
      "tb_slice q' = np_set_compressed_flag False ?h @ np_payload (tb_slice t)" "tb_wf q'"
      using decompress_marked [OF q(4), where c = c and Z = Z] assms(2) q(5,6) by (metis lz4_correct_def c)
    have h: "length ?h = HEAD_LENGTH" "np_ok ?h" using q(4) by (simp_all add: np_head_def np_ok_def)
    then have "length (np_set_compressed_flag False ?h) = HEAD_LENGTH" by simp
    then have "np_payload (tb_slice q') = np_payload (tb_slice t)" "np_ok (tb_slice q')"
      by (simp_all add: q'(2) np_payload_def np_ok_def)
    with that [OF q(1,2) q'(1)] q'(3) show thesis by metis
  qed
qed

lemma forward_succeeds:
  assumes "tb_wf buf" and "np_ok (tb_slice buf)" and "np_msg_type (tb_slice buf) = Inr mt"
    and "np_src_id (tb_slice buf) \<noteq> np_dest_id (tb_slice buf)" and "nr_network (pi_network_route h) = Some net"
    and "\<not> for_this_node net (np_dest_id (tb_slice buf))"
    and "2 \<le> unat (np_ttl (tb_slice buf))" and "np_ttl (tb_slice buf) \<le> np_max_ttl (tb_slice buf)"
    and "get_route_by_id (is_route_table s) (np_dest_id (tb_slice buf)) = Inr route"
    and "ic_socket W (route_key route) (np_decr_ttl (tb_slice buf))"
  shows "next_handle_impl W h buf key s = (s, [Forward (route_key route) (np_decr_ttl (tb_slice buf))], Inr ())"
proof -
  note decr = tb_decr [OF assms(1,2)]
  have "tb_np_into_bytes (tb_map np_decr_ttl buf) = Inr (np_decr_ttl (tb_slice buf))"
    using decr by (simp add: tb_np_into_bytes_def tb_into_bytes_wf)
  moreover have "1 \<le> np_ttl (np_decr_ttl (tb_slice buf))" "\<not> np_max_ttl (tb_slice buf) \<le> np_ttl (np_decr_ttl (tb_slice buf))"
    using np_decr_ttl_ttl [of "tb_slice buf"] assms(7,8) by (simp_all add: word_le_nat_alt)
  moreover have "tb_np_new buf = Inr buf" using assms(2) by (simp add: tb_np_new_def np_new_def np_ok_def)
  ultimately show ?thesis using assms(3-6,9,10) decr
    by (simp add: next_handle_impl_def Let_def forward_packet_def effect_def forward_def)
qed

section \<open>Properties\<close>

text \<open>
  C6. Relaying ends: through any relays, in any states, a packet keeps its content and its initial
  TTL, loses one from its hop counter per relay, and is relayed less often than its hop counter
  says, so no cycle of routes keeps it alive.
\<close>

theorem relayed_packets_die:
  assumes "relayed W b n b'"
  shows "(n = 0 \<or> n < unat (np_ttl b)) \<and> unat (np_ttl b') = unat (np_ttl b) - n \<and> np_max_ttl b' = np_max_ttl b \<and>
    np_payload b' = np_payload b \<and> np_src_id b' = np_src_id b \<and> np_dest_id b' = np_dest_id b \<and> np_msg_type b' = np_msg_type b"
  using relayed_bytes [OF assms] by (auto simp: np_decr_iterated unat_ttl_hops)

text \<open>A relay with a route to \<open>10.26.0.5\<close>, and a packet for that node.\<close>

definition relay_packet :: bytes where
  "relay_packet = np_set_dest_id 0x0A1A0005 (np_set_src_id 0x0A1A0002 (np_set_ttl 5 (np_set_msg_type Turn (replicate 16 0))))"

lemma relay_packet_fields:
  "np_msg_type relay_packet = Inr Turn" "np_src_id relay_packet = 0x0A1A0002" "np_dest_id relay_packet = 0x0A1A0005"
  "np_ttl relay_packet = 5" "np_max_ttl relay_packet = 5" "np_ok relay_packet"
  by (simp_all add: relay_packet_def np_op_defs h_set_ttl_def h_set_msg_type_def h_msg_type_def h_curr_ttl_def
      h_max_ttl_def msg_try_from_def)

theorem relayed_packets_die_witness:
  "\<exists>b' :: bytes. \<exists>W :: (nat, bytes) in_crates. relayed W relay_packet 1 b' \<and> unat (np_ttl b') = 4"
proof -
  define h :: "(nat, bytes) P2pInboundHandler" where
    "h = \<lparr>pi_network_route = \<lparr>nr_network = Some demo_net, nr_subnet_route = []\<rparr>, pi_crypto = None, pi_compression = None,
       pi_enhanced_inbound = \<lparr>ei_tun_data_inbound = Tun [], ei_internal_nat_inbound = None\<rparr>\<rparr>"
  define s :: "nat InboundState" where
    "s = \<lparr>is_route_table = add_route 0 0x0A1A0005 (route_from 9 1 20) rt_new, is_packet_loss = [], is_traffic = [], is_fec_decoder = decoder_new 0\<rparr>"
  obtain W :: "(nat, bytes) in_crates" where W: "\<And>k b. ic_socket W k b" by (rule that [of "\<lparr>ic_aead = undefined, ic_lz4 = undefined,
     ic_sinks = undefined, ic_fec_codec = undefined, ic_rs = undefined, ic_now = 0, ic_now_ms = 0, ic_default_rtt = 0,
     ic_key_ip = (\<lambda>_. None), ic_socket = (\<lambda>_ _. True), ic_tunnel = (\<lambda>_ _. True)\<rparr>"]) simp
  have net: "nr_network (pi_network_route h) = Some demo_net" by (simp add: h_def)
  have not_ours: "\<not> for_this_node demo_net (np_dest_id relay_packet)"
    by (simp add: relay_packet_fields for_this_node_def demo_net_def is_broadcast_def is_unspecified_def)
  have route: "get_route_by_id (is_route_table s) 0x0A1A0005 = Inr (route_from 9 1 20)"
    unfolding s_def by simp code_simp
  have "next_handle_impl W h (tb_from relay_packet) 3 s = (s, [Forward 9 (np_decr_ttl relay_packet)], Inr ())"
    using forward_succeeds [OF tb_wf_from, of relay_packet Turn h demo_net s "route_from 9 1 20" W 3] not_ours route W
    by (simp add: relay_packet_fields net) (simp add: route_from_def)
  from relayed.hop [OF relayed.sent tb_wf_from tb_slice_from net not_ours this]
  have "relayed W relay_packet 1 (np_decr_ttl relay_packet)" by simp
  with relayed_packets_die [OF this] relay_packet_fields(4) show ?thesis by (intro exI) simp
qed

text \<open>
  A head without payload stops the node: when encryption is off, a broadcast packet of just the
  16 bytes of its head, from anyone who can reach a socket of the node, makes the sink index an
  empty slice. The handler panics, and the release profile aborts the process on a panic.
\<close>

lemma empty_broadcast_panics:
  assumes "length (tb_slice buf) = HEAD_LENGTH" and "tb_wf buf" and "np_msg_type (tb_slice buf) = Inr Broadcast"
    and "np_src_id (tb_slice buf) \<noteq> np_dest_id (tb_slice buf)" and "np_is_fec (tb_slice buf) = False"
    and "np_is_compressed (tb_slice buf) = False"
    and "1 \<le> unat (np_ttl (tb_slice buf))" and "np_ttl (tb_slice buf) \<le> np_max_ttl (tb_slice buf)"
    and "nr_network (pi_network_route h) = Some own" and "for_this_node own (np_dest_id (tb_slice buf))"
    and "pi_crypto h = None"
  shows "snd (snd (next_handle_impl W h buf key s)) = Inl Panic"
proof -
  have ok: "np_ok (tb_slice buf)" using assms(1) by (simp add: np_ok_def)
  note decr = tb_decr [OF assms(2) ok]
  let ?p = "tb_map np_decr_ttl buf"
  have "\<not> np_max_ttl (tb_slice buf) \<le> np_ttl (np_decr_ttl (tb_slice buf))"
    using np_decr_ttl_ttl [of "tb_slice buf"] assms(7,8) by (simp add: word_le_nat_alt)
  moreover have "tb_np_new buf = Inr buf" using ok by (simp add: tb_np_new_def np_new_def np_ok_def)
  moreover have "packet_decompress Z c ?p = Inr ?p" for Z c
    using assms(6) decr by (cases c) (simp_all add: packet_decompress_def lz4_decompress_def)
  moreover obtain content where c: "tb_advance_head ?p HEAD_LENGTH = Inr content" "tb_slice content = []"
    using advance_packet [OF decr(2)] decr(1) assms(1) by (metis np_decr_fields(5,6) drop_all np_payload_def order_refl)
  moreover have "enhanced_deliver K ei own Broadcast src content = ([], Inl Panic)" for K ei src
    by (simp add: enhanced_deliver_def enhanced_tun_inbound_def tun_send_def nat_send_def checked_sink_def c(2)
        no_send_def split: EnhancedTunInbound.splits)
  ultimately show ?thesis using assms(3-5,9-11) decr
    by (simp add: next_handle_impl_def Let_def open_packet_def pc_decrypt_def process_decompressed_packet_def
        deliver_part_def enhanced_inbound_def then_do_def update_state_def effect_def)
qed

lemma empty_broadcast_panics_witness:
  "let b = [0x82, 0x11, 0, 0, 0, 0, 0, 0, 0x0A, 0x1A, 0, 9, 0xFF, 0xFF, 0xFF, 0xFF] in
   \<forall>W :: (nat, bytes) in_crates. snd (snd (next_handle_impl W
     \<lparr>pi_network_route = \<lparr>nr_network = Some demo_net, nr_subnet_route = []\<rparr>, pi_crypto = None, pi_compression = None,
      pi_enhanced_inbound = \<lparr>ei_tun_data_inbound = Tun [], ei_internal_nat_inbound = None\<rparr>\<rparr>
     (tb_from b) 3 \<lparr>is_route_table = rt_new, is_packet_loss = [], is_traffic = [], is_fec_decoder = decoder_new 0\<rparr>)) = Inl Panic"
proof -
  let ?b = "[0x82, 0x11, 0, 0, 0, 0, 0, 0, 0x0A, 0x1A, 0, 9, 0xFF, 0xFF, 0xFF, 0xFF] :: bytes"
  have f: "np_msg_type ?b = Inr Broadcast" "np_src_id ?b = 0x0A1A0009" "np_dest_id ?b = 0xFFFFFFFF"
    "np_ttl ?b = 1" "np_max_ttl ?b = 1" "np_is_fec ?b = False" "np_is_compressed ?b = False"
    by code_simp+
  show ?thesis
    unfolding Let_def
    by (intro allI empty_broadcast_panics [where own = demo_net])
      (simp_all add: f HEAD_LENGTH_def tb_wf_from for_this_node_def is_broadcast_def)
qed

end
