(* ===== verification/Tunnel.thy ===== *)
theory Tunnel
  imports P2p_Inbound Enhanced_Outbound
begin

text \<open>
  The tunnel as a whole: an IP packet read from the interface of one node, sent by
  \<open>ipv4_outbound\<close>, carried over any number of relays, and handled by \<open>next_handle_impl\<close> of the node
  it is meant for.
\<close>

section \<open>What the sender puts on the wire\<close>

definition turn_header :: "NetworkAddr \<Rightarrow> ipv4 \<Rightarrow> NetHeader" where
  "turn_header net dest = \<lparr>type_byte = 0x81, ttl_byte = 0x55, flags_byte = 0, reserved_byte = 0, h_seq = 0,
     h_src_id = na_ip net, h_dest_id = dest\<rparr>"

lemma turn_packet_slice:
  assumes "tun_decode cp ip = Inr (Some data)" and "rbind (tb_retreat_head data HEAD_LENGTH) tb_np_new = Inr p"
  shows "tb_wf (turn_packet net dest p)" "np_ok (tb_slice (turn_packet net dest p))"
    "np_header (tb_slice (turn_packet net dest p)) = turn_header net dest"
    "np_payload (tb_slice (turn_packet net dest p)) = ip"
proof -
  note d = tun_decode_data [OF assms(1)]
  note p = retreat_packet [OF d(1) assms(2)]
  have room: "np_header (tb_slice p) = decode_header (replicate HEAD_LENGTH 0)"
    using d(5) by (simp add: p(4) d(3))
  have zero: "decode_header (replicate HEAD_LENGTH 0) = \<lparr>type_byte = 0, ttl_byte = 0, flags_byte = 0,
      reserved_byte = 0, h_seq = 0, h_src_id = 0, h_dest_id = 0\<rparr>"
    by (simp add: decode_header_def HEAD_LENGTH_def of_be32_def)
  show "tb_wf (turn_packet net dest p)" "np_ok (tb_slice (turn_packet net dest p))"
    "np_payload (tb_slice (turn_packet net dest p)) = ip"
    using p(1,2,3) d(2) by (simp_all add: turn_packet_def np_op_defs tb_header_mut)
  show "np_header (tb_slice (turn_packet net dest p)) = turn_header net dest"
    using p(1,2) by (simp add: turn_packet_def np_op_defs tb_header_mut room zero turn_header_def
        h_set_msg_type_def h_set_ttl_def)
qed

lemma turn_header_fields:
  assumes "np_header b = turn_header net dest \<or> np_header b = h_set_flag COMPRESSED True (turn_header net dest)"
  shows "np_msg_type b = Inr Turn" "np_src_id b = na_ip net" "np_dest_id b = dest" "unat (np_ttl b) = 5"
    "unat (np_max_ttl b) = 5" "\<not> np_is_fec b" "\<not> np_is_gateway b"
  using assms
  by (auto simp: np_op_defs turn_header_def h_set_flag_def h_msg_type_def h_curr_ttl_def h_max_ttl_def
      msg_try_from_def FEC_def GATEWAY_def COMPRESSED_def)

text \<open>Without FEC, what was sent is a packed Turn packet with the data as payload.\<close>

lemma sender_packet:
  assumes "aead_correct (oc_aead W)" and "tun_decode cp ip = Inr (Some data)" and "ho_fec_encoder h = None"
    and "ipv4_outbound W net data h = (h', es, r)" and "e \<in> set es"
  obtains d dest t t1 t2 where "oc_ipv4_destination W ip = Some d" "next_hop W net h d = Some dest"
    "tb_wf t" "np_ok (tb_slice t)" "np_header (tb_slice t) = turn_header net dest" "np_payload (tb_slice t) = ip"
    "packet_compress (oc_lz4 W) (ho_compression h) t (encrypt_reserve (bo_crypto (ho_basic_outbound h))) = Inr t1"
    "pc_encrypt (oc_aead W) (bo_crypto (ho_basic_outbound h)) t1 = Inr t2"
    "path_of (ho_basic_outbound h) (ho_server_info h) dest (tb_slice t2) e"
proof -
  note dat = tun_decode_data [OF assms(2)]
  from ipv4_outbound_run [OF assms(4)] assms(5)
  obtain d dest p t1 fp hf where d: "oc_ipv4_destination W ip = Some d" "next_hop W net h d = Some dest"
    and p: "rbind (tb_retreat_head data HEAD_LENGTH) tb_np_new = Inr p"
    and c: "packet_compress (oc_lz4 W) (ho_compression h) (turn_packet net dest p)
      (encrypt_reserve (bo_crypto (ho_basic_outbound h))) = Inr t1"
    and f: "fec_stage W h t1 = (Inr fp, hf)"
    and cnt: "counted (send_encrypted_packet W (ho_basic_outbound hf) (ho_server_info hf) dest fp) dest (tb_len data) hf = (h', es, r)"
    using dat(2) by auto
  have same: "fp = t1" "hf = h" using f assms(3) by (simp_all add: fec_stage_def)
  note t = turn_packet_slice [OF assms(2) p, of net dest]
  obtain es2 r2 where s: "send_encrypted_packet W (ho_basic_outbound h) (ho_server_info h) dest t1 = (es2, r2)" by fastforce
  with cnt assms(5) same have "e \<in> set es2" by (simp add: counted_cases)
  with send_encrypted_cases [OF s] obtain t2 b where t2: "pc_encrypt (oc_aead W) (bo_crypto (ho_basic_outbound h)) t1 = Inr t2"
    "tb_into_bytes t2 = Inr b" "path_of (ho_basic_outbound h) (ho_server_info h) dest b e"
    by auto
  have "b = tb_slice t2"
    using packed_header(3) [OF assms(1) t(1,2) c t2(1)] t2(2) by (simp add: tb_into_bytes_wf)
  with that [OF d t c t2(1)] t2(3) show thesis by simp
qed

section \<open>What the receiver makes of it\<close>

lemma receiver_hands_on:
  assumes "aead_correct (ic_aead W)" and "tb_wf t" and "np_ok (tb_slice t)" and "np_header (tb_slice t) = turn_header net dest"
    and "packet_compress (ic_lz4 W) cp t reserve = Inr t1" and "pc_encrypt (ic_aead W) (pi_crypto h) t1 = Inr t2"
    and "tb_wf buf" and "tb_slice buf = (np_decr_ttl ^^ n) (tb_slice t2)" and "n < 5"
    and "nr_network (pi_network_route h) = Some own" and "na_ip own = dest" and "na_ip net \<noteq> dest"
  obtains d where "tb_wf d" "tb_slice d = (np_decr_ttl ^^ Suc n) (tb_slice t2)"
    "\<And>q0 q. \<lbrakk>pc_decrypt (ic_aead W) (pi_crypto h) d = Inr q0; np_header (tb_slice q0) = np_header (tb_slice d);
       packet_decompress (ic_lz4 W) (pi_compression h) q0 = Inr q\<rbrakk> \<Longrightarrow>
       next_handle_impl W h buf key s = deliver_part (enhanced_inbound (ic_sinks W) (pi_enhanced_inbound h) own Turn (na_ip net) q) s"
proof -
  note p = packed_header [OF assms(1,2,3,5,6)]
  note f = turn_header_fields [OF p(5) [unfolded assms(4)]]
  let ?b = "tb_slice buf" and ?d = "tb_map np_decr_ttl buf"
  have b: "np_ok ?b" "np_msg_type ?b = Inr Turn" "np_src_id ?b = na_ip net" "np_dest_id ?b = dest"
    "unat (np_ttl ?b) = 5 - n" "unat (np_max_ttl ?b) = 5" "\<not> np_is_fec ?b"
    using p(4) f unat_ttl_hops [of n "tb_slice t2"] by (simp_all add: assms(8) np_decr_iterated)
  note d = tb_decr [OF assms(7) b(1)]
  have ttl: "\<not> np_max_ttl (tb_slice ?d) \<le> np_ttl (tb_slice ?d)"
    using np_decr_ttl_ttl [of ?b] b(5,6) by (simp add: d(1) word_le_nat_alt)
  have "next_handle_impl W h buf key s =
      deliver_part (enhanced_inbound (ic_sinks W) (pi_enhanced_inbound h) own Turn (na_ip net) q) s"
    if q: "pc_decrypt (ic_aead W) (pi_crypto h) ?d = Inr q0" "np_header (tb_slice q0) = np_header (tb_slice ?d)"
      "packet_decompress (ic_lz4 W) (pi_compression h) q0 = Inr q" for q0 q
  proof -
    have "\<not> np_is_fec (tb_slice q0)"
      using b(7) np_decr_fields(3) [of ?b] by (simp add: np_is_fec_def q(2) d(1))
    then show ?thesis
      using b(1) d(1) ttl q(1,3) assms(10-12) b(2-4)
      by (simp add: next_handle_impl_def tb_np_new_def np_new_def np_ok_def Let_def for_this_node_def
          open_packet_def process_decompressed_packet_def)
  qed
  with that [of ?d] d(1,2) show thesis by (simp add: assms(8))
qed

lemma receiver_opens:
  assumes "aead_correct (ic_aead W)" and "lz4_correct (ic_lz4 W)"
    and "tb_wf t" and "np_ok (tb_slice t)" and "np_header (tb_slice t) = turn_header net dest"
    and "packet_compress (ic_lz4 W) cp t reserve = Inr t1" and "pc_encrypt (ic_aead W) (pi_crypto h) t1 = Inr t2"
    and "tb_wf buf" and "tb_slice buf = (np_decr_ttl ^^ n) (tb_slice t2)" and "n < 5"
    and "pi_compression h = None \<longrightarrow> cp = None" and "nr_network (pi_network_route h) = Some own" and "na_ip own = dest" and "na_ip net \<noteq> dest"
  obtains q where "tb_wf q" "np_ok (tb_slice q)" "np_payload (tb_slice q) = np_payload (tb_slice t)"
    "next_handle_impl W h buf key s =
      deliver_part (enhanced_inbound (ic_sinks W) (pi_enhanced_inbound h) own Turn (na_ip net) q) s"
proof -
  obtain d where d: "tb_wf d" "tb_slice d = (np_decr_ttl ^^ Suc n) (tb_slice t2)"
    and run: "\<And>q0 q. \<lbrakk>pc_decrypt (ic_aead W) (pi_crypto h) d = Inr q0; np_header (tb_slice q0) = np_header (tb_slice d);
       packet_decompress (ic_lz4 W) (pi_compression h) q0 = Inr q\<rbrakk> \<Longrightarrow>
       next_handle_impl W h buf key s = deliver_part (enhanced_inbound (ic_sinks W) (pi_enhanced_inbound h) own Turn (na_ip net) q) s"
    using receiver_hands_on [where key = key and s = s, OF assms(1,3-10,12-14)] by blast
  have clear: "\<not> np_is_compressed (tb_slice t)"
    by (simp add: np_is_compressed_def assms(5) turn_header_def)
  obtain q0 q where q: "pc_decrypt (ic_aead W) (pi_crypto h) d = Inr q0" "np_header (tb_slice q0) = np_header (tb_slice d)"
    "packet_decompress (ic_lz4 W) (pi_compression h) q0 = Inr q" "np_payload (tb_slice q) = np_payload (tb_slice t)"
    "tb_wf q" "np_ok (tb_slice q)"
    using open_sent [OF assms(1-4) clear assms(6,7) d assms(11)] .
  with that run show thesis by blast
qed

text \<open>A node that does not decompress hands on the payload as it is on the wire, flagged as compressed or not.\<close>

lemma receiver_keeps_compressed:
  assumes "aead_correct (ic_aead W)" and "tb_wf t" and "np_ok (tb_slice t)" and "np_header (tb_slice t) = turn_header net dest"
    and "packet_compress (ic_lz4 W) cp t reserve = Inr t1" and "pc_encrypt (ic_aead W) (pi_crypto h) t1 = Inr t2"
    and "tb_wf buf" and "tb_slice buf = (np_decr_ttl ^^ n) (tb_slice t2)" and "n < 5"
    and "pi_compression h = None" and "nr_network (pi_network_route h) = Some own" and "na_ip own = dest" and "na_ip net \<noteq> dest"
  obtains q where "tb_wf q" "np_ok (tb_slice q)" "np_payload (tb_slice q) = np_payload (tb_slice t1)"
    "next_handle_impl W h buf key s =
      deliver_part (enhanced_inbound (ic_sinks W) (pi_enhanced_inbound h) own Turn (na_ip net) q) s"
proof -
  obtain d where d: "tb_wf d" "tb_slice d = (np_decr_ttl ^^ Suc n) (tb_slice t2)"
    and run: "\<And>q0 q. \<lbrakk>pc_decrypt (ic_aead W) (pi_crypto h) d = Inr q0; np_header (tb_slice q0) = np_header (tb_slice d);
       packet_decompress (ic_lz4 W) (pi_compression h) q0 = Inr q\<rbrakk> \<Longrightarrow>
       next_handle_impl W h buf key s = deliver_part (enhanced_inbound (ic_sinks W) (pi_enhanced_inbound h) own Turn (na_ip net) q) s"
    using receiver_hands_on [where key = key and s = s, OF assms(1-9,11-13)] by blast
  obtain q where q: "pc_decrypt (ic_aead W) (pi_crypto h) d = Inr q" "np_header (tb_slice q) = np_header (tb_slice d)"
    "tb_wf q" "np_ok (tb_slice q)" "np_payload (tb_slice q) = np_payload (tb_slice t1)"
    using decrypt_sent [OF assms(1,2,3,5,6) d] by metis
  have "packet_decompress (ic_lz4 W) (pi_compression h) q = Inr q" by (simp add: assms(10) packet_decompress_def)
  with that [OF q(3-5)] run [OF q(1,2)] show thesis by blast
qed

section \<open>Properties\<close>

text \<open>
  End to end: an IP packet read from the interface and sent without FEC arrives, after at most
  four relays and whatever their states, at the interface of the node whose address is its
  destination, byte for byte, when that node has the same key, and decompresses if the sender compresses; its bytes and
  the head are counted for the sender, and nothing else of the receiver's state changes.
\<close>

lemma tunnel_delivers:
  assumes "aead_correct (oc_aead W)" and "lz4_correct (oc_lz4 W)"
    and "tun_decode cp ip = Inr (Some data)" and "ho_fec_encoder h = None"
    and "ipv4_outbound W net data h = (h', es, r)" and "ToPeer k b \<in> set es \<or> ToServer i b life \<in> set es"
    and "relayed R b n b'" and "tb_wf buf" and "tb_slice buf = b'"
    and "ic_aead W' = oc_aead W" and "ic_lz4 W' = oc_lz4 W" and "pi_crypto h2 = bo_crypto (ho_basic_outbound h)"
    and "pi_compression h2 = None \<longrightarrow> ho_compression h = None" and "nr_network (pi_network_route h2) = Some own"
    and "oc_ipv4_destination W ip = Some (na_ip own)" and "next_hop W net h (na_ip own) = Some (na_ip own)"
    and "na_ip net \<noteq> na_ip own" and "ei_tun_data_inbound (pi_enhanced_inbound h2) = Tun al"
    and "sc_ipv4_destination (ic_sinks W') ip = Some (na_ip own)" and "drop_bit 4 (ip ! 0) = 4"
    and "sc_contains (ic_sinks W') (addr_network own) (na_ip own)" and "sc_accepts (ic_sinks W') (TunData ip)"
  shows "next_handle_impl W' h2 buf key s =
      (s\<lparr>is_traffic := record_rx (na_ip net) (of_nat (HEAD_LENGTH + length ip)) (is_traffic s)\<rparr>,
       [Deliver (TunData ip)], Inr ()) \<and> n \<le> 4"
proof -
  obtain e where e: "e \<in> set es" "e = ToPeer k b \<or> e = ToServer i b life" using assms(6) by blast
  obtain t t1 t2 where t: "tb_wf t" "np_ok (tb_slice t)" "np_header (tb_slice t) = turn_header net (na_ip own)"
      "np_payload (tb_slice t) = ip"
    and c: "packet_compress (oc_lz4 W) (ho_compression h) t (encrypt_reserve (bo_crypto (ho_basic_outbound h))) = Inr t1"
    and x: "pc_encrypt (oc_aead W) (bo_crypto (ho_basic_outbound h)) t1 = Inr t2"
    and path: "path_of (ho_basic_outbound h) (ho_server_info h) (na_ip own) (tb_slice t2) e"
    using sender_packet [OF assms(1,3,4,5) e(1)] assms(15,16) by (metis option.inject)
  have b: "b = tb_slice t2" using path e(2) by (auto simp: path_of_def split: option.splits)
  note p = packed_header [OF assms(1) t(1,2) c x]
  have ttl: "unat (np_ttl b) = 5"
    using turn_header_fields(4) [OF p(5) [unfolded t(3)]] by (simp add: b)
  have b': "b' = (np_decr_ttl ^^ n) b" "n < 5" using relayed_bytes [OF assms(7)] ttl by auto
  obtain q where q: "tb_wf q" "np_ok (tb_slice q)" "np_payload (tb_slice q) = ip"
    and run: "next_handle_impl W' h2 buf key s =
      deliver_part (enhanced_inbound (ic_sinks W') (pi_enhanced_inbound h2) own Turn (na_ip net) q) s"
    using receiver_opens [of W' t net "na_ip own" "ho_compression h" _ t1 h2 t2 buf n own key s] assms(1,2,8-14,17) t c x b b'
    by metis
  obtain content where content: "tb_advance_head q HEAD_LENGTH = Inr content" "tb_slice content = ip"
    using advance_packet [OF q(1,2)] q(3) by metis
  have len: "length (tb_slice q) = HEAD_LENGTH + length ip"
    using q(2,3) by (auto simp: np_payload_def np_ok_def)
  have "ip \<noteq> []" using assms(3) by (auto simp: tun_decode_def)
  then have sink: "checked_sink (ic_sinks W') al TunData ip own = ([TunData ip], Inr ())"
    using assms(19-22) by (simp add: checked_sink_def put_sink_def)
  then have "enhanced_deliver (ic_sinks W') (pi_enhanced_inbound h2) own Turn (na_ip net) content = ([TunData ip], Inr ())"
    using assms(18,19) by (simp add: enhanced_deliver_def content(2) enhanced_tun_inbound_def tun_send_def split: option.splits)
  then have "next_handle_impl W' h2 buf key s =
      (s\<lparr>is_traffic := record_rx (na_ip net) (of_nat (HEAD_LENGTH + length ip)) (is_traffic s)\<rparr>, [Deliver (TunData ip)], Inr ())"
    unfolding run by (simp add: deliver_part_def enhanced_inbound_def then_do_def update_state_def effect_def content(1) len)
  with b'(2) show ?thesis by simp
qed

text \<open>The concrete sender of \<open>Outbound\<close> and the peer it sends to.\<close>

definition demo_in :: "(nat, bytes) in_crates" where
  "demo_in = \<lparr>ic_aead = toy_aead, ic_lz4 = toy_lz4,
     ic_sinks = \<lparr>sc_contains = oc_contains demo_crates, sc_ipv4_destination = oc_ipv4_destination demo_crates, sc_accepts = (\<lambda>_. True)\<rparr>,
     ic_fec_codec = oc_fec_codec demo_crates, ic_rs = \<lparr>rs_new = (\<lambda>_ _. True), rs_encode = (\<lambda>_ _ _. Inl OtherError), rs_reconstruct = (\<lambda>_ _ _. Inl OtherError)\<rparr>,
     ic_now = 0, ic_now_ms = 0, ic_default_rtt = 1000, ic_key_ip = (\<lambda>_. None), ic_socket = (\<lambda>_ _. True), ic_tunnel = (\<lambda>_ _. True)\<rparr>"

definition demo_peer :: "(nat, bytes) P2pInboundHandler" where
  "demo_peer = \<lparr>pi_network_route = \<lparr>nr_network = Some (demo_net\<lparr>na_ip := 0x0A1A0005\<rparr>), nr_subnet_route = []\<rparr>,
     pi_crypto = Some [1], pi_compression = Some lz4_new,
     pi_enhanced_inbound = \<lparr>ei_tun_data_inbound = Tun [], ei_internal_nat_inbound = None\<rparr>\<rparr>"

definition demo_state :: "nat InboundState" where
  "demo_state = \<lparr>is_route_table = rt_new, is_packet_loss = [], is_traffic = [], is_fec_decoder = decoder_new 0\<rparr>"

lemma demo_decoded:
  obtains data where "tun_decode 2048 (demo_ip d) = Inr (Some data)"
  by (simp add: tun_decode_def tb_put_def tb_new_offset_def demo_ip_def DEFAULT_BUF_SIZE_def HEAD_LENGTH_def Let_def)

lemma tunnel_delivers_witness:
  "\<exists>data h' b. tun_decode 2048 (demo_ip 0x0A1A0005) = Inr (Some data) \<and>
     ipv4_outbound demo_crates demo_net data demo_node = (h', [ToPeer 9 b], Inr ()) \<and>
     next_handle_impl demo_in demo_peer (tb_from b) 3 demo_state =
       (demo_state\<lparr>is_traffic := record_rx 0x0A1A0002 36 []\<rparr>, [Deliver (TunData (demo_ip 0x0A1A0005))], Inr ())"
proof -
  let ?ip = "demo_ip 0x0A1A0005" and ?own = "demo_net\<lparr>na_ip := 0x0A1A0005\<rparr>"
  obtain data where data: "tun_decode 2048 ?ip = Inr (Some data)" by (rule demo_decoded)
  note d = tun_decode_data [OF data]
  obtain h' t where run: "ipv4_outbound demo_crates demo_net data demo_node = (h', [ToPeer 9 (tb_slice t)], Inr ())"
    by (rule demo_sends [OF d(1-3)])
  have dest: "oc_ipv4_destination demo_crates ?ip = Some 0x0A1A0005"
    by (simp add: demo_crates_def demo_ip_def) code_simp
  have "next_handle_impl demo_in demo_peer (tb_from (tb_slice t)) 3 demo_state =
      (demo_state\<lparr>is_traffic := record_rx (na_ip demo_net) (of_nat (HEAD_LENGTH + length ?ip)) (is_traffic demo_state)\<rparr>,
       [Deliver (TunData ?ip)], Inr ()) \<and> 0 \<le> (4::nat)"
    by (rule tunnel_delivers [OF _ _ data _ run _ relayed.sent tb_wf_from tb_slice_from, where own = ?own and al = "[]" and k = 9])
      (use dest in \<open>simp_all add: demo_crates_def demo_in_def demo_peer_def demo_node_def toy_aead_correct toy_lz4_correct
         next_hop_def demo_net_def addr_network_def demo_ip_def\<close>)
  then show ?thesis using data run
    by (intro exI conjI) (assumption, assumption, simp add: demo_net_def demo_state_def demo_ip_def HEAD_LENGTH_def)
qed

end
