(* ===== verification/Server_Rpc.thy ===== *)
theory Server_Rpc
  imports Outbound
begin

text \<open>
  \<open>tunnel_core/server/rpc.rs\<close>: calls to a server. A request has a number, a waiter and a oneshot
  channel; a response is matched by its number. The channels of a notifier are numbered in the
  order they are made, the sender half is in \<open>pending_requests\<close>, the receiver half in the
  waiter. A channel is open, holds its value, or is closed because its sender was dropped.
\<close>

record ClientInfo =
  ci_id :: string
  ci_name :: string
  ci_version :: string
  ci_ip :: u32
  ci_key_sign :: "string option"
  ci_online :: bool
  ci_last_connected_time :: int

datatype RpcResPayload = ClientListRes "ClientInfo list" | OtherRes

record RpcMessageResponse =
  rr_id :: u64
  rr_payload :: "RpcResPayload option"

datatype channel = Open | Filled RpcMessageResponse | Closed

record RpcNotifier =
  pending_requests :: "(u64, nat) hashmap"
  rpc_id :: u64
  channels :: "channel list"

record RpcResponseWaiter =
  rw_id :: u64
  rw_channel :: nat

definition rpc_notifier_new :: RpcNotifier where
  "rpc_notifier_new = \<lparr>pending_requests = [], rpc_id = 0, channels = []\<rparr>"

text \<open>Dropping a sender closes its channel, unless it has been used.\<close>

definition drop_sender :: "nat option \<Rightarrow> channel list \<Rightarrow> channel list" where
  "drop_sender c chs = (case c of None \<Rightarrow> chs | Some i \<Rightarrow> if chs ! i = Open then chs[i := Closed] else chs)"

definition create_request_and_waiter :: "RpcNotifier \<Rightarrow> RpcResponseWaiter \<times> RpcNotifier" where
  "create_request_and_waiter n =
     (let i = rpc_id n + 1; c = length (channels n) in
      (\<lparr>rw_id = i, rw_channel = c\<rparr>,
       \<lparr>pending_requests = hm_put i c (pending_requests n), rpc_id = i,
        channels = drop_sender (hm_get (pending_requests n) i) (channels n) @ [Open]\<rparr>))"

definition notify_response :: "RpcMessageResponse \<Rightarrow> RpcNotifier \<Rightarrow> RpcNotifier" where
  "notify_response response n =
     (case hm_get (pending_requests n) (rr_id response) of
        None \<Rightarrow> n
      | Some c \<Rightarrow> n\<lparr>pending_requests := hm_del (rr_id response) (pending_requests n),
                    channels := (channels n)[c := Filled response]\<rparr>)"

text \<open>\<open>Drop for RpcResponseWaiter\<close>: the pending entry of its number goes.\<close>

definition drop_waiter :: "RpcResponseWaiter \<Rightarrow> RpcNotifier \<Rightarrow> RpcNotifier" where
  "drop_waiter w n =
     n\<lparr>pending_requests := hm_del (rw_id w) (pending_requests n),
       channels := drop_sender (hm_get (pending_requests n) (rw_id w)) (channels n)\<rparr>"

text \<open>
  What \<open>wait_for_response\<close> returns, at a poll before or at the timeout: it goes on waiting
  (\<open>None\<close>) while the channel is open and there is time left. The channel is polled before the timer.
\<close>

definition wait_for_response :: "bool \<Rightarrow> RpcResponseWaiter \<Rightarrow> RpcNotifier \<Rightarrow> RpcMessageResponse result option" where
  "wait_for_response timed_out w n =
     (case channels n ! rw_channel w of
        Filled response \<Rightarrow> Some (Inr response)
      | Closed \<Rightarrow> Some (Inl (Bail ''closed connection''))
      | Open \<Rightarrow> if timed_out then Some (Inl (Bail ''timeout waiting for response'')) else None)"

section \<open>The call\<close>

text \<open>The request packet, and what becomes of the response.\<close>

definition rpc_request_packet :: "bytes \<Rightarrow> transmission result" where
  "rpc_request_packet buf =
     rbind (tb_np_new (tb_zeroed (HEAD_LENGTH + length buf))) (\<lambda>packet.
       let packet = tb_map (np_set_msg_type RpcReq) packet;
           packet = tb_map (np_set_gateway_flag True) packet;
           packet = tb_map (np_set_ttl 1) packet in
       rbind (np_set_payload buf (tb_slice packet)) (\<lambda>b. Inr (tb_write packet b)))"

definition client_list_response :: "RpcMessageResponse \<Rightarrow> ClientInfo list result" where
  "client_list_response response =
     (case rr_payload response of
        Some (ClientListRes res) \<Rightarrow> Inr res
      | _ \<Rightarrow> Inl (Bail ''unexpected response''))"

text \<open>The first half of \<open>client_list_target\<close>, to the wait; a failed send drops the waiter.\<close>

definition client_list_request ::
  "('k, 'c) out_crates \<Rightarrow> 'c ServerOutbound \<Rightarrow> ServerInfoCollection \<Rightarrow> u64 codec \<Rightarrow> u32 \<Rightarrow> (u32, RpcNotifier) hashmap \<Rightarrow>
   (RpcResponseWaiter result \<times> 'k event list) \<times> (u32, RpcNotifier) hashmap" where
  "client_list_request W so info c server_id notifiers =
     (case hm_get notifiers server_id of
        None \<Rightarrow> ((Inl (Bail ''no RPC notifier''), []), notifiers)
      | Some n \<Rightarrow>
          (case create_request_and_waiter n of (w, n') \<Rightarrow>
            (case rpc_request_packet (enc c (rw_id w)) of
               Inl e \<Rightarrow> ((Inl e, []), hm_put server_id (drop_waiter w n') notifiers)
             | Inr packet \<Rightarrow>
                 (case send_to_gateway_expired W so info server_id packet (secs 1) of
                    (es, Inl e) \<Rightarrow> ((Inl e, es), hm_put server_id (drop_waiter w n') notifiers)
                  | (es, Inr _) \<Rightarrow> ((Inr w, es), hm_put server_id n' notifiers)))))"

text \<open>\<open>client_list\<close>: the answers of all servers, the first entry of each client; failures are skipped.\<close>

definition client_list_step :: "ClientInfo list result \<Rightarrow> (string, ClientInfo) hashmap \<Rightarrow> (string, ClientInfo) hashmap" where
  "client_list_step r m =
     (case r of
        Inl _ \<Rightarrow> m
      | Inr l \<Rightarrow> fold (\<lambda>c m. if hm_get m (ci_id c) = None then hm_put (ci_id c) c m else m) l m)"

definition client_list :: "ClientInfo list result list \<Rightarrow> ClientInfo list" where
  "client_list answers = map snd (fold client_list_step answers [])"

section \<open>Requests, responses and waiters in any order\<close>

text \<open>A notifier with the waiters alive, after \<open>k\<close> requests.\<close>

inductive rpc_run :: "nat \<Rightarrow> RpcNotifier \<Rightarrow> RpcResponseWaiter list \<Rightarrow> bool" where
  start: "rpc_run 0 rpc_notifier_new []"
| request: "rpc_run k n ws \<Longrightarrow> create_request_and_waiter n = (w, n') \<Longrightarrow> rpc_run (Suc k) n' (w # ws)"
| respond: "rpc_run k n ws \<Longrightarrow> rpc_run k (notify_response r n) ws"
| give_up: "rpc_run k n ws \<Longrightarrow> w \<in> set ws \<Longrightarrow> rpc_run k (drop_waiter w n) (remove1 w ws)"

definition waits_for :: "RpcNotifier \<Rightarrow> RpcResponseWaiter \<Rightarrow> bool" where
  "waits_for n w \<longleftrightarrow> rw_channel w < length (channels n) \<and> unat (rw_id w) \<le> unat (rpc_id n) \<and>
     (case channels n ! rw_channel w of
        Open \<Rightarrow> hm_get (pending_requests n) (rw_id w) = Some (rw_channel w)
      | Filled r \<Rightarrow> rr_id r = rw_id w
      | Closed \<Rightarrow> False)"

definition pending_live :: "RpcNotifier \<Rightarrow> RpcResponseWaiter list \<Rightarrow> bool" where
  "pending_live n ws \<longleftrightarrow> (\<forall>i c. hm_get (pending_requests n) i = Some c \<longrightarrow>
     channels n ! c = Open \<and> \<lparr>rw_id = i, rw_channel = c\<rparr> \<in> set ws)"

definition rpc_inv :: "nat \<Rightarrow> RpcNotifier \<Rightarrow> RpcResponseWaiter list \<Rightarrow> bool" where
  "rpc_inv k n ws \<longleftrightarrow> unat (rpc_id n) = k \<and> hm_ok (pending_requests n) \<and> pending_live n ws \<and>
     (\<forall>w\<in>set ws. waits_for n w) \<and> distinct (map rw_id ws) \<and> distinct (map rw_channel ws)"

lemma rpc_inv_parts:
  assumes "rpc_inv k n ws" and "w \<in> set ws"
  shows "waits_for n w" "rw_channel w < length (channels n)"
    "\<And>w'. w' \<in> set ws \<Longrightarrow> rw_id w' = rw_id w \<longleftrightarrow> w' = w"
    "\<And>w'. w' \<in> set ws \<Longrightarrow> rw_channel w' = rw_channel w \<longleftrightarrow> w' = w"
    "\<And>c. hm_get (pending_requests n) (rw_id w) = Some c \<Longrightarrow> c = rw_channel w \<and> channels n ! c = Open"
proof -
  have d: "inj_on rw_id (set ws)" "inj_on rw_channel (set ws)"
    using assms(1) by (simp_all add: rpc_inv_def distinct_map)
  show "waits_for n w" using assms by (simp add: rpc_inv_def)
  then show "rw_channel w < length (channels n)" by (simp add: waits_for_def)
  show "rw_id w' = rw_id w \<longleftrightarrow> w' = w" "rw_channel w' = rw_channel w \<longleftrightarrow> w' = w" if "w' \<in> set ws" for w'
    using d assms(2) that by (auto simp: inj_on_def)
  show "c = rw_channel w \<and> channels n ! c = Open" if "hm_get (pending_requests n) (rw_id w) = Some c" for c
  proof -
    have "channels n ! c = Open" "\<lparr>rw_id = rw_id w, rw_channel = c\<rparr> \<in> set ws"
      using assms(1) that by (auto simp: rpc_inv_def pending_live_def)
    with d(1) assms(2) have "w = \<lparr>rw_id = rw_id w, rw_channel = c\<rparr>" by (auto simp: inj_on_def)
    then have "rw_channel w = c" by (metis RpcResponseWaiter.select_convs(2))
    with \<open>channels n ! c = Open\<close> show ?thesis by simp
  qed
qed

lemma rpc_inv_request:
  assumes inv: "rpc_inv k n ws" and "create_request_and_waiter n = (w, n')" and "Suc k < 2 ^ 64"
  shows "rpc_inv (Suc k) n' (w # ws)"
proof -
  let ?i = "rpc_id n + 1" and ?c = "length (channels n)"
  have k: "unat (rpc_id n) = k" using inv by (simp add: rpc_inv_def)
  then have i: "unat ?i = Suc k" using assms(3) by (subst unat_word_ariths) simp
  have old: "rw_id w' \<noteq> ?i" "rw_channel w' \<noteq> ?c" if "w' \<in> set ws" for w'
  proof -
    have "unat (rw_id w') \<le> k" "rw_channel w' < ?c"
      using inv that k by (auto simp: rpc_inv_def waits_for_def)
    then show "rw_id w' \<noteq> ?i" "rw_channel w' \<noteq> ?c" using i by (metis Suc_n_not_le_n, simp)
  qed
  have fresh: "hm_get (pending_requests n) ?i = None"
  proof (rule ccontr)
    assume "hm_get (pending_requests n) ?i \<noteq> None"
    then obtain c where "\<lparr>rw_id = ?i, rw_channel = c\<rparr> \<in> set ws"
      using inv by (auto simp: rpc_inv_def pending_live_def)
    from old(1) [OF this] show False by simp
  qed
  have new: "w = \<lparr>rw_id = ?i, rw_channel = ?c\<rparr>"
    "n' = \<lparr>pending_requests = hm_put ?i ?c (pending_requests n), rpc_id = ?i, channels = channels n @ [Open]\<rparr>"
    using assms(2) fresh by (simp_all add: create_request_and_waiter_def drop_sender_def Let_def)
  have others: "\<forall>w'\<in>set ws. waits_for n' w'"
  proof
    fix w'
    assume that: "w' \<in> set ws"
    have get: "hm_get (pending_requests n') (rw_id w') = hm_get (pending_requests n) (rw_id w')"
      using old(1) [OF that] by (simp add: new(2) hm_get_put)
    have ch: "channels n' ! rw_channel w' = channels n ! rw_channel w'" "rw_channel w' < length (channels n')"
      using rpc_inv_parts(2) [OF inv that] by (simp_all add: new(2) nth_append)
    have "unat (rpc_id n) \<le> unat (rpc_id n')" unfolding new(2) RpcNotifier.select_convs i k by simp
    then have "unat (rw_id w') \<le> unat (rpc_id n')"
      using rpc_inv_parts(1) [OF inv that] unfolding waits_for_def by (blast intro: order_trans)
    then show "waits_for n' w'"
      using rpc_inv_parts(1) [OF inv that] unfolding waits_for_def get ch(1) by (intro conjI ch(2)) simp_all
  qed
  have live: "pending_live n' (w # ws)"
    unfolding pending_live_def
  proof (intro allI impI)
    fix j c
    assume j: "hm_get (pending_requests n') j = Some c"
    show "channels n' ! c = Open \<and> \<lparr>rw_id = j, rw_channel = c\<rparr> \<in> set (w # ws)"
    proof (cases "j = ?i")
      case True
      then show ?thesis using j by (auto simp: new hm_get_put nth_append)
    next
      case False
      then have "channels n ! c = Open" and m: "\<lparr>rw_id = j, rw_channel = c\<rparr> \<in> set ws"
        using inv j by (auto simp: rpc_inv_def pending_live_def new hm_get_put)
      moreover have "c < ?c" using rpc_inv_parts(2) [OF inv m] by simp
      ultimately show ?thesis by (simp add: new nth_append)
    qed
  qed
  have own: "waits_for n' w" by (simp add: waits_for_def new hm_get_put)
  have "rw_id w \<notin> rw_id ` set ws" "rw_channel w \<notin> rw_channel ` set ws"
    unfolding new(1) RpcResponseWaiter.select_convs by (metis imageE old(1), metis imageE old(2))
  then have "distinct (map rw_id (w # ws))" "distinct (map rw_channel (w # ws))"
    using inv by (simp_all add: rpc_inv_def)
  moreover have "hm_ok (pending_requests n')" using inv by (simp add: rpc_inv_def new(2) distinct_update)
  moreover have "unat (rpc_id n') = Suc k" using i by (simp add: new(2))
  ultimately show ?thesis unfolding rpc_inv_def using others own live by simp
qed

text \<open>A response or a waiter that gives up changes one channel, and removes the entry of its number.\<close>

lemma rpc_inv_close:
  assumes inv: "rpc_inv k n ws" and w: "w \<in> set ws" and sub: "set ws' \<subseteq> set ws"
    and d: "distinct (map rw_id ws')" "distinct (map rw_channel ws')"
    and keep: "set ws - {w} \<subseteq> set ws'"
    and v: "w \<in> set ws' \<Longrightarrow> \<exists>r. v = Filled r \<and> rr_id r = rw_id w"
    and n': "n' = n\<lparr>pending_requests := hm_del (rw_id w) (pending_requests n), channels := (channels n)[rw_channel w := v]\<rparr>"
  shows "rpc_inv k n' ws'"
proof -
  have "waits_for n' w'" if "w' \<in> set ws'" for w'
  proof (cases "w' = w")
    case True
    with v that rpc_inv_parts(1) [OF inv w] show ?thesis by (auto simp: waits_for_def n')
  next
    case False
    have "w' \<in> set ws" using that sub by auto
    with False rpc_inv_parts(1) [OF inv this] rpc_inv_parts(3,4) [OF inv w this] show ?thesis
      by (auto simp: waits_for_def n' hm_get_del split: channel.splits)
  qed
  moreover have "pending_live n' ws'"
    unfolding pending_live_def
  proof (intro allI impI)
    fix i c
    assume "hm_get (pending_requests n') i = Some c"
    then have i: "i \<noteq> rw_id w" "hm_get (pending_requests n) i = Some c" by (auto simp: n' hm_get_del split: if_splits)
    then have o: "channels n ! c = Open" and m: "\<lparr>rw_id = i, rw_channel = c\<rparr> \<in> set ws"
      using inv by (auto simp: rpc_inv_def pending_live_def)
    have "c \<noteq> rw_channel w" using rpc_inv_parts(4) [OF inv w m] i(1) by auto
    moreover have "\<lparr>rw_id = i, rw_channel = c\<rparr> \<in> set ws'" using m keep i(1) by auto
    ultimately show "channels n' ! c = Open \<and> \<lparr>rw_id = i, rw_channel = c\<rparr> \<in> set ws'"
      using o by (simp add: n')
  qed
  ultimately show ?thesis using inv d by (simp add: rpc_inv_def n' distinct_delete)
qed

lemma notify_unknown: "hm_get (pending_requests n) (rr_id r) = None \<Longrightarrow> notify_response r n = n"
  by (simp add: notify_response_def)

lemma notify_known:
  assumes "rpc_inv k n ws" and "hm_get (pending_requests n) (rr_id r) = Some c"
  shows "\<exists>w\<in>set ws. rw_id w = rr_id r \<and> rw_channel w = c \<and> notify_response r n =
    n\<lparr>pending_requests := hm_del (rw_id w) (pending_requests n), channels := (channels n)[rw_channel w := Filled r]\<rparr>"
  using assms by (intro bexI [of _ "\<lparr>rw_id = rr_id r, rw_channel = c\<rparr>"])
    (auto simp: rpc_inv_def pending_live_def notify_response_def)

lemma rpc_inv_respond:
  assumes "rpc_inv k n ws"
  shows "rpc_inv k (notify_response r n) ws"
proof (cases "hm_get (pending_requests n) (rr_id r)")
  case None
  with assms show ?thesis by (simp add: notify_unknown)
next
  case (Some c)
  from notify_known [OF assms Some] obtain w where w: "w \<in> set ws" "rw_id w = rr_id r"
    "notify_response r n = n\<lparr>pending_requests := hm_del (rw_id w) (pending_requests n), channels := (channels n)[rw_channel w := Filled r]\<rparr>"
    by blast
  show ?thesis
    by (rule rpc_inv_close [OF assms w(1) subset_refl _ _ _ _ w(3)]) (use assms w(2) in \<open>auto simp: rpc_inv_def\<close>)
qed

lemma rpc_inv_give_up:
  assumes inv: "rpc_inv k n ws" and w: "w \<in> set ws"
  shows "rpc_inv k (drop_waiter w n) (remove1 w ws)"
proof -
  have d: "distinct ws" "distinct (map rw_id (remove1 w ws))" "distinct (map rw_channel (remove1 w ws))"
    using inv by (auto simp: rpc_inv_def distinct_map intro: inj_on_subset)
  have "\<exists>v. drop_waiter w n = n\<lparr>pending_requests := hm_del (rw_id w) (pending_requests n), channels := (channels n)[rw_channel w := v]\<rparr>"
  proof (cases "hm_get (pending_requests n) (rw_id w)")
    case None
    then show ?thesis by (intro exI [of _ "channels n ! rw_channel w"]) (simp add: drop_waiter_def drop_sender_def)
  next
    case (Some c)
    with rpc_inv_parts(5) [OF inv w] show ?thesis
      by (intro exI [of _ Closed]) (auto simp: drop_waiter_def drop_sender_def)
  qed
  then obtain v where v: "drop_waiter w n = n\<lparr>pending_requests := hm_del (rw_id w) (pending_requests n), channels := (channels n)[rw_channel w := v]\<rparr>" ..
  show ?thesis
    by (rule rpc_inv_close [OF inv w _ d(2,3) _ _ v]) (use d(1) in auto)
qed

lemma rpc_run_inv: "rpc_run k n ws \<Longrightarrow> k < 2 ^ 64 \<Longrightarrow> rpc_inv k n ws"
proof (induction rule: rpc_run.induct)
  case start
  show ?case by (simp add: rpc_inv_def pending_live_def rpc_notifier_new_def)
next
  case (request k n ws w n')
  then show ?case using rpc_inv_request [OF _ request.hyps(2) request.prems] by simp
qed (auto intro: rpc_inv_respond rpc_inv_give_up)

lemma wait_other_channel:
  "rw_channel w \<noteq> c \<Longrightarrow> wait_for_response t w (n\<lparr>pending_requests := p, channels := (channels n)[c := v]\<rparr>) = wait_for_response t w n"
  by (simp add: wait_for_response_def)

lemma pending_bounded:
  assumes inv: "rpc_inv k n ws"
  shows "length (pending_requests n) \<le> length ws"
proof -
  have "set (map fst (pending_requests n)) \<subseteq> set (map rw_id ws)"
  proof
    fix i
    assume "i \<in> set (map fst (pending_requests n))"
    then obtain c where "hm_get (pending_requests n) i = Some c" by (metis list.set_map map_of_eq_None_iff not_Some_eq)
    then have "\<lparr>rw_id = i, rw_channel = c\<rparr> \<in> set ws" using inv by (auto simp: rpc_inv_def pending_live_def)
    then show "i \<in> set (map rw_id ws)" by force
  qed
  then have "card (set (map fst (pending_requests n))) \<le> card (set (map rw_id ws))" by (intro card_mono) simp_all
  also have "\<dots> \<le> length ws" using card_length [of "map rw_id ws"] by simp
  finally show ?thesis
    using inv by (simp add: rpc_inv_def distinct_card del: set_map)
qed

text \<open>
  C23. However requests, responses, unsolicited or repeated ones included, and waiters that give up
  interleave, before 2^64 requests have been made: a live waiter is never told that the connection
  is closed, and what it receives carries its own number; a response reaches the waiter of its
  number if that one has no answer yet, changes nothing for a waiter that has, and nothing for any
  other; no entry of the table outlives its waiter.
\<close>

theorem rpc_answers_matched:
  assumes "rpc_run k n ws" and "k < 2 ^ 64" and "w \<in> set ws"
  shows "wait_for_response t w n \<noteq> Some (Inl (Bail ''closed connection''))
    \<and> (\<forall>r. wait_for_response t w n = Some (Inr r) \<longrightarrow> rr_id r = rw_id w)
    \<and> (\<forall>r. wait_for_response t w (notify_response r n) =
          (if rr_id r = rw_id w \<and> wait_for_response False w n = None then Some (Inr r) else wait_for_response t w n))
    \<and> length (pending_requests n) \<le> length ws"
proof (intro conjI allI)
  note inv = rpc_run_inv [OF assms(1,2)]
  note parts = rpc_inv_parts [OF inv assms(3)]
  show "wait_for_response t w n \<noteq> Some (Inl (Bail ''closed connection''))"
    using parts(1) by (auto simp: wait_for_response_def waits_for_def split: channel.splits)
  show "wait_for_response t w n = Some (Inr r) \<longrightarrow> rr_id r = rw_id w" for r
    using parts(1) by (auto simp: wait_for_response_def waits_for_def split: channel.splits if_splits)
  show "wait_for_response t w (notify_response r n) =
      (if rr_id r = rw_id w \<and> wait_for_response False w n = None then Some (Inr r) else wait_for_response t w n)" for r
  proof (cases "hm_get (pending_requests n) (rr_id r)")
    case None
    then show ?thesis using parts(1)
      by (auto simp: notify_unknown wait_for_response_def waits_for_def split: channel.splits)
  next
    case (Some c)
    from notify_known [OF inv Some] obtain w' where w': "w' \<in> set ws" "rw_id w' = rr_id r" "rw_channel w' = c"
      "notify_response r n = n\<lparr>pending_requests := hm_del (rw_id w') (pending_requests n), channels := (channels n)[rw_channel w' := Filled r]\<rparr>"
      by blast
    show ?thesis
    proof (cases "w' = w")
      case True
      then have id: "rr_id r = rw_id w" using w'(2) by simp
      with Some parts(5) [of c] have "channels n ! rw_channel w = Open" by auto
      with True id w'(4) parts(2) show ?thesis by (simp add: wait_for_response_def)
    next
      case False
      then show ?thesis using w' parts(3,4) [OF w'(1)] wait_other_channel [of w "rw_channel w'" t n] by auto
    qed
  qed
  show "length (pending_requests n) \<le> length ws" using inv by (rule pending_bounded)
qed

text \<open>Two requests; the second is answered twice, an answer to an unknown number comes too.\<close>

theorem rpc_answers_matched_witness:
  "let (w1, n1) = create_request_and_waiter rpc_notifier_new; (w2, n2) = create_request_and_waiter n1;
       n = notify_response \<lparr>rr_id = 2, rr_payload = None\<rparr> (notify_response \<lparr>rr_id = 7, rr_payload = None\<rparr> n2) in
   rw_id w1 = 1 \<and> rw_id w2 = 2 \<and> wait_for_response True w2 n = Some (Inr \<lparr>rr_id = 2, rr_payload = None\<rparr>) \<and>
   wait_for_response False w1 n = None \<and>
   wait_for_response False w1 (notify_response \<lparr>rr_id = 1, rr_payload = Some OtherRes\<rparr> n) =
     Some (Inr \<lparr>rr_id = 1, rr_payload = Some OtherRes\<rparr>)"
proof -
  define c1 where "c1 = create_request_and_waiter rpc_notifier_new"
  define c2 where "c2 = create_request_and_waiter (snd c1)"
  define n where "n = notify_response \<lparr>rr_id = 2, rr_payload = None\<rparr> (notify_response \<lparr>rr_id = 7, rr_payload = None\<rparr> (snd c2))"
  have "rpc_run (Suc 0) (snd c1) [fst c1]" unfolding c1_def by (rule request [OF start]) simp
  then have "rpc_run (Suc (Suc 0)) (snd c2) [fst c2, fst c1]" unfolding c2_def by (rule request) simp
  then have run: "rpc_run (Suc (Suc 0)) n [fst c2, fst c1]" unfolding n_def by (intro respond)
  have open1: "wait_for_response False (fst c1) n = None"
    by (simp add: n_def c1_def c2_def create_request_and_waiter_def rpc_notifier_new_def Let_def drop_sender_def
        notify_response_def wait_for_response_def)
  have id1: "rw_id (fst c1) = 1" by (simp add: c1_def create_request_and_waiter_def rpc_notifier_new_def Let_def)
  have "wait_for_response False (fst c1) (notify_response \<lparr>rr_id = 1, rr_payload = Some OtherRes\<rparr> n) =
     Some (Inr \<lparr>rr_id = 1, rr_payload = Some OtherRes\<rparr>)"
    using rpc_answers_matched [OF run, of "fst c1" False] open1 id1 by simp
  moreover have "rw_id (fst c2) = 2 \<and> wait_for_response True (fst c2) n = Some (Inr \<lparr>rr_id = 2, rr_payload = None\<rparr>)"
    by (simp add: n_def c1_def c2_def create_request_and_waiter_def rpc_notifier_new_def Let_def drop_sender_def
        notify_response_def wait_for_response_def)
  ultimately show ?thesis using open1 id1
    by (simp add: case_prod_unfold c1_def [symmetric] c2_def [symmetric] n_def [symmetric])
qed

section \<open>The merged client list\<close>

lemma client_list_step_get:
  "hm_get (client_list_step r m) i =
     (case hm_get m i of Some c \<Rightarrow> Some c
      | None \<Rightarrow> (case r of Inl _ \<Rightarrow> None | Inr l \<Rightarrow> List.find (\<lambda>c. ci_id c = i) l))"
proof (cases r)
  case (Inr l)
  have "hm_get (fold (\<lambda>c m. if hm_get m (ci_id c) = None then hm_put (ci_id c) c m else m) l m) i =
     (case hm_get m i of Some c \<Rightarrow> Some c | None \<Rightarrow> List.find (\<lambda>c. ci_id c = i) l)"
    by (induction l arbitrary: m) (auto simp: hm_get_put split: option.splits)
  then show ?thesis by (simp only: client_list_step_def Inr sum.case)
qed (simp add: client_list_step_def split: option.splits)

end
