(* ===== verification/Server_Inbound.thy ===== *)
theory Server_Inbound
  imports Tunnel Server_Rpc
begin

text \<open>
  \<open>tunnel_core/server/inbound.rs\<close>: what a node does with a packet that a server delivers, be it
  from the server itself (gateway flag) or relayed from another client; and
  \<open>tunnel_core/p2p/transport/punch.rs\<close>, the two sides of starting a hole punch.

  The crates are an argument (\<open>srv_crates\<close>): \<open>vc_ipv4\<close> is \<open>pnet\<close>'s IPv4 parser, giving version,
  next protocol and payload, \<open>vc_icmp_type\<close> its ICMP parser, \<open>vc_transport\<close> whether the connection
  to the server takes a message. Starting a punch is an effect: \<open>SpawnPunch\<close> names the delay in
  nanoseconds, this node, the peer and what the peer advertised.
\<close>

section \<open>State and effects\<close>

record 'c srv_crates =
  vc_aead :: "'c aead"
  vc_lz4 :: lz4
  vc_sinks :: sink_crates
  vc_fec_codec :: "FecPacket codec"
  vc_rs :: reed_solomon
  vc_now :: instant
  vc_now_ms :: int
  vc_ipv4 :: "bytes \<Rightarrow> (u8 \<times> u8 \<times> bytes) option"
  vc_icmp_type :: "bytes \<Rightarrow> u8 option"
  vc_list_codec :: "PClientSimpleInfoList codec"
  vc_punch_codec :: "PNatInfo option codec"
  vc_rpc_codec :: "RpcMessageResponse codec"
  vc_transport :: "bytes \<Rightarrow> bool"

datatype srv_event =
    SrvSend bytes
  | SrvDeliver delivery
  | SpawnPunch nat ipv4 ipv4 NatInfo

record SrvState =
  vs_server_info :: ServerInfoCollection
  vs_nat_info :: MyNatInfo
  vs_peer_map :: PeerInfoMap
  vs_punch_backoff :: PunchBackoff
  vs_traffic :: TrafficStats
  vs_fec_decoder :: FecDecoder
  vs_rpc :: RpcNotifier

record 'c ServerTurnInboundHandler =
  vh_server_id :: u32
  vh_network_addr :: "NetworkAddr option"
  vh_network_route :: NetworkRoute
  vh_puncher :: bool
  vh_crypto :: "'c option"
  vh_compression :: "LZ4Compression option"
  vh_enhanced_inbound :: EnhancedInbound

definition srv_deliver ::
  "'c srv_crates \<Rightarrow> 'c ServerTurnInboundHandler \<Rightarrow> NetworkAddr \<Rightarrow> MsgType \<Rightarrow> ipv4 \<Rightarrow> transmission \<Rightarrow> (SrvState, srv_event) action" where
  "srv_deliver W h net msg_type src p s =
     (case enhanced_inbound (vc_sinks W) (vh_enhanced_inbound h) net msg_type src p (vs_traffic s) of
        (t, es, r) \<Rightarrow> (s\<lparr>vs_traffic := t\<rparr>, map SrvDeliver es, r))"

definition change_info :: "(ServerInfoCollection \<Rightarrow> ServerInfoCollection) \<Rightarrow> (SrvState, srv_event) action" where
  "change_info f = update_state (\<lambda>s. s\<lparr>vs_server_info := f (vs_server_info s)\<rparr>)"

definition update_peer_nat_info :: "ipv4 \<Rightarrow> NatInfo \<Rightarrow> (SrvState, srv_event) action" where
  "update_peer_nat_info ip n = update_state (\<lambda>s. s\<lparr>vs_peer_map := update_nat_info ip n (vs_peer_map s)\<rparr>)"

definition transport_send :: "'c srv_crates \<Rightarrow> bytes \<Rightarrow> srv_event effects" where
  "transport_send W b = (if vc_transport W b then ([SrvSend b], Inr ()) else no_send (Inl OtherError))"

definition send_turn :: "'c srv_crates \<Rightarrow> transmission \<Rightarrow> srv_event effects" where
  "send_turn W p = after (tb_np_into_bytes p) (transport_send W)"

definition srv_fec_do ::
  "'c srv_crates \<Rightarrow> bytes \<Rightarrow> (bytes list option \<Rightarrow> (SrvState, srv_event) action) \<Rightarrow> (SrvState, srv_event) action" where
  "srv_fec_do W pkt f s =
     (case fec_receive (vc_fec_codec W) (vc_rs W) (vc_now W) pkt (vs_fec_decoder s) of
        (d, r) \<Rightarrow> try_do r f (s\<lparr>vs_fec_decoder := d\<rparr>))"

text \<open>An error that is logged and dropped; a panic is no error value and goes on.\<close>

definition logged :: "'a result \<Rightarrow> ('a \<Rightarrow> ('s, 'e) action) \<Rightarrow> ('s, 'e) action" where
  "logged r f = (case r of Inl e \<Rightarrow> if e = Panic then failing Panic else done_ok | Inr x \<Rightarrow> f x)"

section \<open>Hole punching\<close>

text \<open>\<open>NatPuncher\<close>: \<open>vh_puncher\<close> says whether there is a puncher at all.\<close>

definition punch_uncheck_delay ::
  "'c ServerTurnInboundHandler \<Rightarrow> ipv4 \<Rightarrow> NatInfo \<Rightarrow> nat \<Rightarrow> (SrvState, srv_event) action" where
  "punch_uncheck_delay h dest_ip punch_info delay =
     (if \<not> vh_puncher h then done_ok
      else case shared_ip (nr_network (vh_network_route h)) of
        None \<Rightarrow> failing (Bail ''not ip'')
      | Some src_ip \<Rightarrow> effect ([SpawnPunch delay src_ip dest_ip punch_info], Inr ()))"

definition punch_uncheck :: "'c ServerTurnInboundHandler \<Rightarrow> ipv4 \<Rightarrow> NatInfo \<Rightarrow> (SrvState, srv_event) action" where
  "punch_uncheck h dest_ip punch_info = punch_uncheck_delay h dest_ip punch_info 0"

text \<open>\<open>punch\<close>, with what follows when it says that it has started (\<open>yes\<close>) or not (\<open>no\<close>).\<close>

definition punch ::
  "'c srv_crates \<Rightarrow> 'c ServerTurnInboundHandler \<Rightarrow> ipv4 \<Rightarrow> NatInfo \<Rightarrow> (SrvState, srv_event) action \<Rightarrow>
   (SrvState, srv_event) action \<Rightarrow> (SrvState, srv_event) action" where
  "punch W h dest_ip punch_info yes no s =
     (if \<not> vh_puncher h then no s
      else if \<not> should_punch (vc_now_ms W) (vs_punch_backoff s) dest_ip then no s
      else then_do (punch_uncheck_delay h dest_ip punch_info (millis 50)) yes s)"

text \<open>The datagram \<open>punch_now\<close> throws at every address of the peer.\<close>

definition punch_now_packet :: "'c aead \<Rightarrow> 'c option \<Rightarrow> ipv4 \<Rightarrow> ipv4 \<Rightarrow> u64 \<Rightarrow> bytes result" where
  "punch_now_packet A pc src_ip dest_ip now_ms =
     rbind (tb_np_new (tb_zeroed_size (HEAD_LENGTH + 8) (encrypt_reserve pc))) (\<lambda>packet.
       let packet = tb_map (np_set_msg_type PunchReq) packet;
           packet = tb_map (np_set_ttl 1) packet;
           packet = tb_map (np_set_src_id src_ip) packet;
           packet = tb_map (np_set_dest_id dest_ip) packet in
       rbind (np_set_payload (be64 now_ms) (tb_slice packet)) (\<lambda>b.
       rbind (pc_encrypt A pc (tb_write packet b)) (\<lambda>packet. Inr (tb_slice packet))))"

section \<open>Data of the server itself\<close>

definition icmp_protocol :: u8 where "icmp_protocol = 1"
definition icmp_echo_reply :: u8 where "icmp_echo_reply = 0"

definition is_echo_reply :: "'c srv_crates \<Rightarrow> bytes \<Rightarrow> bool" where
  "is_echo_reply W payload \<longleftrightarrow>
     (case vc_ipv4 W payload of
        None \<Rightarrow> False
      | Some (version, protocol, content) \<Rightarrow>
          version = 4 \<and> protocol = icmp_protocol \<and> vc_icmp_type W content = Some icmp_echo_reply)"

text \<open>\<open>(now - time) as u32\<close>, of readings of the same clock.\<close>

definition handle_server_data ::
  "'c srv_crates \<Rightarrow> 'c ServerTurnInboundHandler \<Rightarrow> NetworkAddr \<Rightarrow> transmission \<Rightarrow> int \<Rightarrow> (SrvState, srv_event) action" where
  "handle_server_data W h net data now =
     try_do (tb_np_new data) (\<lambda>net_packet.
     let src = np_src_id (tb_slice net_packet) in
     try_do (np_msg_type (tb_slice net_packet)) (\<lambda>msg_type.
     try_do (packet_decompress (vc_lz4 W) (vh_compression h) net_packet) (\<lambda>net_packet.
     let payload = np_payload (tb_slice net_packet) in
     case msg_type of
       Turn \<Rightarrow> if is_echo_reply W payload then srv_deliver W h net msg_type src net_packet else done_ok
     | Ping \<Rightarrow>
         let net_packet = tb_map (np_set_ttl 2) net_packet;
             net_packet = tb_map (np_set_msg_type Pong) net_packet;
             net_packet = tb_map (np_set_src_id (na_ip net)) net_packet;
             net_packet = tb_map (np_set_dest_id src) net_packet in
         effect (send_turn W net_packet)
     | PongTurn \<Rightarrow>
         if length payload = 8 + 8 \<and> now \<ge> ping_time payload
         then change_info (set_server_rtt (vh_server_id h) (word_of_int (now - ping_time payload)))
         else done_ok
     | PushClientIps \<Rightarrow>
         try_do (client_list_from_slice (vc_list_codec W) payload) (\<lambda>list.
           change_info (update_client_simple_list (vh_server_id h) (na_ip net) list now))
     | RpcRes \<Rightarrow>
         try_do (ok_or InvalidData (dec (vc_rpc_codec W) payload)) (\<lambda>response.
           update_state (\<lambda>s. s\<lparr>vs_rpc := notify_response response (vs_rpc s)\<rparr>))
     | _ \<Rightarrow> done_ok)))"

section \<open>Data of other clients\<close>

definition srv_filter_ip :: "'c srv_crates \<Rightarrow> 'c ServerTurnInboundHandler \<Rightarrow> NatInfo \<Rightarrow> NatInfo" where
  "srv_filter_ip W h = filter_ip_by (route_network_contains (sc_contains (vc_sinks W)) (vh_network_route h))"

definition srv_get_punch_info :: "'c srv_crates \<Rightarrow> 'c ServerTurnInboundHandler \<Rightarrow> SrvState \<Rightarrow> NatInfo option" where
  "srv_get_punch_info W h s = map_option (srv_filter_ip W h) (vs_nat_info s)"

definition punch_start2_packet ::
  "'c srv_crates \<Rightarrow> 'c option \<Rightarrow> ipv4 \<Rightarrow> ipv4 \<Rightarrow> NatInfo \<Rightarrow> transmission result" where
  "punch_start2_packet W pc src dest self_punch_info =
     (let bytes_mut = punch_info_encode (vc_punch_codec W) self_punch_info in
      rbind (tb_np_new (tb_zeroed_size (HEAD_LENGTH + length bytes_mut) (encrypt_reserve pc))) (\<lambda>packet.
        let packet = tb_map (np_set_msg_type PunchStart2) packet;
            packet = tb_map (np_set_ttl 2) packet;
            packet = tb_map (np_set_src_id dest) packet;
            packet = tb_map (np_set_dest_id src) packet in
        rbind (np_set_payload bytes_mut (tb_slice packet)) (\<lambda>b.
        pc_encrypt (vc_aead W) pc (tb_write packet b))))"

definition srv_process ::
  "'c srv_crates \<Rightarrow> 'c ServerTurnInboundHandler \<Rightarrow> NetworkAddr \<Rightarrow> transmission \<Rightarrow> MsgType \<Rightarrow> ipv4 \<Rightarrow> ipv4 \<Rightarrow>
   (SrvState, srv_event) action" where
  "srv_process W h net net_packet msg_type src dest =
     (let payload = np_payload (tb_slice net_packet) in
      case msg_type of
        Turn \<Rightarrow> srv_deliver W h net msg_type src net_packet
      | Broadcast \<Rightarrow> srv_deliver W h net msg_type src net_packet
      | PunchStart1 \<Rightarrow>
          try_do (punch_info_from_slice (vc_punch_codec W) payload) (\<lambda>peer_punch_info s.
            case srv_get_punch_info W h s of
              None \<Rightarrow> done_ok s
            | Some self_punch_info \<Rightarrow>
                then_do (update_peer_nat_info src peer_punch_info)
                  (punch W h src peer_punch_info
                    (try_do (punch_start2_packet W (vh_crypto h) src dest self_punch_info) (\<lambda>p. effect (send_turn W p)))
                    done_ok) s)
      | PunchStart2 \<Rightarrow>
          then_do (update_state (\<lambda>s. s\<lparr>vs_punch_backoff := punch_record (vc_now_ms W) src (vs_punch_backoff s)\<rparr>))
            (try_do (punch_info_from_slice (vc_punch_codec W) payload) (\<lambda>peer_punch_info.
              then_do (update_peer_nat_info src peer_punch_info) (punch_uncheck h src peer_punch_info)))
      | _ \<Rightarrow> done_ok)"

definition handle_client_data ::
  "'c srv_crates \<Rightarrow> 'c ServerTurnInboundHandler \<Rightarrow> NetworkAddr \<Rightarrow> transmission \<Rightarrow> (SrvState, srv_event) action" where
  "handle_client_data W h net data =
     try_do (tb_np_new data) (\<lambda>net_packet.
     try_do (np_msg_type (tb_slice net_packet)) (\<lambda>msg_type.
     let src = np_src_id (tb_slice net_packet); dest = np_dest_id (tb_slice net_packet);
         deliver = srv_deliver W h net msg_type src in
     if msg_type = Quic then
       (if np_is_fec (tb_slice net_packet)
        then srv_fec_do W (tb_slice net_packet) (\<lambda>packets. for_each (deliver \<circ> tb_from) (get_or_empty packets))
        else deliver net_packet)
     else
       logged (pc_decrypt (vc_aead W) (vh_crypto h) net_packet) (\<lambda>net_packet.
         let process = (\<lambda>p. try_do (packet_decompress (vc_lz4 W) (vh_compression h) p)
               (\<lambda>p. srv_process W h net p msg_type src dest)) in
         if np_is_fec (tb_slice net_packet)
         then srv_fec_do W (tb_slice net_packet) (\<lambda>packets. for_each (process \<circ> tb_from) (get_or_empty packets))
         else process net_packet)))"

section \<open>The handler\<close>

definition srv_handle ::
  "'c srv_crates \<Rightarrow> 'c ServerTurnInboundHandler \<Rightarrow> transmission \<Rightarrow> int \<Rightarrow> (SrvState, srv_event) action" where
  "srv_handle W h data now =
     try_do (tb_np_new data) (\<lambda>net_packet.
     try_do (ok_or (Bail ''no own ip'') (vh_network_addr h)) (\<lambda>network_addr.
       if np_is_gateway (tb_slice net_packet) then handle_server_data W h network_addr data now
       else
         let dest = np_dest_id (tb_slice net_packet) in
         if \<not> is_broadcast dest \<and> \<not> is_unspecified dest \<and> na_ip network_addr \<noteq> dest then done_ok
         else handle_client_data W h network_addr data))"

text \<open>The ping of the server, with the version of the client list this node has.\<close>

definition handle_ping :: "'c srv_crates \<Rightarrow> 'c ServerTurnInboundHandler \<Rightarrow> int \<Rightarrow> (SrvState, srv_event) action" where
  "handle_ping W h now s =
     try_do (tb_np_new (tb_zeroed (HEAD_LENGTH + 8 + 8))) (\<lambda>packet.
       let packet = tb_map (np_set_ttl 1) packet;
           packet = tb_map (np_set_msg_type PingTurn) packet;
           packet = tb_map (np_set_gateway_flag True) packet in
       try_do (np_set_payload (be64 (word_of_int now)) (tb_slice packet)) (\<lambda>b.
         let packet = tb_write packet b;
             packet = tb_map (splice HEAD_LENGTH (be64 (word_of_int now))) packet;
             packet = tb_map (splice (HEAD_LENGTH + 8) (be64 (data_version (vs_server_info s) (vh_server_id h)))) packet in
         effect (send_turn W packet))) s"

definition handle_connected :: "'c srv_crates \<Rightarrow> 'c ServerTurnInboundHandler \<Rightarrow> (SrvState, srv_event) action" where
  "handle_connected W h = change_info (\<lambda>info.
     set_disconnected_time (vh_server_id h) None
       (set_last_connected_time (vh_server_id h) (Some (vc_now_ms W))
         (snd (set_server_connected (vh_server_id h) True info))))"

definition handle_disconnected :: "'c srv_crates \<Rightarrow> 'c ServerTurnInboundHandler \<Rightarrow> (SrvState, srv_event) action" where
  "handle_disconnected W h = change_info (\<lambda>info.
     (case set_server_connected (vh_server_id h) False info of
        (was, info) \<Rightarrow> if was then set_disconnected_time (vh_server_id h) (Some (vc_now_ms W)) info else info))"

section \<open>Starting punches\<close>

text \<open>
  One round of \<open>punch_task\<close>, every five seconds: \<open>shuffled\<close> is the shuffled list of online peers.
  A packet that cannot be built ends the task, a failed send does not. The tables are those at the
  beginning of the round.
\<close>

definition punch_start1_packet ::
  "PNatInfo option codec \<Rightarrow> nat \<Rightarrow> ipv4 \<Rightarrow> ipv4 \<Rightarrow> NatInfo \<Rightarrow> transmission result" where
  "punch_start1_packet c reserve src_ip dest_ip punch_info =
     (let data = punch_info_encode c punch_info in
      rbind (tb_np_new (tb_zeroed_size (HEAD_LENGTH + length data) reserve)) (\<lambda>packet.
        let packet = tb_map (np_set_msg_type PunchStart1) packet;
            packet = tb_map (np_set_ttl 2) packet;
            packet = tb_map (np_set_src_id src_ip) packet;
            packet = tb_map (np_set_dest_id dest_ip) packet in
        rbind (np_set_payload data (tb_slice packet)) (\<lambda>b. Inr (tb_write packet b))))"

definition punch_candidate :: "'k AppState \<Rightarrow> int \<Rightarrow> ipv4 \<Rightarrow> ipv4 \<Rightarrow> bool" where
  "punch_candidate s now src_ip dest_ip \<longleftrightarrow>
     dest_ip > src_ip \<and> is_any_server_connected (as_server_info s) None \<and>
     need_punch (as_route_table s) dest_ip \<and> should_punch now (as_punch_backoff s) dest_ip"

fun punch_round_loop ::
  "('k, 'c) out_crates \<Rightarrow> 'c ServerOutbound \<Rightarrow> PNatInfo option codec \<Rightarrow> 'k AppState \<Rightarrow> int \<Rightarrow> ipv4 \<Rightarrow> NatInfo \<Rightarrow>
   ipv4 list \<Rightarrow> 'k sends" where
  "punch_round_loop W so c s now src_ip info [] = no_send (Inr ())"
| "punch_round_loop W so c s now src_ip info (dest_ip # rest) =
     (if \<not> punch_candidate s now src_ip dest_ip then punch_round_loop W so c s now src_ip info rest
      else
        case punch_start1_packet c (encrypt_reserve (so_crypto so)) src_ip dest_ip info of
          Inl e \<Rightarrow> no_send (Inl e)
        | Inr p \<Rightarrow>
            (case server_send W so (as_server_info s) dest_ip p of
               (es, Inl Panic) \<Rightarrow> (es, Inl Panic)
             | (es, _) \<Rightarrow>
                 (case punch_round_loop W so c s now src_ip info rest of (es', r) \<Rightarrow> (es @ es', r))))"

definition punch_round ::
  "('k, 'c) out_crates \<Rightarrow> 'c ServerOutbound \<Rightarrow> net_contains \<Rightarrow> PNatInfo option codec \<Rightarrow> 'k AppState \<Rightarrow> int \<Rightarrow>
   ipv4 list \<Rightarrow> 'k sends" where
  "punch_round W so C c s now shuffled =
     (case shared_ip (as_network s) of
        None \<Rightarrow> no_send (Inr ())
      | Some src_ip \<Rightarrow>
          (case get_punch_info C s of
             None \<Rightarrow> no_send (Inr ())
           | Some info \<Rightarrow> punch_round_loop W so c s now src_ip info (take 5 shuffled)))"

section \<open>Control packets on their way\<close>

definition is_control :: "MsgType \<Rightarrow> ipv4 \<Rightarrow> ipv4 \<Rightarrow> bytes \<Rightarrow> bool" where
  "is_control mt src dest b \<longleftrightarrow> np_ok b \<and> np_msg_type b = Inr mt \<and> np_src_id b = src \<and> np_dest_id b = dest \<and>
     \<not> np_is_fec b \<and> \<not> np_is_compressed b \<and> \<not> np_is_gateway b"

lemma is_control_header: "is_control mt src dest b \<Longrightarrow> np_ok b' \<Longrightarrow> np_header b' = np_header b \<Longrightarrow> is_control mt src dest b'"
  by (simp add: is_control_def np_op_defs)

lemma is_control_decr: "is_control mt src dest b \<Longrightarrow> is_control mt src dest (np_decr_ttl b)"
  by (auto simp: is_control_def np_is_gateway_def np_decr_ttl_def h_decr_ttl_def Let_def np_op_defs h_msg_type_def)

lemma is_control_hops: "is_control mt src dest b \<Longrightarrow> is_control mt src dest ((np_decr_ttl ^^ n) b)"
  by (induction n) (simp_all add: is_control_decr)

lemma zero_header:
  "np_header (replicate (HEAD_LENGTH + m) 0) = \<lparr>type_byte = 0, ttl_byte = 0, flags_byte = 0, reserved_byte = 0,
     h_seq = 0, h_src_id = 0, h_dest_id = 0\<rparr>"
  by (simp add: np_header_def decode_header_def HEAD_LENGTH_def of_be32_def)

lemma control_packet:
  fixes data mt ttl src dest reserve
  defines "z \<equiv> tb_zeroed_size (HEAD_LENGTH + length data) reserve"
  defines "p \<equiv> tb_map (np_set_dest_id dest) (tb_map (np_set_src_id src) (tb_map (np_set_ttl ttl) (tb_map (np_set_msg_type mt) z)))"
  obtains b where "tb_np_new z = Inr z" "np_set_payload data (tb_slice p) = Inr b" "tb_wf (tb_write p b)"
    "tb_slice (tb_write p b) = b" "np_payload b = data" "is_control mt src dest b"
proof -
  have z: "tb_wf z" "np_ok (tb_slice z)" by (simp_all add: z_def tb_wf_zeroed_size np_ok_def)
  note m = tb_header_mut
  have p: "tb_wf p" "tb_slice p = np_set_dest_id dest (np_set_src_id src (np_set_ttl ttl (np_set_msg_type mt (tb_slice z))))"
    using z by (simp_all add: p_def np_set_dest_id_def np_set_src_id_def np_set_ttl_def np_set_msg_type_def m)
  have len: "length (tb_slice p) = HEAD_LENGTH + length data"
    using z by (simp add: p(2) np_set_dest_id_def np_set_src_id_def np_set_ttl_def np_set_msg_type_def length_np_header_mut)
      (simp add: z_def)
  let ?b = "np_head (tb_slice p) @ data"
  have h: "length (np_head (tb_slice p)) = HEAD_LENGTH" using len by (simp add: np_head_def)
  have b: "np_set_payload data (tb_slice p) = Inr ?b" using len by (simp add: np_set_payload_def splice_exact np_head_def)
  have ok: "np_ok ?b" using h by (simp add: np_ok_def)
  have hdr: "np_header ?b = np_header (tb_slice p)" using h by (simp add: np_header_def np_head_def)
  have pc: "is_control mt src dest (tb_slice p)"
    using z(2) unfolding p(2) is_control_def
    by (simp add: np_op_defs h_msg_type_set zero_header [of "length data"] z_def)
      (cases mt; simp add: h_set_ttl_def h_set_msg_type_def h_msg_type_def msg_try_from_def)
  show thesis
  proof
    show "tb_np_new z = Inr z" using z(2) by (simp add: tb_np_new_def np_new_def np_ok_def)
    show "np_payload ?b = data" using h by (simp add: np_payload_def)
    show "is_control mt src dest ?b" using is_control_header [OF pc ok hdr] .
    show "tb_wf (tb_write p ?b)" "tb_slice (tb_write p ?b) = ?b"
      using p(1) len h length_tb_slice [OF p(1)] by (simp_all add: tb_wf_write tb_slice_write)
  qed (fact b)
qed

lemma control_arrives:
  assumes "aead_correct A" and "tb_wf t" and "is_control mt src dest (tb_slice t)" and "pc_encrypt A pc t = Inr t2"
    and "tb_wf buf" and "tb_slice buf = (np_decr_ttl ^^ n) (tb_slice t2)"
  obtains q where "is_control mt src dest (tb_slice buf)" "pc_decrypt A pc buf = Inr q" "tb_wf q"
    "np_payload (tb_slice q) = np_payload (tb_slice t)" "is_control mt src dest (tb_slice q)"
proof -
  have ok: "np_ok (tb_slice t)" using assms(3) by (simp add: is_control_def)
  note e = pc_encrypt_head [OF assms(1,2) ok assms(4)]
  have "np_header (tb_slice t2) = np_header (tb_slice t)" using e(1) by (simp add: np_header_def np_head_def)
  then have c2: "is_control mt src dest (tb_slice t2)" using is_control_header assms(3) e(3) by blast
  have cb: "is_control mt src dest (tb_slice buf)" unfolding assms(6) by (rule is_control_hops [OF c2])
  let ?h = "np_head (tb_slice buf)"
  have okb: "np_ok (tb_slice buf)" using cb by (simp add: is_control_def)
  then have h: "length ?h = HEAD_LENGTH" by (simp add: np_head_def np_ok_def)
  have r: "tb_slice buf = ?h @ np_payload (tb_slice t2)"
    using np_head_payload [of "tb_slice buf"] by (simp add: assms(6) np_decr_iterated)
  have nonce: "make_nonce ?h = make_nonce (np_head (tb_slice t))"
  proof (rule make_nonce_cong)
    show "np_ok ?h" "np_ok (np_head (tb_slice t))" using h ok by (simp_all add: np_ok_def np_head_def)
    show "type_byte (np_header ?h) = type_byte (np_header (np_head (tb_slice t)))" "np_seq ?h = np_seq (np_head (tb_slice t))"
      "np_src_id ?h = np_src_id (np_head (tb_slice t))" "np_dest_id ?h = np_dest_id (np_head (tb_slice t))"
      using type_byte_decr [of n "tb_slice t2"] np_decr_iterated(2,3) [of n "tb_slice t2"]
      by (simp_all add: np_seq_def np_src_id_def np_dest_id_def np_header_head assms(6) e(1) [symmetric])
  qed
  obtain q where q: "pc_decrypt A pc buf = Inr q" "tb_slice q = ?h @ np_payload (tb_slice t)" "tb_wf q"
    using pc_decrypt_arrived [OF assms(1,2) ok assms(4,5) r h nonce] .
  have "np_ok (tb_slice q)" "np_header (tb_slice q) = np_header (tb_slice buf)"
    using h by (simp_all add: q(2) np_ok_def np_header_def np_head_def)
  then have "is_control mt src dest (tb_slice q)" by (rule is_control_header [OF cb])
  moreover have "np_payload (tb_slice q) = np_payload (tb_slice t)" using h by (simp add: q(2) np_payload_def)
  ultimately show thesis using that cb q(1,3) by blast
qed

lemma srv_handle_control:
  assumes "is_control mt src dest (tb_slice buf)" and "vh_network_addr h = Some net" and "na_ip net = dest" and "mt \<noteq> Quic"
    and "pc_decrypt (vc_aead W) (vh_crypto h) buf = Inr q" and "is_control mt src dest (tb_slice q)"
  shows "srv_handle W h buf now s = srv_process W h net q mt src dest s"
proof -
  have "packet_decompress (vc_lz4 W) (vh_compression h) q = Inr q"
    using assms(6) by (cases "vh_compression h") (simp_all add: packet_decompress_def lz4_decompress_def is_control_def)
  with assms show ?thesis
    by (simp add: srv_handle_def handle_client_data_def is_control_def tb_np_new_def np_new_def np_ok_def Let_def logged_def)
qed

section \<open>What an action leaves alone\<close>

definition keeps :: "('s \<Rightarrow> 'v) \<Rightarrow> ('s, 'e) action \<Rightarrow> bool" where
  "keeps f a \<longleftrightarrow> (\<forall>s. f (fst (a s)) = f s)"

named_theorems keeps_intros \<open>parts of the state that an action keeps\<close>

lemma keeps_basic [keeps_intros]:
  "keeps f done_ok" "keeps f (failing e)" "keeps f (effect x)"
  by (simp_all add: keeps_def done_ok_def failing_def effect_def)

lemma keeps_update [keeps_intros]: "(\<And>s. f (g s) = f s) \<Longrightarrow> keeps f (update_state g)"
  by (simp add: keeps_def update_state_def)

lemma keeps_then_do [keeps_intros]: "keeps f a \<Longrightarrow> keeps f b \<Longrightarrow> keeps f (then_do a b)"
  unfolding keeps_def then_do_def by (auto split: prod.splits sum.splits; metis fst_conv)

lemma keeps_try_do [keeps_intros]: "(\<And>x. keeps f (g x)) \<Longrightarrow> keeps f (try_do r g)"
  by (cases r) (simp_all add: keeps_basic)

lemma keeps_logged [keeps_intros]: "(\<And>x. keeps f (g x)) \<Longrightarrow> keeps f (logged r g)"
  by (cases r) (simp_all add: logged_def keeps_basic)

lemma keeps_for_each [keeps_intros]: "(\<And>x. keeps f (g x)) \<Longrightarrow> keeps f (for_each g xs)"
  by (induction xs) (simp_all add: keeps_basic keeps_then_do)

lemma keeps_if [keeps_intros]: "keeps f a \<Longrightarrow> keeps f b \<Longrightarrow> keeps f (if c then a else b)"
  by simp

lemma keeps_srv_deliver [keeps_intros]: "(\<And>s t. f (s\<lparr>vs_traffic := t\<rparr>) = f s) \<Longrightarrow> keeps f (srv_deliver W h net mt src p)"
  by (auto simp: keeps_def srv_deliver_def split: prod.splits)

lemma keeps_srv_fec_do [keeps_intros]:
  "(\<And>s d. f (s\<lparr>vs_fec_decoder := d\<rparr>) = f s) \<Longrightarrow> (\<And>x. keeps f (g x)) \<Longrightarrow> keeps f (srv_fec_do W p g)"
  using keeps_try_do [of f g] by (auto simp: keeps_def srv_fec_do_def split: prod.splits)

lemma keeps_punch [keeps_intros]: "keeps f yes \<Longrightarrow> keeps f no \<Longrightarrow> keeps f (punch W h dest info yes no)"
proof -
  assume a: "keeps f yes" "keeps f no"
  have "keeps f (punch_uncheck_delay h dest info d)" for d
    by (cases "shared_ip (nr_network (vh_network_route h))") (simp_all add: punch_uncheck_delay_def keeps_basic)
  with a show ?thesis using keeps_then_do [of f _ yes] by (simp add: keeps_def punch_def)
qed

text \<open>The packets of other clients do not touch what is known of the servers, nor the calls to them.\<close>

lemma srv_process_keeps_part:
  fixes f :: "SrvState \<Rightarrow> 'v"
  assumes f: "\<And>s x. f (s\<lparr>vs_traffic := x\<rparr>) = f s" "\<And>s x. f (s\<lparr>vs_peer_map := x\<rparr>) = f s" "\<And>s x. f (s\<lparr>vs_punch_backoff := x\<rparr>) = f s"
  shows "keeps f (srv_process W h net p mt src dest)"
proof -
  have upd: "keeps f (update_peer_nat_info a n)" for a n
    unfolding update_peer_nat_info_def by (rule keeps_update) (rule f)
  have start: "keeps f (\<lambda>s. case srv_get_punch_info W h s of None \<Rightarrow> done_ok s | Some i \<Rightarrow>
      then_do (update_peer_nat_info src x) (punch W h src x (g i) done_ok) s)" if "\<And>i. keeps f (g i)" for x g
  proof -
    have "keeps f (then_do (update_peer_nat_info src x) (punch W h src x (g i) done_ok))" for i
      by (intro keeps_then_do upd keeps_punch that keeps_basic(1))
    then show ?thesis by (auto simp: keeps_def done_ok_def split: option.splits)
  qed
  have uncheck: "keeps f (punch_uncheck h a n)" for a n
    by (cases "shared_ip (nr_network (vh_network_route h))")
      (simp_all add: punch_uncheck_def punch_uncheck_delay_def keeps_basic)
  show ?thesis
    by (cases mt; simp add: srv_process_def Let_def; intro keeps_intros start upd uncheck f)
qed

lemma srv_process_keeps:
  "keeps vs_server_info (srv_process W h net p mt src dest)" "keeps vs_rpc (srv_process W h net p mt src dest)"
  by (rule srv_process_keeps_part; simp)+

lemma handle_client_data_keeps:
  "keeps vs_server_info (handle_client_data W h net data)" "keeps vs_rpc (handle_client_data W h net data)"
  unfolding handle_client_data_def Let_def comp_def by (intro keeps_intros srv_process_keeps; simp)+

section \<open>What a server alone can do\<close>

lemma decompress_wf:
  assumes "tb_wf t" and "np_ok (tb_slice t)" and "packet_decompress Z c t = Inr t'"
  shows "tb_wf t'" "np_ok (tb_slice t')"
proof -
  have "tb_wf t' \<and> np_ok (tb_slice t')"
  proof (cases "c = None \<or> \<not> np_is_compressed (tb_slice t)")
    case True
    with assms show ?thesis by (cases c) (auto simp: packet_decompress_def lz4_decompress_def)
  next
    case False
    then obtain c' p where c: "c = Some c'" "np_is_compressed (tb_slice t)" "decompress_size_prepended Z (np_payload (tb_slice t)) = Some p"
      using assms(3) by (cases c; cases "decompress_size_prepended Z (np_payload (tb_slice t))")
        (auto simp: packet_decompress_def lz4_decompress_def)
    have h: "np_ok (np_head (tb_slice t))" "length (np_head (tb_slice t)) = HEAD_LENGTH"
      using assms(2) by (simp_all add: np_head_def np_ok_def)
    obtain r where "packet_decompress Z (Some c') t = Inr r"
      "tb_slice r = np_set_compressed_flag False (np_head (tb_slice t)) @ p" "tb_wf r"
      using decompress_marked [OF assms(2) c(2,3)] .
    with assms(3) c(1) h show ?thesis by (simp add: np_ok_def)
  qed
  then show "tb_wf t'" "np_ok (tb_slice t')" by auto
qed

lemma is_server_connected_on_node:
  "is_server_connected (on_node i f s) j =
    (if j = i then sn_connected (f (get_or_default server_node_default (hm_get (server_node_map s) i))) else is_server_connected s j)"
  by (simp add: is_server_connected_def on_node_def hm_get_put get_or_default_def)

lemma connected_kept:
  "is_server_connected (set_server_rtt i x s) j = is_server_connected s j"
  "is_server_connected (set_server_version i v s) j = is_server_connected s j"
  "is_server_connected (update_client_simple_list i a l now s) j = is_server_connected s j"
proof -
  have same: "is_server_connected (on_node i f s) j = is_server_connected s j" if "\<And>n. sn_connected (f n) = sn_connected n" for f
  proof (cases "j = i")
    case True
    then show ?thesis unfolding is_server_connected_on_node that
      by (cases "hm_get (server_node_map s) i") (simp_all add: is_server_connected_def get_or_default_def server_node_default_def)
  qed (simp add: is_server_connected_on_node)
  show "is_server_connected (set_server_rtt i x s) j = is_server_connected s j"
    "is_server_connected (set_server_version i v s) j = is_server_connected s j"
    by (simp_all add: set_server_rtt_def set_server_version_def same split: option.split)
  have "is_server_connected (t\<lparr>client_simple_list := l\<rparr>) j = is_server_connected t j" for t l
    by (simp add: is_server_connected_def)
  then show "is_server_connected (update_client_simple_list i a l now s) j = is_server_connected s j"
    by (simp only: update_client_simple_list_def Let_def) (rule same, simp)
qed

lemma only_own_node:
  assumes "j \<noteq> i"
  shows "hm_get (server_node_map (set_server_rtt i x s)) j = hm_get (server_node_map s) j"
    "hm_get (server_node_map (update_client_simple_list i a l now s)) j = hm_get (server_node_map s) j"
  using assms by (simp_all add: set_server_rtt_def update_client_simple_list_def on_node_def hm_get_put Let_def split: option.split)

text \<open>What of the state data of the server may change: one part, in one way.\<close>

definition own_server_info :: "u32 \<Rightarrow> ServerInfoCollection \<Rightarrow> ServerInfoCollection \<Rightarrow> bool" where
  "own_server_info i s s' \<longleftrightarrow>
     (\<forall>j. j \<noteq> i \<longrightarrow> hm_get (server_node_map s') j = hm_get (server_node_map s) j) \<and>
     (\<forall>j. is_server_connected s' j = is_server_connected s j) \<and>
     (client_simple_list s' = client_simple_list s \<or> client_simple_list s' = map snd (merged_clients (server_node_map s')))"

definition own_server_change :: "u32 \<Rightarrow> SrvState \<Rightarrow> SrvState \<Rightarrow> bool" where
  "own_server_change i s s' \<longleftrightarrow> s' = s \<or>
     (\<exists>src n. s' = s\<lparr>vs_traffic := record_rx src n (vs_traffic s)\<rparr>) \<or>
     (\<exists>response. s' = s\<lparr>vs_rpc := notify_response response (vs_rpc s)\<rparr>) \<or>
     (\<exists>info. s' = s\<lparr>vs_server_info := info\<rparr> \<and> own_server_info i (vs_server_info s) info)"

lemma own_server_info_changes:
  "own_server_info i s (set_server_rtt i x s)" "own_server_info i s (update_client_simple_list i a l now s)"
proof -
  have "client_simple_list (set_server_rtt i x s) = client_simple_list s"
    by (simp add: set_server_rtt_def on_node_def split: option.split)
  then show "own_server_info i s (set_server_rtt i x s)" by (simp add: own_server_info_def only_own_node connected_kept)
  have "client_simple_list (update_client_simple_list i a l now s) =
      map snd (merged_clients (server_node_map (update_client_simple_list i a l now s)))"
    by (simp add: update_client_simple_list_def Let_def)
  then show "own_server_info i s (update_client_simple_list i a l now s)" by (simp add: own_server_info_def only_own_node connected_kept)
qed

lemma own_server_changes:
  "own_server_change i s s" "own_server_change i s (s\<lparr>vs_traffic := record_rx src n (vs_traffic s)\<rparr>)"
  "own_server_change i s (s\<lparr>vs_rpc := notify_response response (vs_rpc s)\<rparr>)"
  "own_server_change i s (s\<lparr>vs_server_info := set_server_rtt i x (vs_server_info s)\<rparr>)"
  "own_server_change i s (s\<lparr>vs_server_info := update_client_simple_list i a l now (vs_server_info s)\<rparr>)"
  unfolding own_server_change_def using own_server_info_changes by blast+

lemma own_server_change_keeps:
  "own_server_change i s s' \<Longrightarrow> vs_peer_map s' = vs_peer_map s \<and> vs_punch_backoff s' = vs_punch_backoff s \<and>
    vs_fec_decoder s' = vs_fec_decoder s \<and> vs_nat_info s' = vs_nat_info s"
  by (auto simp: own_server_change_def)

lemma deliver_turn_only:
  assumes "tb_wf p" and "np_ok (tb_slice p)" and "srv_deliver W h net Turn src p s = (s', es, r)"
  shows "e \<in> set es \<Longrightarrow> e = SrvDeliver (TunData (np_payload (tb_slice p))) \<or> e = SrvDeliver (NatData (np_payload (tb_slice p)))"
    "s' = s\<lparr>vs_traffic := record_rx src (of_nat (length (tb_slice p))) (vs_traffic s)\<rparr>"
proof -
  obtain buf where buf: "tb_advance_head p HEAD_LENGTH = Inr buf" "tb_slice buf = np_payload (tb_slice p)"
    using advance_packet [OF assms(1,2)] by metis
  have "d = TunData (np_payload (tb_slice p)) \<or> d = NatData (np_payload (tb_slice p))"
    if "d \<in> set (fst (enhanced_deliver K ei net Turn src buf))" for K ei d
    using that by (auto simp: enhanced_deliver_def Let_def buf(2) enhanced_tun_inbound_def tun_send_def nat_send_def checked_sink_def
        put_sink_def no_send_def split: if_splits option.splits EnhancedTunInbound.splits)
  moreover have "es = map SrvDeliver (fst (enhanced_deliver (vc_sinks W) (vh_enhanced_inbound h) net Turn src buf)) \<and>
      s' = s\<lparr>vs_traffic := record_rx src (of_nat (length (tb_slice p))) (vs_traffic s)\<rparr>"
    using assms(3) by (auto simp: srv_deliver_def enhanced_inbound_def then_do_def update_state_def effect_def buf(1)
        split: prod.splits)
  ultimately show "e \<in> set es \<Longrightarrow> e = SrvDeliver (TunData (np_payload (tb_slice p))) \<or> e = SrvDeliver (NatData (np_payload (tb_slice p)))"
    "s' = s\<lparr>vs_traffic := record_rx src (of_nat (length (tb_slice p))) (vs_traffic s)\<rparr>"
    by fastforce+
qed

lemma server_data_quiet:
  assumes "handle_server_data W h net data now s = (s', es, r)" and "tb_np_new data = Inr data"
    and "np_msg_type (tb_slice data) = Inr mt" and "packet_decompress (vc_lz4 W) (vh_compression h) data = Inr p"
    and "mt \<noteq> Turn" and "mt \<noteq> Ping"
  shows "es = [] \<and> own_server_change (vh_server_id h) s s'"
proof -
  have "handle_server_data W h net data now s = (s', [], r) \<and> own_server_change (vh_server_id h) s s'"
    using assms(1,5,6) unfolding handle_server_data_def assms(2-4) try_do_simps Let_def
    by (cases mt) (auto simp: done_ok_def update_state_def change_info_def try_do_def failing_def own_server_changes split: if_splits sum.splits)
  with assms(1) show ?thesis by simp
qed

definition pong_packet :: "NetworkAddr \<Rightarrow> ipv4 \<Rightarrow> transmission \<Rightarrow> transmission" where
  "pong_packet net src p =
     tb_map (np_set_dest_id src) (tb_map (np_set_src_id (na_ip net)) (tb_map (np_set_msg_type Pong) (tb_map (np_set_ttl 2) p)))"

lemma pong_packet:
  assumes "tb_wf p" and "np_ok (tb_slice p)"
  shows "tb_wf (pong_packet net src p)" "np_msg_type (tb_slice (pong_packet net src p)) = Inr Pong"
  using assms by (simp_all add: pong_packet_def np_set_dest_id_def np_set_src_id_def np_set_ttl_def np_set_msg_type_def tb_header_mut)
    (simp add: np_msg_type_def h_msg_type_def h_set_msg_type_def h_set_ttl_def msg_try_from_def)

lemma server_data_confined:
  assumes "tb_wf data" and "np_is_gateway (tb_slice data)" and "srv_handle W h data now s = (s', es, r)"
  shows "(\<forall>e\<in>set es. (\<exists>b. e = SrvSend b \<and> np_msg_type b = Inr Pong) \<or>
      (\<exists>p. is_echo_reply W p \<and> (e = SrvDeliver (TunData p) \<or> e = SrvDeliver (NatData p)))) \<and>
    own_server_change (vh_server_id h) s s'"
proof (cases "\<exists>net mt p. vh_network_addr h = Some net \<and> np_ok (tb_slice data) \<and> np_msg_type (tb_slice data) = Inr mt \<and>
    packet_decompress (vc_lz4 W) (vh_compression h) data = Inr p")
  case False
  then show ?thesis using assms(2,3)
    by (cases "vh_network_addr h"; cases "np_msg_type (tb_slice data)"; cases "packet_decompress (vc_lz4 W) (vh_compression h) data")
      (auto simp: own_server_changes srv_handle_def handle_server_data_def tb_np_new_def np_new_def np_ok_def failing_def Let_def split: if_splits)
next
  case True
  then obtain net mt p where c: "vh_network_addr h = Some net" "np_ok (tb_slice data)" "np_msg_type (tb_slice data) = Inr mt"
    "packet_decompress (vc_lz4 W) (vh_compression h) data = Inr p" by blast
  note wf = decompress_wf [OF assms(1) c(2,4)]
  have run: "handle_server_data W h net data now s = (s', es, r)" and new: "tb_np_new data = Inr data"
    using assms(2,3) c(1,2) by (auto simp: srv_handle_def tb_np_new_def np_new_def np_ok_def)
  show ?thesis
  proof (cases "mt = Turn \<or> mt = Ping")
    case False
    with server_data_quiet [OF run new c(3,4)] show ?thesis by auto
  next
    case turn_ping: True
    show ?thesis
    proof (cases "mt = Ping")
      case True
      with run have "effect (send_turn W (pong_packet net (np_src_id (tb_slice data)) p)) s = (s', es, r)"
        by (simp add: handle_server_data_def new c(3,4) pong_packet_def)
      with pong_packet [OF wf] show ?thesis
        by (auto simp: own_server_changes effect_def send_turn_def tb_np_into_bytes_def tb_into_bytes_wf transport_send_def no_send_def split: if_splits)
    next
      case False
      with turn_ping have t: "mt = Turn" by simp
      show ?thesis
      proof (cases "is_echo_reply W (np_payload (tb_slice p))")
        case True
        with run have "srv_deliver W h net Turn (np_src_id (tb_slice data)) p s = (s', es, r)"
          by (simp add: handle_server_data_def new c(3,4) t)
        from deliver_turn_only [OF wf this] True show ?thesis by (auto simp: own_server_changes)
      next
        case False
        with run show ?thesis by (simp add: own_server_changes handle_server_data_def new c(3,4) t done_ok_def)
      qed
    qed
  qed
qed

text \<open>
  C17. Packets with the gateway flag are not encrypted, so this is what a server, or whoever speaks
  for it, can do to a node: reach the network interface with ICMP echo replies and nothing else,
  have a ping answered, and change one part of the state, the count of received bytes, the pending RPC requests (as an answer to
  one of them does) or what the node knows of this server and its clients. The entries of other servers and the connection marks of all of them
  stay, and the merged client list is still that of all servers together; peers, hole
  punching, FEC and this node's own NAT information are out of its reach.
\<close>

theorem server_packets_confined:
  assumes "tb_wf data" and "np_is_gateway (tb_slice data)" and "srv_handle W h data now s = (s', es, r)"
  shows "(\<forall>e\<in>set es. (\<exists>b. e = SrvSend b \<and> np_msg_type b = Inr Pong) \<or>
      (\<exists>p. is_echo_reply W p \<and> (e = SrvDeliver (TunData p) \<or> e = SrvDeliver (NatData p)))) \<and>
    (s' = s \<or>
     (\<exists>src n. s' = s\<lparr>vs_traffic := record_rx src n (vs_traffic s)\<rparr>) \<or>
     (\<exists>response. s' = s\<lparr>vs_rpc := notify_response response (vs_rpc s)\<rparr>) \<or>
     (\<exists>info. s' = s\<lparr>vs_server_info := info\<rparr> \<and>
        (\<forall>j. j \<noteq> vh_server_id h \<longrightarrow> hm_get (server_node_map info) j = hm_get (server_node_map (vs_server_info s)) j) \<and>
        (\<forall>j. is_server_connected info j = is_server_connected (vs_server_info s) j) \<and>
        (client_simple_list info = client_simple_list (vs_server_info s) \<or>
         client_simple_list info = map snd (merged_clients (server_node_map info))))) \<and>
    vs_peer_map s' = vs_peer_map s \<and> vs_punch_backoff s' = vs_punch_backoff s \<and>
    vs_fec_decoder s' = vs_fec_decoder s \<and> vs_nat_info s' = vs_nat_info s"
  using server_data_confined [OF assms] own_server_change_keeps [of "vh_server_id h" s s']
  unfolding own_server_change_def own_server_info_def by blast

text \<open>A node at \<open>10.26.0.2\<close> without a key, and a packet of its server.\<close>

definition demo_srv :: "bytes ServerTurnInboundHandler" where
  "demo_srv = \<lparr>vh_server_id = 0, vh_network_addr = Some demo_net, vh_network_route = \<lparr>nr_network = Some demo_net, nr_subnet_route = []\<rparr>,
     vh_puncher = True, vh_crypto = None, vh_compression = None,
     vh_enhanced_inbound = \<lparr>ei_tun_data_inbound = Tun [], ei_internal_nat_inbound = None\<rparr>\<rparr>"

definition demo_srv_state :: SrvState where
  "demo_srv_state = \<lparr>vs_server_info = demo_servers, vs_nat_info = None, vs_peer_map = [], vs_punch_backoff = [], vs_traffic = [],
     vs_fec_decoder = decoder_new 0, vs_rpc = rpc_notifier_new\<rparr>"

theorem server_packets_confined_witness:
  "let b = np_set_gateway_flag True (np_set_msg_type Turn (replicate 40 7)) in
   np_is_gateway b \<and> (\<forall>W :: bytes srv_crates. \<forall>s' es r. srv_handle W demo_srv (tb_from b) 5 demo_srv_state = (s', es, r) \<longrightarrow>
     vs_peer_map s' = [] \<and> (\<forall>delay src dest i. SpawnPunch delay src dest i \<notin> set es))"
proof -
  let ?b = "np_set_gateway_flag True (np_set_msg_type Turn (replicate 40 7))"
  have g: "np_is_gateway ?b" by (simp add: np_is_gateway_def np_set_gateway_flag_def h_flags_set)
  moreover have "vs_peer_map s' = [] \<and> (\<forall>delay src dest i. SpawnPunch delay src dest i \<notin> set es)"
    if "srv_handle W demo_srv (tb_from ?b) 5 demo_srv_state = (s', es, r)" for W :: "bytes srv_crates" and s' es r
    using server_packets_confined [OF tb_wf_from _ that] g by (auto simp: demo_srv_state_def)
  ultimately show ?thesis unfolding Let_def by blast
qed

section \<open>The hole-punching exchange\<close>

lemma start1_packet:
  obtains t where "punch_start1_packet c reserve src dest info = Inr t" "tb_wf t" "is_control PunchStart1 src dest (tb_slice t)"
    "np_payload (tb_slice t) = punch_info_encode c info"
proof -
  let ?d = "punch_info_encode c info"
  let ?z = "tb_zeroed_size (HEAD_LENGTH + length ?d) (reserve)"
  let ?p = "tb_map (np_set_dest_id dest) (tb_map (np_set_src_id src) (tb_map (np_set_ttl 2) (tb_map (np_set_msg_type PunchStart1) ?z)))"
  obtain b where b: "tb_np_new ?z = Inr ?z" "np_set_payload ?d (tb_slice ?p) = Inr b" "tb_wf (tb_write ?p b)"
    "tb_slice (tb_write ?p b) = b" "np_payload b = ?d" "is_control PunchStart1 src dest b"
    by (rule control_packet)
  show thesis
    by (rule that [of "tb_write ?p b"]) (simp_all only: b punch_start1_packet_def Let_def rbind_Inr)
qed

lemma start2_packet:
  obtains t where "punch_start2_packet W pc src dest info = pc_encrypt (vc_aead W) pc t" "tb_wf t"
    "is_control PunchStart2 dest src (tb_slice t)" "np_payload (tb_slice t) = punch_info_encode (vc_punch_codec W) info"
proof -
  let ?d = "punch_info_encode (vc_punch_codec W) info"
  let ?z = "tb_zeroed_size (HEAD_LENGTH + length ?d) (encrypt_reserve pc)"
  let ?p = "tb_map (np_set_dest_id src) (tb_map (np_set_src_id dest) (tb_map (np_set_ttl 2) (tb_map (np_set_msg_type PunchStart2) ?z)))"
  obtain b where b: "tb_np_new ?z = Inr ?z" "np_set_payload ?d (tb_slice ?p) = Inr b" "tb_wf (tb_write ?p b)"
    "tb_slice (tb_write ?p b) = b" "np_payload b = ?d" "is_control PunchStart2 dest src b"
    by (rule control_packet)
  show thesis
    by (rule that [of "tb_write ?p b"]) (simp_all only: b punch_start2_packet_def Let_def rbind_Inr)
qed

lemma server_send_event:
  assumes "server_send W so info dest p = (es, r)" and "\<not> np_is_gateway (tb_slice p)"
  shows "length es \<le> 1" "e \<in> set es \<Longrightarrow> \<exists>i t b. find_ip_to_server info (so_server_id_list so) dest = Some i \<and>
    pc_encrypt (oc_aead W) (so_crypto so) p = Inr t \<and> tb_into_bytes t = Inr b \<and> e = ToServer i b (secs 5)"
  using assms
  by (auto simp: server_send_def send_expired_def send_expired_impl_def send_to_server_def channel_send_def no_send_def after_def
      split: option.splits sum.splits if_splits)

lemma punch_round_loop_sends:
  assumes "aead_correct (oc_aead W)" and "punch_round_loop W so c s now src info list = (es, r)"
  shows "length es \<le> length list"
    "e \<in> set es \<Longrightarrow> \<exists>dest\<in>set list. \<exists>i t t2. punch_candidate s now src dest \<and> tb_wf t \<and>
      is_control PunchStart1 src dest (tb_slice t) \<and> np_payload (tb_slice t) = punch_info_encode c info \<and>
      pc_encrypt (oc_aead W) (so_crypto so) t = Inr t2 \<and> e = ToServer i (tb_slice t2) (secs 5)"
proof -
  have "length es \<le> length list \<and> (\<forall>e\<in>set es. \<exists>dest\<in>set list. \<exists>i t t2. punch_candidate s now src dest \<and> tb_wf t \<and>
      is_control PunchStart1 src dest (tb_slice t) \<and> np_payload (tb_slice t) = punch_info_encode c info \<and>
      pc_encrypt (oc_aead W) (so_crypto so) t = Inr t2 \<and> e = ToServer i (tb_slice t2) (secs 5))"
    using assms(2)
  proof (induction list arbitrary: es r)
    case Nil
    then show ?case by (simp add: no_send_def)
  next
    case (Cons dest rest)
    show ?case
    proof (cases "punch_candidate s now src dest")
      case False
      with Cons.prems Cons.IH [of es r] show ?thesis by fastforce
    next
      case True
      obtain t where t: "punch_start1_packet c (encrypt_reserve (so_crypto so)) src dest info = Inr t" "tb_wf t"
        "is_control PunchStart1 src dest (tb_slice t)" "np_payload (tb_slice t) = punch_info_encode c info"
        using start1_packet .
      obtain es1 r1 where s1: "server_send W so (as_server_info s) dest t = (es1, r1)" by fastforce
      obtain es2 r2 where s2: "punch_round_loop W so c s now src info rest = (es2, r2)" by fastforce
      have split: "es = es1 \<or> es = es1 @ es2"
        using Cons.prems True t(1) s1 s2 by (auto split: sum.splits error.splits)
      have ng: "\<not> np_is_gateway (tb_slice t)" using t(3) by (simp add: is_control_def)
      have "\<exists>i t2. pc_encrypt (oc_aead W) (so_crypto so) t = Inr t2 \<and> e = ToServer i (tb_slice t2) (secs 5)" if "e \<in> set es1" for e
      proof -
        from server_send_event(2) [OF s1 ng that] obtain i t2 b where e: "pc_encrypt (oc_aead W) (so_crypto so) t = Inr t2"
          "tb_into_bytes t2 = Inr b" "e = ToServer i b (secs 5)" by blast
        have "tb_wf t2" using pc_encrypt_head(2) [OF assms(1) t(2) _ e(1)] t(3) by (simp add: is_control_def)
        with e show ?thesis by (auto simp: tb_into_bytes_wf)
      qed
      with Cons.IH [OF s2] split server_send_event(1) [OF s1 ng] True t(2-4) show ?thesis by fastforce
    qed
  qed
  then show "length es \<le> length list"
    "e \<in> set es \<Longrightarrow> \<exists>dest\<in>set list. \<exists>i t t2. punch_candidate s now src dest \<and> tb_wf t \<and>
      is_control PunchStart1 src dest (tb_slice t) \<and> np_payload (tb_slice t) = punch_info_encode c info \<and>
      pc_encrypt (oc_aead W) (so_crypto so) t = Inr t2 \<and> e = ToServer i (tb_slice t2) (secs 5)" by blast+
qed

lemma srv_process_start1:
  assumes "punch_info_from_slice (vc_punch_codec W) (np_payload (tb_slice q)) = Inr theirs" and "vs_nat_info s = Some own"
    and "vh_puncher h" and "should_punch (vc_now_ms W) (vs_punch_backoff s) src"
    and "nr_network (vh_network_route h) = Some net"
  shows "srv_process W h n q PunchStart1 src dest s =
    (case after (punch_start2_packet W (vh_crypto h) src dest (srv_filter_ip W h own)) (send_turn W) of (es, r) \<Rightarrow>
      (s\<lparr>vs_peer_map := update_nat_info src theirs (vs_peer_map s)\<rparr>, SpawnPunch (millis 50) (na_ip net) src theirs # es, r))"
  using assms
  by (cases "punch_start2_packet W (vh_crypto h) src dest (srv_filter_ip W h own)")
    (simp_all add: srv_process_def srv_get_punch_info_def then_do_def update_peer_nat_info_def update_state_def punch_def
      punch_uncheck_delay_def shared_ip_def effect_def failing_def split: prod.splits)

lemma srv_process_start2:
  assumes "punch_info_from_slice (vc_punch_codec W) (np_payload (tb_slice q)) = Inr theirs"
    and "vh_puncher h" and "nr_network (vh_network_route h) = Some net"
  shows "srv_process W h n q PunchStart2 src dest s =
    (s\<lparr>vs_punch_backoff := punch_record (vc_now_ms W) src (vs_punch_backoff s),
       vs_peer_map := update_nat_info src theirs (vs_peer_map s)\<rparr>, [SpawnPunch 0 (na_ip net) src theirs], Inr ())"
  using assms
  by (simp add: srv_process_def then_do_def update_peer_nat_info_def update_state_def punch_uncheck_def
      punch_uncheck_delay_def shared_ip_def effect_def)

lemma pc_encrypt_total:
  assumes "tb_wf t" and "np_ok (tb_slice t)" and "\<And>k n p. aead_seal A k n p \<noteq> None"
  obtains t' where "pc_encrypt A pc t = Inr t'"
proof (cases pc)
  case None
  then show thesis using that by (simp add: pc_encrypt_def)
next
  case (Some k)
  obtain room where room: "tb_slice (tb_extend_end t TAG_LEN) = tb_slice t @ room" "length room = TAG_LEN"
    using assms(1) by (rule tb_slice_extend_room)
  have ok: "np_ok (tb_slice t @ room)" using assms(2) by (simp add: np_ok_def)
  obtain n where "make_nonce (tb_slice t @ room) = Inr n" using chacha_nonce_ok [OF ok] by blast
  moreover have "\<not> length (np_payload (tb_slice t @ room)) < TAG_LEN"
    using assms(2) room(2) by (simp add: np_payload_def np_ok_def)
  ultimately have "\<exists>c. chacha_encrypt A k (tb_slice t @ room) = Inr c"
    using assms(3) by (simp add: chacha_encrypt_def Let_def split: option.split)
  then show thesis using that Some room(1) by (auto simp: pc_encrypt_def)
qed

lemma request_answered:
  assumes "aead_correct (vc_aead V)" and "is_control PunchStart1 src dest (tb_slice buf)"
    and "pc_decrypt (vc_aead V) (vh_crypto h) buf = Inr q" and "is_control PunchStart1 src dest (tb_slice q)"
    and "punch_info_from_slice (vc_punch_codec V) (np_payload (tb_slice q)) = Inr mine"
    and "vh_network_addr h = Some net" and "nr_network (vh_network_route h) = Some net" and "na_ip net = dest"
    and "vh_puncher h" and "vs_nat_info p = Some own" and "should_punch (vc_now_ms V) (vs_punch_backoff p) src"
    and "\<And>k n x. aead_seal (vc_aead V) k n x \<noteq> None" and "\<And>b. vc_transport V b"
  obtains t3 t4 where "tb_wf t3" "is_control PunchStart2 dest src (tb_slice t3)"
    "np_payload (tb_slice t3) = punch_info_encode (vc_punch_codec V) (srv_filter_ip V h own)"
    "pc_encrypt (vc_aead V) (vh_crypto h) t3 = Inr t4"
    "srv_handle V h buf t p =
      (p\<lparr>vs_peer_map := update_nat_info src mine (vs_peer_map p)\<rparr>, [SpawnPunch (millis 50) dest src mine, SrvSend (tb_slice t4)], Inr ())"
proof -
  obtain t3 where t3: "punch_start2_packet V (vh_crypto h) src dest (srv_filter_ip V h own) = pc_encrypt (vc_aead V) (vh_crypto h) t3"
    "tb_wf t3" "is_control PunchStart2 dest src (tb_slice t3)"
    "np_payload (tb_slice t3) = punch_info_encode (vc_punch_codec V) (srv_filter_ip V h own)"
    using start2_packet .
  have ok: "np_ok (tb_slice t3)" using t3(3) by (simp add: is_control_def)
  obtain t4 where t4: "pc_encrypt (vc_aead V) (vh_crypto h) t3 = Inr t4" using pc_encrypt_total [OF t3(2) ok assms(12)] .
  have "tb_wf t4" using pc_encrypt_head(2) [OF assms(1) t3(2) ok t4] .
  then have sent: "send_turn V t4 = ([SrvSend (tb_slice t4)], Inr ())"
    using assms(13) by (simp add: send_turn_def tb_np_into_bytes_def tb_into_bytes_wf transport_send_def)
  have "srv_handle V h buf t p = srv_process V h net q PunchStart1 src dest p"
    using srv_handle_control [OF assms(2,6,8) _ assms(3,4)] by simp
  also have "\<dots> = (p\<lparr>vs_peer_map := update_nat_info src mine (vs_peer_map p)\<rparr>,
      [SpawnPunch (millis 50) dest src mine, SrvSend (tb_slice t4)], Inr ())"
    using srv_process_start1 [OF assms(5,10,9,11,7)] t3(1) t4 sent assms(8) by simp
  finally show thesis using that t3(2-4) t4 by blast
qed

text \<open>
  C16. The whole exchange that starts a hole punch. A round of the punch task of a node sends a
  request, through a server that may lower the hop counter. It goes to a peer of a greater address. A
  peer that has a puncher, knows its own NAT, has the same key and is not held off takes down the
  node's advertised addresses, starts punching them after 50 ms and, if sealing works and its server takes the packet,
  replies; on any copy of the reply, with the hop counter lowered or not, the node
  takes down the peer's, records the attempt and starts punching at once. Nothing else changes on
  either side.
\<close>

theorem punch_handshake:
  assumes crypto: "aead_correct (oc_aead W)" "vc_aead V = oc_aead W" "vc_aead U = oc_aead W"
    and works: "\<And>k n x. aead_seal (oc_aead W) k n x \<noteq> None" "\<And>d. vc_transport V d"
    and codec: "vc_punch_codec V = c" "vc_punch_codec U = c"
    and request: "punch_round W so C c s now shuffled = (es, r)" "ToServer i b life \<in> set es"
    and own: "as_network s = Some net" "as_nat_info s = Some info" "codec_at c (Some (encode_nat_info (filter_ip C s info)))"
    and arrives: "tb_wf buf" "tb_slice buf = (np_decr_ttl ^^ n) b"
    and peer: "vh_network_addr h = Some peer_net" "nr_network (vh_network_route h) = Some peer_net"
      "na_ip peer_net = np_dest_id b" "vh_crypto h = so_crypto so" "vh_puncher h"
      "vs_nat_info p = Some peer_info" "codec_at c (Some (encode_nat_info (srv_filter_ip V h peer_info)))"
      "should_punch (vc_now_ms V) (vs_punch_backoff p) (np_src_id b)"
    and node: "vh_network_addr g = Some net" "nr_network (vh_network_route g) = Some net"
      "vh_crypto g = so_crypto so" "vh_puncher g"
  shows "\<exists>mine theirs b1. punch_info_from_slice c (punch_info_encode c (filter_ip C s info)) = Inr mine \<and>
    punch_info_from_slice c (punch_info_encode c (srv_filter_ip V h peer_info)) = Inr theirs \<and>
    na_ip net < na_ip peer_net \<and> need_punch (as_route_table s) (na_ip peer_net) \<and>
    srv_handle V h buf t p =
      (p\<lparr>vs_peer_map := update_nat_info (na_ip net) mine (vs_peer_map p)\<rparr>,
       [SpawnPunch (millis 50) (na_ip peer_net) (na_ip net) mine, SrvSend b1], Inr ()) \<and>
    (\<forall>buf1 m t1 q. tb_wf buf1 \<and> tb_slice buf1 = (np_decr_ttl ^^ m) b1 \<longrightarrow> srv_handle U g buf1 t1 q =
      (q\<lparr>vs_punch_backoff := punch_record (vc_now_ms U) (na_ip peer_net) (vs_punch_backoff q),
         vs_peer_map := update_nat_info (na_ip peer_net) theirs (vs_peer_map q)\<rparr>,
       [SpawnPunch 0 (na_ip net) (na_ip peer_net) theirs], Inr ()))"
proof -
  have pi: "get_punch_info C s = Some (filter_ip C s info)" using own(2) by (simp add: get_punch_info_def)
  have loop: "punch_round_loop W so c s now (na_ip net) (filter_ip C s info) (take 5 shuffled) = (es, r)"
    using request(1) own(1) pi by (simp add: punch_round_def shared_ip_def)
  from punch_round_loop_sends(2) [OF crypto(1) loop request(2)]
  obtain dest t0 t2 where s1: "punch_candidate s now (na_ip net) dest" "tb_wf t0" "is_control PunchStart1 (na_ip net) dest (tb_slice t0)"
    "np_payload (tb_slice t0) = punch_info_encode c (filter_ip C s info)" "pc_encrypt (oc_aead W) (so_crypto so) t0 = Inr t2"
    "b = tb_slice t2" by blast
  obtain q1 where q1: "is_control PunchStart1 (na_ip net) dest (tb_slice buf)" "pc_decrypt (oc_aead W) (so_crypto so) buf = Inr q1"
    "np_payload (tb_slice q1) = punch_info_encode c (filter_ip C s info)" "is_control PunchStart1 (na_ip net) dest (tb_slice q1)"
    using control_arrives [OF crypto(1) s1(2,3,5) arrives(1)] arrives(2) s1(4,6) by metis
  have ids: "np_src_id b = na_ip net" "np_dest_id b = dest"
    using q1(1) by (simp_all add: is_control_def arrives(2) np_decr_iterated)
  obtain mine where mine: "punch_info_from_slice c (punch_info_encode c (filter_ip C s info)) = Inr mine"
    using punch_info_from_encoded [OF own(3)] by blast
  obtain theirs where theirs: "punch_info_from_slice c (punch_info_encode c (srv_filter_ip V h peer_info)) = Inr theirs"
    using punch_info_from_encoded [OF peer(7)] by blast
  obtain t3 t4 where t3: "tb_wf t3" "is_control PunchStart2 dest (na_ip net) (tb_slice t3)"
    "np_payload (tb_slice t3) = punch_info_encode c (srv_filter_ip V h peer_info)"
    and t4: "pc_encrypt (oc_aead W) (so_crypto so) t3 = Inr t4"
    and reply: "srv_handle V h buf t p = (p\<lparr>vs_peer_map := update_nat_info (na_ip net) mine (vs_peer_map p)\<rparr>,
      [SpawnPunch (millis 50) dest (na_ip net) mine, SrvSend (tb_slice t4)], Inr ())"
    using request_answered [OF _ q1(1) _ q1(4) _ peer(1,2) _ peer(5,6) _ _ works(2), of mine t] crypto(1,2) codec(1) q1(2,3) mine peer(3,4,8) ids works(1)
    by (metis (no_types))
  have answered: "srv_handle U g buf1 t1 q = (q\<lparr>vs_punch_backoff := punch_record (vc_now_ms U) dest (vs_punch_backoff q),
         vs_peer_map := update_nat_info dest theirs (vs_peer_map q)\<rparr>, [SpawnPunch 0 (na_ip net) dest theirs], Inr ())"
    if returns: "tb_wf buf1" "tb_slice buf1 = (np_decr_ttl ^^ m) (tb_slice t4)" for buf1 m t1 q
  proof -
    obtain q2 where q2: "is_control PunchStart2 dest (na_ip net) (tb_slice buf1)" "pc_decrypt (oc_aead W) (so_crypto so) buf1 = Inr q2"
      "np_payload (tb_slice q2) = punch_info_encode c (srv_filter_ip V h peer_info)" "is_control PunchStart2 dest (na_ip net) (tb_slice q2)"
      using control_arrives [OF crypto(1) t3(1,2) t4 returns] t3(3) by metis
    have "srv_handle U g buf1 t1 q = srv_process U g net q2 PunchStart2 dest (na_ip net) q"
      using srv_handle_control [OF q2(1) node(1) _ _ _ q2(4), of U] q2(2) node(3) crypto(3) by simp
    also have "\<dots> = (q\<lparr>vs_punch_backoff := punch_record (vc_now_ms U) dest (vs_punch_backoff q),
         vs_peer_map := update_nat_info dest theirs (vs_peer_map q)\<rparr>, [SpawnPunch 0 (na_ip net) dest theirs], Inr ())"
      using srv_process_start2 [OF _ node(4,2), of U q2 theirs] q2(3) theirs codec(2) by simp
    finally show ?thesis .
  qed
  show ?thesis
    using s1(1) ids reply answered peer(3)
    by (intro exI [of _ mine] exI [of _ theirs] exI [of _ "tb_slice t4"]) (simp add: mine theirs punch_candidate_def)
qed

text \<open>A request of \<open>10.26.0.2\<close> reaches \<open>10.26.0.4\<close>, whose reply comes back.\<close>

definition demo_nat_info :: NatInfo where
  "demo_nat_info = \<lparr>nat_type = Cone, public_ips = [0x08080808], public_udp_ports = [4000], mapping_tcp_addr = [], mapping_udp_addr = [],
     public_port_range = 0, local_ipv4 = 0, local_ipv4s = [], ipv6 = None, local_udp_ports = [4000], local_tcp_port = 0, public_tcp_port = 0\<rparr>"

definition demo_srv_crates :: "bytes srv_crates" where
  "demo_srv_crates = \<lparr>vc_aead = toy_aead, vc_lz4 = toy_lz4, vc_sinks = ic_sinks demo_in, vc_fec_codec = ic_fec_codec demo_in,
     vc_rs = ic_rs demo_in, vc_now = 0, vc_now_ms = 9, vc_ipv4 = (\<lambda>_. None), vc_icmp_type = (\<lambda>_. None),
     vc_list_codec = \<lparr>enc = (\<lambda>_. []), dec = (\<lambda>_. None)\<rparr>, vc_punch_codec = codec_for (Some (encode_nat_info demo_nat_info)),
     vc_rpc_codec = \<lparr>enc = (\<lambda>_. []), dec = (\<lambda>_. None)\<rparr>, vc_transport = (\<lambda>_. True)\<rparr>"

definition demo_app :: "nat AppState" where
  "demo_app = app_state_default\<lparr>as_network := Some demo_net, as_nat_info := Some demo_nat_info, as_server_info := demo_servers\<rparr>"

lemma demo_nat_info_filtered:
  "filter_ip_by P demo_nat_info = demo_nat_info"
  by (simp add: filter_ip_by_def demo_nat_info_def Let_def)

lemma demo_candidate: "punch_candidate demo_app 0 0x0A1A0002 0x0A1A0004"
  by (simp add: punch_candidate_def demo_app_def app_state_default_def need_punch_def should_punch_def demo_servers_def
      is_any_server_connected_def rt_new_def Let_def)

theorem punch_handshake_witness:
  "let net = demo_net\<lparr>na_ip := 0x0A1A0004\<rparr>; state = demo_srv_state\<lparr>vs_nat_info := Some demo_nat_info\<rparr>;
       peer = demo_srv\<lparr>vh_network_addr := Some net, vh_network_route := \<lparr>nr_network = Some net, nr_subnet_route = []\<rparr>\<rparr>;
       C = sc_contains (vc_sinks demo_srv_crates) in
   \<exists>b b1. punch_round demo_crates (server_outbound_new [1, 2] None) C (vc_punch_codec demo_srv_crates) demo_app 0 [0x0A1A0004] =
      ([ToServer 2 b (secs 5)], Inr ()) \<and>
     snd (srv_handle demo_srv_crates peer (tb_from b) 0 state) =
      ([SpawnPunch (millis 50) 0x0A1A0004 0x0A1A0002 demo_nat_info, SrvSend b1], Inr ()) \<and>
     snd (srv_handle demo_srv_crates demo_srv (tb_from b1) 0 demo_srv_state) =
      ([SpawnPunch 0 0x0A1A0002 0x0A1A0004 demo_nat_info], Inr ())"
proof -
  let ?V = demo_srv_crates and ?so = "server_outbound_new [1, 2] None" and ?c = "vc_punch_codec demo_srv_crates"
  let ?C = "sc_contains (vc_sinks ?V)" and ?net = "demo_net\<lparr>na_ip := 0x0A1A0004\<rparr>"
  let ?p = "demo_srv_state\<lparr>vs_nat_info := Some demo_nat_info\<rparr>"
  let ?h = "demo_srv\<lparr>vh_network_addr := Some ?net, vh_network_route := \<lparr>nr_network = Some ?net, nr_subnet_route = []\<rparr>\<rparr>"
  have A: "aead_correct (oc_aead demo_crates)" "vc_aead ?V = oc_aead demo_crates"
    by (simp_all add: demo_crates_def demo_srv_crates_def toy_aead_correct)
  have cd: "codec_at ?c (Some (encode_nat_info demo_nat_info))" by (simp add: demo_srv_crates_def codec_at_for)
  have f: "filter_ip ?C demo_app demo_nat_info = demo_nat_info" "srv_filter_ip ?V ?h demo_nat_info = demo_nat_info"
    by (simp_all add: filter_ip_def srv_filter_ip_def demo_nat_info_filtered)
  have app: "as_network demo_app = Some demo_net" "as_nat_info demo_app = Some demo_nat_info" by (simp_all add: demo_app_def)
  have dec: "punch_info_from_slice ?c (punch_info_encode ?c demo_nat_info) = Inr demo_nat_info"
    unfolding punch_info_from_encoded [OF cd] by (simp add: demo_nat_info_def)
  obtain t where t: "punch_start1_packet ?c 0 0x0A1A0002 0x0A1A0004 demo_nat_info = Inr t" "tb_wf t"
    "is_control PunchStart1 0x0A1A0002 0x0A1A0004 (tb_slice t)" "np_payload (tb_slice t) = punch_info_encode ?c demo_nat_info"
    using start1_packet .
  have srv: "find_ip_to_server demo_servers [1, 2] 0x0A1A0004 = Some 2" by code_simp
  have "server_send demo_crates ?so demo_servers 0x0A1A0004 t = ([ToServer 2 (tb_slice t) (secs 5)], Inr ())"
    using t(2,3) srv
    by (simp add: server_send_def send_expired_def send_expired_impl_def server_outbound_new_def is_control_def pc_encrypt_def
        tb_into_bytes_wf send_to_server_def channel_send_def demo_crates_def)
  then have round: "punch_round demo_crates ?so ?C ?c demo_app 0 [0x0A1A0004] = ([ToServer 2 (tb_slice t) (secs 5)], Inr ())"
    using demo_candidate t(1)
    by (simp add: punch_round_def get_punch_info_def f(1) app shared_ip_def)
      (simp add: demo_net_def encrypt_reserve_def server_outbound_new_def demo_app_def no_send_def)
  have ids: "np_src_id (tb_slice t) = 0x0A1A0002" "np_dest_id (tb_slice t) = 0x0A1A0004" using t(3) by (simp_all add: is_control_def)
  have h: "vh_network_addr ?h = Some ?net" "nr_network (vh_network_route ?h) = Some ?net" "na_ip ?net = 0x0A1A0004"
    "vh_crypto ?h = None" "vh_puncher ?h" "vs_nat_info ?p = Some demo_nat_info"
    and g: "vh_network_addr demo_srv = Some demo_net" "nr_network (vh_network_route demo_srv) = Some demo_net" "vh_crypto demo_srv = None"
      "vh_puncher demo_srv"
    by (simp_all add: demo_srv_def)
  have ok': "should_punch x (vs_punch_backoff demo_srv_state) y" for x y by (simp add: demo_srv_state_def should_punch_def)
  have works: "aead_seal (oc_aead demo_crates) k n x \<noteq> None" "vc_transport ?V d" for k n x d
    by (simp_all add: demo_crates_def demo_srv_crates_def toy_aead_def)
  have "\<exists>mine theirs b1. punch_info_from_slice ?c (punch_info_encode ?c (filter_ip ?C demo_app demo_nat_info)) = Inr mine \<and>
      punch_info_from_slice ?c (punch_info_encode ?c (srv_filter_ip ?V ?h demo_nat_info)) = Inr theirs \<and>
      na_ip demo_net < na_ip ?net \<and> need_punch (as_route_table demo_app) (na_ip ?net) \<and>
      srv_handle ?V ?h (tb_from (tb_slice t)) 0 ?p =
        (?p\<lparr>vs_peer_map := update_nat_info (na_ip demo_net) mine (vs_peer_map ?p)\<rparr>,
         [SpawnPunch (millis 50) (na_ip ?net) (na_ip demo_net) mine, SrvSend b1], Inr ()) \<and>
      (\<forall>buf1 m t1 q. tb_wf buf1 \<and> tb_slice buf1 = (np_decr_ttl ^^ m) b1 \<longrightarrow> srv_handle ?V demo_srv buf1 t1 q =
        (q\<lparr>vs_punch_backoff := punch_record (vc_now_ms ?V) (na_ip ?net) (vs_punch_backoff q),
           vs_peer_map := update_nat_info (na_ip ?net) theirs (vs_peer_map q)\<rparr>,
         [SpawnPunch 0 (na_ip demo_net) (na_ip ?net) theirs], Inr ()))"
    by (rule punch_handshake [OF A(1,2,2) works refl refl round _ app _ tb_wf_from [of "tb_slice t"], where n = 0 and i = 2 and life = "secs 5"])
      (simp_all only: f, simp_all add: cd h g ids ok' server_outbound_new_def, fact ids)
  then obtain b1 where reply: "snd (srv_handle ?V ?h (tb_from (tb_slice t)) 0 ?p) =
      ([SpawnPunch (millis 50) 0x0A1A0004 0x0A1A0002 demo_nat_info, SrvSend b1], Inr ())"
    and answer: "\<forall>buf1 m t1 q. tb_wf buf1 \<and> tb_slice buf1 = (np_decr_ttl ^^ m) b1 \<longrightarrow>
      snd (srv_handle ?V demo_srv buf1 t1 q) = ([SpawnPunch 0 0x0A1A0002 0x0A1A0004 demo_nat_info], Inr ())"
    unfolding f dec by (auto simp: demo_net_def)
  have "snd (srv_handle ?V demo_srv (tb_from b1) 0 demo_srv_state) = ([SpawnPunch 0 0x0A1A0002 0x0A1A0004 demo_nat_info], Inr ())"
    using answer [rule_format, of "tb_from b1" 0] by (simp add: tb_wf_from)
  with round reply show ?thesis unfolding Let_def by blast
qed

text \<open>
  The answering side is never held off: a peer without a recorded attempt, which is every peer
  of a smaller address, since such a peer alone starts the exchange and only a reply is recorded,
  makes this node start a punch with each of any number of requests, at any times. The backoff is
  consulted for a request, and its log message says that the frequency is limited.
\<close>

lemma answering_side_never_limited:
  assumes "vh_puncher h" and "nr_network (vh_network_route h) = Some net" and "vs_nat_info s = Some own"
    and "hm_get (vs_punch_backoff s) src = None" and "k < length qs"
    and "punch_info_from_slice (vc_punch_codec (fst (qs ! k))) (np_payload (tb_slice (snd (qs ! k)))) = Inr theirs"
  shows "SpawnPunch (millis 50) (na_ip net) src theirs \<in> set (fst (snd (srv_process (fst (qs ! k)) h n (snd (qs ! k)) PunchStart1 src dest
    (fold (\<lambda>(W, q) s. fst (srv_process W h n q PunchStart1 src dest s)) (take k qs) s))))"
proof -
  let ?step = "\<lambda>(W, q) s. fst (srv_process W h n q PunchStart1 src dest s)"
  have frame: "vs_punch_backoff (?step x s) = vs_punch_backoff s \<and> vs_nat_info (?step x s) = vs_nat_info s" for x s
    by (auto simp: srv_process_def then_do_def update_peer_nat_info_def update_state_def punch_def punch_uncheck_delay_def
        done_ok_def failing_def effect_def try_do_def split: prod.splits sum.splits option.splits if_splits)
  have "vs_punch_backoff (fold ?step xs s) = vs_punch_backoff s \<and> vs_nat_info (fold ?step xs s) = vs_nat_info s" for xs s
    using frame by (induction xs arbitrary: s) simp_all
  then have run: "vs_nat_info (fold ?step (take k qs) s) = Some own" "hm_get (vs_punch_backoff (fold ?step (take k qs) s)) src = None"
    using assms(3,4) by simp_all
  then have "should_punch (vc_now_ms (fst (qs ! k))) (vs_punch_backoff (fold ?step (take k qs) s)) src" by (simp add: should_punch_def)
  from srv_process_start1 [OF assms(6) run(1) assms(1) this assms(2)] show ?thesis by (auto split: prod.splits)
qed

lemma answering_side_never_limited_witness:
  "let s = demo_srv_state\<lparr>vs_nat_info := Some demo_nat_info\<rparr>; c = vc_punch_codec demo_srv_crates;
       q = (demo_srv_crates, tb_from (replicate 16 0 @ punch_info_encode c demo_nat_info)) in
   SpawnPunch (millis 50) 0x0A1A0002 5 demo_nat_info \<in> set (fst (snd (srv_process demo_srv_crates demo_srv demo_net (snd q) PunchStart1 5 0x0A1A0002
     (fold (\<lambda>(W, q) s. fst (srv_process W demo_srv demo_net q PunchStart1 5 0x0A1A0002 s)) (replicate 100 q) s))))"
proof -
  let ?c = "vc_punch_codec demo_srv_crates"
  let ?q = "(demo_srv_crates, tb_from (replicate 16 0 @ punch_info_encode ?c demo_nat_info))"
  have cd: "codec_at ?c (Some (encode_nat_info demo_nat_info))" by (simp add: demo_srv_crates_def codec_at_for)
  have "punch_info_from_slice ?c (punch_info_encode ?c demo_nat_info) = Inr demo_nat_info"
    unfolding punch_info_from_encoded [OF cd] by (simp add: demo_nat_info_def)
  then have d: "punch_info_from_slice (vc_punch_codec (fst (replicate 101 ?q ! 100))) (np_payload (tb_slice (snd (replicate 101 ?q ! 100)))) = Inr demo_nat_info"
    by (subst (1 2) nth_replicate) (simp_all add: np_payload_def HEAD_LENGTH_def)
  have net: "nr_network (vh_network_route demo_srv) = Some demo_net" "vh_puncher demo_srv" by (simp_all add: demo_srv_def)
  from answering_side_never_limited [where qs = "replicate 101 ?q" and k = 100 and h = demo_srv and src = 5 and dest = "0x0A1A0002" and n = demo_net
      and s = "demo_srv_state\<lparr>vs_nat_info := Some demo_nat_info\<rparr>", OF net(2,1) _ _ _ d]
  show ?thesis unfolding Let_def by (simp add: demo_srv_state_def take_replicate) (simp add: demo_net_def)
qed

end
