(* ===== verification/Server_Connection.thy ===== *)
theory Server_Connection
  imports Server_Inbound Config_Address
begin

text \<open>
  The connection to a server: \<open>tunnel_core/server/transport/\<close> (a client over one of three
  transports), \<open>tunnel_core/server/connection_manager.rs\<close> (registration, with one server or
  coordinated over several, and the task that keeps a connection) and \<open>NetworkManager::register\<close>
  of \<open>core/mod.rs\<close>.

  A stream is a script: what will be read from it (\<open>lk_in\<close>; the end of the list is the end of the
  stream, an error item stands for a receive error or a timeout), which messages it takes
  (\<open>lk_sink\<close>) and what was written (\<open>lk_out\<close>). Opening a stream, name resolution, message codecs
  and the broadcast address of \<open>ipnet\<close> are arguments (\<open>conn_env\<close>).
\<close>

section \<open>Computations with a state that may fail\<close>

type_synonym ('s, 'a) fallible = "'s \<Rightarrow> 's \<times> 'a result"

definition fbind :: "('s, 'a) fallible \<Rightarrow> ('a \<Rightarrow> ('s, 'b) fallible) \<Rightarrow> ('s, 'b) fallible" where
  "fbind m f s = (case m s of (s', Inl e) \<Rightarrow> (s', Inl e) | (s', Inr x) \<Rightarrow> f x s')"

definition freturn :: "'a result \<Rightarrow> ('s, 'a) fallible" where
  "freturn r s = (s, r)"

lemma fbind_Inr: "fbind m f s = (s', Inr y) \<longleftrightarrow> (\<exists>s1 x. m s = (s1, Inr x) \<and> f x s1 = (s', Inr y))"
  by (auto simp: fbind_def split: prod.splits sum.splits)

section \<open>Transports\<close>

record 'f link =
  lk_in :: "'f result list"
  lk_sink :: "bytes \<Rightarrow> bool"
  lk_out :: "bytes list"

datatype ws_message = WsBinary bytes | WsClose | WsOther

datatype TransportClient =
    QuicClient "bytes link option"
  | TlsTcpClient "bytes link option"
  | WssClient "ws_message link option"
  | Pending

record 'a conn_env =
  ce_config :: "ConnectRegConfig \<Rightarrow> 'a ConnectConfig result"
  ce_quic :: "'a ConnectConfig \<Rightarrow> bytes link result"
  ce_tls_tcp :: "'a ConnectConfig \<Rightarrow> bytes link result"
  ce_wss :: "'a ConnectConfig \<Rightarrow> ws_message link result"
  ce_version :: string
  ce_request :: "PRequestPayload option codec"
  ce_response :: "PResponsePayload option codec"
  ce_net_broadcast :: "ipv4 \<Rightarrow> u8 \<Rightarrow> ipv4"

text \<open>One transport: \<open>connect\<close> only when it has no stream, \<open>send\<close> and \<open>next\<close> only when it has.\<close>

definition link_connect :: "'f link result \<Rightarrow> ('f link option, unit) fallible" where
  "link_connect opened l =
     (case l of
        Some _ \<Rightarrow> (l, Inl (Bail ''Already connected''))
      | None \<Rightarrow> (case opened of Inl e \<Rightarrow> (None, Inl e) | Inr x \<Rightarrow> (Some x, Inr ())))"

definition link_send :: "bytes \<Rightarrow> ('f link option, unit) fallible" where
  "link_send b l =
     (case l of
        None \<Rightarrow> (None, Inl (Bail ''Not connected''))
      | Some k \<Rightarrow> if lk_sink k b then (Some (k\<lparr>lk_out := lk_out k @ [b]\<rparr>), Inr ())
                  else (Some k, Inl (Bail ''send to server failed'')))"

definition link_next :: "(bytes link option, transmission) fallible" where
  "link_next l =
     (case l of
        None \<Rightarrow> (None, Inl (Bail ''Not connected''))
      | Some k \<Rightarrow>
          (case lk_in k of
             [] \<Rightarrow> (Some k, Inl (Bail ''EOF''))
           | Inl e # rest \<Rightarrow> (Some (k\<lparr>lk_in := rest\<rparr>), Inl e)
           | Inr b # rest \<Rightarrow> (Some (k\<lparr>lk_in := rest\<rparr>), Inr (tb_from b))))"

text \<open>The WebSocket transport skips what is neither binary nor a close message.\<close>

fun ws_read :: "ws_message result list \<Rightarrow> ws_message result list \<times> transmission result" where
  "ws_read [] = ([], Inl (Bail ''EOF''))"
| "ws_read (Inl e # rest) = (rest, Inl e)"
| "ws_read (Inr (WsBinary b) # rest) = (rest, Inr (tb_from b))"
| "ws_read (Inr WsClose # rest) = (rest, Inl (Bail ''Disconnected''))"
| "ws_read (Inr WsOther # rest) = ws_read rest"

definition wss_next :: "(ws_message link option, transmission) fallible" where
  "wss_next l =
     (case l of
        None \<Rightarrow> (None, Inl (Bail ''Not connected''))
      | Some k \<Rightarrow> (case ws_read (lk_in k) of (rest, r) \<Rightarrow> (Some (k\<lparr>lk_in := rest\<rparr>), r)))"

definition transport_disconnect :: "TransportClient \<Rightarrow> TransportClient" where
  "transport_disconnect c = Pending"

text \<open>\<open>connect\<close> keeps a client \<open>Pending\<close> when the stream cannot be opened.\<close>

definition transport_connect :: "'a conn_env \<Rightarrow> 'a ConnectConfig \<Rightarrow> (TransportClient, unit) fallible" where
  "transport_connect E cfg c =
     (case c of
        QuicClient l \<Rightarrow> (case link_connect (ce_quic E cfg) l of (l', r) \<Rightarrow> (QuicClient l', r))
      | TlsTcpClient l \<Rightarrow> (case link_connect (ce_tls_tcp E cfg) l of (l', r) \<Rightarrow> (TlsTcpClient l', r))
      | WssClient l \<Rightarrow> (case link_connect (ce_wss E cfg) l of (l', r) \<Rightarrow> (WssClient l', r))
      | Pending \<Rightarrow>
          (case con_protocol_type cfg of
             QuicProto \<Rightarrow> (case ce_quic E cfg of Inl e \<Rightarrow> (Pending, Inl e) | Inr l \<Rightarrow> (QuicClient (Some l), Inr ()))
           | TlsTcp \<Rightarrow> (case ce_tls_tcp E cfg of Inl e \<Rightarrow> (Pending, Inl e) | Inr l \<Rightarrow> (TlsTcpClient (Some l), Inr ()))
           | Wss \<Rightarrow> (case ce_wss E cfg of Inl e \<Rightarrow> (Pending, Inl e) | Inr l \<Rightarrow> (WssClient (Some l), Inr ()))
           | Dynamic \<Rightarrow> (Pending, Inl (Bail ''unreachable connect''))))"

definition transport_client_send :: "bytes \<Rightarrow> (TransportClient, unit) fallible" where
  "transport_client_send b c =
     (case c of
        QuicClient l \<Rightarrow> (case link_send b l of (l', r) \<Rightarrow> (QuicClient l', r))
      | TlsTcpClient l \<Rightarrow> (case link_send b l of (l', r) \<Rightarrow> (TlsTcpClient l', r))
      | WssClient l \<Rightarrow> (case link_send b l of (l', r) \<Rightarrow> (WssClient l', r))
      | Pending \<Rightarrow> (Pending, Inl (Bail ''Not connected'')))"

definition transport_next :: "(TransportClient, transmission) fallible" where
  "transport_next c =
     (case c of
        QuicClient l \<Rightarrow> (case link_next l of (l', r) \<Rightarrow> (QuicClient l', r))
      | TlsTcpClient l \<Rightarrow> (case link_next l of (l', r) \<Rightarrow> (TlsTcpClient l', r))
      | WssClient l \<Rightarrow> (case wss_next l of (l', r) \<Rightarrow> (WssClient l', r))
      | Pending \<Rightarrow> (Pending, Inl (Bail ''Not connected'')))"

section \<open>Managers\<close>

record ServerTurnManager =
  tm_server_id :: u32
  tm_config :: ConnectRegConfig
  tm_client :: TransportClient

definition turn_manager_new :: "u32 \<Rightarrow> ConnectRegConfig \<Rightarrow> ServerTurnManager" where
  "turn_manager_new server_id config = \<lparr>tm_server_id = server_id, tm_config = config, tm_client = Pending\<rparr>"

definition on_client :: "(TransportClient, 'a) fallible \<Rightarrow> (ServerTurnManager, 'a) fallible" where
  "on_client f m = (case f (tm_client m) of (c, r) \<Rightarrow> (m\<lparr>tm_client := c\<rparr>, r))"

definition disconnect :: "ServerTurnManager \<Rightarrow> ServerTurnManager" where
  "disconnect m = m\<lparr>tm_client := transport_disconnect (tm_client m)\<rparr>"

definition set_ip :: "ipv4 \<Rightarrow> ServerTurnManager \<Rightarrow> ServerTurnManager" where
  "set_ip ip m = m\<lparr>tm_config := (tm_config m)\<lparr>cc_ip := Some ip\<rparr>\<rparr>"

definition connect_and_reg :: "'a conn_env \<Rightarrow> RegistrationMode \<Rightarrow> (ServerTurnManager, ResponseMessage) fallible" where
  "connect_and_reg E mode m =
     fbind (freturn (ce_config E (tm_config m))) (\<lambda>connect_config.
     fbind (on_client (transport_connect E connect_config)) (\<lambda>_.
     fbind (on_client (transport_client_send (request_encode (ce_request E)
       (ReqReg (reg_msg_request (ce_version E) (tm_config m) (tm_server_id m) mode))))) (\<lambda>_.
     fbind (on_client transport_next) (\<lambda>buf.
     fbind (freturn (response_from_slice (ce_response E) (tb_slice buf))) (\<lambda>response m.
       case response of
         ResReg _ \<Rightarrow> (m, Inr response)
       | ResError _ \<Rightarrow> (disconnect m, Inr response)
       | ResConfirmReg _ \<Rightarrow> (disconnect m, Inr response)))))) m"

definition send_confirm :: "'a conn_env \<Rightarrow> (ServerTurnManager, ConfirmRegResponseMsg) fallible" where
  "send_confirm E =
     fbind (on_client (transport_client_send (request_encode (ce_request E) ReqConfirmReg))) (\<lambda>_.
     fbind (on_client transport_next) (\<lambda>buf.
     fbind (freturn (response_from_slice (ce_response E) (tb_slice buf))) (\<lambda>response.
       freturn (case response of
         ResConfirmReg msg \<Rightarrow> Inr msg
       | ResError _ \<Rightarrow> Inl (Bail ''Confirm failed'')
       | ResReg _ \<Rightarrow> Inl (Bail ''Unexpected response'')))))"

section \<open>Coordinated registration\<close>

text \<open>The futures that are joined act on different managers, so they are run one after the other.\<close>

definition join_all :: "('s, 'a) fallible \<Rightarrow> 's list \<Rightarrow> 's list \<times> 'a result list" where
  "join_all f ms = (map (fst \<circ> f) ms, map (snd \<circ> f) ms)"

fun check_pre_registered :: "ResponseMessage result list \<Rightarrow> unit result" where
  "check_pre_registered [] = Inr ()"
| "check_pre_registered (r # rs) =
     (case r of
        Inr (ResReg _) \<Rightarrow> check_pre_registered rs
      | Inr (ResError _) \<Rightarrow> Inl (Bail ''registration failed'')
      | Inr (ResConfirmReg _) \<Rightarrow> Inl (Bail ''Unexpected response'')
      | Inl _ \<Rightarrow> Inl (Bail ''registration failed''))"

fun check_confirmed :: "ConfirmRegResponseMsg result list \<Rightarrow> unit result" where
  "check_confirmed [] = Inr ()"
| "check_confirmed (r # rs) =
     (case r of
        Inr msg \<Rightarrow> if cr_success msg then check_confirmed rs else Inl (Bail ''confirmation failed'')
      | Inl _ \<Rightarrow> Inl (Bail ''confirmation failed''))"

definition coordinated_registration ::
  "'a conn_env \<Rightarrow> (ServerTurnManager list, RegResponseMsg) fallible" where
  "coordinated_registration E managers =
     (case managers of
        [] \<Rightarrow> ([], Inl (Bail ''No servers to register''))
      | m # rest \<Rightarrow>
          (case connect_and_reg E PreRegister m of
             (m, Inl e) \<Rightarrow> (m # rest, Inl e)
           | (m, Inr (ResReg reg)) \<Rightarrow>
               (case join_all (connect_and_reg E PreRegister) (map (set_ip (rs_ip reg)) rest) of
                  (rest, other_results) \<Rightarrow>
                    (case check_pre_registered other_results of
                       Inl e \<Rightarrow> (m # rest, Inl e)
                     | Inr _ \<Rightarrow>
                         (case join_all (send_confirm E) (m # rest) of
                            (managers, confirm_results) \<Rightarrow>
                              (managers, rbind (check_confirmed confirm_results) (\<lambda>_. Inr reg)))))
           | (m, Inr (ResError _)) \<Rightarrow> (m # rest, Inl (Bail ''First server registration failed''))
           | (m, Inr (ResConfirmReg _)) \<Rightarrow> (m # rest, Inl (Bail ''Unexpected response from first server''))))"

section \<open>Starting up\<close>

text \<open>\<open>create_server_tunnel\<close>: one manager and one channel per configured address, numbered in order.\<close>

definition create_server_tunnel ::
  "('k, 'z) aead_scheme \<Rightarrow> Config \<Rightarrow> 'c option \<Rightarrow> ServerTurnManager list result \<times> 'c ServerOutbound \<times> ServerInfoCollection" where
  "create_server_tunnel A config pc =
     (let n = length (cfg_server_addr config); ids = map of_nat [0..<n] in
      (collect_results (map (\<lambda>i. rbind (config_to_connect_config A config i) (\<lambda>c. Inr (turn_manager_new (of_nat i) c))) [0..<n]),
       server_outbound_new ids pc,
       update_server (zip ids (cfg_server_addr config)) server_info_new))"

record 'k NetworkManager =
  nm_app_state :: "'k AppState"
  nm_registration_context :: "ServerTurnManager list option"

definition network_addr_of :: "'a conn_env \<Rightarrow> RegResponseMsg \<Rightarrow> NetworkAddr result" where
  "network_addr_of E reg =
     (if rs_prefix_len reg > 32 then Inl OtherError
      else Inr \<lparr>na_gateway = rs_gateway reg, na_broadcast = ce_net_broadcast E (rs_ip reg) (rs_prefix_len reg),
                na_ip = rs_ip reg, na_prefix_len = rs_prefix_len reg\<rparr>)"

definition registered ::
  "'a conn_env \<Rightarrow> ServerTurnManager list \<Rightarrow> ServerTurnManager list \<times> RegResponseMsg result" where
  "registered E managers =
     (if length managers > 1 then coordinated_registration E managers
      else case managers of
        [] \<Rightarrow> ([], Inl Panic)
      | m # rest \<Rightarrow>
          (case connect_and_reg E Normal m of
             (m, Inl e) \<Rightarrow> (m # rest, Inl e)
           | (m, Inr (ResReg reg)) \<Rightarrow> (m # rest, Inr reg)
           | (m, Inr (ResError _)) \<Rightarrow> (m # rest, Inl (Bail ''Registration failed''))
           | (m, Inr (ResConfirmReg _)) \<Rightarrow> (m # rest, Inl (Bail ''Unexpected ConfirmReg response''))))"

text \<open>
  \<open>register\<close>: the context is taken whatever happens; on success its managers are given to the
  tasks that keep the connections, here the second component.
\<close>

definition register ::
  "'a conn_env \<Rightarrow> ('k NetworkManager, NetworkAddr \<times> ServerTurnManager list) fallible" where
  "register E nm =
     (case nm_registration_context nm of
        None \<Rightarrow> (nm, Inl (Bail ''register can only be called once''))
      | Some managers \<Rightarrow>
          let nm = nm\<lparr>nm_registration_context := None\<rparr> in
          (case registered E managers of
             (_, Inl e) \<Rightarrow> (nm, Inl e)
           | (managers, Inr reg) \<Rightarrow>
               (case network_addr_of E reg of
                  Inl e \<Rightarrow> (nm, Inl e)
                | Inr network_addr \<Rightarrow>
                    let s = nm_app_state nm;
                        s = s\<lparr>as_network := shared_set network_addr (as_network s)\<rparr>;
                        s = (if rs_server_version reg = [] then s
                             else s\<lparr>as_server_info := fold (\<lambda>i. set_server_version (of_nat i) (rs_server_version reg))
                               [0..<length managers] (as_server_info s)\<rparr>) in
                    (nm\<lparr>nm_app_state := s\<rparr>, Inr (network_addr, managers)))))"

section \<open>The task that keeps a connection\<close>

text \<open>
  One turn of \<open>data_handle_loop\<close>: a message from the channel, whether it has expired; a read from
  the server; a tick of the ping timer. \<open>now\<close> is the clock in milliseconds. The handler's
  messages go out over the client; its errors are logged, those of the loop end it. The \<open>else\<close>
  branch is never taken, a read and a tick being always possible.
\<close>

datatype loop_event = FromChannel bytes bool | FromServer | PingTick

record ConnTask =
  ct_manager :: ServerTurnManager
  ct_state :: SrvState
  ct_time :: int

definition client_sink :: "TransportClient \<Rightarrow> bytes \<Rightarrow> bool" where
  "client_sink c b \<longleftrightarrow> (case snd (transport_client_send b c) of Inr _ \<Rightarrow> True | Inl _ \<Rightarrow> False)"

fun client_write :: "srv_event list \<Rightarrow> TransportClient \<Rightarrow> TransportClient" where
  "client_write [] c = c"
| "client_write (SrvSend b # es) c = client_write es (fst (transport_client_send b c))"
| "client_write (e # es) c = client_write es c"

definition handler_do :: "'c srv_crates \<Rightarrow> ('c srv_crates \<Rightarrow> (SrvState, srv_event) action) \<Rightarrow> (ConnTask, unit) fallible" where
  "handler_do W a t =
     (case a (W\<lparr>vc_transport := client_sink (tm_client (ct_manager t))\<rparr>) (ct_state t) of
        (s, es, r) \<Rightarrow>
          (t\<lparr>ct_state := s, ct_manager := (ct_manager t)\<lparr>tm_client := client_write es (tm_client (ct_manager t))\<rparr>\<rparr>, r))"

definition on_manager :: "(ServerTurnManager, 'a) fallible \<Rightarrow> (ConnTask, 'a) fallible" where
  "on_manager f t = (case f (ct_manager t) of (m, r) \<Rightarrow> (t\<lparr>ct_manager := m\<rparr>, r))"

definition unless_panic :: "unit result \<Rightarrow> unit result" where
  "unless_panic r = (if r = Inl Panic then r else Inr ())"

definition loop_step ::
  "'c srv_crates \<Rightarrow> 'c ServerTurnInboundHandler \<Rightarrow> int \<Rightarrow> loop_event \<Rightarrow> (ConnTask, unit) fallible" where
  "loop_step W h now ev t =
     (case ev of
        FromChannel b expired \<Rightarrow>
          if expired then (t, Inr ()) else on_manager (on_client (transport_client_send b)) t
      | FromServer \<Rightarrow>
          (case on_manager (on_client transport_next) t of
             (t, r) \<Rightarrow>
               let t = t\<lparr>ct_time := now\<rparr> in
               (case r of
                  Inl e \<Rightarrow> (t, Inl e)
                | Inr data \<Rightarrow>
                    (case handler_do W (\<lambda>W. srv_handle W h data now) t of (t, r) \<Rightarrow> (t, unless_panic r))))
      | PingTick \<Rightarrow>
          if now > ct_time t + 20000 then (t, Inl (Bail ''timeout''))
          else handler_do W (\<lambda>W. handle_ping W h now) t)"

text \<open>Between two connections: the connection is up, lost and to be made again, or given up.\<close>

datatype phase = Up | Lost | Ended

text \<open>
  The part of the task before the loop, when the connection has been lost: a failed attempt is
  repeated, another address, prefix length or gateway than at the start, or a refusal, ends it.
\<close>

definition give_up :: "'c srv_crates \<Rightarrow> 'c ServerTurnInboundHandler \<Rightarrow> ConnTask \<Rightarrow> ConnTask" where
  "give_up W h t =
     (let t = t\<lparr>ct_manager := disconnect (ct_manager t)\<rparr> in
      t\<lparr>ct_state := fst (handle_disconnected W h (ct_state t))\<rparr>)"

definition same_network :: "RegResponseMsg \<Rightarrow> NetworkAddr \<Rightarrow> bool" where
  "same_network reg a \<longleftrightarrow> rs_ip reg = na_ip a \<and> rs_prefix_len reg = na_prefix_len a \<and> rs_gateway reg = na_gateway a"

definition task_connected :: "'c srv_crates \<Rightarrow> 'c ServerTurnInboundHandler \<Rightarrow> ConnTask \<Rightarrow> ConnTask" where
  "task_connected W h t = t\<lparr>ct_state := fst (handle_connected W h (ct_state t)), ct_time := vc_now_ms W\<rparr>"

definition task_reconnect ::
  "'a conn_env \<Rightarrow> 'c srv_crates \<Rightarrow> 'c ServerTurnInboundHandler \<Rightarrow> NetworkAddr \<Rightarrow> ConnTask \<Rightarrow> phase \<times> ConnTask" where
  "task_reconnect E W h initial t =
     (case on_manager (connect_and_reg E Normal) (give_up W h t) of
        (t, Inl _) \<Rightarrow> (Lost, t)
      | (t, Inr (ResReg reg)) \<Rightarrow>
          if \<not> same_network reg initial then (Ended, give_up W h t)
          else
            let t = (if rs_server_version reg = [] then t
              else t\<lparr>ct_state := (ct_state t)\<lparr>vs_server_info :=
                set_server_version (vh_server_id h) (rs_server_version reg) (vs_server_info (ct_state t))\<rparr>\<rparr>) in
            (Up, task_connected W h t)
      | (t, Inr _) \<Rightarrow> (Ended, give_up W h t))"

inductive conn_step ::
  "'c ServerTurnInboundHandler \<Rightarrow> NetworkAddr \<Rightarrow> phase \<times> ConnTask \<Rightarrow> phase \<times> ConnTask \<Rightarrow> bool" for h initial where
  turn: "loop_step W h now ev t = (t', Inr ()) \<Longrightarrow> conn_step h initial (Up, t) (Up, t')"
| lost: "loop_step W h now ev t = (t', Inl e) \<Longrightarrow> e \<noteq> Panic \<Longrightarrow> conn_step h initial (Up, t) (Lost, t')"
| again: "task_reconnect (E :: unit conn_env) W h initial t = pt \<Longrightarrow> conn_step h initial (Lost, t) pt"

section \<open>What is written to a server\<close>

definition sent :: "ServerTurnManager \<Rightarrow> bytes list" where
  "sent m = (case tm_client m of
     QuicClient (Some l) \<Rightarrow> lk_out l | TlsTcpClient (Some l) \<Rightarrow> lk_out l | WssClient (Some l) \<Rightarrow> lk_out l | _ \<Rightarrow> [])"

text \<open>Streams begin with nothing written.\<close>

definition fresh_links :: "'a conn_env \<Rightarrow> bool" where
  "fresh_links E \<longleftrightarrow> (\<forall>c l. ce_quic E c = Inr l \<longrightarrow> lk_out l = []) \<and> (\<forall>c l. ce_tls_tcp E c = Inr l \<longrightarrow> lk_out l = []) \<and>
     (\<forall>c l. ce_wss E c = Inr l \<longrightarrow> lk_out l = [])"

definition reg_bytes :: "'a conn_env \<Rightarrow> RegistrationMode \<Rightarrow> ServerTurnManager \<Rightarrow> bytes" where
  "reg_bytes E mode m = request_encode (ce_request E) (ReqReg (reg_msg_request (ce_version E) (tm_config m) (tm_server_id m) mode))"

definition confirm_bytes :: "'a conn_env \<Rightarrow> bytes" where
  "confirm_bytes E = request_encode (ce_request E) ReqConfirmReg"

lemma connected_sent:
  assumes "transport_connect E cfg Pending = (c, r)" and "fresh_links E"
  shows "sent (m\<lparr>tm_client := c\<rparr>) = []"
  using assms by (auto simp: transport_connect_def sent_def fresh_links_def split: ProtocolType.splits sum.splits)

lemma send_sent:
  assumes "transport_client_send b (tm_client m) = (c, r)"
  shows "sent (m\<lparr>tm_client := c\<rparr>) = (case r of Inr _ \<Rightarrow> sent m @ [b] | Inl _ \<Rightarrow> sent m)"
  using assms by (auto simp: transport_client_send_def link_send_def sent_def split: TransportClient.splits option.splits if_splits)

lemma next_sent:
  assumes "transport_next (tm_client m) = (c, r)"
  shows "sent (m\<lparr>tm_client := c\<rparr>) = sent m"
  using assms by (auto simp: transport_next_def link_next_def wss_next_def sent_def
    split: TransportClient.splits option.splits list.splits sum.splits prod.splits)

lemma on_client_cases: "on_client f m = (m', r) \<longleftrightarrow> (\<exists>c. f (tm_client m) = (c, r) \<and> m' = m\<lparr>tm_client := c\<rparr>)"
  by (auto simp: on_client_def split: prod.splits)

lemma fbind_cases:
  assumes "fbind m f s = (s', r)"
  obtains (stop) e where "m s = (s', Inl e)" "r = Inl e"
  | (go) s1 x where "m s = (s1, Inr x)" "f x s1 = (s', r)"
  using assms by (auto simp: fbind_def split: prod.splits sum.splits)

lemma sent_pending: "tm_client m = Pending \<Longrightarrow> sent m = []"
  by (simp add: sent_def)

lemma sent_disconnect [simp]: "sent (disconnect m) = []"
  by (simp add: sent_def disconnect_def transport_disconnect_def)

lemma connect_and_reg_sent:
  assumes "connect_and_reg E mode m = (m', r)" and "tm_client m = Pending" and "fresh_links E"
  shows "sent m' = [] \<or> sent m' = [reg_bytes E mode m]"
    and "r = Inr (ResReg reg) \<Longrightarrow> sent m' = [reg_bytes E mode m]"
proof -
  have none: "sent m = []" using assms(2) by (simp add: sent_def)
  have "(sent m' = [] \<or> sent m' = [reg_bytes E mode m]) \<and> (r = Inr (ResReg reg) \<longrightarrow> sent m' = [reg_bytes E mode m])"
    using assms(1) unfolding connect_and_reg_def
  proof (cases rule: fbind_cases)
    case stop
    with none show ?thesis by (auto simp: freturn_def)
  next
    case (go m1 cc)
    then have m1: "m1 = m" by (simp add: freturn_def)
    from go(2) show ?thesis unfolding m1
    proof (cases rule: fbind_cases)
      case stop
      then show ?thesis using connected_sent assms(2,3) by (fastforce simp: on_client_cases)
    next
      case (go m2 u)
      then obtain c where c: "transport_connect E cc Pending = (c, Inr u)" "m2 = m\<lparr>tm_client := c\<rparr>"
        using assms(2) by (auto simp: on_client_cases)
      have s2: "sent m2 = []" using connected_sent [OF c(1) assms(3)] by (simp add: c(2))
      have b: "request_encode (ce_request E) (ReqReg (reg_msg_request (ce_version E) (tm_config m) (tm_server_id m) mode)) = reg_bytes E mode m"
        by (simp add: reg_bytes_def)
      from go(2) show ?thesis unfolding b
      proof (cases rule: fbind_cases)
        case (stop e)
        with send_sent [where m = m2] s2 show ?thesis by (fastforce simp: on_client_cases)
      next
        case (go m3 u3)
        then have s3: "sent m3 = [reg_bytes E mode m]" using send_sent [where m = m2] s2 by (fastforce simp: on_client_cases)
        from go(2) show ?thesis
        proof (cases rule: fbind_cases)
          case (stop e)
          with next_sent [where m = m3] s3 show ?thesis by (fastforce simp: on_client_cases)
        next
          case (go m4 buf)
          then have s4: "sent m4 = [reg_bytes E mode m]" using next_sent [where m = m3] s3 by (fastforce simp: on_client_cases)
          with go(2) show ?thesis
            by (auto simp: fbind_def freturn_def split: sum.splits ResponseMessage.splits)
        qed
      qed
    qed
  qed
  then show "sent m' = [] \<or> sent m' = [reg_bytes E mode m]" "r = Inr (ResReg reg) \<Longrightarrow> sent m' = [reg_bytes E mode m]" by auto
qed

lemma send_confirm_sent:
  assumes "send_confirm E m = (m', r)"
  shows "sent m' = sent m \<or> sent m' = sent m @ [confirm_bytes E]"
    and "r = Inr msg \<Longrightarrow> sent m' = sent m @ [confirm_bytes E]"
proof -
  have "(sent m' = sent m \<or> sent m' = sent m @ [confirm_bytes E]) \<and> (r = Inr msg \<longrightarrow> sent m' = sent m @ [confirm_bytes E])"
    using assms unfolding send_confirm_def
  proof (cases rule: fbind_cases)
    case (stop e)
    with send_sent [where m = m] show ?thesis by (fastforce simp: on_client_cases)
  next
    case (go m1 u)
    then have s1: "sent m1 = sent m @ [confirm_bytes E]" using send_sent [where m = m] by (fastforce simp: on_client_cases confirm_bytes_def)
    from go(2) show ?thesis
    proof (cases rule: fbind_cases)
      case (stop e)
      with next_sent [where m = m1] s1 show ?thesis by (fastforce simp: on_client_cases)
    next
      case (go m2 buf)
      then have "sent m2 = sent m @ [confirm_bytes E]" using next_sent [where m = m1] s1 by (fastforce simp: on_client_cases)
      with go(2) show ?thesis by (auto simp: fbind_def freturn_def split: sum.splits)
    qed
  qed
  then show "sent m' = sent m \<or> sent m' = sent m @ [confirm_bytes E]" "r = Inr msg \<Longrightarrow> sent m' = sent m @ [confirm_bytes E]" by auto
qed

lemma check_pre_registered_ok: "check_pre_registered rs = Inr () \<longleftrightarrow> (\<forall>r\<in>set rs. \<exists>reg. r = Inr (ResReg reg))"
  by (induction rs) (auto split: sum.splits ResponseMessage.splits)

lemma check_confirmed_ok: "check_confirmed rs = Inr () \<longleftrightarrow> (\<forall>r\<in>set rs. \<exists>msg. r = Inr msg \<and> cr_success msg)"
  by (induction rs) (auto split: sum.splits)

text \<open>The manager that pre-registers \<open>i\<close>-th: all but the first ask for the address the first got.\<close>

definition asking :: "ServerTurnManager list \<Rightarrow> RegResponseMsg \<Rightarrow> nat \<Rightarrow> ServerTurnManager" where
  "asking managers reg i = (if i = 0 then managers ! 0 else set_ip (rs_ip reg) (managers ! i))"

definition pre_reg :: "'a conn_env \<Rightarrow> ServerTurnManager \<Rightarrow> ServerTurnManager" where
  "pre_reg E m = fst (connect_and_reg E PreRegister m)"

lemma coordinated_cases:
  assumes "coordinated_registration E managers = (ms', r)"
  obtains (refused) e where "r = Inl e" "managers = [] \<Longrightarrow> ms' = []"
      "managers \<noteq> [] \<Longrightarrow> ms' = pre_reg E (hd managers) # tl managers"
      "\<And>reg. managers \<noteq> [] \<Longrightarrow> snd (connect_and_reg E PreRegister (hd managers)) \<noteq> Inr (ResReg reg)"
  | (aborted) reg e i where "i < length managers" "\<And>answer. snd (connect_and_reg E PreRegister (asking managers reg i)) \<noteq> Inr (ResReg answer)" "r = Inl e" "managers \<noteq> []" "snd (connect_and_reg E PreRegister (hd managers)) = Inr (ResReg reg)"
      "ms' = map (\<lambda>i. pre_reg E (asking managers reg i)) [0..<length managers]"
  | (confirmed) reg where "managers \<noteq> []" "snd (connect_and_reg E PreRegister (hd managers)) = Inr (ResReg reg)"
      "\<And>i. i < length managers \<Longrightarrow> \<exists>answer. snd (connect_and_reg E PreRegister (asking managers reg i)) = Inr (ResReg answer)"
      "ms' = map (\<lambda>i. fst (send_confirm E (pre_reg E (asking managers reg i)))) [0..<length managers]"
      "r = rbind (check_confirmed (map (\<lambda>i. snd (send_confirm E (pre_reg E (asking managers reg i)))) [0..<length managers])) (\<lambda>_. Inr reg)"
proof (cases managers)
  case Nil
  then show thesis using assms refused by (auto simp: coordinated_registration_def)
next
  case (Cons m rest)
  show thesis
  proof (cases "\<exists>reg. snd (connect_and_reg E PreRegister m) = Inr (ResReg reg)")
    case False
    then have "\<exists>e. r = Inl e \<and> ms' = pre_reg E m # rest"
      using assms unfolding Cons
      by (cases "connect_and_reg E PreRegister m")
        (auto simp: coordinated_registration_def pre_reg_def split: sum.splits ResponseMessage.splits)
    then obtain e where e: "r = Inl e" "ms' = pre_reg E m # rest" by blast
    show thesis by (rule refused [of e]) (use e False in \<open>simp_all add: Cons\<close>)
  next
    case True
    then obtain reg where reg: "connect_and_reg E PreRegister m = (pre_reg E m, Inr (ResReg reg))"
      by (metis pre_reg_def prod.collapse)
    have all: "pre_reg E m # map (\<lambda>x. pre_reg E (set_ip (rs_ip reg) x)) rest = map (\<lambda>i. pre_reg E (asking managers reg i)) [0..<length managers]"
      by (rule nth_equalityI) (auto simp: Cons asking_def nth_Cons' simp del: upt_Suc)
    let ?others = "map (\<lambda>x. snd (connect_and_reg E PreRegister (set_ip (rs_ip reg) x))) rest"
    let ?pre = "map (\<lambda>i. pre_reg E (asking managers reg i)) [0..<length managers]"
    have run: "(ms', r) = (case check_pre_registered ?others of
        Inl e \<Rightarrow> (?pre, Inl e)
      | Inr _ \<Rightarrow> (map (fst \<circ> send_confirm E) ?pre, rbind (check_confirmed (map (snd \<circ> send_confirm E) ?pre)) (\<lambda>_. Inr reg)))"
      unfolding assms [symmetric] all [symmetric]
      by (simp add: Cons coordinated_registration_def reg join_all_def comp_def pre_reg_def [symmetric] split: sum.splits)
    show thesis
    proof (cases "check_pre_registered ?others")
      case (Inl e)
      then obtain x where "x \<in> set rest" "\<forall>answer. snd (connect_and_reg E PreRegister (set_ip (rs_ip reg) x)) \<noteq> Inr (ResReg answer)"
        using check_pre_registered_ok [of ?others] by force
      then obtain j where j: "j < length rest" "\<forall>answer. snd (connect_and_reg E PreRegister (set_ip (rs_ip reg) (rest ! j))) \<noteq> Inr (ResReg answer)"
        by (auto simp: in_set_conv_nth)
      show thesis
      proof (rule aborted [of "Suc j" reg e])
        show "Suc j < length managers" using j(1) by (simp add: Cons)
        show "snd (connect_and_reg E PreRegister (asking managers reg (Suc j))) \<noteq> Inr (ResReg answer)" for answer
          using j(2) by (simp add: asking_def Cons)
        show "r = Inl e" "ms' = ?pre" using run Inl by simp_all
      qed (use reg in \<open>simp_all add: Cons\<close>)
    next
      case (Inr u)
      then have ok: "\<forall>x\<in>set rest. \<exists>answer. snd (connect_and_reg E PreRegister (set_ip (rs_ip reg) x)) = Inr (ResReg answer)"
        using check_pre_registered_ok [of ?others] by auto
      have "\<exists>answer. snd (connect_and_reg E PreRegister (asking managers reg i)) = Inr (ResReg answer)" if "i < length managers" for i
        using that ok reg by (auto simp: asking_def Cons nth_Cons')
      moreover have "ms' = map (\<lambda>i. fst (send_confirm E (pre_reg E (asking managers reg i)))) [0..<length managers]"
        "r = rbind (check_confirmed (map (\<lambda>i. snd (send_confirm E (pre_reg E (asking managers reg i)))) [0..<length managers])) (\<lambda>_. Inr reg)"
        using run Inr by (simp_all add: comp_def)
      moreover have "managers \<noteq> []" "snd (connect_and_reg E PreRegister (hd managers)) = Inr (ResReg reg)"
        using reg by (simp_all add: Cons)
      ultimately show thesis using confirmed [of reg] by blast
    qed
  qed
qed

lemma pre_reg_sent:
  assumes "fresh_links E" and "tm_client m = Pending"
  shows "sent (pre_reg E m) = [] \<or> sent (pre_reg E m) = [reg_bytes E PreRegister m]"
  using connect_and_reg_sent(1) [OF _ assms(2,1)] by (metis pre_reg_def prod.collapse)

lemma confirmed_sent:
  assumes "fresh_links E" and "tm_client m = Pending"
    and "\<exists>answer. snd (connect_and_reg E PreRegister m) = Inr (ResReg answer)"
    and "\<exists>msg. snd (send_confirm E (pre_reg E m)) = Inr msg"
  shows "sent (fst (send_confirm E (pre_reg E m))) = [reg_bytes E PreRegister m, confirm_bytes E]"
proof -
  obtain answer where "connect_and_reg E PreRegister m = (pre_reg E m, Inr (ResReg answer))"
    using assms(3) by (metis pre_reg_def prod.collapse)
  then have "sent (pre_reg E m) = [reg_bytes E PreRegister m]"
    using connect_and_reg_sent(2) [OF _ assms(2,1) refl] by blast
  moreover obtain msg where "send_confirm E (pre_reg E m) = (fst (send_confirm E (pre_reg E m)), Inr msg)"
    using assms(4) by (metis prod.collapse)
  ultimately show ?thesis using send_confirm_sent(2) [OF _ refl] by fastforce
qed

text \<open>
  C18. Registration with several servers is a two-phase commit. A server is sent a confirmation only
  if every server, the first for the configured address and the others for the address the first
  one gave, has answered the pre-registration with an address; and if registration succeeds, each
  has been sent exactly its pre-registration and the confirmation.
\<close>

theorem coordinated_registration_two_phase:
  assumes "fresh_links E" and "\<And>m. m \<in> set managers \<Longrightarrow> tm_client m = Pending"
    and "\<And>mode m. reg_bytes E mode m \<noteq> confirm_bytes E"
    and "coordinated_registration E managers = (ms', r)"
  shows "((\<exists>m\<in>set ms'. confirm_bytes E \<in> set (sent m)) \<longrightarrow>
      (\<exists>reg. \<forall>i<length managers. \<exists>answer. snd (connect_and_reg E PreRegister (asking managers reg i)) = Inr (ResReg answer) \<and>
         (i = 0 \<longrightarrow> answer = reg))) \<and>
    (\<forall>reg. r = Inr reg \<longrightarrow> length ms' = length managers \<and>
      (\<forall>i<length managers. sent (ms' ! i) = [reg_bytes E PreRegister (asking managers reg i), confirm_bytes E]))"
proof -
  have pending: "tm_client (asking managers reg i) = Pending" if "i < length managers" for reg i
    using assms(2) that by (auto simp: asking_def set_ip_def)
  have no_confirm: "confirm_bytes E \<notin> set (sent (pre_reg E m))" if "tm_client m = Pending" for m
    using pre_reg_sent [OF assms(1) that] assms(3) by fastforce
  from assms(4) show ?thesis
  proof (cases rule: coordinated_cases)
    case (refused e)
    then have "confirm_bytes E \<notin> set (sent m)" if "m \<in> set ms'" for m
      using that refused(2,3) no_confirm assms(2)
      by (cases managers) (auto simp: sent_pending)
    with refused(1) show ?thesis by blast
  next
    case (aborted reg e i)
    then have "confirm_bytes E \<notin> set (sent m)" if "m \<in> set ms'" for m
      using that no_confirm pending by auto
    with aborted(3) show ?thesis by blast
  next
    case (confirmed reg)
    have "\<exists>answer. snd (connect_and_reg E PreRegister (asking managers reg i)) = Inr (ResReg answer) \<and> (i = 0 \<longrightarrow> answer = reg)"
      if "i < length managers" for i
      using confirmed(3) [OF that] confirmed(1,2) by (auto simp: asking_def hd_conv_nth)
    moreover have "length ms' = length managers \<and> (\<forall>i<length managers. sent (ms' ! i) = [reg_bytes E PreRegister (asking managers reg' i), confirm_bytes E])"
      if r: "r = Inr reg'" for reg'
    proof -
      have same: "reg' = reg" and ok: "check_confirmed (map (\<lambda>i. snd (send_confirm E (pre_reg E (asking managers reg i)))) [0..<length managers]) = Inr ()"
        using r confirmed(5) by (auto simp: rbind_eq_Inr)
      have "\<exists>msg. snd (send_confirm E (pre_reg E (asking managers reg i))) = Inr msg" if "i < length managers" for i
        using ok that unfolding check_confirmed_ok by force
      with confirmed_sent [OF assms(1) pending] confirmed(3) show ?thesis by (simp add: same confirmed(4))
    qed
    ultimately show ?thesis by metis
  qed
qed

lemma coordinated_succeeds:
  assumes "managers \<noteq> []" and "snd (connect_and_reg E PreRegister (hd managers)) = Inr (ResReg reg)"
    and "\<And>i. i < length managers \<Longrightarrow> snd (connect_and_reg E PreRegister (asking managers reg i)) = Inr (ResReg (answers i))"
    and "\<And>i. i < length managers \<Longrightarrow> \<exists>msg. snd (send_confirm E (pre_reg E (asking managers reg i))) = Inr msg \<and> cr_success msg"
  shows "snd (coordinated_registration E managers) = Inr reg"
proof -
  obtain ms' r where run: "coordinated_registration E managers = (ms', r)" by fastforce
  then show ?thesis
  proof (cases rule: coordinated_cases)
    case (confirmed reg')
    then have "reg' = reg" using assms(2) by simp
    moreover have "check_confirmed (map (\<lambda>i. snd (send_confirm E (pre_reg E (asking managers reg i)))) [0..<length managers]) = Inr ()"
      unfolding check_confirmed_ok using assms(4) by auto
    ultimately show ?thesis using confirmed(5) run by simp
  next
    case (refused e)
    with assms(1,2) show ?thesis by blast
  next
    case (aborted reg' e i)
    then have "reg' = reg" using assms(2) by simp
    with aborted(1,2) assms(3) show ?thesis by blast
  qed
qed

text \<open>
  What the other servers answer is not looked at: when every server answers with some address
  and confirms, the registration succeeds with the first one's answer, whatever addresses, prefix
  lengths and gateways the others have assigned.
\<close>

lemma other_answers_ignored:
  assumes "managers \<noteq> []" and "snd (connect_and_reg E PreRegister (hd managers)) = Inr (ResReg reg)"
    and "\<And>i. i < length managers \<Longrightarrow> snd (connect_and_reg E PreRegister (asking managers reg i)) = Inr (ResReg (answers i))"
    and "\<And>i. i < length managers \<Longrightarrow> \<exists>msg. snd (send_confirm E (pre_reg E (asking managers reg i))) = Inr msg \<and> cr_success msg"
  shows "snd (coordinated_registration E managers) = Inr reg"
  using assms by (rule coordinated_succeeds)

text \<open>Two servers that give the node two addresses.\<close>

definition demo_reg :: "ipv4 \<Rightarrow> RegResponseMsg" where
  "demo_reg ip = \<lparr>rs_ip = ip, rs_prefix_len = 24, rs_gateway = 0x0A1A0001, rs_server_version = ''2''\<rparr>"

definition demo_env :: "unit conn_env" where
  "demo_env = \<lparr>ce_config = (\<lambda>c. Inr \<lparr>con_protocol_type = QuicProto, con_server_addr = (), con_server_domain = address (cc_server_addr c),
       con_cert_mode = cc_cert_mode c\<rparr>),
     ce_quic = (\<lambda>c. Inr \<lparr>lk_in = [Inr (if con_server_domain c = ''a'' then [1] else [2]), Inr [9]], lk_sink = (\<lambda>_. True), lk_out = []\<rparr>),
     ce_tls_tcp = (\<lambda>_. Inl OtherError), ce_wss = (\<lambda>_. Inl OtherError), ce_version = ''2'',
     ce_request = \<lparr>enc = (\<lambda>m. if m = Some PReqConfirmReg then [6] else [5]), dec = (\<lambda>_. None)\<rparr>,
     ce_response = \<lparr>enc = (\<lambda>_. []), dec = (\<lambda>b. Some (Some (if b = [9] then PResConfirmReg \<lparr>cr_success = True\<rparr>
       else PResReg (reg_response_to (demo_reg (if b = [1] then 0x0A1A0002 else 0x0A1A0063))))))\<rparr>,
     ce_net_broadcast = (\<lambda>_ _. 0x0A1A00FF)\<rparr>"

definition demo_manager :: "u32 \<Rightarrow> string \<Rightarrow> ServerTurnManager" where
  "demo_manager i a = turn_manager_new i \<lparr>cc_server_addr = \<lparr>protocol_type = QuicProto, address = a\<rparr>,
     cc_cert_mode = InsecureSkipVerification, cc_network_code = ''n'', cc_device_id = ''d'', cc_device_name = ''d'', cc_ip = None,
     cc_key_sign = None, cc_ip_variable = True\<rparr>"

definition demo_managers :: "ServerTurnManager list" where
  "demo_managers = [demo_manager 0 ''a'', demo_manager 1 ''b'']"

lemma demo_answers:
  "snd (connect_and_reg demo_env PreRegister (demo_manager 0 ''a'')) = Inr (ResReg (demo_reg 0x0A1A0002))"
  "snd (connect_and_reg demo_env PreRegister (set_ip ip (demo_manager 1 ''b''))) = Inr (ResReg (demo_reg 0x0A1A0063))"
  "snd (send_confirm demo_env (pre_reg demo_env (demo_manager 0 ''a''))) = Inr \<lparr>cr_success = True\<rparr>"
  "snd (send_confirm demo_env (pre_reg demo_env (set_ip ip (demo_manager 1 ''b'')))) = Inr \<lparr>cr_success = True\<rparr>"
  by (simp_all add: pre_reg_def connect_and_reg_def send_confirm_def fbind_def freturn_def on_client_def transport_connect_def
      transport_client_send_def transport_next_def link_send_def link_next_def demo_env_def demo_manager_def turn_manager_new_def
      set_ip_def response_from_slice_def reg_response_from_def reg_response_to_def demo_reg_def)

lemma demo_asking: "i < length demo_managers \<Longrightarrow>
   asking demo_managers reg i = (if i = 0 then demo_manager 0 ''a'' else set_ip (rs_ip reg) (demo_manager 1 ''b''))"
  by (auto simp: asking_def demo_managers_def less_Suc_eq)

lemma demo_premises:
  "demo_managers \<noteq> []" "snd (connect_and_reg demo_env PreRegister (hd demo_managers)) = Inr (ResReg (demo_reg 0x0A1A0002))"
  "i < length demo_managers \<Longrightarrow> snd (connect_and_reg demo_env PreRegister (asking demo_managers reg i)) =
    Inr (ResReg (demo_reg (if i = 0 then 0x0A1A0002 else 0x0A1A0063)))"
  "i < length demo_managers \<Longrightarrow> \<exists>msg. snd (send_confirm demo_env (pre_reg demo_env (asking demo_managers reg i))) = Inr msg \<and> cr_success msg"
  by (simp_all add: demo_asking demo_answers) (simp_all add: demo_managers_def demo_answers)

lemma other_answers_ignored_witness:
  "snd (coordinated_registration demo_env demo_managers) = Inr (demo_reg 0x0A1A0002) \<and>
   snd (connect_and_reg demo_env PreRegister (asking demo_managers (demo_reg 0x0A1A0002) 1)) = Inr (ResReg (demo_reg 0x0A1A0063))"
proof
  show "snd (coordinated_registration demo_env demo_managers) = Inr (demo_reg 0x0A1A0002)"
    by (rule other_answers_ignored [OF demo_premises])
  show "snd (connect_and_reg demo_env PreRegister (asking demo_managers (demo_reg 0x0A1A0002) 1)) = Inr (ResReg (demo_reg 0x0A1A0063))"
    using demo_premises(3) [of 1] by (simp add: demo_managers_def)
qed

theorem coordinated_registration_two_phase_witness:
  "map sent (fst (coordinated_registration demo_env demo_managers)) = [[[5], [6]], [[5], [6]]]"
proof -
  let ?ms = "fst (coordinated_registration demo_env demo_managers)"
  have "fresh_links demo_env" by (simp add: fresh_links_def demo_env_def)
  moreover have "tm_client m = Pending" if "m \<in> set demo_managers" for m
    using that by (auto simp: demo_managers_def demo_manager_def turn_manager_new_def)
  moreover have b: "reg_bytes demo_env mode m = [5]" "confirm_bytes demo_env = [6]" for mode m
    by (simp_all add: reg_bytes_def confirm_bytes_def request_encode_def demo_env_def)
  moreover have "coordinated_registration demo_env demo_managers = (?ms, Inr (demo_reg 0x0A1A0002))"
    using coordinated_succeeds [OF demo_premises] by (metis prod.collapse)
  ultimately have "length ?ms = length demo_managers \<and> (\<forall>i<length demo_managers. sent (?ms ! i) = [[5], [6]])"
    using coordinated_registration_two_phase [of demo_env demo_managers ?ms "Inr (demo_reg 0x0A1A0002)"] by (simp add: b)
  then show ?thesis by (intro nth_equalityI) (auto simp: demo_managers_def less_Suc_eq)
qed

section \<open>The life of a connection\<close>

lemma keeps_change_info:
  assumes "\<And>info. is_server_connected (g info) j = is_server_connected info j"
  shows "keeps (\<lambda>s. is_server_connected (vs_server_info s) j) (change_info g)"
  using assms by (simp add: change_info_def keeps_update)

lemma handle_server_data_keeps:
  "keeps (\<lambda>s. is_server_connected (vs_server_info s) j) (handle_server_data W h net data now)"
proof -
  have "keeps (\<lambda>s. is_server_connected (vs_server_info s) j) (case mt of
       Turn \<Rightarrow> if is_echo_reply W payload then srv_deliver W h net mt src p else done_ok
     | Ping \<Rightarrow> effect x
     | PongTurn \<Rightarrow> if c then change_info (set_server_rtt i d) else done_ok
     | PushClientIps \<Rightarrow> try_do l (\<lambda>list. change_info (update_client_simple_list i ip list now))
     | RpcRes \<Rightarrow> try_do r (\<lambda>response. update_state (\<lambda>s. s\<lparr>vs_rpc := notify_response response (vs_rpc s)\<rparr>))
     | _ \<Rightarrow> done_ok)" for mt payload src p x c i d l ip r
    by (cases mt; simp only: MsgType.case; intro keeps_intros keeps_change_info connected_kept; simp)
  then show ?thesis
    unfolding handle_server_data_def Let_def by (intro keeps_intros) blast
qed

lemma srv_handle_keeps_connected: "keeps (\<lambda>s. is_server_connected (vs_server_info s) j) (srv_handle W h data now)"
proof -
  have "keeps (\<lambda>s. is_server_connected (vs_server_info s) j) (handle_client_data W h net data)" for net
    using handle_client_data_keeps(1) [of W h net data] by (simp add: keeps_def)
  then show ?thesis
    unfolding srv_handle_def Let_def by (intro keeps_intros handle_server_data_keeps)
qed

lemma handle_ping_keeps: "fst (handle_ping W h now s) = s"
proof -
  have k: "fst (try_do r g s) = s" if "\<And>x. fst (g x s) = s" for r :: "'x result" and g :: "'x \<Rightarrow> (SrvState, srv_event) action"
    using that by (cases r) (simp_all add: failing_def)
  show ?thesis unfolding handle_ping_def Let_def by (intro k) (simp add: effect_def)
qed

lemma client_not_pending:
  "transport_client_send b c = (c', r) \<Longrightarrow> c' = Pending \<longleftrightarrow> c = Pending"
  "transport_next c = (c', r') \<Longrightarrow> c' = Pending \<longleftrightarrow> c = Pending"
  "transport_connect E cfg c = (c', Inr ()) \<Longrightarrow> c' \<noteq> Pending"
  by (auto simp: transport_client_send_def transport_next_def transport_connect_def
      split: TransportClient.splits prod.splits ProtocolType.splits sum.splits)

lemma client_write_pending: "client_write es c = Pending \<longleftrightarrow> c = Pending"
  by (induction es c rule: client_write.induct) (simp_all, metis client_not_pending(1) prod.collapse)

lemma connect_and_reg_connected:
  assumes "connect_and_reg E mode m = (m', Inr (ResReg reg))"
  shows "tm_client m' \<noteq> Pending"
proof -
  have last: "(case r of ResReg x \<Rightarrow> (m, Inr r) | ResError x \<Rightarrow> (disconnect m, Inr r) | ResConfirmReg x \<Rightarrow> (disconnect m, Inr r)) = (m', Inr (ResReg reg)) \<longleftrightarrow>
    r = ResReg reg \<and> m' = m" for r :: ResponseMessage and m
    by (cases r) auto
  from assms obtain cc c1 c2 c3 u buf where
    "transport_connect E cc (tm_client m) = (c1, Inr u)" "\<exists>b. transport_client_send b c1 = (c2, Inr ())" "transport_next c2 = (c3, Inr buf)"
    "m' = m\<lparr>tm_client := c3\<rparr>"
    unfolding connect_and_reg_def fbind_Inr freturn_def on_client_cases last prod.inject sum.inject by fastforce
  then show ?thesis using client_not_pending by fastforce
qed

definition task_inv :: "u32 \<Rightarrow> phase \<times> ConnTask \<Rightarrow> bool" where
  "task_inv i pt \<longleftrightarrow> (case pt of (p, t) \<Rightarrow>
     (p = Up \<longrightarrow> is_server_connected (vs_server_info (ct_state t)) i \<and> tm_client (ct_manager t) \<noteq> Pending) \<and>
     (p = Ended \<longrightarrow> \<not> is_server_connected (vs_server_info (ct_state t)) i \<and> tm_client (ct_manager t) = Pending))"

lemma connected_flags:
  "is_server_connected (vs_server_info (fst (handle_connected W h s))) (vh_server_id h)"
  "\<not> is_server_connected (vs_server_info (fst (handle_disconnected W h s))) (vh_server_id h)"
  by (simp_all add: handle_connected_def handle_disconnected_def change_info_def update_state_def set_server_connected_def
      set_last_connected_time_def set_disconnected_time_def is_server_connected_on_node is_server_connected_def [symmetric])
    (auto simp: is_server_connected_def on_node_def hm_get_put get_or_default_def)

lemma give_up_inv: "task_inv (vh_server_id h) (Ended, give_up W h t)"
  by (simp add: task_inv_def give_up_def Let_def connected_flags disconnect_def transport_disconnect_def)

lemma handler_do_inv:
  assumes "handler_do W a t = (t', r)" and "\<And>W. keeps (\<lambda>s. is_server_connected (vs_server_info s) i) (a W)"
    and "task_inv i (Up, t)"
  shows "task_inv i (Up, t')"
proof -
  let ?a = "a (W\<lparr>vc_transport := client_sink (tm_client (ct_manager t))\<rparr>)"
  obtain s es where s: "?a (ct_state t) = (s, es, r)"
    "t' = t\<lparr>ct_state := s, ct_manager := (ct_manager t)\<lparr>tm_client := client_write es (tm_client (ct_manager t))\<rparr>\<rparr>"
    using assms(1) by (auto simp: handler_do_def split: prod.splits)
  have "is_server_connected (vs_server_info (fst (?a (ct_state t)))) i = is_server_connected (vs_server_info (ct_state t)) i"
    using assms(2) unfolding keeps_def by blast
  with s assms(3) show ?thesis by (simp add: task_inv_def client_write_pending)
qed

lemma loop_step_inv:
  assumes "loop_step W h now ev t = (t', r)" and "task_inv i (Up, t)"
  shows "task_inv i (Up, t')"
proof (cases ev)
  case (FromChannel b expired)
  with assms client_not_pending(1) show ?thesis
    by (auto simp: loop_step_def on_manager_def on_client_def task_inv_def split: if_splits prod.splits)
next
  case FromServer
  obtain c res where n: "transport_next (tm_client (ct_manager t)) = (c, res)" by fastforce
  let ?t = "t\<lparr>ct_manager := (ct_manager t)\<lparr>tm_client := c\<rparr>, ct_time := now\<rparr>"
  have inv: "task_inv i (Up, ?t)" using assms(2) client_not_pending(2) [OF n] by (simp add: task_inv_def)
  show ?thesis
  proof (cases res)
    case (Inl e)
    then show ?thesis using assms(1) inv n by (auto simp: loop_step_def FromServer on_manager_def on_client_def)
  next
    case (Inr data)
    then obtain r' where "handler_do W (\<lambda>W. srv_handle W h data now) ?t = (t', r')"
      using assms(1) n by (auto simp: loop_step_def FromServer on_manager_def on_client_def split: prod.splits)
    from handler_do_inv [OF this srv_handle_keeps_connected inv] show ?thesis .
  qed
next
  case PingTick
  show ?thesis
  proof (cases "now > ct_time t + 20000")
    case True
    then show ?thesis using assms by (simp add: loop_step_def PingTick)
  next
    case False
    then have "handler_do W (\<lambda>W. handle_ping W h now) t = (t', r)" using assms(1) by (simp add: loop_step_def PingTick)
    from handler_do_inv [OF this _ assms(2)] show ?thesis by (simp add: keeps_def handle_ping_keeps)
  qed
qed

lemma task_reconnect_inv: "task_inv (vh_server_id h) (task_reconnect E W h initial t)"
proof -
  obtain t1 r where r: "on_manager (connect_and_reg E Normal) (give_up W h t) = (t1, r)" by fastforce
  show ?thesis
  proof (cases "\<exists>reg. r = Inr (ResReg reg)")
    case False
    then show ?thesis using r give_up_inv
      by (auto simp: task_reconnect_def task_inv_def split: sum.splits ResponseMessage.splits)
  next
    case True
    then obtain reg where reg: "r = Inr (ResReg reg)" by blast
    then have "tm_client (ct_manager t1) \<noteq> Pending"
      using r connect_and_reg_connected by (fastforce simp: on_manager_def split: prod.splits)
    then show ?thesis using r reg give_up_inv
      by (auto simp: task_reconnect_def Let_def task_connected_def connected_flags task_inv_def split: if_splits)
  qed
qed

lemma conn_step_inv: "conn_step h initial pt pt' \<Longrightarrow> task_inv (vh_server_id h) pt \<Longrightarrow> task_inv (vh_server_id h) pt'"
proof (induction rule: conn_step.induct)
  case (turn W now ev t t')
  then show ?case using loop_step_inv by blast
next
  case (lost W now ev t t' e)
  then show ?case by (simp add: task_inv_def)
next
  case (again E W t pt)
  then show ?case using task_reconnect_inv by metis
qed

interpretation conn: machine_keeps "conn_step h initial" "task_inv (vh_server_id h)" for h initial
  by unfold_locales (rule conn_step_inv)

section \<open>Properties of the task\<close>

text \<open>
  C19. The task that keeps a connection, from the moment it is handed a connected client, through
  any traffic, losses and attempts to reconnect: while its loop runs the server is marked as
  connected and there is a stream; once the task has
  ended the mark is off and the stream gone. (Between the loss of a stream and its handling, which takes the mark off, nothing is claimed.) So no packet of the
  server takes the mark off while the loop runs.
\<close>

theorem connection_task_invariant:
  assumes "(conn_step h initial)\<^sup>*\<^sup>* (Up, task_connected W h t0) (p, t)" and "tm_client (ct_manager t0) \<noteq> Pending"
  shows "(p = Up \<longrightarrow> is_server_connected (vs_server_info (ct_state t)) (vh_server_id h) \<and> tm_client (ct_manager t) \<noteq> Pending) \<and>
    (p = Ended \<longrightarrow> \<not> is_server_connected (vs_server_info (ct_state t)) (vh_server_id h) \<and> tm_client (ct_manager t) = Pending)"
proof -
  have "task_inv (vh_server_id h) (Up, task_connected W h t0)"
    using assms(2) by (simp add: task_inv_def task_connected_def connected_flags)
  with assms(1) have "task_inv (vh_server_id h) (p, t)" by (rule conn.kept_run)
  then show ?thesis by (simp add: task_inv_def)
qed

theorem connection_task_invariant_witness:
  "let t0 = \<lparr>ct_manager = fst (connect_and_reg demo_env PreRegister (demo_manager 0 ''a'')), ct_state = demo_srv_state, ct_time = 0\<rparr>;
       t = task_connected demo_srv_crates demo_srv t0 in
   (conn_step demo_srv demo_net)\<^sup>*\<^sup>* (Up, t) (Up, t) \<and> is_server_connected (vs_server_info (ct_state t)) 0"
proof -
  let ?m = "fst (connect_and_reg demo_env PreRegister (demo_manager 0 ''a''))"
  let ?start = "\<lparr>ct_manager = ?m, ct_state = demo_srv_state, ct_time = 0\<rparr>"
  let ?t = "task_connected demo_srv_crates demo_srv ?start"
  have "loop_step demo_srv_crates demo_srv 5 (FromChannel [1] True) ?t = (?t, Inr ())" by (simp add: loop_step_def)
  then have run: "(conn_step demo_srv demo_net)\<^sup>*\<^sup>* (Up, ?t) (Up, ?t)" by (intro r_into_rtranclp turn)
  have "connect_and_reg demo_env PreRegister (demo_manager 0 ''a'') = (?m, Inr (ResReg (demo_reg 0x0A1A0002)))"
    using demo_answers(1) by (metis prod.collapse)
  then have "tm_client ?m \<noteq> Pending" by (rule connect_and_reg_connected)
  then have "tm_client (ct_manager ?start) \<noteq> Pending" by simp
  from connection_task_invariant [OF run this] run show ?thesis by (simp add: demo_srv_def)
qed

end
