(* ===== verification/Task_Control.thy ===== *)
theory Task_Control
  imports VNT_Prelude
begin

text \<open>
  \<open>utils/task_control.rs\<close>: a group of tasks that is stopped as a whole. Every operation is one
  critical section of the group's mutex; a run interleaves them with the ends of tasks and with
  the two steps of each waiter, the check and the wait.

  \<open>tg_tasks\<close> are the keys of the map of handles, \<open>tg_running\<close> the futures that still exist, whose
  guard has not been dropped; \<open>tg_aborted\<close> and \<open>tg_joined\<close> record which handles were aborted or
  taken by \<open>join_all\<close>. \<open>tg_notifying\<close> counts calls of \<open>notify_waiters\<close> that are due, since the call
  follows the release of the mutex. Tokio aborts a task some time after \<open>abort\<close>.
\<close>

datatype waiter = AtCheck | BeforeWait | Waiting | Returned

record TaskGroup =
  tg_stopped :: bool
  tg_tasks :: "nat list"
  tg_running :: "nat list"
  tg_aborted :: "nat list"
  tg_joined :: "nat list"
  tg_next :: nat
  tg_notifying :: nat
  tg_waiters :: "nat \<Rightarrow> waiter"

section \<open>The operations\<close>

definition group_new :: TaskGroup where
  "group_new = \<lparr>tg_stopped = False, tg_tasks = [], tg_running = [], tg_aborted = [], tg_joined = [], tg_next = 0,
     tg_notifying = 0, tg_waiters = (\<lambda>_. AtCheck)\<rparr>"

definition group_spawn :: "TaskGroup \<Rightarrow> nat option \<times> TaskGroup" where
  "group_spawn g =
     (if tg_stopped g then (None, g)
      else (Some (tg_next g),
            g\<lparr>tg_tasks := tg_next g # tg_tasks g, tg_running := tg_next g # tg_running g, tg_next := Suc (tg_next g)\<rparr>))"

definition group_stop :: "TaskGroup \<Rightarrow> TaskGroup" where
  "group_stop g = g\<lparr>tg_stopped := True, tg_aborted := tg_tasks g @ tg_aborted g, tg_tasks := []\<rparr>"

text \<open>A group whose last task has gone is stopped.\<close>

definition remove_task :: "nat \<Rightarrow> TaskGroup \<Rightarrow> TaskGroup" where
  "remove_task i g =
     (let tasks = removeAll i (tg_tasks g) in
      if tasks = [] then g\<lparr>tg_tasks := [], tg_stopped := True, tg_notifying := Suc (tg_notifying g)\<rparr>
      else g\<lparr>tg_tasks := tasks\<rparr>)"

text \<open>The end of a task, by itself or aborted: its future and with it the guard are dropped.\<close>

definition task_end :: "nat \<Rightarrow> TaskGroup \<Rightarrow> TaskGroup" where
  "task_end i g = remove_task i (g\<lparr>tg_running := removeAll i (tg_running g)\<rparr>)"

definition abort_task :: "nat \<Rightarrow> TaskGroup \<Rightarrow> TaskGroup" where
  "abort_task i g =
     (if i \<in> set (tg_tasks g) then g\<lparr>tg_tasks := removeAll i (tg_tasks g), tg_aborted := i # tg_aborted g\<rparr> else g)"

definition group_join_all :: "TaskGroup \<Rightarrow> TaskGroup" where
  "group_join_all g = g\<lparr>tg_joined := tg_tasks g @ tg_joined g, tg_tasks := []\<rparr>"

definition all_tasks_stopped :: "TaskGroup \<Rightarrow> bool" where
  "all_tasks_stopped g \<longleftrightarrow> tg_stopped g \<and> tg_tasks g = []"

definition subtask_is_running :: "nat \<Rightarrow> TaskGroup \<Rightarrow> bool" where
  "subtask_is_running i g \<longleftrightarrow> i \<in> set (tg_tasks g)"

text \<open>\<open>notify_waiters\<close> wakes those that wait at that moment, and keeps no permit for later ones.\<close>

definition notify_waiters :: "TaskGroup \<Rightarrow> TaskGroup" where
  "notify_waiters g =
     g\<lparr>tg_notifying := tg_notifying g - 1, tg_waiters := (\<lambda>w. if tg_waiters g w = Waiting then AtCheck else tg_waiters g w)\<rparr>"

text \<open>\<open>wait_all_stopped\<close>: the check, and then the call of \<open>notified()\<close>.\<close>

definition waiter_check :: "nat \<Rightarrow> TaskGroup \<Rightarrow> TaskGroup" where
  "waiter_check w g = g\<lparr>tg_waiters := (tg_waiters g)(w := if all_tasks_stopped g then Returned else BeforeWait)\<rparr>"

definition waiter_wait :: "nat \<Rightarrow> TaskGroup \<Rightarrow> TaskGroup" where
  "waiter_wait w g = g\<lparr>tg_waiters := (tg_waiters g)(w := Waiting)\<rparr>"

text \<open>\<open>TaskGroupManager\<close>: at most one group; dropping the guard takes the group away and stops it.\<close>

definition manager_create_task :: "TaskGroup option \<Rightarrow> (TaskGroup \<times> TaskGroup option) result" where
  "manager_create_task m = (case m of Some _ \<Rightarrow> Inl (Bail ''running'') | None \<Rightarrow> Inr (group_new, Some group_new))"

definition manager_stop :: "TaskGroup option \<Rightarrow> TaskGroup option" where
  "manager_stop m = map_option group_stop m"

definition group_guard_drop :: "TaskGroup option \<Rightarrow> TaskGroup option \<times> TaskGroup option" where
  "group_guard_drop m = (map_option group_stop m, None)"

definition manager_is_running :: "TaskGroup option \<Rightarrow> bool" where
  "manager_is_running m \<longleftrightarrow> m \<noteq> None"

section \<open>Runs\<close>

inductive group_step :: "TaskGroup \<Rightarrow> TaskGroup \<Rightarrow> bool" where
  spawn: "group_spawn g = (i, g') \<Longrightarrow> group_step g g'"
| stop: "group_step g (group_stop g)"
| ends: "i \<in> set (tg_running g) \<Longrightarrow> group_step g (task_end i g)"
| abort: "group_step g (abort_task i g)"
| join: "group_step g (group_join_all g)"
| notify: "tg_notifying g > 0 \<Longrightarrow> group_step g (notify_waiters g)"
| check: "tg_waiters g w = AtCheck \<Longrightarrow> group_step g (waiter_check w g)"
| wait: "tg_waiters g w = BeforeWait \<Longrightarrow> group_step g (waiter_wait w g)"

inductive_cases group_stepE: "group_step g g'"

abbreviation group_run :: "TaskGroup \<Rightarrow> TaskGroup \<Rightarrow> bool" where
  "group_run \<equiv> group_step\<^sup>*\<^sup>*"

lemmas group_defs = group_spawn_def group_stop_def remove_task_def task_end_def abort_task_def group_join_all_def
  notify_waiters_def waiter_check_def waiter_wait_def Let_def

definition group_inv :: "TaskGroup \<Rightarrow> bool" where
  "group_inv g \<longleftrightarrow> set (tg_tasks g) \<subseteq> set (tg_running g) \<and>
     set (tg_running g) \<subseteq> set (tg_tasks g) \<union> set (tg_aborted g) \<union> set (tg_joined g) \<and>
     (\<forall>i\<in>set (tg_running g) \<union> set (tg_aborted g) \<union> set (tg_joined g). i < tg_next g)"

lemma removeAll_Nil: "removeAll x xs = [] \<longleftrightarrow> set xs \<subseteq> {x}"
  by (induction xs) auto

lemma group_inv_step: "group_step g g' \<Longrightarrow> group_inv g \<Longrightarrow> group_inv g'"
proof (induction rule: group_step.induct)
  case (spawn g i g')
  then show ?case by (auto simp: group_inv_def group_spawn_def less_Suc_eq split: if_splits)
next
  case (ends i g)
  then show ?case by (auto simp: group_inv_def task_end_def remove_task_def Let_def removeAll_Nil)
next
  case (abort g i)
  then show ?case by (auto simp: group_inv_def abort_task_def)
qed (auto simp: group_inv_def group_stop_def group_join_all_def notify_waiters_def waiter_check_def waiter_wait_def)

interpretation group: machine_keeps group_step group_inv
  by unfold_locales (rule group_inv_step)

lemma stopped_step:
  assumes "group_step g g'" and "tg_stopped g"
  shows "tg_stopped g' \<and> set (tg_running g') \<subseteq> set (tg_running g) \<and> set (tg_tasks g') \<subseteq> set (tg_tasks g) \<and>
    set (tg_aborted g) \<subseteq> set (tg_aborted g') \<and> tg_next g' = tg_next g"
  using assms by (cases rule: group_stepE) (auto simp: group_defs split: if_splits)

definition stopped_since :: "TaskGroup \<Rightarrow> TaskGroup \<Rightarrow> bool" where
  "stopped_since g g' \<longleftrightarrow> tg_stopped g' \<and> set (tg_running g') \<subseteq> set (tg_running g) \<and> set (tg_tasks g') \<subseteq> set (tg_tasks g) \<and>
    set (tg_aborted g) \<subseteq> set (tg_aborted g') \<and> tg_next g' = tg_next g"

interpretation stopped: machine_keeps group_step "stopped_since g" for g
proof unfold_locales
  fix g1 g2
  assume "group_step g1 g2" and "stopped_since g g1"
  with stopped_step [of g1 g2] show "stopped_since g g2" by (auto simp: stopped_since_def)
qed

lemma stopped_run:
  assumes "group_run g g'" and "tg_stopped g"
  shows "tg_stopped g' \<and> set (tg_running g') \<subseteq> set (tg_running g) \<and> set (tg_tasks g') \<subseteq> set (tg_tasks g) \<and>
    set (tg_aborted g) \<subseteq> set (tg_aborted g') \<and> tg_next g' = tg_next g"
  using stopped.kept_run [OF assms(1), of g] assms(2) by (simp add: stopped_since_def)

text \<open>A waiter that waits when nothing is left to happen in the group.\<close>

definition forgotten :: "nat \<Rightarrow> TaskGroup \<Rightarrow> bool" where
  "forgotten w g \<longleftrightarrow> tg_stopped g \<and> tg_running g = [] \<and> tg_tasks g = [] \<and> tg_notifying g = 0 \<and> tg_waiters g w = Waiting"

interpretation waiter: machine_keeps group_step "forgotten w" for w
  by unfold_locales (erule group_stepE; auto simp: forgotten_def group_defs split: if_splits)

text \<open>A waiter that waits now and after every further step.\<close>

definition never_woken :: "nat \<Rightarrow> TaskGroup \<Rightarrow> bool" where
  "never_woken w g \<longleftrightarrow> {g'. group_run g g'} \<subseteq> {g'. tg_waiters g' w = Waiting}"

lemma forgotten_never_woken: "forgotten w g \<Longrightarrow> never_woken w g"
  using waiter.run_within [of w g] by (auto simp: never_woken_def forgotten_def)

section \<open>Properties\<close>

text \<open>
  C30. Stopping a group reaches every task: in whatever order tasks were started, ended, aborted
  and waited for, after \<open>stop\<close> no task can be started in the group any more, and every task that
  still exists then or later has been aborted, or its handle had been taken by \<open>join_all\<close>.
\<close>

theorem stop_reaches_every_task:
  assumes "group_run group_new g" and "group_run (group_stop g) g'"
  shows "fst (group_spawn g') = None \<and> tg_next g' = tg_next g \<and> set (tg_running g') \<subseteq> set (tg_running g) \<and>
    set (tg_running g') \<subseteq> set (tg_aborted g') \<union> set (tg_joined g) \<and> (\<forall>i. \<not> subtask_is_running i g')"
proof -
  have "group_inv group_new" by (simp add: group_inv_def group_new_def)
  from group.kept_run [OF assms(1) this] have inv: "group_inv g" .
  have "tg_stopped (group_stop g)" by (simp add: group_stop_def)
  note s = stopped_run [OF assms(2) this]
  have "set (tg_running g') \<subseteq> set (tg_running g)" "tg_next g' = tg_next g" using s by (simp_all add: group_stop_def)
  moreover have "set (tg_running g) \<subseteq> set (tg_aborted (group_stop g)) \<union> set (tg_joined g)"
    using inv by (auto simp: group_inv_def group_stop_def)
  moreover have "tg_tasks g' = []" using s by (simp add: group_stop_def)
  ultimately show ?thesis using s by (auto simp: group_spawn_def subtask_is_running_def)
qed

text \<open>Two tasks; one ends, the group is stopped and a task is refused.\<close>

theorem stop_reaches_every_task_witness:
  "let g = task_end 0 (snd (group_spawn (snd (group_spawn group_new)))) in
   group_run group_new g \<and> tg_running (group_stop g) = [1] \<and> tg_aborted (group_stop g) = [1] \<and>
   fst (group_spawn (group_stop g)) = None"
proof -
  let ?g1 = "snd (group_spawn group_new)"
  let ?g2 = "snd (group_spawn ?g1)"
  have "group_step group_new ?g1" "group_step ?g1 ?g2" by (auto intro: group_step.spawn [OF prod.collapse [symmetric]])
  then have "group_run group_new ?g2" by (rule rtranclp.rtrancl_into_rtrancl [OF r_into_rtranclp])
  moreover have "group_step ?g2 (task_end 0 ?g2)" by (rule ends) (simp add: group_spawn_def group_new_def)
  ultimately have run: "group_run group_new (task_end 0 ?g2)" by (rule rtranclp.rtrancl_into_rtrancl)
  from stop_reaches_every_task [OF run rtranclp.rtrancl_refl] run show ?thesis
    by (simp add: group_defs group_new_def)
qed

text \<open>
  C40. \<open>wait_all_stopped\<close> does not do what its name says, in two ways. There is a run after which a
  waiter waits, all tasks have ended and the group is stopped, and nothing that can still happen
  wakes it: the last task ended between its check and its wait, and \<open>notify_waiters\<close> leaves no permit.
  And there is a run in which a waiter has returned while a task still runs, because \<open>stop\<close> empties
  the map before the aborted tasks have ended.
\<close>

theorem wait_all_stopped_unreliable:
  "(\<exists>g. group_run group_new g \<and> tg_running g = [] \<and> all_tasks_stopped g \<and> never_woken 0 g) \<and>
   (\<exists>g. group_run group_new g \<and> tg_waiters g 0 = Returned \<and> tg_running g \<noteq> [])"
proof
  let ?g1 = "snd (group_spawn group_new)"
  have s1: "group_step group_new ?g1" by (rule group_step.spawn [OF prod.collapse [symmetric]])
  let ?g2 = "waiter_check 0 ?g1"
  let ?g3 = "task_end 0 ?g2"
  let ?g4 = "notify_waiters ?g3"
  let ?g5 = "waiter_wait 0 ?g4"
  have s2: "group_step ?g1 ?g2" by (rule check) (simp add: group_spawn_def group_new_def)
  have s3: "group_step ?g2 ?g3" by (rule ends) (simp add: waiter_check_def group_spawn_def group_new_def)
  have s4: "group_step ?g3 ?g4"
    by (rule notify) (simp add: task_end_def remove_task_def waiter_check_def group_spawn_def group_new_def)
  have s5: "group_step ?g4 ?g5"
    by (rule wait) (simp add: notify_waiters_def task_end_def remove_task_def waiter_check_def all_tasks_stopped_def group_spawn_def group_new_def)
  have into: "group_run a b \<Longrightarrow> group_step b c \<Longrightarrow> group_run a c" for a b c by (rule rtranclp.rtrancl_into_rtrancl)
  have r1: "group_run group_new ?g1" using s1 by (rule r_into_rtranclp)
  have run: "group_run group_new ?g5" by (rule into [OF into [OF into [OF into [OF r1 s2] s3] s4] s5])
  have f: "forgotten 0 ?g5"
    by (simp add: forgotten_def waiter_wait_def notify_waiters_def task_end_def remove_task_def waiter_check_def group_spawn_def group_new_def)
  then have "tg_running ?g5 = []" "all_tasks_stopped ?g5" by (simp_all add: forgotten_def all_tasks_stopped_def)
  with run forgotten_never_woken [OF f]
  show "\<exists>g. group_run group_new g \<and> tg_running g = [] \<and> all_tasks_stopped g \<and> never_woken 0 g" by blast
  let ?h2 = "group_stop ?g1"
  let ?h3 = "waiter_check 0 ?h2"
  have h2: "group_step ?g1 ?h2" by (rule stop)
  have h3: "group_step ?h2 ?h3" by (rule check) (simp add: group_stop_def group_spawn_def group_new_def)
  have "group_run group_new ?h3" by (rule into [OF into [OF r1 h2] h3])
  moreover have "tg_waiters ?h3 0 = Returned" "tg_running ?h3 \<noteq> []"
    by (simp_all add: waiter_check_def all_tasks_stopped_def group_stop_def group_spawn_def group_new_def)
  ultimately show "\<exists>g. group_run group_new g \<and> tg_waiters g 0 = Returned \<and> tg_running g \<noteq> []" by blast
qed

end
