(* ===== verification/Launch_Config.thy ===== *)
theory Launch_Config
  imports Config_Address Context_Stats
begin

text \<open>
  The three ways a configuration is made: \<open>src/args_config.rs\<close> builds it of the command line
  and of a TOML file, \<open>vnt-web/src/service_http.rs\<close> of the file a browser names
  (\<open>convert_config\<close>). The identity of the device comes from \<open>utils/device_id.rs\<close>.

  The command line parser \<open>clap\<close> and the TOML reader have done their work: \<open>Args\<close>, \<open>FileConfig\<close>
  and \<open>StartConfig\<close> are the values they return. What is asked of the system is the record
  \<open>launch_env\<close>.
\<close>

section \<open>The system\<close>

text \<open>
  \<open>le_machine_uid\<close> is the outcome of \<open>machine_uid::get\<close>, \<open>le_device_file\<close> what reading the file
  \<open>device_id\<close> gives, \<open>le_new_uuid\<close> the next random identity, \<open>le_write_ok\<close> whether the file can
  be written, \<open>le_hostname\<close> the outcome of \<open>hostname::get\<close> with \<open>into_string\<close>.
\<close>

record launch_env =
  le_machine_uid :: "string option"
  le_device_file :: "string option"
  le_new_uuid :: string
  le_write_ok :: bool
  le_hostname :: "string option"
  le_hex_decode :: "string \<Rightarrow> bytes option"
  le_parse_sock :: "string \<Rightarrow> SocketAddr option"

text \<open>The identity and the content of the file afterwards.\<close>

definition get_fallback_id :: "launch_env \<Rightarrow> string result \<times> string option" where
  "get_fallback_id E =
     (let fresh = (if le_write_ok E then (Inr (le_new_uuid E), Some (le_new_uuid E))
                   else (Inl (Bail ''Failed to write device_id file''), le_device_file E)) in
      case le_device_file E of
        Some content \<Rightarrow> if trim content \<noteq> [] then (Inr (trim content), le_device_file E) else fresh
      | None \<Rightarrow> fresh)"

definition get_device_id :: "launch_env \<Rightarrow> string result \<times> string option" where
  "get_device_id E =
     (case le_machine_uid E of Some i \<Rightarrow> (Inr i, le_device_file E) | None \<Rightarrow> get_fallback_id E)"

definition default_hostname :: "launch_env \<Rightarrow> string" where
  "default_hostname E = get_or_default [] (le_hostname E)"

section \<open>The file\<close>

record FileConfig =
  fc_server :: "string list option"
  fc_network_code :: "string option"
  fc_ip :: "ipv4 option"
  fc_no_punch :: "bool option"
  fc_rtx :: "bool option"
  fc_compress :: "bool option"
  fc_fec :: "bool option"
  fc_input :: "NetInput list option"
  fc_output :: "ipv4net list option"
  fc_no_nat :: "bool option"
  fc_no_tun :: "bool option"
  fc_mtu :: "u16 option"
  fc_ctrl_port :: "u16 option"
  fc_port_mapping :: "string list option"
  fc_allow_mapping :: "bool option"
  fc_device_id :: "string option"
  fc_device_name :: "string option"
  fc_tun_name :: "string option"
  fc_password :: "string option"
  fc_cert_mode :: "string option"
  fc_udp_stun :: "string list option"
  fc_tcp_stun :: "string list option"

definition file_config_default :: FileConfig where
  "file_config_default = \<lparr>fc_server = None, fc_network_code = None, fc_ip = None, fc_no_punch = None,
     fc_rtx = None, fc_compress = None, fc_fec = None, fc_input = None, fc_output = None, fc_no_nat = None,
     fc_no_tun = None, fc_mtu = None, fc_ctrl_port = None, fc_port_mapping = None, fc_allow_mapping = None,
     fc_device_id = None, fc_device_name = None, fc_tun_name = None, fc_password = None, fc_cert_mode = None,
     fc_udp_stun = None, fc_tcp_stun = None\<rparr>"

text \<open>Reading and writing the file: \<open>read_toml\<close> and \<open>show_toml\<close> are the crate's functions.\<close>

definition file_config_load :: "(string \<Rightarrow> string result) \<Rightarrow> (string \<Rightarrow> FileConfig result) \<Rightarrow> string \<Rightarrow> FileConfig result" where
  "file_config_load read_file read_toml path = rbind (read_file path) read_toml"

definition file_config_save ::
  "(string \<Rightarrow> string \<Rightarrow> unit result) \<Rightarrow> (FileConfig \<Rightarrow> string result) \<Rightarrow> string \<Rightarrow> FileConfig \<Rightarrow> unit result" where
  "file_config_save write_file show_toml path f = rbind (show_toml f) (\<lambda>content. write_file path content)"

definition invalid :: "string \<Rightarrow> 'a result \<Rightarrow> 'a result" where
  "invalid what r = (case r of Inl _ \<Rightarrow> Inl (Bail what) | Inr x \<Rightarrow> Inr x)"

definition to_server_addr :: "FileConfig \<Rightarrow> ProtocolAddress list result" where
  "to_server_addr f =
     (case fc_server f of
        Some raw \<Rightarrow> collect_results (map (\<lambda>x. invalid ''invalid server address'' (protocol_address_from_str x)) raw)
      | None \<Rightarrow> Inr [])"

definition to_port_mapping :: "launch_env \<Rightarrow> FileConfig \<Rightarrow> PortMapping list result" where
  "to_port_mapping E f =
     (case fc_port_mapping f of
        Some raw \<Rightarrow>
          collect_results (map (\<lambda>x. invalid ''invalid port_mapping'' (port_mapping_from_str (le_parse_sock E) x)) raw)
      | None \<Rightarrow> Inr [])"

text \<open>A STUN server without a port gets the default one.\<close>

definition stun_port :: "string \<Rightarrow> string" where
  "stun_port x = (if \<not> str_contains '':'' x then x @ '':3478'' else x)"

text \<open>\<open>file.cert_mode.as_deref().and_then(|s| s.parse().ok())\<close>\<close>

definition file_cert_mode :: "launch_env \<Rightarrow> FileConfig \<Rightarrow> CertValidationMode option" where
  "file_cert_mode E f =
     Option.bind (fc_cert_mode f)
       (\<lambda>s. case cert_mode_from_str (le_hex_decode E) s of Inl _ \<Rightarrow> None | Inr m \<Rightarrow> Some m)"

section \<open>The command line\<close>

record Args =
  ar_server :: "ProtocolAddress list"
  ar_network_code :: "string option"
  ar_token :: "string option"
  ar_ip :: "ipv4 option"
  ar_password :: "string option"
  ar_rtx :: bool
  ar_compress :: bool
  ar_fec :: bool
  ar_input :: "NetInput list"
  ar_output :: "ipv4net list"
  ar_device_name :: "string option"
  ar_device_id :: "string option"
  ar_no_punch :: bool
  ar_cert_mode :: "CertValidationMode option"
  ar_tun_name :: "string option"
  ar_no_nat :: bool
  ar_no_tun :: bool
  ar_port_mapping :: "PortMapping list"
  ar_allow_mapping :: bool
  ar_mtu :: "u16 option"
  ar_ctrl_port :: "u16 option"
  ar_conf :: "string option"
  ar_conf_example :: bool

definition no_args :: Args where
  "no_args = \<lparr>ar_server = [], ar_network_code = None, ar_token = None, ar_ip = None, ar_password = None,
     ar_rtx = False, ar_compress = False, ar_fec = False, ar_input = [], ar_output = [], ar_device_name = None,
     ar_device_id = None, ar_no_punch = False, ar_cert_mode = None, ar_tun_name = None, ar_no_nat = False,
     ar_no_tun = False, ar_port_mapping = [], ar_allow_mapping = False, ar_mtu = None, ar_ctrl_port = None,
     ar_conf = None, ar_conf_example = False\<rparr>"

definition parse_compatible :: "Args \<Rightarrow> Args" where
  "parse_compatible args =
     (if ar_network_code args = None then args\<lparr>ar_network_code := ar_token args\<rparr> else args)"

text \<open>\<open>Option::or\<close> and \<open>or_else\<close>.\<close>

definition or_opt :: "'a option \<Rightarrow> 'a option \<Rightarrow> 'a option" where
  "or_opt a b = (case a of None \<Rightarrow> b | Some x \<Rightarrow> Some x)"

definition or_list :: "'a list \<Rightarrow> 'a list \<Rightarrow> 'a list" where
  "or_list a b = (if a = [] then b else a)"

record CtrlConfig =
  ctrl_port :: "u16 option"

section \<open>Building the configuration\<close>

definition build_from_args_and_file :: "launch_env \<Rightarrow> Args \<Rightarrow> FileConfig \<Rightarrow> (Config \<times> CtrlConfig) result" where
  "build_from_args_and_file E args file =
     rbind (if ar_server args = [] then to_server_addr file else Inr (ar_server args)) (\<lambda>server_addr.
     rbind (if ar_port_mapping args = [] then to_port_mapping E file else Inr (ar_port_mapping args)) (\<lambda>port_mapping.
     rbind (ok_or (Bail ''network_code is required'') (or_opt (ar_network_code args) (fc_network_code file))) (\<lambda>network_code.
     let cert_mode = get_or_default InsecureSkipVerification (or_opt (ar_cert_mode args) (file_cert_mode E file)) in
     rbind (case or_opt (ar_device_id args) (fc_device_id file) of
              Some i \<Rightarrow> Inr i | None \<Rightarrow> fst (get_device_id E)) (\<lambda>device_id.
     Inr (\<lparr>cfg_server_addr = server_addr,
           cfg_cert_mode = cert_mode,
           cfg_network_code = network_code,
           cfg_device_id = device_id,
           cfg_device_name = (case or_opt (ar_device_name args) (fc_device_name file) of
                                Some n \<Rightarrow> n | None \<Rightarrow> default_hostname E),
           cfg_tun_name = or_opt (ar_tun_name args) (fc_tun_name file),
           cfg_ip = or_opt (ar_ip args) (fc_ip file),
           cfg_password = or_opt (ar_password args) (fc_password file),
           cfg_no_punch = (ar_no_punch args \<or> get_or_default False (fc_no_punch file)),
           cfg_compress = (ar_compress args \<or> get_or_default False (fc_compress file)),
           cfg_rtx = (ar_rtx args \<or> get_or_default False (fc_rtx file)),
           cfg_fec = (ar_fec args \<or> get_or_default False (fc_fec file)),
           cfg_input = or_list (ar_input args) (get_or_default [] (fc_input file)),
           cfg_output = or_list (ar_output args) (get_or_default [] (fc_output file)),
           cfg_no_nat = (ar_no_nat args \<or> get_or_default False (fc_no_nat file)),
           cfg_no_tun = (ar_no_tun args \<or> get_or_default False (fc_no_tun file)),
           cfg_mtu = or_opt (ar_mtu args) (fc_mtu file),
           cfg_port_mapping = port_mapping,
           cfg_allow_port_mapping = (ar_allow_mapping args \<or> get_or_default False (fc_allow_mapping file)),
           cfg_udp_stun = map stun_port (get_or_default [] (fc_udp_stun file)),
           cfg_tcp_stun = map stun_port (get_or_default [] (fc_tcp_stun file))\<rparr>,
          \<lparr>ctrl_port = or_opt (ar_ctrl_port args) (fc_ctrl_port file)\<rparr>)))))"

definition build_from_args_only :: "launch_env \<Rightarrow> Args \<Rightarrow> (Config \<times> CtrlConfig) result" where
  "build_from_args_only E args =
     rbind (case ar_device_id args of Some i \<Rightarrow> Inr i | None \<Rightarrow> fst (get_device_id E)) (\<lambda>device_id.
     rbind (ok_or (Bail ''network_code is required'') (ar_network_code args)) (\<lambda>network_code.
     Inr (\<lparr>cfg_server_addr = ar_server args,
           cfg_cert_mode = get_or_default InsecureSkipVerification (ar_cert_mode args),
           cfg_network_code = network_code,
           cfg_device_id = device_id,
           cfg_device_name = (case ar_device_name args of Some n \<Rightarrow> n | None \<Rightarrow> default_hostname E),
           cfg_tun_name = ar_tun_name args,
           cfg_ip = ar_ip args,
           cfg_password = ar_password args,
           cfg_no_punch = ar_no_punch args,
           cfg_compress = ar_compress args,
           cfg_rtx = ar_rtx args,
           cfg_fec = ar_fec args,
           cfg_input = ar_input args,
           cfg_output = ar_output args,
           cfg_no_nat = ar_no_nat args,
           cfg_no_tun = ar_no_tun args,
           cfg_mtu = ar_mtu args,
           cfg_port_mapping = ar_port_mapping args,
           cfg_allow_port_mapping = ar_allow_mapping args,
           cfg_udp_stun = [],
           cfg_tcp_stun = []\<rparr>,
          \<lparr>ctrl_port = ar_ctrl_port args\<rparr>)))"

definition build_from_file_only :: "launch_env \<Rightarrow> FileConfig \<Rightarrow> (Config \<times> CtrlConfig) result" where
  "build_from_file_only E file =
     rbind (to_server_addr file) (\<lambda>server_addr.
     rbind (to_port_mapping E file) (\<lambda>port_mapping.
     let cert_mode = get_or_default InsecureSkipVerification (file_cert_mode E file) in
     rbind (case fc_device_id file of Some i \<Rightarrow> Inr i | None \<Rightarrow> fst (get_device_id E)) (\<lambda>device_id.
     rbind (ok_or (Bail ''network_code is required'') (fc_network_code file)) (\<lambda>network_code.
     Inr (\<lparr>cfg_server_addr = server_addr,
           cfg_cert_mode = cert_mode,
           cfg_network_code = network_code,
           cfg_device_id = device_id,
           cfg_device_name = (case fc_device_name file of Some n \<Rightarrow> n | None \<Rightarrow> default_hostname E),
           cfg_tun_name = fc_tun_name file,
           cfg_ip = fc_ip file,
           cfg_password = fc_password file,
           cfg_no_punch = get_or_default False (fc_no_punch file),
           cfg_compress = get_or_default False (fc_compress file),
           cfg_rtx = get_or_default False (fc_rtx file),
           cfg_fec = get_or_default False (fc_fec file),
           cfg_input = get_or_default [] (fc_input file),
           cfg_output = get_or_default [] (fc_output file),
           cfg_no_nat = get_or_default False (fc_no_nat file),
           cfg_no_tun = get_or_default False (fc_no_tun file),
           cfg_mtu = fc_mtu file,
           cfg_port_mapping = port_mapping,
           cfg_allow_port_mapping = get_or_default False (fc_allow_mapping file),
           cfg_udp_stun = map stun_port (get_or_default [] (fc_udp_stun file)),
           cfg_tcp_stun = map stun_port (get_or_default [] (fc_tcp_stun file))\<rparr>,
          \<lparr>ctrl_port = fc_ctrl_port file\<rparr>)))))"

definition build_config_from_args_and_file ::
  "launch_env \<Rightarrow> Args option \<Rightarrow> FileConfig option \<Rightarrow> (Config \<times> CtrlConfig) result" where
  "build_config_from_args_and_file E args file =
     (case (args, file) of
        (Some args, Some file) \<Rightarrow> build_from_args_and_file E args file
      | (Some args, None) \<Rightarrow> build_from_args_only E args
      | (None, Some file) \<Rightarrow> build_from_file_only E file
      | (None, None) \<Rightarrow> Inl (Bail ''neither args nor config file provided''))"

section \<open>The web front end\<close>

record StartConfig =
  sc_config_name :: "string option"
  sc_server :: "string list"
  sc_cert_mode :: "string option"
  sc_network_code :: string
  sc_device_id :: "string option"
  sc_device_name :: "string option"
  sc_tun_name :: "string option"
  sc_ip :: "ipv4 option"
  sc_password :: "string option"
  sc_no_punch :: bool
  sc_compress :: bool
  sc_rtx :: bool
  sc_fec :: bool
  sc_input :: "NetInput list"
  sc_output :: "ipv4net list"
  sc_no_nat :: bool
  sc_no_tun :: bool
  sc_mtu :: "u16 option"
  sc_port_mapping :: "string list"
  sc_allow_mapping :: bool
  sc_udp_stun :: "string list"
  sc_tcp_stun :: "string list"

definition convert_config :: "launch_env \<Rightarrow> StartConfig \<Rightarrow> Config result" where
  "convert_config E cfg =
     rbind (collect_results (map (\<lambda>x. invalid ''invalid server address'' (protocol_address_from_str x)) (sc_server cfg)))
       (\<lambda>server_addrs.
     rbind (collect_results (map (\<lambda>x. invalid ''invalid port_mapping'' (port_mapping_from_str (le_parse_sock E) x)) (sc_port_mapping cfg)))
       (\<lambda>port_mapping.
     rbind (case sc_cert_mode cfg of
              Some s \<Rightarrow> invalid ''invalid cert_mode'' (cert_mode_from_str (le_hex_decode E) s)
            | None \<Rightarrow> Inr InsecureSkipVerification) (\<lambda>cert_mode.
     rbind (case sc_device_id cfg of
              Some i \<Rightarrow> Inr i
            | None \<Rightarrow> invalid ''failed to get device_id'' (fst (get_device_id E))) (\<lambda>device_id.
     Inr \<lparr>cfg_server_addr = server_addrs,
          cfg_cert_mode = cert_mode,
          cfg_network_code = sc_network_code cfg,
          cfg_device_id = device_id,
          cfg_device_name = (case sc_device_name cfg of Some n \<Rightarrow> n | None \<Rightarrow> default_hostname E),
          cfg_tun_name = sc_tun_name cfg,
          cfg_ip = sc_ip cfg,
          cfg_password = sc_password cfg,
          cfg_no_punch = sc_no_punch cfg,
          cfg_compress = sc_compress cfg,
          cfg_rtx = sc_rtx cfg,
          cfg_fec = sc_fec cfg,
          cfg_input = sc_input cfg,
          cfg_output = sc_output cfg,
          cfg_no_nat = sc_no_nat cfg,
          cfg_no_tun = sc_no_tun cfg,
          cfg_mtu = sc_mtu cfg,
          cfg_port_mapping = port_mapping,
          cfg_allow_port_mapping = sc_allow_mapping cfg,
          cfg_udp_stun = map stun_port (sc_udp_stun cfg),
          cfg_tcp_stun = map stun_port (sc_tcp_stun cfg)\<rparr>))))"

section \<open>Lemmas\<close>

text \<open>The file a command-line user would write for a configuration of the web page.\<close>

definition file_of_start :: "StartConfig \<Rightarrow> FileConfig" where
  "file_of_start c = \<lparr>fc_server = Some (sc_server c), fc_network_code = Some (sc_network_code c), fc_ip = sc_ip c,
     fc_no_punch = Some (sc_no_punch c), fc_rtx = Some (sc_rtx c), fc_compress = Some (sc_compress c),
     fc_fec = Some (sc_fec c), fc_input = Some (sc_input c), fc_output = Some (sc_output c),
     fc_no_nat = Some (sc_no_nat c), fc_no_tun = Some (sc_no_tun c), fc_mtu = sc_mtu c, fc_ctrl_port = None,
     fc_port_mapping = Some (sc_port_mapping c), fc_allow_mapping = Some (sc_allow_mapping c),
     fc_device_id = sc_device_id c, fc_device_name = sc_device_name c, fc_tun_name = sc_tun_name c,
     fc_password = sc_password c, fc_cert_mode = sc_cert_mode c, fc_udp_stun = Some (sc_udp_stun c),
     fc_tcp_stun = Some (sc_tcp_stun c)\<rparr>"

lemma file_of_start_fields:
  "fc_server (file_of_start c) = Some (sc_server c)"
  "fc_network_code (file_of_start c) = Some (sc_network_code c)"
  "fc_ip (file_of_start c) = sc_ip c"
  "fc_no_punch (file_of_start c) = Some (sc_no_punch c)"
  "fc_rtx (file_of_start c) = Some (sc_rtx c)"
  "fc_compress (file_of_start c) = Some (sc_compress c)"
  "fc_fec (file_of_start c) = Some (sc_fec c)"
  "fc_input (file_of_start c) = Some (sc_input c)"
  "fc_output (file_of_start c) = Some (sc_output c)"
  "fc_no_nat (file_of_start c) = Some (sc_no_nat c)"
  "fc_no_tun (file_of_start c) = Some (sc_no_tun c)"
  "fc_mtu (file_of_start c) = sc_mtu c"
  "fc_ctrl_port (file_of_start c) = None"
  "fc_port_mapping (file_of_start c) = Some (sc_port_mapping c)"
  "fc_allow_mapping (file_of_start c) = Some (sc_allow_mapping c)"
  "fc_device_id (file_of_start c) = sc_device_id c"
  "fc_device_name (file_of_start c) = sc_device_name c"
  "fc_tun_name (file_of_start c) = sc_tun_name c"
  "fc_password (file_of_start c) = sc_password c"
  "fc_cert_mode (file_of_start c) = sc_cert_mode c"
  "fc_udp_stun (file_of_start c) = Some (sc_udp_stun c)"
  "fc_tcp_stun (file_of_start c) = Some (sc_tcp_stun c)"
  by (simp_all add: file_of_start_def)

definition succeeds :: "'a result \<Rightarrow> 'a option" where
  "succeeds r = (case r of Inl _ \<Rightarrow> None | Inr x \<Rightarrow> Some x)"

lemma succeeds_simps [simp]: "succeeds (Inl e) = None" "succeeds (Inr x) = Some x"
  by (simp_all add: succeeds_def)

lemma succeeds_rbind: "succeeds (rbind r f) = Option.bind (succeeds r) (\<lambda>x. succeeds (f x))"
  by (cases r) simp_all

lemma succeeds_invalid: "succeeds (invalid w r) = succeeds r"
  by (cases r) (simp_all add: invalid_def)

lemma or_opt_simps [simp]: "or_opt None b = b" "or_opt a None = a" "or_opt (Some x) b = Some x"
  by (simp_all add: or_opt_def split: option.split)

lemma or_list_simps [simp]: "or_list [] b = b" "or_list a [] = a"
  by (simp_all add: or_list_def)

lemma map_bind: "map_option f (Option.bind a g) = Option.bind a (\<lambda>x. map_option f (g x))"
  by (cases a) simp_all

text \<open>The identity made up once is found again at the next start.\<close>

lemma device_id_stable:
  assumes "fst (get_device_id E) = Inr i" and "trim (le_new_uuid E) = le_new_uuid E" and "le_new_uuid E \<noteq> []"
  shows "get_device_id (E\<lparr>le_device_file := snd (get_device_id E), le_new_uuid := u\<rparr>) = (Inr i, snd (get_device_id E))"
  using assms by (cases "le_machine_uid E"; cases "le_device_file E")
    (auto simp: get_device_id_def get_fallback_id_def Let_def split: if_splits)

lemmas build_defs = build_config_from_args_and_file_def build_from_args_and_file_def build_from_args_only_def
  build_from_file_only_def

section \<open>Properties\<close>

text \<open>
  C32. The ways to configure a node agree. A file alone gives what it gives beside an empty command
  line, a command line alone what it gives beside an empty file, and the web front end makes of a
  configuration, when its certificate mode can be read, the configuration the command line makes of the
  file with the same settings; each fails when the other fails, whichever error it meets first.
\<close>

theorem config_sources_agree:
  assumes "\<And>s. sc_cert_mode c = Some s \<Longrightarrow> \<exists>m. cert_mode_from_str (le_hex_decode E) s = Inr m"
  shows "succeeds (build_config_from_args_and_file E None (Some f)) =
      succeeds (build_config_from_args_and_file E (Some no_args) (Some f)) \<and>
    succeeds (build_config_from_args_and_file E (Some a) None) =
      succeeds (build_config_from_args_and_file E (Some a) (Some file_config_default)) \<and>
    succeeds (convert_config E c) =
      map_option fst (succeeds (build_config_from_args_and_file E None (Some (file_of_start c))))"
proof (intro conjI)
  show "succeeds (build_config_from_args_and_file E None (Some f)) =
      succeeds (build_config_from_args_and_file E (Some no_args) (Some f))"
    by (cases "fc_network_code f")
      (simp_all add: build_defs no_args_def succeeds_rbind Let_def bind_eq_None_conv)
  show "succeeds (build_config_from_args_and_file E (Some a) None) =
      succeeds (build_config_from_args_and_file E (Some a) (Some file_config_default))"
    by (cases "ar_network_code a"; cases "ar_cert_mode a")
      (simp_all add: build_defs file_config_default_def to_server_addr_def to_port_mapping_def file_cert_mode_def
        succeeds_rbind Let_def get_or_default_simps or_list_def)
  let ?E = "le_hex_decode E"
  obtain m where m: "(case sc_cert_mode c of Some s \<Rightarrow> invalid ''invalid cert_mode'' (cert_mode_from_str ?E s)
      | None \<Rightarrow> Inr InsecureSkipVerification) = Inr m"
    and f: "get_or_default InsecureSkipVerification (file_cert_mode E (file_of_start c)) = m"
    using assms by (cases "sc_cert_mode c") (auto simp: invalid_def file_cert_mode_def file_of_start_def)
  show "succeeds (convert_config E c) =
      map_option fst (succeeds (build_config_from_args_and_file E None (Some (file_of_start c))))"
    unfolding convert_config_def m build_defs
    by (cases "sc_device_id c")
      (simp_all add: f succeeds_rbind succeeds_invalid file_of_start_fields to_server_addr_def to_port_mapping_def
        map_bind Let_def get_or_default_simps)
qed

text \<open>A page that gives no certificate mode and a server with a STUN name but no port.\<close>

definition demo_launch_env :: launch_env where
  "demo_launch_env = \<lparr>le_machine_uid = None, le_device_file = None, le_new_uuid = ''u1'', le_write_ok = True,
     le_hostname = Some ''host'', le_hex_decode = (\<lambda>_. None), le_parse_sock = (\<lambda>_. None)\<rparr>"

definition demo_start_config :: StartConfig where
  "demo_start_config = \<lparr>sc_config_name = None, sc_server = [''quic://a.b:1''], sc_cert_mode = Some ''Standard'',
     sc_network_code = ''n'', sc_device_id = None, sc_device_name = None, sc_tun_name = None, sc_ip = None,
     sc_password = None, sc_no_punch = False, sc_compress = True, sc_rtx = False, sc_fec = False, sc_input = [],
     sc_output = [], sc_no_nat = False, sc_no_tun = False, sc_mtu = None, sc_port_mapping = [],
     sc_allow_mapping = False, sc_udp_stun = [''stun.x''], sc_tcp_stun = [''stun.y:443'']\<rparr>"

theorem config_sources_agree_witness:
  "map_option (\<lambda>r. (cfg_device_id (fst r), cfg_udp_stun (fst r), cfg_cert_mode (fst r)))
      (succeeds (build_config_from_args_and_file demo_launch_env None (Some (file_of_start demo_start_config)))) =
    Some (''u1'', [''stun.x:3478''], Standard) \<and>
   succeeds (convert_config demo_launch_env demo_start_config) =
    map_option fst (succeeds (build_config_from_args_and_file demo_launch_env None (Some (file_of_start demo_start_config))))"
proof
  show "map_option (\<lambda>r. (cfg_device_id (fst r), cfg_udp_stun (fst r), cfg_cert_mode (fst r)))
      (succeeds (build_config_from_args_and_file demo_launch_env None (Some (file_of_start demo_start_config)))) =
    Some (''u1'', [''stun.x:3478''], Standard)"
    by code_simp
  have "cert_mode_from_str (le_hex_decode demo_launch_env) ''Standard'' = Inr Standard" by code_simp
  then show "succeeds (convert_config demo_launch_env demo_start_config) =
    map_option fst (succeeds (build_config_from_args_and_file demo_launch_env None (Some (file_of_start demo_start_config))))"
    using config_sources_agree [of demo_start_config demo_launch_env] by (simp add: demo_start_config_def)
qed

text \<open>
  A certificate mode the file misspells turns verification off. Whatever the command line says
  beside it, as long as it names no mode itself, a configuration that is built has the mode that accepts every
  certificate and every handshake signature; the web front end refuses the same text.
\<close>

lemma misspelt_cert_mode_accepts_any_server:
  assumes "cert_mode_from_str (le_hex_decode E) s = Inl e" and "fc_cert_mode f = Some s"
    and "case args of None \<Rightarrow> True | Some a \<Rightarrow> ar_cert_mode a = None"
    and "build_config_from_args_and_file E args (Some f) = Inr (c, k)"
    and "sc_cert_mode w = Some s"
  shows "build_verifier sha webpki (cfg_cert_mode c) = Inr insecure_verifier \<and>
    succeeds (convert_config E w) = None"
proof
  have "file_cert_mode E f = None" using assms(1,2) by (simp add: file_cert_mode_def)
  then have "cfg_cert_mode c = InsecureSkipVerification"
    using assms(3,4) by (cases args)
      (auto simp: build_defs Let_def get_or_default_simps rbind_eq_Inr)
  then show "build_verifier sha webpki (cfg_cert_mode c) = Inr insecure_verifier"
    by (simp add: build_verifier_def)
  show "succeeds (convert_config E w) = None"
    using assms(1,5) by (simp add: convert_config_def invalid_def succeeds_rbind bind_eq_None_conv)
qed

lemma misspelt_cert_mode_accepts_any_server_witness:
  "\<exists>c k. build_config_from_args_and_file demo_launch_env None
       (Some (file_config_default\<lparr>fc_network_code := Some ''n'', fc_cert_mode := Some ''standart''\<rparr>)) = Inr (c, k) \<and>
     build_verifier (\<lambda>b. b) (Inl OtherError) (cfg_cert_mode c) = Inr insecure_verifier"
proof -
  let ?f = "file_config_default\<lparr>fc_network_code := Some ''n'', fc_cert_mode := Some ''standart''\<rparr>"
  have e: "cert_mode_from_str (le_hex_decode demo_launch_env) ''standart'' = Inl (Bail ''Unknown certificate validation mode'')"
    by code_simp
  obtain c k where b: "build_config_from_args_and_file demo_launch_env None (Some ?f) = Inr (c, k)"
    by (simp add: build_defs file_config_default_def to_server_addr_def to_port_mapping_def demo_launch_env_def
      get_device_id_def get_fallback_id_def Let_def)
  from misspelt_cert_mode_accepts_any_server [OF e _ _ b, of "demo_start_config\<lparr>sc_cert_mode := Some ''standart''\<rparr>"] b
  show ?thesis by simp
qed

end
