(* ===== verification/Web_Service.thy ===== *)
theory Web_Service
  imports Task_Control
begin

text \<open>
  The service that starts and stops a node for the web page, \<open>vnt-web/src/service_http.rs\<close>: the
  state behind the mutex (\<open>HttpAppState\<close>), the start of a network in its stages
  (\<open>start_vnt_internal\<close>, \<open>start_vnt_network\<close>) with the guards that undo it, and the handlers that stop
  and restart. Requests are served concurrently: a run interleaves their steps, and each
  critical section, each drop of a guard and each file access is a step.
\<close>

section \<open>The state\<close>

datatype VntStatus = Stopped | Starting | Running

record VntHandler =
  vh_network :: nat
  vh_config_name :: string
  vh_config_file_name :: string

record HttpAppState =
  hs_vnt :: "VntHandler option"
  hs_status :: VntStatus
  hs_start_logs :: "string list"

definition http_state_new :: HttpAppState where
  "http_state_new = \<lparr>hs_vnt = None, hs_status = Stopped, hs_start_logs = []\<rparr>"

text \<open>A line of the log; \<open>ts\<close> is the time \<open>timestamp\<close> formats.\<close>

definition log_line :: "string \<Rightarrow> string \<Rightarrow> string" where
  "log_line ts msg = ''['' @ ts @ ''] '' @ msg"

definition starting :: "HttpAppState \<Rightarrow> HttpAppState result" where
  "starting s =
     (if hs_status s \<noteq> Stopped then Inl (Bail ''VNT is already starting or running'')
      else if hs_vnt s \<noteq> None then Inl (Bail ''VNT is already running'')
      else Inr (s\<lparr>hs_status := Starting, hs_start_logs := []\<rparr>))"

definition stopped :: "HttpAppState \<Rightarrow> HttpAppState" where
  "stopped s = s\<lparr>hs_vnt := None, hs_status := Stopped\<rparr>"

definition starting_to_stopped :: "string \<Rightarrow> HttpAppState \<Rightarrow> HttpAppState" where
  "starting_to_stopped ts s =
     (if hs_status s \<noteq> Starting then s
      else s\<lparr>hs_vnt := None, hs_status := Stopped, hs_start_logs := hs_start_logs s @ [log_line ts ''interrupted'']\<rparr>)"

definition starting_to_running :: "HttpAppState \<Rightarrow> HttpAppState" where
  "starting_to_running s =
     (if hs_status s \<noteq> Starting then s else s\<lparr>hs_status := Running, hs_start_logs := []\<rparr>)"

definition record_log :: "string \<Rightarrow> string \<Rightarrow> HttpAppState \<Rightarrow> HttpAppState" where
  "record_log ts msg s =
     (if hs_status s \<noteq> Starting then s else s\<lparr>hs_start_logs := hs_start_logs s @ [log_line ts msg]\<rparr>)"

definition record_log_and_stopped :: "string \<Rightarrow> string \<Rightarrow> HttpAppState \<Rightarrow> HttpAppState" where
  "record_log_and_stopped ts msg s =
     (if hs_status s \<noteq> Starting then s
      else s\<lparr>hs_start_logs := hs_start_logs s @ [log_line ts msg], hs_status := Stopped\<rparr>)"

text \<open>The critical section of \<open>start_vnt_network\<close> that publishes the network.\<close>

definition attach :: "VntHandler \<Rightarrow> HttpAppState \<Rightarrow> HttpAppState result" where
  "attach h s = (if hs_vnt s \<noteq> None then Inl (Bail ''VNT is already running'') else Inr (s\<lparr>hs_vnt := Some h\<rparr>))"

definition get_start_status :: "HttpAppState \<Rightarrow> VntStatus \<times> string list" where
  "get_start_status s = (hs_status s, hs_start_logs s)"

definition stop_accepted :: "HttpAppState \<Rightarrow> bool" where
  "stop_accepted s \<longleftrightarrow> hs_status s \<noteq> Stopped"

section \<open>Requests and their steps\<close>

text \<open>
  Where a request is. A start goes from \<open>Idle\<close> through \<open>Begun\<close> (the status is taken, the
  error guard lives), \<open>Grouped\<close> (it has the task group), \<open>Attached\<close> (the handler is published, the clean-up
  guard lives), \<open>Promoted\<close> (\<open>starting_to_running\<close> called), \<open>Recording\<close> and \<open>Recorded\<close> (the name of
  the configuration is written). \<open>Detached\<close>, \<open>Failed\<close> and \<open>FailedLogged\<close> are the way out after an error,
  \<open>Refused\<close> and \<open>RefusedFree\<close> the drop of the guards when the group accepts no task.
\<close>

datatype phase = Idle | Begun | Grouped | Attached | Promoted | Refused | RefusedFree | Recording | Recorded
  | Detached | Failed | FailedLogged | StopReady | StopRecord | RestartReady | RestartWait nat | Done

text \<open>The task that owns a running network holds the two guards and drops them one after the other.\<close>

datatype task_phase = NoTask | Holding | DroppedGroup | DroppedCleanup | Gone

record Web =
  w_manager :: "TaskGroup option"
  w_app :: HttpAppState
  w_record :: string
  w_phase :: "nat \<Rightarrow> phase"
  w_task :: "nat \<Rightarrow> task_phase"

definition web_new :: "string \<Rightarrow> Web" where
  "web_new record = \<lparr>w_manager = None, w_app = http_state_new, w_record = record, w_phase = (\<lambda>_. Idle), w_task = (\<lambda>_. NoTask)\<rparr>"

definition goto :: "nat \<Rightarrow> phase \<Rightarrow> Web \<Rightarrow> Web" where
  "goto j p w = w\<lparr>w_phase := (w_phase w)(j := p)\<rparr>"

definition task_to :: "nat \<Rightarrow> task_phase \<Rightarrow> Web \<Rightarrow> Web" where
  "task_to j t w = w\<lparr>w_task := (w_task w)(j := t)\<rparr>"

definition on_app :: "(HttpAppState \<Rightarrow> HttpAppState) \<Rightarrow> Web \<Rightarrow> Web" where
  "on_app f w = w\<lparr>w_app := f (w_app w)\<rparr>"

definition drop_group_guard :: "Web \<Rightarrow> Web" where
  "drop_group_guard w = w\<lparr>w_manager := snd (group_guard_drop (w_manager w))\<rparr>"

definition stop_group :: "Web \<Rightarrow> Web" where
  "stop_group w = w\<lparr>w_manager := manager_stop (w_manager w)\<rparr>"

text \<open>
  \<open>start_vnt_internal\<close>: the status is taken first; an error in the file, in its text or in making
  the group drops the error guard.
\<close>

inductive start_step :: "Web \<Rightarrow> Web \<Rightarrow> bool" where
  begins: "w_phase w j = Idle \<Longrightarrow> starting (w_app w) = Inr a \<Longrightarrow> start_step w (goto j Begun (w\<lparr>w_app := a\<rparr>))"
| begin_refused: "w_phase w j = Idle \<Longrightarrow> starting (w_app w) = Inl e \<Longrightarrow> start_step w (goto j Done w)"
| logs: "w_phase w j \<in> {Begun, Grouped, Attached} \<Longrightarrow> start_step w (on_app (record_log ts msg) w)"
| config_fails: "w_phase w j = Begun \<Longrightarrow> start_step w (goto j Done (on_app (starting_to_stopped ts) w))"
| group: "w_phase w j = Begun \<Longrightarrow> manager_create_task (w_manager w) = Inr (g, m) \<Longrightarrow>
    start_step w (goto j Grouped (w\<lparr>w_manager := m\<rparr>))"
| group_refused: "w_phase w j = Begun \<Longrightarrow> manager_create_task (w_manager w) = Inl e \<Longrightarrow>
    start_step w (goto j Done (on_app (starting_to_stopped ts) w))"

text \<open>
  \<open>start_vnt_network\<close> and the task that runs it. An error before \<open>attach\<close> drops the group guard,
  one after it first the clean-up guard; the error is logged then. The group that \<open>spawn\<close> asks is
  the manager's as long as the group guard lives.
\<close>

inductive network_step :: "Web \<Rightarrow> Web \<Rightarrow> bool" where
  network_fails: "w_phase w j = Grouped \<Longrightarrow> network_step w (goto j Failed (drop_group_guard w))"
| attaches: "w_phase w j = Grouped \<Longrightarrow> attach \<lparr>vh_network = j, vh_config_name = n, vh_config_file_name = f\<rparr> (w_app w) = Inr a \<Longrightarrow>
    network_step w (goto j Attached (w\<lparr>w_app := a\<rparr>))"
| attach_refused: "w_phase w j = Grouped \<Longrightarrow> attach h (w_app w) = Inl e \<Longrightarrow> network_step w (goto j Failed (drop_group_guard w))"
| detaches: "w_phase w j = Attached \<Longrightarrow> network_step w (goto j Detached (on_app stopped w))"
| detached: "w_phase w j = Detached \<Longrightarrow> network_step w (goto j Failed (drop_group_guard w))"
| promotes: "w_phase w j = Attached \<Longrightarrow> network_step w (goto j Promoted (on_app starting_to_running w))"
| spawns: "w_phase w j = Promoted \<Longrightarrow> w_manager w = Some g \<Longrightarrow> group_spawn g = (Some i, g') \<Longrightarrow>
    network_step w (goto j Recording (task_to j Holding (w\<lparr>w_manager := Some g'\<rparr>)))"
| spawn_refused: "w_phase w j = Promoted \<Longrightarrow> w_manager w = Some g \<Longrightarrow> group_spawn g = (None, g') \<Longrightarrow>
    network_step w (goto j Refused w)"
| refused: "w_phase w j = Refused \<Longrightarrow> network_step w (goto j RefusedFree (drop_group_guard w))"
| refused_free: "w_phase w j = RefusedFree \<Longrightarrow> network_step w (goto j Recording (on_app stopped w))"
| records: "w_phase w j = Recording \<Longrightarrow> network_step w (goto j Recorded (w\<lparr>w_record := file\<rparr>))"
| record_fails: "w_phase w j = Recording \<Longrightarrow> network_step w (goto j Recorded w)"
| finishes: "w_phase w j = Recorded \<Longrightarrow> network_step w (goto j Done (on_app (starting_to_stopped ts) w))"
| logs_failure: "w_phase w j = Failed \<Longrightarrow> network_step w (goto j FailedLogged (on_app (record_log_and_stopped ts msg) w))"
| failed: "w_phase w j = FailedLogged \<Longrightarrow> network_step w (goto j Done (on_app (starting_to_stopped ts) w))"

text \<open>
  The task of the network ends when its group is stopped: it drops the group guard and then the
  clean-up guard, or the other way round when it is aborted. In between the network's own tasks
  come and go.
\<close>

inductive task_step :: "Web \<Rightarrow> Web \<Rightarrow> bool" where
  ends: "w_task w j = Holding \<Longrightarrow> w_manager w = Some g \<Longrightarrow> tg_stopped g \<Longrightarrow> task_step w (task_to j DroppedGroup (drop_group_guard w))"
| ends_cleanup: "w_task w j = DroppedGroup \<Longrightarrow> task_step w (task_to j Gone (on_app stopped w))"
| aborts: "w_task w j = Holding \<Longrightarrow> w_manager w = Some g \<Longrightarrow> tg_stopped g \<Longrightarrow> task_step w (task_to j DroppedCleanup (on_app stopped w))"
| aborts_group: "w_task w j = DroppedCleanup \<Longrightarrow> task_step w (task_to j Gone (drop_group_guard w))"
| works: "w_manager w = Some g \<Longrightarrow> group_step g g' \<Longrightarrow> task_step w (w\<lparr>w_manager := Some g'\<rparr>)"

text \<open>
  \<open>stop_vnt_handler\<close>, and \<open>restart_vnt_handler\<close>, which looks fifty times whether the node has
  stopped and then starts it in any case.
\<close>

inductive stop_step :: "Web \<Rightarrow> Web \<Rightarrow> bool" where
  stop_checks: "w_phase w j = Idle \<Longrightarrow> stop_accepted (w_app w) \<Longrightarrow> stop_step w (goto j StopReady w)"
| stop_refused: "w_phase w j = Idle \<Longrightarrow> \<not> stop_accepted (w_app w) \<Longrightarrow> stop_step w (goto j Done w)"
| stops: "w_phase w j = StopReady \<Longrightarrow> stop_step w (goto j StopRecord (stop_group w))"
| stop_records: "w_phase w j = StopRecord \<Longrightarrow> stop_step w (goto j Done (w\<lparr>w_record := ''''\<rparr>))"
| restart_checks: "w_phase w j = Idle \<Longrightarrow> stop_accepted (w_app w) \<Longrightarrow> stop_step w (goto j RestartReady w)"
| restart_stops: "w_phase w j = RestartReady \<Longrightarrow> stop_step w (goto j (RestartWait 50) (stop_group w))"
| restart_waits: "w_phase w j = RestartWait (Suc n) \<Longrightarrow> hs_status (w_app w) \<noteq> Stopped \<Longrightarrow> stop_step w (goto j (RestartWait n) w)"
| restart_starts: "w_phase w j = RestartWait n \<Longrightarrow> n = 0 \<or> hs_status (w_app w) = Stopped \<Longrightarrow> stop_step w (goto j Idle w)"

definition web_step :: "Web \<Rightarrow> Web \<Rightarrow> bool" where
  "web_step w w' \<longleftrightarrow> start_step w w' \<or> network_step w w' \<or> task_step w w' \<or> stop_step w w'"

abbreviation web_run :: "Web \<Rightarrow> Web \<Rightarrow> bool" where
  "web_run \<equiv> web_step\<^sup>*\<^sup>*"

inductive_cases start_stepE: "start_step w w'"
inductive_cases network_stepE: "network_step w w'"
inductive_cases task_stepE: "task_step w w'"
inductive_cases stop_stepE: "stop_step w w'"

section \<open>Who holds which guard\<close>

definition holds_group :: "Web \<Rightarrow> nat \<Rightarrow> bool" where
  "holds_group w j \<longleftrightarrow> w_phase w j \<in> {Grouped, Attached, Promoted, Refused, Detached} \<or> w_task w j \<in> {Holding, DroppedCleanup}"

definition holds_cleanup :: "Web \<Rightarrow> nat \<Rightarrow> bool" where
  "holds_cleanup w j \<longleftrightarrow> w_phase w j \<in> {Attached, Promoted, Refused, RefusedFree} \<or> w_task w j \<in> {Holding, DroppedGroup}"

definition holds_error :: "Web \<Rightarrow> nat \<Rightarrow> bool" where
  "holds_error w j \<longleftrightarrow> w_phase w j \<in> {Begun, Grouped, Attached, Promoted, Refused, RefusedFree, Recording, Recorded,
     Detached, Failed, FailedLogged}"

text \<open>
  The task of a request exists only after \<open>spawn\<close>; one request at most holds the group guard, and it
  does exactly when the manager has a group; a published handler and a running status belong to a
  clean-up guard, a starting status to an error guard.
\<close>

definition tasks_inv :: "Web \<Rightarrow> bool" where
  "tasks_inv w \<longleftrightarrow> (\<forall>j. w_phase w j \<notin> {Recording, Recorded, Done} \<longrightarrow> w_task w j = NoTask)"

definition group_owner_inv :: "Web \<Rightarrow> bool" where
  "group_owner_inv w \<longleftrightarrow> (case w_manager w of
     None \<Rightarrow> \<forall>j. \<not> holds_group w j | Some _ \<Rightarrow> \<exists>i. \<forall>j. holds_group w j \<longleftrightarrow> j = i)"

definition status_inv :: "Web \<Rightarrow> bool" where
  "status_inv w \<longleftrightarrow>
     (hs_vnt (w_app w) \<noteq> None \<longrightarrow> (\<exists>j. holds_cleanup w j)) \<and>
     (hs_status (w_app w) = Running \<longrightarrow> (\<exists>j. holds_cleanup w j)) \<and>
     (hs_status (w_app w) = Starting \<longrightarrow> (\<exists>j. holds_error w j))"

lemmas web_frames = goto_def task_to_def on_app_def drop_group_guard_def stop_group_def
  manager_create_task_def manager_stop_def group_guard_drop_def

lemmas app_defs = starting_def stopped_def starting_to_stopped_def starting_to_running_def record_log_def
  record_log_and_stopped_def attach_def

lemmas holder_defs = holds_group_def holds_cleanup_def holds_error_def

lemma frame_simps [simp]:
  "w_phase (goto j p w) = (w_phase w)(j := p)" "w_task (goto j p w) = w_task w"
  "w_manager (goto j p w) = w_manager w" "w_app (goto j p w) = w_app w"
  "w_phase (task_to j t w) = w_phase w" "w_task (task_to j t w) = (w_task w)(j := t)"
  "w_manager (task_to j t w) = w_manager w" "w_app (task_to j t w) = w_app w"
  "w_phase (on_app f w) = w_phase w" "w_task (on_app f w) = w_task w"
  "w_manager (on_app f w) = w_manager w" "w_app (on_app f w) = f (w_app w)"
  "w_phase (drop_group_guard w) = w_phase w" "w_task (drop_group_guard w) = w_task w"
  "w_manager (drop_group_guard w) = None" "w_app (drop_group_guard w) = w_app w"
  "w_phase (stop_group w) = w_phase w" "w_task (stop_group w) = w_task w"
  "w_app (stop_group w) = w_app w" "w_manager (stop_group w) = map_option group_stop (w_manager w)"
  by (simp_all add: web_frames)

lemma web_step_induct [consumes 1]:
  assumes "web_step w w'"
    and "\<And>w w'. start_step w w' \<Longrightarrow> P w w'" and "\<And>w w'. network_step w w' \<Longrightarrow> P w w'"
    and "\<And>w w'. task_step w w' \<Longrightarrow> P w w'" and "\<And>w w'. stop_step w w' \<Longrightarrow> P w w'"
  shows "P w w'"
  using assms unfolding web_step_def by blast

lemma tasks_invD: "tasks_inv w \<Longrightarrow> w_phase w j \<notin> {Recording, Recorded, Done} \<Longrightarrow> w_task w j = NoTask"
  by (simp add: tasks_inv_def)

lemma tasks_inv_goto:
  "tasks_inv w \<Longrightarrow> w_task w j = NoTask \<or> p \<in> {Recording, Recorded, Done} \<Longrightarrow> tasks_inv (goto j p w)"
  by (auto simp: tasks_inv_def)

lemma tasks_inv_other: "w_phase w' = w_phase w \<Longrightarrow> w_task w' = w_task w \<Longrightarrow> tasks_inv w' \<longleftrightarrow> tasks_inv w"
  by (simp add: tasks_inv_def)

lemma tasks_inv_start: "start_step w w' \<Longrightarrow> tasks_inv w \<Longrightarrow> tasks_inv w'"
  by (induction rule: start_step.induct) (auto simp: tasks_inv_def split: if_splits)

lemma tasks_inv_network: "network_step w w' \<Longrightarrow> tasks_inv w \<Longrightarrow> tasks_inv w'"
  by (induction rule: network_step.induct) (auto simp: tasks_inv_def split: if_splits)

lemma tasks_inv_task: "task_step w w' \<Longrightarrow> tasks_inv w \<Longrightarrow> tasks_inv w'"
  by (induction rule: task_step.induct) (auto simp: tasks_inv_def split: if_splits)

lemma tasks_inv_stop: "stop_step w w' \<Longrightarrow> tasks_inv w \<Longrightarrow> tasks_inv w'"
  by (induction rule: stop_step.induct) (auto simp: tasks_inv_def split: if_splits)

text \<open>How the group guard moves: it stays where it is, is taken, is dropped or goes to the task.\<close>

lemma owner_frame:
  assumes "group_owner_inv w" and "holds_group w' = holds_group w" and "w_manager w' = None \<longleftrightarrow> w_manager w = None"
  shows "group_owner_inv w'"
  using assms by (cases "w_manager w"; cases "w_manager w'") (simp_all add: group_owner_inv_def)

lemma owner_goto:
  "group_owner_inv w \<Longrightarrow> holds_group w j \<longleftrightarrow> p \<in> {Grouped, Attached, Promoted, Refused, Detached} \<or>
     w_task w j \<in> {Holding, DroppedCleanup} \<Longrightarrow> group_owner_inv (goto j p w)"
  by (erule owner_frame) (auto simp: fun_eq_iff holds_group_def)

lemma owner_takes:
  "group_owner_inv w \<Longrightarrow> w_manager w = None \<Longrightarrow> group_owner_inv (goto j Grouped (w\<lparr>w_manager := Some g\<rparr>))"
  by (auto simp: group_owner_inv_def holds_group_def)

lemma owner_drops:
  assumes "group_owner_inv w" and "holds_group w j" and "\<And>i. i \<noteq> j \<Longrightarrow> holds_group w' i = holds_group w i"
    and "\<not> holds_group w' j" and "w_manager w' = None"
  shows "group_owner_inv w'"
proof -
  from assms(1,2) have "holds_group w i \<Longrightarrow> i = j" for i
    by (cases "w_manager w") (auto simp: group_owner_inv_def)
  with assms(3,4) have "\<not> holds_group w' i" for i by (cases "i = j") auto
  with assms(5) show ?thesis by (simp add: group_owner_inv_def)
qed

lemma owner_goto_drops:
  "group_owner_inv w \<Longrightarrow> tasks_inv w \<Longrightarrow> w_phase w j \<in> {Grouped, Attached, Promoted, Refused, Detached} \<Longrightarrow>
     p \<notin> {Grouped, Attached, Promoted, Refused, Detached} \<Longrightarrow> group_owner_inv (goto j p (drop_group_guard w))"
  by (erule owner_drops [where j = j]) (use tasks_invD [of w j] in \<open>auto simp: holds_group_def\<close>)

lemma owner_task_drops:
  "group_owner_inv w \<Longrightarrow> tasks_inv w \<Longrightarrow> w_task w j \<in> {Holding, DroppedCleanup} \<Longrightarrow> t \<notin> {Holding, DroppedCleanup} \<Longrightarrow>
     group_owner_inv (task_to j t (drop_group_guard w))"
  by (erule owner_drops [where j = j]) (auto simp: holds_group_def dest: tasks_invD [of w j])

lemma owner_same [simp]:
  "group_owner_inv (on_app f w) = group_owner_inv w" "group_owner_inv (w\<lparr>w_app := a\<rparr>) = group_owner_inv w"
  "group_owner_inv (w\<lparr>w_record := r\<rparr>) = group_owner_inv w" "group_owner_inv (stop_group w) = group_owner_inv w"
  by (auto simp: group_owner_inv_def holds_group_def split: option.splits)

lemma group_owner_start: "start_step w w' \<Longrightarrow> tasks_inv w \<Longrightarrow> group_owner_inv w \<Longrightarrow> group_owner_inv w'"
proof (induction rule: start_step.induct)
  case (group w j g m)
  then show ?case by (cases "w_manager w") (auto simp: manager_create_task_def intro: owner_takes)
qed (auto intro!: owner_goto simp: holds_group_def dest: tasks_invD)

lemma group_owner_network: "network_step w w' \<Longrightarrow> tasks_inv w \<Longrightarrow> group_owner_inv w \<Longrightarrow> group_owner_inv w'"
proof (induction rule: network_step.induct)
  case (spawns w j g i g')
  then have "holds_group (goto j Recording (task_to j Holding (w\<lparr>w_manager := Some g'\<rparr>))) = holds_group w"
    by (auto simp: fun_eq_iff holds_group_def)
  with spawns show ?case by (auto intro: owner_frame)
qed (auto intro: owner_goto owner_goto_drops simp: holds_group_def dest: tasks_invD)

lemma group_owner_task: "task_step w w' \<Longrightarrow> tasks_inv w \<Longrightarrow> group_owner_inv w \<Longrightarrow> group_owner_inv w'"
proof (induction rule: task_step.induct)
  case (ends_cleanup w j)
  have "holds_group (task_to j Gone (on_app stopped w)) = holds_group w"
    using ends_cleanup(1) by (auto simp: fun_eq_iff holds_group_def)
  with ends_cleanup show ?case by (auto intro: owner_frame)
next
  case (aborts w j g)
  have "holds_group (task_to j DroppedCleanup (on_app stopped w)) = holds_group w"
    using aborts(1) by (auto simp: fun_eq_iff holds_group_def)
  with aborts show ?case by (auto intro: owner_frame)
next
  case (works w g g')
  have "holds_group (w\<lparr>w_manager := Some g'\<rparr>) = holds_group w" by (auto simp: fun_eq_iff holds_group_def)
  with works show ?case by (auto intro: owner_frame)
qed (auto intro!: owner_task_drops)

lemma group_owner_stop: "stop_step w w' \<Longrightarrow> tasks_inv w \<Longrightarrow> group_owner_inv w \<Longrightarrow> group_owner_inv w'"
  by (induction rule: stop_step.induct) (auto intro!: owner_goto simp: holds_group_def dest: tasks_invD)

lemma web_step_inv:
  "web_step w w' \<Longrightarrow> tasks_inv w \<and> group_owner_inv w \<Longrightarrow> tasks_inv w' \<and> group_owner_inv w'"
  by (induction rule: web_step_induct)
    (auto intro: tasks_inv_start tasks_inv_network tasks_inv_task tasks_inv_stop
      group_owner_start group_owner_network group_owner_task group_owner_stop)

text \<open>How the status follows the guards.\<close>

lemma status_keep:
  assumes "status_inv w" and "\<And>i. holds_cleanup w i \<Longrightarrow> holds_cleanup w' i" and "\<And>i. holds_error w i \<Longrightarrow> holds_error w' i"
    and "hs_vnt (w_app w') = hs_vnt (w_app w) \<or> holds_cleanup w' j"
    and "hs_status (w_app w') = hs_status (w_app w) \<or> hs_status (w_app w') = Running \<and> holds_cleanup w' j \<or>
      hs_status (w_app w') = Starting \<and> holds_error w' j \<or> hs_status (w_app w') = Stopped"
  shows "status_inv w'"
  using assms unfolding status_inv_def by (metis VntStatus.distinct)

lemma status_stopped: "hs_vnt (w_app w') = None \<Longrightarrow> hs_status (w_app w') = Stopped \<Longrightarrow> status_inv w'"
  by (simp add: status_inv_def)

lemma status_error_drop:
  assumes "status_inv w" and "\<And>i. holds_cleanup w i \<Longrightarrow> holds_cleanup w' i" and "w_app w' = starting_to_stopped ts (w_app w)"
  shows "status_inv w'"
  using assms by (cases "hs_status (w_app w)") (auto simp: status_inv_def starting_to_stopped_def)

lemma status_inv_start: "start_step w w' \<Longrightarrow> tasks_inv w \<Longrightarrow> status_inv w \<Longrightarrow> status_inv w'"
proof (induction rule: start_step.induct)
  case (begins w j a)
  show ?case
    by (rule status_keep [OF begins.prems(2), of _ j])
      (use begins in \<open>auto simp: holder_defs starting_def split: if_splits\<close>)
next
  case (begin_refused w j e)
  show ?case by (rule status_keep [OF begin_refused.prems(2), of _ j]) (use begin_refused in \<open>auto simp: holder_defs\<close>)
next
  case (logs w j ts msg)
  show ?case by (rule status_keep [OF logs.prems(2), of _ j]) (auto simp: holder_defs record_log_def)
next
  case (config_fails w j ts)
  show ?case by (rule status_error_drop [OF config_fails.prems(2)]) (use config_fails in \<open>auto simp: holder_defs\<close>)
next
  case (group w j g m)
  show ?case by (rule status_keep [OF group.prems(2), of _ j]) (use group in \<open>auto simp: holder_defs\<close>)
next
  case (group_refused w j e ts)
  show ?case by (rule status_error_drop [OF group_refused.prems(2)]) (use group_refused in \<open>auto simp: holder_defs\<close>)
qed

lemma status_inv_network: "network_step w w' \<Longrightarrow> tasks_inv w \<Longrightarrow> status_inv w \<Longrightarrow> status_inv w'"
proof (induction rule: network_step.induct)
  case (attaches w j n f a)
  show ?case
    by (rule status_keep [OF attaches.prems(2), of _ j])
      (use attaches in \<open>auto simp: holder_defs attach_def split: if_splits\<close>)
next
  case (detaches w j)
  show ?case by (rule status_stopped) (auto simp: stopped_def)
next
  case (promotes w j)
  show ?case
    by (rule status_keep [OF promotes.prems(2), of _ j]) (use promotes in \<open>auto simp: holder_defs starting_to_running_def\<close>)
next
  case (refused_free w j)
  show ?case by (rule status_stopped) (auto simp: stopped_def)
next
  case (finishes w j ts)
  show ?case by (rule status_error_drop [OF finishes.prems(2)]) (use finishes in \<open>auto simp: holder_defs\<close>)
next
  case (logs_failure w j ts msg)
  show ?case
    by (rule status_keep [OF logs_failure.prems(2), of _ j])
      (use logs_failure in \<open>auto simp: holder_defs record_log_and_stopped_def\<close>)
next
  case (failed w j ts)
  show ?case by (rule status_error_drop [OF failed.prems(2)]) (use failed in \<open>auto simp: holder_defs\<close>)
qed (erule status_keep; auto simp: holder_defs)+

lemma status_inv_task: "task_step w w' \<Longrightarrow> tasks_inv w \<Longrightarrow> status_inv w \<Longrightarrow> status_inv w'"
proof (induction rule: task_step.induct)
  case (ends_cleanup w j)
  show ?case by (rule status_stopped) (auto simp: stopped_def)
next
  case (aborts w j g)
  show ?case by (rule status_stopped) (auto simp: stopped_def)
qed (erule status_keep; auto simp: holder_defs dest: tasks_invD)+

lemma status_inv_stop: "stop_step w w' \<Longrightarrow> tasks_inv w \<Longrightarrow> status_inv w \<Longrightarrow> status_inv w'"
  by (induction rule: stop_step.induct) (erule status_keep; auto simp: holder_defs)+

lemma status_inv_step: "web_step w w' \<Longrightarrow> tasks_inv w \<and> status_inv w \<Longrightarrow> status_inv w'"
  by (induction rule: web_step_induct)
    (auto intro: status_inv_start status_inv_network status_inv_task status_inv_stop)

interpretation web: machine_keeps web_step "\<lambda>w. tasks_inv w \<and> group_owner_inv w \<and> status_inv w"
  by unfold_locales (auto dest: web_step_inv status_inv_step)

lemma web_run_inv: "web_run (web_new r) w \<Longrightarrow> tasks_inv w \<and> group_owner_inv w \<and> status_inv w"
  by (erule web.kept_run) (simp add: tasks_inv_def group_owner_inv_def status_inv_def holder_defs web_new_def http_state_new_def)

section \<open>Properties\<close>

text \<open>
  C33. However requests to start, stop and restart interleave: at most one of them owns a task
  group, so at most one network is made or runs at a time, and the manager has a group exactly then; and once no
  guard is left the service is stopped, publishes no network, and a new start is accepted and gets
  its group.
\<close>

theorem web_service_invariant:
  assumes "web_run (web_new r) w"
  shows "(holds_group w i \<and> holds_group w j \<longrightarrow> i = j) \<and> (w_manager w \<noteq> None \<longleftrightarrow> (\<exists>j. holds_group w j)) \<and>
    ((\<forall>j. \<not> holds_group w j \<and> \<not> holds_cleanup w j \<and> \<not> holds_error w j) \<longrightarrow>
      get_start_status (w_app w) = (Stopped, hs_start_logs (w_app w)) \<and> hs_vnt (w_app w) = None \<and>
      (\<exists>a. starting (w_app w) = Inr a) \<and> manager_create_task (w_manager w) = Inr (group_new, Some group_new))"
proof -
  from web_run_inv [OF assms] have g: "group_owner_inv w" and s: "status_inv w" by simp_all
  have "hs_status (w_app w) = Stopped" "hs_vnt (w_app w) = None"
    if "\<forall>j. \<not> holds_group w j \<and> \<not> holds_cleanup w j \<and> \<not> holds_error w j"
    using s that by (cases "hs_status (w_app w)"; auto simp: status_inv_def)+
  with g show ?thesis
    by (cases "w_manager w") (auto simp: group_owner_inv_def get_start_status_def starting_def manager_create_task_def)
qed

text \<open>A start that fails to read its configuration.\<close>

theorem web_service_invariant_witness:
  "\<exists>w. web_run (web_new []) w \<and> w_phase w 0 = Done \<and> hs_start_logs (w_app w) = [''[t] interrupted''] \<and>
     (\<exists>a. starting (w_app w) = Inr a)"
proof -
  let ?a = "http_state_new\<lparr>hs_status := Starting\<rparr>"
  let ?w1 = "goto 0 Begun (web_new []\<lparr>w_app := ?a\<rparr>)"
  let ?w2 = "goto 0 Done (on_app (starting_to_stopped ''t'') ?w1)"
  have "start_step (web_new []) ?w1"
    by (rule begins) (simp_all add: web_new_def http_state_new_def starting_def)
  moreover have "start_step ?w1 ?w2" by (rule config_fails) simp
  ultimately have run: "web_run (web_new []) ?w2"
    by (metis web_step_def r_into_rtranclp rtranclp.rtrancl_into_rtrancl)
  have "\<forall>j. \<not> holds_group ?w2 j \<and> \<not> holds_cleanup ?w2 j \<and> \<not> holds_error ?w2 j"
    by (simp add: holder_defs web_new_def)
  with web_service_invariant [OF run] have "\<exists>a. starting (w_app ?w2) = Inr a" by blast
  moreover have "hs_start_logs (w_app ?w2) = [''[t] interrupted'']"
    by (simp add: starting_to_stopped_def log_line_def http_state_new_def)
  ultimately show ?thesis using run by (intro exI [of _ ?w2]) simp
qed

text \<open>
  A network runs, its group is not stopped, and the service takes itself for stopped. No request in progress is left.
\<close>

definition network_lost :: "Web \<Rightarrow> bool" where
  "network_lost w \<longleftrightarrow> w_task w 1 = Holding \<and> (case w_manager w of None \<Rightarrow> False | Some g \<Rightarrow> \<not> tg_stopped g) \<and>
     hs_status (w_app w) = Stopped \<and> hs_vnt (w_app w) \<noteq> None \<and> range (w_phase w) \<subseteq> {Idle, Done}"

abbreviation requests_run :: "Web \<Rightarrow> Web \<Rightarrow> bool" where
  "requests_run \<equiv> (\<lambda>w w'. start_step w w' \<or> network_step w w' \<or> stop_step w w')\<^sup>*\<^sup>*"

lemma lost_phaseD: "w_phase w j = p \<Longrightarrow> network_lost w \<Longrightarrow> p = Idle \<or> p = Done"
  by (auto simp: network_lost_def)

lemma lost_refused: "network_lost w \<Longrightarrow> network_lost (goto j Done w)"
  by (auto simp: network_lost_def)

lemma lost_status: "network_lost w \<Longrightarrow> hs_status (w_app w) = Stopped \<and> hs_vnt (w_app w) \<noteq> None"
  by (simp add: network_lost_def)

lemma lost_start: "start_step w w' \<Longrightarrow> network_lost w \<Longrightarrow> network_lost w'"
  by (induction rule: start_step.induct)
    (auto dest: lost_phaseD lost_status simp: starting_def intro: lost_refused split: if_splits)

lemma lost_network_step: "network_step w w' \<Longrightarrow> network_lost w \<Longrightarrow> network_lost w'"
  by (induction rule: network_step.induct) (auto dest: lost_phaseD)

lemma lost_stop: "stop_step w w' \<Longrightarrow> network_lost w \<Longrightarrow> network_lost w'"
  by (induction rule: stop_step.induct)
    (auto dest: lost_phaseD lost_status simp: stop_accepted_def intro: lost_refused)

interpretation lost: machine_keeps "\<lambda>w w'. start_step w w' \<or> network_step w w' \<or> stop_step w w'" network_lost
  by unfold_locales (auto intro: lost_start lost_network_step lost_stop)

text \<open>
  The first request has failed before it published a network; a second one begins after the failure has
  been logged and before the first drops its error guard.
\<close>

definition overtaken :: "string \<Rightarrow> Web" where
  "overtaken r =
     (let w1 = goto 0 Begun (web_new r\<lparr>w_app := http_state_new\<lparr>hs_status := Starting\<rparr>\<rparr>);
          w2 = goto 0 Grouped (w1\<lparr>w_manager := Some group_new\<rparr>);
          w3 = goto 0 FailedLogged (on_app (record_log_and_stopped ''t'' ''failed'') (goto 0 Failed (drop_group_guard w2)));
          w4 = goto 1 Begun (w3\<lparr>w_app := (w_app w3)\<lparr>hs_status := Starting, hs_start_logs := []\<rparr>\<rparr>);
          w5 = goto 0 Done (on_app (starting_to_stopped ''t'') w4) in
      goto 1 Grouped (w5\<lparr>w_manager := Some group_new\<rparr>))"

lemma web_run_steps:
  "web_run a b \<Longrightarrow> start_step b c \<Longrightarrow> web_run a c" "web_run a b \<Longrightarrow> network_step b c \<Longrightarrow> web_run a c"
  by (auto simp: web_step_def intro: rtranclp.rtrancl_into_rtrancl)

lemma overtaken_run: "web_run (web_new r) (overtaken r)"
  unfolding overtaken_def Let_def
  apply (rule web_run_steps(1) [OF web_run_steps(2) [OF web_run_steps(1) [OF web_run_steps(2) [OF web_run_steps(2)
    [OF web_run_steps(1) [OF web_run_steps(1) [OF rtranclp.rtrancl_refl begins] group] network_fails] logs_failure] begins] failed] group])
  by (simp_all add: web_new_def http_state_new_def starting_def manager_create_task_def record_log_and_stopped_def)

text \<open>
  A start that follows a failed one too closely loses its network. There is a run after which the
  network of the second request is up, its task group is not stopped, and the service says it is
  stopped while it still publishes the network: whatever requests come, to stop, to start or to restart,
  nothing changes any more, and the network runs on.
\<close>

lemma lost_network:
  "\<exists>w. web_run (web_new r) w \<and> network_lost w \<and> {w'. requests_run w w'} \<subseteq> {w'. network_lost w'}"
proof -
  let ?h = "\<lparr>vh_network = 1, vh_config_name = [], vh_config_file_name = []\<rparr>"
  let ?w1 = "goto 1 Attached (overtaken r\<lparr>w_app := (w_app (overtaken r))\<lparr>hs_vnt := Some ?h\<rparr>\<rparr>)"
  let ?w2 = "goto 1 Promoted (on_app starting_to_running ?w1)"
  let ?w3 = "goto 1 Recording (task_to 1 Holding (?w2\<lparr>w_manager := Some (snd (group_spawn group_new))\<rparr>))"
  let ?w4 = "goto 1 Done (on_app (starting_to_stopped ''t'') (goto 1 Recorded (?w3\<lparr>w_record := []\<rparr>)))"
  have o: "w_phase (overtaken r) = (\<lambda>_. Idle)(0 := Done, 1 := Grouped)" "w_manager (overtaken r) = Some group_new"
    "hs_vnt (w_app (overtaken r)) = None" "hs_status (w_app (overtaken r)) = Stopped"
    by (auto simp: overtaken_def Let_def web_new_def http_state_new_def record_log_and_stopped_def starting_to_stopped_def)
  have "web_run (web_new r) ?w1"
    by (rule web_run_steps(2) [OF overtaken_run attaches]) (simp_all add: o attach_def)
  then have "web_run (web_new r) ?w2" by (rule web_run_steps(2)) (rule promotes, simp)
  then have "web_run (web_new r) ?w3"
    by (rule web_run_steps(2)) (rule spawns [where i = 0 and g = group_new]; simp add: o group_spawn_def group_new_def)
  then have "web_run (web_new r) (goto 1 Recorded (?w3\<lparr>w_record := []\<rparr>))"
    by (rule web_run_steps(2)) (rule records, simp)
  then have run: "web_run (web_new r) ?w4" by (rule web_run_steps(2)) (rule finishes, simp)
  have "network_lost ?w4"
    by (auto simp: network_lost_def o group_spawn_def group_new_def starting_to_running_def starting_to_stopped_def)
  with run lost.kept_run show ?thesis by blast
qed

text \<open>
  The two ways a start fails in \<open>start_vnt_network\<close>, from the dropping of its guards to the drop of the
  error guard: before and after the network is published.
\<close>

definition fail_before_attach :: "string \<Rightarrow> string \<Rightarrow> string \<Rightarrow> HttpAppState \<Rightarrow> HttpAppState" where
  "fail_before_attach ts1 ts2 msg s = starting_to_stopped ts2 (record_log_and_stopped ts1 msg s)"

definition fail_after_attach :: "string \<Rightarrow> string \<Rightarrow> string \<Rightarrow> HttpAppState \<Rightarrow> HttpAppState" where
  "fail_after_attach ts1 ts2 msg s = starting_to_stopped ts2 (record_log_and_stopped ts1 msg (stopped s))"

text \<open>
  Why a start failed is told only if it failed early. An undisturbed start that fails before it publishes its
  network ends with the reason in the log; one that fails after, when the server refuses the
  registration or the interface cannot be made, runs to its end without another line: the clean-up guard
  has set the status to stopped, and the reason is thrown away.
\<close>

lemma registration_failure_not_logged:
  assumes "hs_status (w_app w) = Starting"
  shows "(w_phase w j = Grouped \<longrightarrow>
      web_run w (goto j Done (w\<lparr>w_manager := None, w_app := fail_before_attach ts1 ts2 msg (w_app w)\<rparr>)) \<and>
      hs_start_logs (fail_before_attach ts1 ts2 msg (w_app w)) = hs_start_logs (w_app w) @ [log_line ts1 msg]) \<and>
    (w_phase w j = Attached \<longrightarrow>
      web_run w (goto j Done (w\<lparr>w_manager := None, w_app := fail_after_attach ts1 ts2 msg (w_app w)\<rparr>)) \<and>
      hs_start_logs (fail_after_attach ts1 ts2 msg (w_app w)) = hs_start_logs (w_app w))"
proof (intro conjI impI)
  assume "w_phase w j = Grouped"
  note r = web_run_steps(2) [OF rtranclp.rtrancl_refl network_fails [OF this]]
  have "web_run w (goto j Done (on_app (starting_to_stopped ts2) (goto j FailedLogged
      (on_app (record_log_and_stopped ts1 msg) (goto j Failed (drop_group_guard w))))))"
    by (rule web_run_steps(2) [OF web_run_steps(2) [OF r logs_failure] failed]) simp_all
  then show "web_run w (goto j Done (w\<lparr>w_manager := None, w_app := fail_before_attach ts1 ts2 msg (w_app w)\<rparr>))"
    by (simp add: web_frames fail_before_attach_def)
next
  assume "w_phase w j = Attached"
  note r = web_run_steps(2) [OF web_run_steps(2) [OF rtranclp.rtrancl_refl detaches [OF this]] detached]
  have "web_run w (goto j Done (on_app (starting_to_stopped ts2) (goto j FailedLogged
      (on_app (record_log_and_stopped ts1 msg) (goto j Failed (drop_group_guard (goto j Detached (on_app stopped w))))))))"
    by (rule web_run_steps(2) [OF web_run_steps(2) [OF r logs_failure] failed]) simp_all
  then show "web_run w (goto j Done (w\<lparr>w_manager := None, w_app := fail_after_attach ts1 ts2 msg (w_app w)\<rparr>))"
    by (simp add: web_frames fail_after_attach_def)
qed (use assms in \<open>auto simp: fail_before_attach_def fail_after_attach_def app_defs\<close>)

lemma registration_failure_not_logged_witness:
  "\<exists>w w'. hs_start_logs (w_app w) = [''[t] register''] \<and> web_run w w' \<and> w_phase w' 0 = Done \<and>
     hs_status (w_app w') = Stopped \<and> hs_start_logs (w_app w') = [''[t] register'']"
proof -
  let ?w = "goto 0 Attached (web_new []\<lparr>w_app := \<lparr>hs_vnt = None, hs_status = Starting, hs_start_logs = [''[t] register'']\<rparr>\<rparr>)"
  let ?w' = "goto 0 Done (?w\<lparr>w_manager := None, w_app := fail_after_attach ''t'' ''t'' ''refused'' (w_app ?w)\<rparr>)"
  have "web_run ?w ?w' \<and> hs_start_logs (w_app ?w') = [''[t] register'']"
    using registration_failure_not_logged [of ?w 0 "''t''" "''t''" "''refused''"] by simp
  then show ?thesis by (intro exI [of _ ?w] exI [of _ ?w']) (simp add: fail_after_attach_def app_defs)
qed

end
