(* ===== verification/Front_Ends.thy ===== *)
theory Front_Ends
  imports Server_Rpc Web_Service
begin

text \<open>
  What the two front ends tell of a running node, both over \<open>VntApi\<close>: the local socket of the
  command line tool (\<open>vnt-ipc/src/server.rs\<close>) and the HTTP service
  (\<open>get_info\<close>, \<open>get_peers\<close>, \<open>get_routes\<close> of \<open>vnt-web/src/service_http.rs\<close>). The node is a snapshot of its
  \<open>AppState\<close>; the answer of the servers to \<open>client_list\<close> is an argument, and so is the text of addresses and of
  route keys (\<open>printer\<close>).
\<close>

record 'k printer =
  sh_ipv4 :: "ipv4 \<Rightarrow> string"
  sh_ipv6 :: "bytes \<Rightarrow> string"
  sh_key :: "'k \<Rightarrow> string"
  sh_protocol :: "'k \<Rightarrow> string"

definition nat_type_debug :: "NatType \<Rightarrow> string" where
  "nat_type_debug t = (case t of Symmetric \<Rightarrow> ''Symmetric'' | Cone \<Rightarrow> ''Cone'')"

definition DEFAULT_MTU :: u16 where "DEFAULT_MTU = 1380"

definition client_ips :: "'k AppState \<Rightarrow> ClientSimpleInfo list" where
  "client_ips s = client_simple_list (as_server_info s)"

definition own_key_sign :: "('c, 'z) aead_scheme \<Rightarrow> 'k AppState \<Rightarrow> string option" where
  "own_key_sign A s = Option.bind (as_config s) (config_key_sign A)"

section \<open>The local socket\<close>

record IpcServerInfo =
  is_server :: string
  is_connected :: bool
  is_server_rtt :: "u32 option"
  is_last_connected_time :: "int option"

record AppInfo =
  ai_server_info :: "IpcServerInfo list"
  ai_name :: string
  ai_version :: string
  ai_ip :: "u32 option"
  ai_online_client_num :: u32
  ai_offline_client_num :: u32
  ai_direct_client_num :: u32
  ai_device_id :: string
  ai_nat_type :: "string option"
  ai_public_ipv4s :: "string list"
  ai_public_ipv6 :: "string option"

definition app_info :: "'k printer \<Rightarrow> net_contains \<Rightarrow> string \<Rightarrow> 'k AppState \<Rightarrow> AppInfo" where
  "app_info sh C version s =
     (let config = as_config s; ips = client_ips s; nat_info = get_nat_info C s in
      \<lparr>ai_server_info = map (\<lambda>v. \<lparr>is_server = protocol_address_display (sn_server_addr v), is_connected = sn_connected v,
          is_server_rtt = sn_rtt v, is_last_connected_time = sn_last_connected_time v\<rparr>) (server_node_list (as_server_info s)),
       ai_name = get_or_default [] (map_option cfg_device_name config),
       ai_version = version,
       ai_ip = map_option na_ip (as_network s),
       ai_online_client_num = of_nat (length (filter cs_online ips)),
       ai_offline_client_num = of_nat (length (filter (\<lambda>v. \<not> cs_online v) ips)),
       ai_direct_client_num = of_nat (length (filter (\<lambda>v. api_is_direct s (cs_ip v)) ips)),
       ai_device_id = get_or_default [] (map_option cfg_device_id config),
       ai_nat_type = map_option (\<lambda>v. nat_type_debug (nat_type v)) nat_info,
       ai_public_ipv4s = get_or_default [] (map_option (\<lambda>v. map (sh_ipv4 sh) (public_ips v)) nat_info),
       ai_public_ipv6 = Option.bind nat_info (\<lambda>v. map_option (sh_ipv6 sh) (ipv6 v))\<rparr>)"

record ClientIpItem =
  cp_ip :: u32
  cp_online :: bool
  cp_is_direct :: bool
  cp_rtt :: "u32 option"

definition client_ip_item :: "'k AppState \<Rightarrow> ClientSimpleInfo \<Rightarrow> ClientIpItem" where
  "client_ip_item s v =
     \<lparr>cp_ip = cs_ip v, cp_online = cs_online v, cp_is_direct = api_is_direct s (cs_ip v), cp_rtt = api_get_rtt s (cs_ip v)\<rparr>"

record ClientInfoItem =
  ct_ip :: u32
  ct_name :: string
  ct_version :: string
  ct_online :: bool
  ct_is_direct :: bool
  ct_last_connected_time :: int
  ct_rtt :: "u32 option"
  ct_key_equal :: bool
  ct_packet_loss :: "(u64 \<times> u64 \<times> rat) option"

definition client_info_item :: "('c, 'z) aead_scheme \<Rightarrow> 'k AppState \<Rightarrow> ClientInfo \<Rightarrow> ClientInfoItem" where
  "client_info_item A s v =
     (let ip = ci_ip v in
      \<lparr>ct_ip = ci_ip v, ct_name = ci_name v, ct_version = ci_version v, ct_online = ci_online v,
       ct_is_direct = api_is_direct s (ci_ip v), ct_last_connected_time = ci_last_connected_time v,
       ct_rtt = api_get_rtt s ip, ct_key_equal = (own_key_sign A s = ci_key_sign v),
       ct_packet_loss = map_option (\<lambda>info. (pl_sent info, pl_received info, pl_loss_rate info))
         (get_loss_info (as_packet_loss_stats s) ip)\<rparr>)"

definition all_route :: "'k printer \<Rightarrow> 'k AppState \<Rightarrow> (u32 \<times> (string \<times> u32 \<times> u32) list) list" where
  "all_route sh s =
     map (\<lambda>(ip, l). (ip, map (\<lambda>v. (sh_key sh (route_key v), ucast (metric v), rtt v)) l)) (route_table (as_route_table s))"

definition all_traffic :: "'k AppState \<Rightarrow> (u32 \<times> u64 \<times> u64) list" where
  "all_traffic s = map (\<lambda>i. (ti_ip i, ti_tx_bytes i, ti_rx_bytes i)) (get_all_traffic_info (as_traffic_stats s))"

datatype IpcCmd = AppInfoCmd | ClientIpsCmd | ClientListCmd | AllRouteCmd | TrafficListCmd

datatype ResponsePayload =
    AppInfoRes AppInfo
  | ClientIpsRes "ClientIpItem list"
  | IpcClientListRes "ClientInfoItem list"
  | AllRouteRes "(u32 \<times> (string \<times> u32 \<times> u32) list) list"
  | TrafficListRes "(u32 \<times> u64 \<times> u64) list"

text \<open>One request of a connection: \<open>cmd\<close> is the decoded command, \<open>servers\<close> the outcome of the call to the servers.\<close>

definition handle_connection ::
  "('c, 'z) aead_scheme \<Rightarrow> 'k printer \<Rightarrow> net_contains \<Rightarrow> string \<Rightarrow> 'k AppState \<Rightarrow> ClientInfo list result \<Rightarrow>
   IpcCmd option \<Rightarrow> ResponsePayload result" where
  "handle_connection A sh C version s servers cmd =
     (case cmd of
        None \<Rightarrow> Inl (Bail ''Received an IpcRequest but it was None'')
      | Some AppInfoCmd \<Rightarrow> Inr (AppInfoRes (app_info sh C version s))
      | Some ClientIpsCmd \<Rightarrow> Inr (ClientIpsRes (map (client_ip_item s) (client_ips s)))
      | Some ClientListCmd \<Rightarrow> rbind servers (\<lambda>l. Inr (IpcClientListRes (map (client_info_item A s) l)))
      | Some AllRouteCmd \<Rightarrow> Inr (AllRouteRes (all_route sh s))
      | Some TrafficListCmd \<Rightarrow> Inr (TrafficListRes (all_traffic s)))"

section \<open>The HTTP service\<close>

record 'a ApiResponse =
  rsp_code :: int
  rsp_msg :: string
  rsp_data :: "'a option"

definition api_success :: "'a \<Rightarrow> 'a ApiResponse" where
  "api_success d = \<lparr>rsp_code = 0, rsp_msg = ''success'', rsp_data = Some d\<rparr>"

definition api_error :: "string \<Rightarrow> 'a ApiResponse" where
  "api_error msg = \<lparr>rsp_code = -1, rsp_msg = msg, rsp_data = None\<rparr>"

record HttpServerInfo =
  hsi_server :: string
  hsi_connected :: bool
  hsi_server_rtt :: "u32 option"
  hsi_server_version :: "string option"

record HttpAppInfo =
  hi_name :: string
  hi_version :: string
  hi_ip :: "ipv4 option"
  hi_prefix_len :: "u8 option"
  hi_gateway :: "ipv4 option"
  hi_device_id :: string
  hi_status :: VntStatus
  hi_current_config_name :: "string option"
  hi_current_config_file :: "string option"
  hi_online_client_num :: nat
  hi_offline_client_num :: nat
  hi_direct_client_num :: nat
  hi_server_info :: "HttpServerInfo list"
  hi_nat_type :: "string option"
  hi_public_ipv6 :: "bytes option"
  hi_public_ipv4s :: "ipv4 list"
  hi_network_code :: "string option"
  hi_mtu :: "u16 option"
  hi_fec :: "bool option"
  hi_compress :: "bool option"
  hi_encrypt :: "bool option"
  hi_rtx :: "bool option"

text \<open>\<open>get_info\<close>: \<open>node\<close> is the state of the network the service publishes, if any.\<close>

definition get_info ::
  "net_contains \<Rightarrow> string \<Rightarrow> HttpAppState \<Rightarrow> (nat \<Rightarrow> 'k AppState) \<Rightarrow> HttpAppInfo ApiResponse" where
  "get_info C version hs node = api_success
     (case hs_vnt hs of
        Some handler \<Rightarrow>
          (let s = node (vh_network handler); config = as_config s; ips = client_ips s; nat_info = get_nat_info C s;
               network = as_network s in
           \<lparr>hi_name = get_or_default [] (map_option cfg_device_name config),
            hi_version = version,
            hi_ip = map_option na_ip network,
            hi_prefix_len = map_option na_prefix_len network,
            hi_gateway = map_option na_gateway network,
            hi_device_id = get_or_default [] (map_option cfg_device_id config),
            hi_status = hs_status hs,
            hi_current_config_name = Some (vh_config_name handler),
            hi_current_config_file = Some (vh_config_file_name handler),
            hi_online_client_num = length (filter cs_online ips),
            hi_offline_client_num = length (filter (\<lambda>v. \<not> cs_online v) ips),
            hi_direct_client_num = length (filter (\<lambda>v. api_is_direct s (cs_ip v)) ips),
            hi_server_info = map (\<lambda>v. \<lparr>hsi_server = protocol_address_display (sn_server_addr v), hsi_connected = sn_connected v,
              hsi_server_rtt = sn_rtt v, hsi_server_version = sn_server_version v\<rparr>) (server_node_list (as_server_info s)),
            hi_nat_type = map_option (\<lambda>v. nat_type_debug (nat_type v)) nat_info,
            hi_public_ipv6 = Option.bind nat_info ipv6,
            hi_public_ipv4s = get_or_default [] (map_option public_ips nat_info),
            hi_network_code = map_option cfg_network_code config,
            hi_mtu = map_option (\<lambda>c. get_or_default DEFAULT_MTU (cfg_mtu c)) config,
            hi_fec = map_option cfg_fec config,
            hi_compress = map_option cfg_compress config,
            hi_encrypt = map_option (\<lambda>c. cfg_password c \<noteq> None) config,
            hi_rtx = map_option cfg_rtx config\<rparr>)
      | None \<Rightarrow>
          \<lparr>hi_name = [], hi_version = version, hi_ip = None, hi_prefix_len = None, hi_gateway = None, hi_device_id = [],
           hi_status = hs_status hs, hi_current_config_name = None, hi_current_config_file = None,
           hi_online_client_num = 0, hi_offline_client_num = 0, hi_direct_client_num = 0, hi_server_info = [],
           hi_nat_type = None, hi_public_ipv6 = None, hi_public_ipv4s = [], hi_network_code = None, hi_mtu = None,
           hi_fec = None, hi_compress = None, hi_encrypt = None, hi_rtx = None\<rparr>)"

record HttpRouteDetail =
  hr_addr :: string
  hr_protocol :: string
  hr_metric :: u8
  hr_rtt :: u32

record HttpClientNatInfo =
  hn_nat_type :: string
  hn_public_ips :: "ipv4 list"
  hn_ipv6 :: "bytes option"

record HttpClientItem =
  hc_ip :: ipv4
  hc_name :: "string option"
  hc_online :: bool
  hc_route :: "HttpRouteDetail option"
  hc_version :: string
  hc_last_connected_time :: int
  hc_key_equal :: int
  hc_nat_info :: "HttpClientNatInfo option"
  hc_packet_loss :: "(u64 \<times> u64 \<times> rat) option"
  hc_traffic :: "(u64 \<times> u64) option"

definition route_detail :: "'k printer \<Rightarrow> 'k Route \<Rightarrow> HttpRouteDetail" where
  "route_detail sh r = \<lparr>hr_addr = sh_key sh (route_key r), hr_protocol = sh_protocol sh (route_key r),
     hr_metric = metric r, hr_rtt = rtt r\<rparr>"

definition build_route :: "'k printer \<Rightarrow> 'k AppState \<Rightarrow> ipv4 \<Rightarrow> HttpRouteDetail option" where
  "build_route sh s ip = map_option (route_detail sh) (api_find_route s ip)"

definition build_nat_info :: "'k AppState \<Rightarrow> ipv4 \<Rightarrow> HttpClientNatInfo option" where
  "build_nat_info s ip =
     map_option (\<lambda>v. \<lparr>hn_nat_type = nat_type_debug (nat_type v), hn_public_ips = public_ips v, hn_ipv6 = ipv6 v\<rparr>)
       (api_peer_nat_info s ip)"

definition build_packet_loss :: "'k AppState \<Rightarrow> ipv4 \<Rightarrow> (u64 \<times> u64 \<times> rat) option" where
  "build_packet_loss s ip =
     map_option (\<lambda>v. (pl_sent v, pl_received v, pl_loss_rate v)) (get_loss_info (as_packet_loss_stats s) ip)"

definition build_traffic :: "'k AppState \<Rightarrow> ipv4 \<Rightarrow> (u64 \<times> u64) option" where
  "build_traffic s ip = map_option (\<lambda>v. (ti_tx_bytes v, ti_rx_bytes v)) (get_traffic_info (as_traffic_stats s) ip)"

definition calc_key_equal :: "string option \<Rightarrow> string option \<Rightarrow> int" where
  "calc_key_equal own peer =
     (case (own, peer) of
        (None, None) \<Rightarrow> 2
      | (Some k1, Some k2) \<Rightarrow> if k1 = k2 then 1 else 5
      | (Some _, None) \<Rightarrow> 3
      | (None, Some _) \<Rightarrow> 4)"

definition local_peer :: "'k printer \<Rightarrow> 'k AppState \<Rightarrow> ClientSimpleInfo \<Rightarrow> HttpClientItem" where
  "local_peer sh s v =
     (let ip = cs_ip v; route = build_route sh s ip in
      \<lparr>hc_ip = ip, hc_name = None, hc_online = (cs_online v \<or> route \<noteq> None), hc_route = route, hc_version = [],
       hc_last_connected_time = 0, hc_key_equal = 0, hc_nat_info = build_nat_info s ip,
       hc_packet_loss = build_packet_loss s ip, hc_traffic = build_traffic s ip\<rparr>)"

definition server_peer :: "('c, 'z) aead_scheme \<Rightarrow> 'k printer \<Rightarrow> 'k AppState \<Rightarrow> ClientInfo \<Rightarrow> HttpClientItem" where
  "server_peer A sh s v =
     (let ip = ci_ip v; route = build_route sh s ip in
      \<lparr>hc_ip = ip, hc_name = Some (ci_name v), hc_online = (ci_online v \<or> route \<noteq> None), hc_route = route,
       hc_version = ci_version v, hc_last_connected_time = ci_last_connected_time v,
       hc_key_equal = calc_key_equal (own_key_sign A s) (ci_key_sign v), hc_nat_info = build_nat_info s ip,
       hc_packet_loss = build_packet_loss s ip, hc_traffic = build_traffic s ip\<rparr>)"

text \<open>\<open>get_peers\<close>: the local list first, the servers' entries over it, the items in the order of their addresses.\<close>

definition get_peers ::
  "('c, 'z) aead_scheme \<Rightarrow> 'k printer \<Rightarrow> 'k AppState option \<Rightarrow> ClientInfo list result \<Rightarrow> HttpClientItem list ApiResponse" where
  "get_peers A sh api servers =
     (case api of
        None \<Rightarrow> api_error ''VNT not running''
      | Some s \<Rightarrow>
          let merged = fold (\<lambda>v. hm_put (cs_ip v) (local_peer sh s v)) (client_ips s) [];
              merged = (case servers of
                Inr l \<Rightarrow> fold (\<lambda>v. hm_put (ci_ip v) (server_peer A sh s v)) l merged
              | Inl _ \<Rightarrow> merged) in
          api_success (sort_key hc_ip (map snd merged)))"

definition get_routes :: "'k printer \<Rightarrow> 'k AppState option \<Rightarrow> (ipv4 \<times> HttpRouteDetail list) list ApiResponse" where
  "get_routes sh api =
     (case api of
        None \<Rightarrow> api_error ''VNT not running''
      | Some s \<Rightarrow> api_success (map (\<lambda>(ip, l). (ip, map (route_detail sh) l)) (route_table (as_route_table s))))"

section \<open>Lemmas\<close>

lemma calc_key_equal_equal: "calc_key_equal a b \<in> {1, 2} \<longleftrightarrow> a = b"
  by (auto simp: calc_key_equal_def split: option.splits)

text \<open>Putting items under their own key keeps a map whose items carry their keys.\<close>

definition keyed :: "('v \<Rightarrow> 'k) \<Rightarrow> ('k, 'v) hashmap \<Rightarrow> bool" where
  "keyed key m \<longleftrightarrow> hm_ok m \<and> (\<forall>k v. hm_get m k = Some v \<longrightarrow> key v = k)"

lemma keyed_put: "keyed key m \<Longrightarrow> keyed key (hm_put (key v) v m)"
  by (auto simp: keyed_def distinct_update hm_get_put)

lemma keyed_fold: "keyed key m \<Longrightarrow> (\<And>x. key (item x) = k x) \<Longrightarrow> keyed key (fold (\<lambda>x. hm_put (k x) (item x)) xs m)"
proof (induction xs arbitrary: m)
  case (Cons x xs)
  from keyed_put [OF Cons.prems(1), of "item x"] Cons.prems(2) have "keyed key (hm_put (k x) (item x) m)" by simp
  from Cons.IH [OF this Cons.prems(2)] show ?case by simp
qed simp

lemma fold_put_get:
  "hm_get (fold (\<lambda>x. hm_put (k x) (item x)) xs m) i =
     (case find (\<lambda>x. k x = i) (rev xs) of Some x \<Rightarrow> Some (item x) | None \<Rightarrow> hm_get m i)"
proof (induction xs arbitrary: m)
  case (Cons x xs)
  have "find P (ys @ [x]) = (case find P ys of Some y \<Rightarrow> Some y | None \<Rightarrow> if P x then Some x else None)" for P ys
    by (induction ys) auto
  with Cons show ?case by (auto simp: hm_get_put split: option.splits)
qed simp

lemma fold_put_None:
  "hm_get (fold (\<lambda>x. hm_put (k x) (item x)) xs m) i = None \<longleftrightarrow> hm_get m i = None \<and> (\<forall>x\<in>set xs. k x \<noteq> i)"
  by (induction xs arbitrary: m) (auto simp: hm_get_put split: if_splits)

lemma find_revD: "find P (rev xs) = Some x \<Longrightarrow> x \<in> set xs \<and> P x"
  by (metis find_Some_iff nth_mem set_rev)

lemma keyed_mem: "keyed key m \<Longrightarrow> v \<in> set (map snd m) \<longleftrightarrow> hm_get m (key v) = Some v"
  by (force simp: keyed_def map_of_eq_Some_iff)

lemma keyed_sorted:
  fixes key :: "'v \<Rightarrow> 'k :: linorder"
  assumes "keyed key m"
  shows "sorted_wrt (<) (map key (sort_key key (map snd m)))"
proof -
  have "map key (map snd m) = map fst m" using assms by (force simp: keyed_def map_of_eq_Some_iff)
  moreover have "hm_ok m" using assms by (simp add: keyed_def)
  ultimately have "distinct (map key (map snd m))" by (simp only:)
  then have "distinct (map key (sort_key key (map snd m)))"
    by (metis distinct_map mset_sort set_sort distinct_sort)
  moreover have "sorted (map key (sort_key key (map snd m)))" by simp
  ultimately show ?thesis by (simp add: strict_sorted_iff)
qed

lemma peer_ip: "hc_ip (local_peer sh s v) = cs_ip v" "hc_ip (server_peer A sh s w) = ci_ip w"
  by (simp_all add: local_peer_def server_peer_def Let_def)

lemma build_route_iff: "build_route sh s ip \<noteq> None \<longleftrightarrow> rt_exists (as_route_table s) ip"
  by (auto simp: build_route_def api_find_route_def rt_exists_def get_route_by_id_def ok_or_def split: option.splits)

lemma peer_online:
  "hc_online (local_peer sh s v) \<longleftrightarrow> cs_online v \<or> rt_exists (as_route_table s) (cs_ip v)"
  "hc_online (server_peer A sh s w) \<longleftrightarrow> ci_online w \<or> rt_exists (as_route_table s) (ci_ip w)"
  by (simp_all only: local_peer_def server_peer_def Let_def HttpClientItem.simps build_route_iff)

section \<open>Properties\<close>

text \<open>
  The peer list of the web page: every client the node or its servers know of stands in it once, in
  the order of the addresses; it is shown with what a server says of it if a server does, otherwise
  with the local entry; and it is online exactly when that source says so or the node has a route to it.
\<close>

lemma peer_list_merged:
  assumes "rsp_data (get_peers A sh (Some s) (Inr l)) = Some items"
  shows "sorted_wrt (<) (map hc_ip items) \<and>
    hc_ip ` set items = cs_ip ` set (client_ips s) \<union> ci_ip ` set l \<and>
    (\<forall>it\<in>set items.
      (\<exists>v\<in>set l. it = server_peer A sh s v \<and> (hc_online it \<longleftrightarrow> ci_online v \<or> rt_exists (as_route_table s) (hc_ip it))) \<or>
      hc_ip it \<notin> ci_ip ` set l \<and>
      (\<exists>v\<in>set (client_ips s). it = local_peer sh s v \<and> (hc_online it \<longleftrightarrow> cs_online v \<or> rt_exists (as_route_table s) (hc_ip it))))"
proof -
  let ?loc = "fold (\<lambda>v. hm_put (cs_ip v) (local_peer sh s v)) (client_ips s) []"
  let ?m = "fold (\<lambda>v. hm_put (ci_ip v) (server_peer A sh s v)) l ?loc"
  have "keyed hc_ip ?loc" by (rule keyed_fold) (simp_all add: keyed_def peer_ip)
  then have k: "keyed hc_ip ?m" by (rule keyed_fold) (simp add: peer_ip)
  have items: "items = sort_key hc_ip (map snd ?m)"
    using assms by (simp add: get_peers_def api_success_def Let_def)
  have mem: "it \<in> set items \<longleftrightarrow> hm_get ?m (hc_ip it) = Some it" for it
    unfolding items using keyed_mem [OF k] by simp
  have src: "(\<exists>v\<in>set l. it = server_peer A sh s v) \<or>
      hc_ip it \<notin> ci_ip ` set l \<and> (\<exists>v\<in>set (client_ips s). it = local_peer sh s v)" if "it \<in> set items" for it
    using that unfolding mem fold_put_get
    by (auto simp: find_None_iff dest!: find_revD split: option.splits)
  show ?thesis
  proof (intro conjI ballI)
    show "sorted_wrt (<) (map hc_ip items)" unfolding items by (rule keyed_sorted [OF k])
    have "ip \<in> hc_ip ` set items \<longleftrightarrow> hm_get ?m ip \<noteq> None" for ip
    proof
      assume "hm_get ?m ip \<noteq> None"
      then obtain it where it: "hm_get ?m ip = Some it" by blast
      with k have "hc_ip it = ip" by (simp add: keyed_def)
      with it mem show "ip \<in> hc_ip ` set items" by blast
    qed (auto simp only: mem image_iff option.distinct)
    then show "hc_ip ` set items = cs_ip ` set (client_ips s) \<union> ci_ip ` set l"
      by (auto simp only: fold_put_None set_eq_iff Un_iff image_iff map_of.simps)
  next
    fix it assume "it \<in> set items"
    from src [OF this] show "(\<exists>v\<in>set l. it = server_peer A sh s v \<and> (hc_online it \<longleftrightarrow> ci_online v \<or> rt_exists (as_route_table s) (hc_ip it))) \<or>
      hc_ip it \<notin> ci_ip ` set l \<and>
      (\<exists>v\<in>set (client_ips s). it = local_peer sh s v \<and> (hc_online it \<longleftrightarrow> cs_online v \<or> rt_exists (as_route_table s) (hc_ip it)))"
      by (metis peer_ip peer_online)
  qed
qed

lemma get_peers_success: "\<exists>items. rsp_data (get_peers A sh (Some s) servers) = Some items"
  by (simp add: get_peers_def api_success_def Let_def)

definition demo_peers_state :: "nat AppState" where
  "demo_peers_state = app_state_default\<lparr>as_server_info := \<lparr>client_simple_list =
     [\<lparr>cs_ip = 7, cs_online = False\<rparr>, \<lparr>cs_ip = 5, cs_online = True\<rparr>], server_node_map = []\<rparr>\<rparr>"

definition demo_client_info :: ClientInfo where
  "demo_client_info = \<lparr>ci_id = ''i'', ci_name = ''n'', ci_version = ''2.0.0'', ci_ip = 7, ci_key_sign = None, ci_online = True,
     ci_last_connected_time = 0\<rparr>"

lemma peer_list_merged_witness:
  "\<exists>items. rsp_data (get_peers toy_aead \<lparr>sh_ipv4 = (\<lambda>_. []), sh_ipv6 = (\<lambda>_. []), sh_key = (\<lambda>_. []), sh_protocol = (\<lambda>_. [])\<rparr>
       (Some demo_peers_state) (Inr [demo_client_info])) = Some items \<and>
     sorted_wrt (<) (map hc_ip items) \<and> hc_ip ` set items = {5, 7}"
proof -
  let ?sh = "\<lparr>sh_ipv4 = (\<lambda>_. []), sh_ipv6 = (\<lambda>_. []), sh_key = (\<lambda>_. []), sh_protocol = (\<lambda>_. [])\<rparr> :: nat printer"
  obtain items where i: "rsp_data (get_peers toy_aead ?sh (Some demo_peers_state) (Inr [demo_client_info])) = Some items"
    using get_peers_success by (rule exE)
  have ips: "cs_ip ` set (client_ips demo_peers_state) \<union> ci_ip ` set [demo_client_info] = {5, 7}"
    by (auto simp: client_ips_def demo_peers_state_def demo_client_info_def app_state_default_def)
  note p = peer_list_merged [OF i]
  show ?thesis
    by (rule exI [of _ items], intro conjI)
      (rule i, rule conjunct1 [OF p], rule trans [OF conjunct1 [OF conjunct2 [OF p]] ips])
qed

text \<open>
  The two front ends tell the same of a node. Name, identity, address, NAT type and the counts of the
  application information are those of \<open>get_info\<close>, the counts in 32 bits; for a client the servers name, the
  tool says its key is equal exactly when the page has one of the codes for equal keys, both show the same
  loss, and a client the tool shows online is online on the page.
\<close>

lemma front_ends_agree:
  "(let a = app_info sh C version s; h = \<lparr>vh_network = j, vh_config_name = n, vh_config_file_name = f\<rparr> in
     map_option (\<lambda>i. (hi_name i, hi_device_id i, hi_ip i, hi_nat_type i, hi_version i,
         of_nat (hi_online_client_num i), of_nat (hi_offline_client_num i), of_nat (hi_direct_client_num i),
         map (sh_ipv4 sh) (hi_public_ipv4s i)))
       (rsp_data (get_info C version (hs\<lparr>hs_vnt := Some h\<rparr>) (\<lambda>_. s))) =
     Some (ai_name a, ai_device_id a, ai_ip a, ai_nat_type a, ai_version a,
         ai_online_client_num a, ai_offline_client_num a, ai_direct_client_num a, ai_public_ipv4s a)) \<and>
   (let t = client_info_item A s v; p = server_peer A sh s v in
     (ct_key_equal t \<longleftrightarrow> hc_key_equal p \<in> {1, 2}) \<and> ct_packet_loss t = hc_packet_loss p \<and>
     (hc_online p \<longleftrightarrow> ct_online t \<or> rt_exists (as_route_table s) (ct_ip t)))"
proof
  show "let t = client_info_item A s v; p = server_peer A sh s v in
     (ct_key_equal t \<longleftrightarrow> hc_key_equal p \<in> {1, 2}) \<and> ct_packet_loss t = hc_packet_loss p \<and>
     (hc_online p \<longleftrightarrow> ct_online t \<or> rt_exists (as_route_table s) (ct_ip t))"
    unfolding Let_def peer_online
    by (simp add: client_info_item_def server_peer_def Let_def calc_key_equal_equal build_packet_loss_def del: insert_iff)
qed (simp add: app_info_def get_info_def api_success_def Let_def get_or_default_def comp_def split: option.split)

end
