(* ===== verification/Web_Store.thy ===== *)
theory Web_Store
  imports Launch_Config Web_Service "HOL-Library.List_Lexorder" "HOL-Library.Char_ord"
begin

text \<open>
  The configuration files of the web service (\<open>vnt-web/src/service_http.rs\<close>): which names it
  accepts, which paths they lead to, and the handlers that save, list, read and delete a file or start a
  node from it. The file system is a map from paths to contents. How \<open>Path::join\<close> reads a name is the
  platform's: both forms are modelled.
\<close>

section \<open>Names and paths\<close>

definition CONFIG_DIR :: string where "CONFIG_DIR = ''vnt_config''"

definition is_valid_file_name :: "string \<Rightarrow> bool" where
  "is_valid_file_name file_name \<longleftrightarrow> file_name \<noteq> [] \<and> \<not> str_contains ''..'' file_name \<and>
     \<not> str_contains ''/'' file_name \<and> \<not> str_contains [CHR 0x5C] file_name"

text \<open>\<open>Path::join\<close> of a relative directory with a name, on Unix: an absolute name stands for itself.\<close>

definition join_unix :: "string \<Rightarrow> string \<Rightarrow> string" where
  "join_unix dir file = (case file of [] \<Rightarrow> dir @ ''/'' | c # _ \<Rightarrow> if c = CHR ''/'' then file else dir @ ''/'' @ file)"

text \<open>On Windows so does a name with a drive, relative or not, or with a root.\<close>

definition is_letter :: "char \<Rightarrow> bool" where
  "is_letter c \<longleftrightarrow> (65 \<le> (of_char c :: nat) \<and> of_char c \<le> (90 :: nat)) \<or> (97 \<le> (of_char c :: nat) \<and> of_char c \<le> (122 :: nat))"

fun has_drive :: "string \<Rightarrow> bool" where
  "has_drive (c # d # _) = (is_letter c \<and> d = CHR '':'')"
| "has_drive _ = False"

definition join_windows :: "string \<Rightarrow> string \<Rightarrow> string" where
  "join_windows dir file =
     (if has_drive file then file
      else case file of
        [] \<Rightarrow> dir @ [CHR 0x5C]
      | c # _ \<Rightarrow> if c = CHR ''/'' \<or> c = CHR 0x5C then file else dir @ [CHR 0x5C] @ file)"

text \<open>\<open>Path::extension\<close> of a file name: what follows its last dot, unless the name begins with it.\<close>

definition extension :: "string \<Rightarrow> string option" where
  "extension file_name =
     (case rsplit_once CHR ''.'' file_name of
        None \<Rightarrow> None
      | Some (before, after) \<Rightarrow> if before = [] then None else Some after)"

section \<open>The handlers\<close>

text \<open>
  \<open>st_join\<close> is the platform's join; \<open>st_read_toml\<close> the TOML reader; \<open>st_writes\<close>, \<open>st_reads\<close> and \<open>st_removes\<close> say
  for which paths the system lets these calls succeed; \<open>st_now\<close> is the time in milliseconds as text.
\<close>

record store_env =
  st_join :: "string \<Rightarrow> string \<Rightarrow> string"
  st_read_toml :: "string \<Rightarrow> StartConfig result"
  st_writes :: "string \<Rightarrow> bool"
  st_reads :: "string \<Rightarrow> bool"
  st_removes :: "string \<Rightarrow> bool"
  st_now :: string

type_synonym files = "(string, string) hashmap"

record SaveConfigReq =
  sr_file_name :: "string option"
  sr_config :: string

definition read_file :: "store_env \<Rightarrow> files \<Rightarrow> string \<Rightarrow> string result" where
  "read_file E fs path = (if st_reads E path then ok_or OtherError (hm_get fs path) else Inl OtherError)"

definition save_config :: "store_env \<Rightarrow> SaveConfigReq \<Rightarrow> files \<Rightarrow> unit result \<times> files" where
  "save_config E req fs =
     (case st_read_toml E (sr_config req) of
        Inl _ \<Rightarrow> (Inl (Bail ''Invalid TOML format''), fs)
      | Inr _ \<Rightarrow>
          let file_name = (case sr_file_name req of
                None \<Rightarrow> st_now E @ ''.toml''
              | Some n \<Rightarrow> if n = [] then st_now E @ ''.toml'' else n) in
          if \<not> is_valid_file_name file_name then (Inl (Bail ''Invalid file name''), fs)
          else
            let target_path = st_join E CONFIG_DIR file_name in
            if st_writes E target_path then (Inr (), hm_put target_path (sr_config req) fs)
            else (Inl (Bail ''Write config failed''), fs))"

definition get_config :: "store_env \<Rightarrow> string \<Rightarrow> files \<Rightarrow> string result" where
  "get_config E file_name fs =
     (if \<not> is_valid_file_name file_name then Inl (Bail ''Invalid file name'')
      else
        let path = st_join E CONFIG_DIR file_name in
        if hm_get fs path = None then Inl (Bail ''Config file not found'')
        else case read_file E fs path of Inl _ \<Rightarrow> Inl (Bail ''Read file failed'') | Inr content \<Rightarrow> Inr content)"

definition delete_config :: "store_env \<Rightarrow> HttpAppState \<Rightarrow> string \<Rightarrow> files \<Rightarrow> unit result \<times> files" where
  "delete_config E hs file_name fs =
     (if \<not> is_valid_file_name file_name then (Inl (Bail ''Invalid file name''), fs)
      else if (case hs_vnt hs of Some vnt \<Rightarrow> vh_config_file_name vnt = file_name | None \<Rightarrow> False)
      then (Inl (Bail ''in use''), fs)
      else
        let path = st_join E CONFIG_DIR file_name in
        if hm_get fs path = None then (Inl (Bail ''Config file not found''), fs)
        else if st_removes E path then (Inr (), hm_del path fs)
        else (Inl (Bail ''Delete failed''), fs))"

text \<open>The checks of \<open>start_vnt_handler\<close> and \<open>restart_vnt_handler\<close>: the name and the path to start from.\<close>

definition start_request :: "store_env \<Rightarrow> string \<Rightarrow> files \<Rightarrow> (string \<times> string) result" where
  "start_request E file_name fs =
     (if \<not> is_valid_file_name file_name then Inl (Bail ''Invalid file name'')
      else
        let path = st_join E CONFIG_DIR file_name in
        if hm_get fs path = None then Inl (Bail ''Config file not found'') else Inr (file_name, path))"

text \<open>What \<open>start_vnt_internal\<close> makes of the file: the shown name, the file name and the configuration.\<close>

definition start_config :: "store_env \<Rightarrow> launch_env \<Rightarrow> string \<Rightarrow> string \<Rightarrow> files \<Rightarrow> (string \<times> string \<times> Config) result" where
  "start_config E L file_name path fs =
     rbind (invalid ''Config file not found'' (read_file E fs path)) (\<lambda>content.
     rbind (invalid ''Failed to parse TOML config'' (st_read_toml E content)) (\<lambda>cfg.
       let config_display_name = (case sc_config_name cfg of Some n \<Rightarrow> n | None \<Rightarrow> file_name) in
       rbind (convert_config L cfg) (\<lambda>core_config. Inr (config_display_name, file_name, core_config))))"

text \<open>
  \<open>list_configs\<close>: \<open>entries\<close> are the names \<open>read_dir\<close> yields. Files that are not TOML by name,
  that cannot be read or do not parse are passed over; the list is in descending order.
\<close>

definition config_summary :: "store_env \<Rightarrow> files \<Rightarrow> string \<Rightarrow> (string \<times> string) option" where
  "config_summary E fs entry =
     (if extension entry \<noteq> Some ''toml'' then None
      else case read_file E fs (st_join E CONFIG_DIR entry) of
        Inl _ \<Rightarrow> None
      | Inr content \<Rightarrow>
          (case st_read_toml E content of
             Inl _ \<Rightarrow> None
           | Inr cfg \<Rightarrow> Some (entry, case sc_config_name cfg of Some n \<Rightarrow> n | None \<Rightarrow> entry)))"

definition list_configs :: "store_env \<Rightarrow> string list \<Rightarrow> files \<Rightarrow> (string \<times> string) list" where
  "list_configs E entries fs = rev (sort_key fst (List.map_filter (config_summary E fs) entries))"

text \<open>\<open>determine_auto_start_file\<close>: a path given at the start, or the recorded name, if the file is there.\<close>

definition determine_auto_start_file ::
  "store_env \<Rightarrow> (string \<Rightarrow> string option) \<Rightarrow> string option \<Rightarrow> string option \<Rightarrow> files \<Rightarrow> (string \<times> string) option" where
  "determine_auto_start_file E base_name start_file record fs =
     (let path = (case start_file of
            Some p \<Rightarrow> Some p
          | None \<Rightarrow>
              (case record of
                 None \<Rightarrow> None
               | Some content \<Rightarrow> if trim content = [] then None else Some (st_join E CONFIG_DIR (trim content)))) in
      Option.bind path (\<lambda>p. Option.bind (base_name p) (\<lambda>file_name.
        if hm_get fs p \<noteq> None then Some (file_name, p) else None)))"

section \<open>Lemmas\<close>

lemma valid_no_slash: "is_valid_file_name n \<Longrightarrow> n \<noteq> [] \<and> CHR ''/'' \<notin> set n \<and> CHR 0x5C \<notin> set n"
  by (simp add: is_valid_file_name_def str_contains_char)

lemma join_unix_valid: "is_valid_file_name n \<Longrightarrow> join_unix dir n = dir @ ''/'' @ n"
  using valid_no_slash [of n] by (cases n) (auto simp: join_unix_def)

lemma save_config_Inr:
  "save_config E req fs = (Inr (), fs') \<longleftrightarrow>
     (\<exists>c n. st_read_toml E (sr_config req) = Inr c \<and>
       n = (case sr_file_name req of None \<Rightarrow> st_now E @ ''.toml'' | Some n \<Rightarrow> if n = [] then st_now E @ ''.toml'' else n) \<and>
       is_valid_file_name n \<and> st_writes E (st_join E CONFIG_DIR n) \<and>
       fs' = hm_put (st_join E CONFIG_DIR n) (sr_config req) fs)"
  by (auto simp: save_config_def Let_def split: sum.splits)

lemma set_list_configs: "x \<in> set (list_configs E entries fs) \<longleftrightarrow> (\<exists>e\<in>set entries. config_summary E fs e = Some x)"
  by (force simp: list_configs_def List.map_filter_def image_iff)

section \<open>Properties\<close>

text \<open>
  A saved configuration is found again: after a successful save under a name, reading that name gives
  the text that was saved, a start of it is accepted and works on what was saved, the listing shows it exactly when the
  name ends in \<open>.toml\<close>, and every other path is as it was; deleting it, while no network uses it, makes the
  name unknown again.
\<close>

lemma saved_config_found:
  assumes "save_config E \<lparr>sr_file_name = Some n, sr_config = text\<rparr> fs = (Inr (), fs')" and "n \<noteq> []"
    and "\<And>p. st_reads E p \<and> st_removes E p" and "n \<in> set entries"
    and "\<And>h. hs_vnt hs = Some h \<Longrightarrow> vh_config_file_name h \<noteq> n"
  shows "\<exists>c path. st_read_toml E text = Inr c \<and> start_request E n fs' = Inr (n, path) \<and> get_config E n fs' = Inr text \<and>
    start_config E L n path fs' = rbind (convert_config L c) (\<lambda>v. Inr (get_or_default n (sc_config_name c), n, v)) \<and>
    ((n, get_or_default n (sc_config_name c)) \<in> set (list_configs E entries fs') \<longleftrightarrow> extension n = Some ''toml'') \<and>
    (\<forall>p. p \<noteq> path \<longrightarrow> hm_get fs' p = hm_get fs p) \<and>
    (\<exists>fs''. delete_config E hs n fs' = (Inr (), fs'') \<and> get_config E n fs'' = Inl (Bail ''Config file not found''))"
proof -
  let ?path = "st_join E CONFIG_DIR n"
  obtain c where c: "st_read_toml E text = Inr c" and v: "is_valid_file_name n" and fs': "fs' = hm_put ?path text fs"
    using assms(1,2) by (auto simp: save_config_Inr)
  have r: "read_file E fs' ?path = Inr text" and e: "hm_get fs' ?path = Some text"
    using assms(3) by (simp_all add: read_file_def fs' hm_get_put)
  have s: "config_summary E fs' n = (if extension n = Some ''toml'' then Some (n, get_or_default n (sc_config_name c)) else None)"
    by (simp add: config_summary_def r c get_or_default_def split: option.split)
  have only: "config_summary E fs' m = Some (n, x) \<Longrightarrow> m = n" for m x
    by (auto simp: config_summary_def split: if_splits sum.splits)
  have l: "(n, get_or_default n (sc_config_name c)) \<in> set (list_configs E entries fs') \<longleftrightarrow> extension n = Some ''toml''"
    unfolding set_list_configs using assms(4) s only by (metis option.distinct(1))
  have "delete_config E hs n fs' = (Inr (), hm_del ?path fs')"
    using v e assms(3,5) by (auto simp: delete_config_def split: option.splits)
  moreover have "get_config E n (hm_del ?path fs') = Inl (Bail ''Config file not found'')"
    using v by (simp add: get_config_def hm_get_del)
  ultimately show ?thesis
    using c v r e l by (intro exI [of _ c] exI [of _ ?path])
      (auto simp: start_request_def get_config_def start_config_def invalid_def get_or_default_def fs' hm_get_put
        intro!: arg_cong2 [where f = rbind] split: option.splits)
qed

definition demo_store_env :: store_env where
  "demo_store_env = \<lparr>st_join = join_unix, st_read_toml = (\<lambda>_. Inr demo_start_config), st_writes = (\<lambda>_. True), st_reads = (\<lambda>_. True),
     st_removes = (\<lambda>_. True), st_now = ''1''\<rparr>"

lemma demo_saved: "save_config demo_store_env \<lparr>sr_file_name = Some ''a.toml'', sr_config = ''x''\<rparr> [] = (Inr (), [(''vnt_config/a.toml'', ''x'')])"
  by code_simp

lemma saved_config_found_witness:
  "get_config demo_store_env ''a.toml'' [(''vnt_config/a.toml'', ''x'')] = Inr ''x'' \<and>
   (''a.toml'', ''a.toml'') \<in> set (list_configs demo_store_env [''b'', ''a.toml''] [(''vnt_config/a.toml'', ''x'')])"
proof -
  have e: "extension ''a.toml'' = Some ''toml''" by code_simp
  have "\<exists>c path. st_read_toml demo_store_env ''x'' = Inr c \<and> get_config demo_store_env ''a.toml'' [(''vnt_config/a.toml'', ''x'')] = Inr ''x'' \<and>
      (''a.toml'', get_or_default ''a.toml'' (sc_config_name c)) \<in> set (list_configs demo_store_env [''b'', ''a.toml''] [(''vnt_config/a.toml'', ''x'')])"
    using saved_config_found [OF demo_saved, of "[''b'', ''a.toml'']" http_state_new demo_launch_env] e
    by (auto simp: demo_store_env_def http_state_new_def)
  moreover have "sc_config_name c = None" if "st_read_toml demo_store_env ''x'' = Inr c" for c
    using that by (auto simp: demo_store_env_def demo_start_config_def)
  ultimately show ?thesis by (auto simp: get_or_default_def)
qed

text \<open>
  Where the names of requests lead. On Unix every path that a request writes, removes, reads or starts from is that of
  an entry of the configuration directory itself, whatever name it sends. On Windows the check of the name lets drive
  letters through: such a name stands for itself, and saving under it writes outside the directory.
\<close>

lemma config_paths:
  assumes "st_join E = join_unix"
    and "st_join W = join_windows" and "\<And>p. st_writes W p" and "st_read_toml W text = Inr d"
    and "is_letter c" and "CHR ''/'' \<notin> set rest" and "CHR 0x5C \<notin> set rest" and "\<not> str_contains ''..'' rest"
  shows "(hm_get (snd (save_config E req fs)) p \<noteq> hm_get fs p \<or> hm_get (snd (delete_config E hs name fs)) p \<noteq> hm_get fs p \<or>
      start_request E name fs = Inr (name, p) \<longrightarrow>
      (\<exists>n. p = CONFIG_DIR @ ''/'' @ n \<and> n \<noteq> [] \<and> CHR ''/'' \<notin> set n \<and> \<not> str_contains ''..'' n)) \<and>
    (get_config E name fs = Inr t \<longrightarrow> CHR ''/'' \<notin> set name \<and> hm_get fs (CONFIG_DIR @ ''/'' @ name) = Some t) \<and>
    save_config W \<lparr>sr_file_name = Some (c # CHR '':'' # rest), sr_config = text\<rparr> fs =
      (Inr (), hm_put (c # CHR '':'' # rest) text fs)"
proof (intro conjI impI)
  have entry: "\<exists>n. st_join E CONFIG_DIR m = CONFIG_DIR @ ''/'' @ n \<and> n \<noteq> [] \<and> CHR ''/'' \<notin> set n \<and> \<not> str_contains ''..'' n"
    if "is_valid_file_name m" for m
    using join_unix_valid [OF that] valid_no_slash [OF that] that assms(1)
    by (intro exI [of _ m]) (auto simp: is_valid_file_name_def)
  assume "hm_get (snd (save_config E req fs)) p \<noteq> hm_get fs p \<or> hm_get (snd (delete_config E hs name fs)) p \<noteq> hm_get fs p \<or>
      start_request E name fs = Inr (name, p)"
  then show "\<exists>n. p = CONFIG_DIR @ ''/'' @ n \<and> n \<noteq> [] \<and> CHR ''/'' \<notin> set n \<and> \<not> str_contains ''..'' n"
    by (elim disjE)
      (use entry in \<open>auto simp: save_config_def delete_config_def start_request_def Let_def hm_get_put hm_get_del
        split: sum.splits option.splits if_splits\<close>)
next
  assume g: "get_config E name fs = Inr t"
  then have v: "is_valid_file_name name" by (auto simp: get_config_def split: if_splits)
  with g join_unix_valid [OF v] assms(1) show "hm_get fs (CONFIG_DIR @ ''/'' @ name) = Some t"
    by (auto simp: get_config_def read_file_def ok_or_def Let_def split: if_splits option.splits sum.splits)
  from v show "CHR ''/'' \<notin> set name" by (simp add: valid_no_slash)
next
  have "c \<noteq> CHR ''/''" "c \<noteq> CHR 0x5C" "c \<noteq> CHR ''.''" using assms(5) by (auto simp: is_letter_def)
  then have "is_valid_file_name (c # CHR '':'' # rest)"
    using assms(6-8) by (simp add: is_valid_file_name_def str_contains_char) (simp add: str_contains_def)
  then show "save_config W \<lparr>sr_file_name = Some (c # CHR '':'' # rest), sr_config = text\<rparr> fs =
      (Inr (), hm_put (c # CHR '':'' # rest) text fs)"
    using assms(2-5) by (simp add: save_config_def join_windows_def Let_def)
qed

lemma config_paths_witness:
  "save_config (demo_store_env\<lparr>st_join := join_windows\<rparr>)
     \<lparr>sr_file_name = Some ''C:a'', sr_config = ''x''\<rparr> [] = (Inr (), [(''C:a'', ''x'')]) \<and>
   start_request demo_store_env ''../a'' [(''vnt_config/../a'', ''x'')] \<noteq> Inr (''../a'', ''vnt_config/../a'')"
proof
  show "save_config (demo_store_env\<lparr>st_join := join_windows\<rparr>)
     \<lparr>sr_file_name = Some ''C:a'', sr_config = ''x''\<rparr> [] = (Inr (), [(''C:a'', ''x'')])"
    using config_paths [of demo_store_env "demo_store_env\<lparr>st_join := join_windows\<rparr>" "''x''" demo_start_config "CHR ''C''" "''a''"]
    by (simp add: demo_store_env_def is_letter_def str_contains_def)
  show "start_request demo_store_env ''../a'' [(''vnt_config/../a'', ''x'')] \<noteq> Inr (''../a'', ''vnt_config/../a'')"
    by code_simp
qed

end
