(* ===== verification/Ip_Nat.thy ===== *)
theory Ip_Nat
  imports Enhanced_Inbound Config_Address
begin

text \<open>
  The address translation in user mode below its admission check: echo requests
  (\<open>nat/internal_nat/icmp_nat.rs\<close>), TCP streams (\<open>tcp_nat.rs\<close>), UDP datagrams (\<open>udp_nat.rs\<close>) and the targets of
  mapped ports (\<open>PortMappingManager\<close> of \<open>mod.rs\<close>), with the listeners of port mappings
  (\<open>port_mapping/tcp_port_mapping.rs\<close>, \<open>udp_port_mapping.rs\<close>).

  The inner side is the IP stack of the \<open>tcp_ip\<close> crate, the outer side the sockets of the system: whether a send or a
  bind succeeds, and the views of packets that \<open>pnet\<close> gives, are arguments.
\<close>

section \<open>Echo requests and replies\<close>

datatype ip_addr = IpV4 ipv4 | IpV6 bytes

text \<open>\<open>icmp_ipv4\<close> is the source and the payload of an IPv4 packet, \<open>icmp_view\<close> the type and the payload of an ICMP one.\<close>

record icmp_crates =
  icmp_ipv4 :: "bytes \<Rightarrow> (ipv4 \<times> bytes) option"
  icmp_view :: "bytes \<Rightarrow> (u8 \<times> bytes) option"

definition ECHO_REPLY :: u8 where "ECHO_REPLY = 0"
definition ECHO_REQUEST :: u8 where "ECHO_REQUEST = 8"

type_synonym icmp_table = "((ipv4 \<times> u16 \<times> u16), ipv4) hashmap"

datatype icmp_out =
    ToInner bytes ipv4 ipv4
  | ToNet bytes ipv4

text \<open>Identifier and sequence number, the first four bytes after the ICMP header.\<close>

definition echo_ids :: "icmp_crates \<Rightarrow> bytes \<Rightarrow> (u16 \<times> u16) option" where
  "echo_ids W buf =
     (case icmp_view W buf of
        None \<Rightarrow> None
      | Some (ty, payload) \<Rightarrow>
          if ty \<noteq> ECHO_REPLY \<and> ty \<noteq> ECHO_REQUEST then None
          else if length payload < 4 then None
          else Some (of_be16 (payload ! 0) (payload ! 1), of_be16 (payload ! 2) (payload ! 3)))"

definition tokio_icmp_socket_recv ::
  "icmp_crates \<Rightarrow> (icmp_out \<Rightarrow> bool) \<Rightarrow> bool \<Rightarrow> SharedNetworkAddr \<Rightarrow> bytes \<Rightarrow> icmp_table \<Rightarrow> icmp_out list result" where
  "tokio_icmp_socket_recv W ok no_tun network buf m =
     (case icmp_ipv4 W buf of
        None \<Rightarrow> Inr []
      | Some (src, ipv4_payload) \<Rightarrow>
          (case echo_ids W ipv4_payload of
             None \<Rightarrow> Inr []
           | Some (identifier, sequence_number) \<Rightarrow>
               (case hm_get m (src, identifier, sequence_number) of
                  None \<Rightarrow> Inr []
                | Some dst \<Rightarrow>
                    rbind (if no_tun \<and> src = localhost then ok_or (Bail ''not ip'') (shared_ip network) else Inr src) (\<lambda>src.
                      if ok (ToInner ipv4_payload src dst) then Inr [ToInner ipv4_payload src dst]
                      else Inl (Bail ''sending ICMPv4 failed'')))))"

definition inner_icmp_socket_recv ::
  "icmp_crates \<Rightarrow> (icmp_out \<Rightarrow> bool) \<Rightarrow> bool \<Rightarrow> SharedNetworkAddr \<Rightarrow> bytes \<Rightarrow> ip_addr \<Rightarrow> ip_addr \<Rightarrow> icmp_table \<Rightarrow>
   (icmp_table \<times> icmp_out list) result" where
  "inner_icmp_socket_recv W ok no_tun network buf src dst m =
     (case (src, dst) of
        (IpV4 src, IpV4 dst) \<Rightarrow>
          (case echo_ids W buf of
             None \<Rightarrow> Inr (m, [])
           | Some (identifier, sequence_number) \<Rightarrow>
               rbind (if no_tun then rbind (ok_or (Bail ''not ip'') (shared_ip network))
                        (\<lambda>ip. Inr (if dst = ip then localhost else dst)) else Inr dst) (\<lambda>dst.
                 if ok (ToNet buf dst) then Inr (hm_put (dst, identifier, sequence_number) src m, [ToNet buf dst])
                 else Inl OtherError))
      | _ \<Rightarrow> Inr (m, []))"

text \<open>The task: what its two sockets yield, in order; the first error ends it.\<close>

datatype icmp_event = FromNet bytes | FromInner bytes ip_addr ip_addr | RecvFails

fun icmp_step ::
  "icmp_crates \<Rightarrow> (icmp_out \<Rightarrow> bool) \<Rightarrow> bool \<Rightarrow> SharedNetworkAddr \<Rightarrow> icmp_event \<Rightarrow> icmp_table \<Rightarrow> (icmp_table \<times> icmp_out list) result" where
  "icmp_step W ok no_tun network (FromNet buf) m =
     rbind (tokio_icmp_socket_recv W ok no_tun network buf m) (\<lambda>out. Inr (m, out))"
| "icmp_step W ok no_tun network (FromInner buf src dst) m = inner_icmp_socket_recv W ok no_tun network buf src dst m"
| "icmp_step W ok no_tun network RecvFails m = Inl OtherError"

fun icmp_task ::
  "icmp_crates \<Rightarrow> (icmp_out \<Rightarrow> bool) \<Rightarrow> bool \<Rightarrow> SharedNetworkAddr \<Rightarrow> icmp_event list \<Rightarrow> icmp_table \<Rightarrow> (icmp_table \<times> bool) \<times> icmp_out list" where
  "icmp_task W ok no_tun network [] m = ((m, True), [])"
| "icmp_task W ok no_tun network (e # es) m =
     (case icmp_step W ok no_tun network e m of
        Inl _ \<Rightarrow> ((m, False), [])
      | Inr (m, out) \<Rightarrow> (case icmp_task W ok no_tun network es m of (r, outs) \<Rightarrow> (r, out @ outs)))"

section \<open>TCP\<close>

text \<open>Where a stream the inner stack accepts is connected to; a stream to an IPv6 address is dropped without an interface.\<close>

definition listen_target :: "bool \<Rightarrow> SharedNetworkAddr \<Rightarrow> ip_addr \<times> u16 \<Rightarrow> (ip_addr \<times> u16) option result" where
  "listen_target no_tun network local_addr =
     (if no_tun then
        (case fst local_addr of
           IpV6 _ \<Rightarrow> Inr None
         | IpV4 ip \<Rightarrow>
             rbind (ok_or (Bail ''not ip'') (shared_ip network)) (\<lambda>own.
               Inr (Some (if ip = own then (IpV4 localhost, snd local_addr) else local_addr))))
      else Inr (Some local_addr))"

section \<open>Mapped ports\<close>

record PortMappingManager =
  pmm_no_tun :: bool
  pmm_allow_port_mapping :: bool
  pmm_network :: SharedNetworkAddr

datatype mapping_target = ToLocalPort u16 | ToHostPort string u16

text \<open>\<open>tcp_mapping\<close> and \<open>udp_mapping\<close> choose the same target: none, a local port or a host.\<close>

definition mapping_target_of :: "net_contains \<Rightarrow> PortMappingManager \<Rightarrow> string \<Rightarrow> u16 \<Rightarrow> mapping_target option result" where
  "mapping_target_of C p dest dest_port =
     (if \<not> pmm_allow_port_mapping p then Inr None
      else case (if pmm_no_tun p then parse_ipv4 dest else None) of
        Some dest_ip \<Rightarrow>
          rbind (ok_or (Bail ''no network'') (pmm_network p)) (\<lambda>net.
            if dest_ip = na_ip net then Inr (Some (ToLocalPort dest_port))
            else if C (addr_network net) dest_ip then Inr None
            else Inr (Some (ToHostPort dest dest_port)))
      | None \<Rightarrow> Inr (Some (ToHostPort dest dest_port)))"

text \<open>
  The listeners: the mappings of a protocol are bound in order, the first that cannot be bound ends
  the start with the ones before it bound.
\<close>

fun start_mappings :: "(SocketAddr \<Rightarrow> bool) \<Rightarrow> ip_proto \<Rightarrow> PortMapping list \<Rightarrow> PortMapping list \<times> unit result" where
  "start_mappings bind proto [] = ([], Inr ())"
| "start_mappings bind proto (x # xs) =
     (if pm_protocol x \<noteq> proto then start_mappings bind proto xs
      else if bind (pm_src_addr x) then (case start_mappings bind proto xs of (l, r) \<Rightarrow> (x # l, r))
      else ([], Inl (Bail ''port mapping Failed to bind'')))"

definition port_mapping_start :: "(ip_proto \<Rightarrow> SocketAddr \<Rightarrow> bool) \<Rightarrow> PortMapping list \<Rightarrow> PortMapping list \<times> unit result" where
  "port_mapping_start bind list =
     (case start_mappings (bind ProtoTcp) ProtoTcp list of
        (l, Inl e) \<Rightarrow> (l, Inl e)
      | (l, Inr ()) \<Rightarrow> (case start_mappings (bind ProtoUdp) ProtoUdp list of (l', r) \<Rightarrow> (l @ l', r)))"

text \<open>
  The sessions of a mapped UDP port, one per source address: \<open>ch_queue\<close> is the channel to the session's task, which
  holds 128 datagrams; a datagram for a full one is dropped, a closed one is forgotten after the datagram is lost.
\<close>

record udp_session =
  ch_queue :: "bytes list"
  ch_closed :: bool

definition SESSION_CAPACITY :: nat where "SESSION_CAPACITY = 128"

definition mapped_datagram :: "'k \<Rightarrow> bytes \<Rightarrow> ('k, udp_session) hashmap \<Rightarrow> ('k, udp_session) hashmap" where
  "mapped_datagram src b m =
     (let tx = (case hm_get m src of Some tx \<Rightarrow> tx | None \<Rightarrow> \<lparr>ch_queue = [], ch_closed = False\<rparr>) in
      if ch_closed tx then hm_del src m
      else if length (ch_queue tx) \<ge> SESSION_CAPACITY then hm_put src tx m
      else hm_put src (tx\<lparr>ch_queue := ch_queue tx @ [b]\<rparr>) m)"

section \<open>UDP\<close>

text \<open>
  A pair of a virtual source and a destination has a socket; \<open>un_tasks\<close> are the sockets whose reverse task
  still runs. A socket lives as long as its task or its entry.
\<close>

type_synonym udp_key = "SocketAddr \<times> SocketAddr"

record NatEntry =
  ne_socket :: nat
  ne_last_active :: instant

record UdpNat =
  un_table :: "(udp_key, NatEntry) hashmap"
  un_tasks :: "(nat, udp_key) hashmap"
  un_next :: nat
  un_clock :: instant

definition udp_nat_new :: UdpNat where
  "udp_nat_new = \<lparr>un_table = [], un_tasks = [], un_next = 0, un_clock = 0\<rparr>"

definition NAT_IDLE_TIMEOUT :: instant where "NAT_IDLE_TIMEOUT = secs 300"

text \<open>\<open>handle_outbound\<close>: the socket the packet is sent on; \<open>bound\<close> says whether a new one can be made and connected.\<close>

definition handle_outbound :: "bool \<Rightarrow> udp_key \<Rightarrow> UdpNat \<Rightarrow> nat result \<times> UdpNat" where
  "handle_outbound bound key n =
     (case hm_get (un_table n) key of
        Some entry \<Rightarrow>
          (Inr (ne_socket entry), n\<lparr>un_table := hm_put key (entry\<lparr>ne_last_active := un_clock n\<rparr>) (un_table n)\<rparr>)
      | None \<Rightarrow>
          if \<not> bound then (Inl OtherError, n)
          else (Inr (un_next n),
            n\<lparr>un_table := hm_put key \<lparr>ne_socket = un_next n, ne_last_active = un_clock n\<rparr> (un_table n),
              un_tasks := hm_put (un_next n) key (un_tasks n), un_next := Suc (un_next n)\<rparr>))"

text \<open>The reverse task of a socket: a datagram goes back from the destination to the source, an error ends the task.\<close>

definition inbound_datagram :: "nat \<Rightarrow> UdpNat \<Rightarrow> (SocketAddr \<times> SocketAddr) option \<times> UdpNat" where
  "inbound_datagram i n =
     (case hm_get (un_tasks n) i of
        None \<Rightarrow> (None, n)
      | Some (src, dst) \<Rightarrow>
          (Some (dst, src),
           case hm_get (un_table n) (src, dst) of
             None \<Rightarrow> n
           | Some entry \<Rightarrow> n\<lparr>un_table := hm_put (src, dst) (entry\<lparr>ne_last_active := un_clock n\<rparr>) (un_table n)\<rparr>))"

definition inbound_ends :: "nat \<Rightarrow> UdpNat \<Rightarrow> UdpNat" where
  "inbound_ends i n =
     (case hm_get (un_tasks n) i of
        None \<Rightarrow> n
      | Some key \<Rightarrow> n\<lparr>un_table := hm_del key (un_table n), un_tasks := hm_del i (un_tasks n)\<rparr>)"

definition nat_gc :: "UdpNat \<Rightarrow> UdpNat" where
  "nat_gc n = n\<lparr>un_table := filter (\<lambda>(_, entry). un_clock n - ne_last_active entry < NAT_IDLE_TIMEOUT) (un_table n)\<rparr>"

inductive udp_reach :: "UdpNat \<Rightarrow> bool" where
  new: "udp_reach udp_nat_new"
| tick: "udp_reach n \<Longrightarrow> udp_reach (n\<lparr>un_clock := un_clock n + d\<rparr>)"
| outbound: "udp_reach n \<Longrightarrow> udp_reach (snd (handle_outbound bound key n))"
| inbound: "udp_reach n \<Longrightarrow> udp_reach (snd (inbound_datagram i n))"
| inbound_error: "udp_reach n \<Longrightarrow> udp_reach (inbound_ends i n)"
| gc: "udp_reach n \<Longrightarrow> udp_reach (nat_gc n)"

section \<open>Lemmas\<close>

lemma length_put_fresh: "k \<notin> fst ` set m \<Longrightarrow> length (hm_put k v m) = Suc (length m)"
  by (induction m) auto

definition udp_inv :: "UdpNat \<Rightarrow> bool" where
  "udp_inv n \<longleftrightarrow> hm_ok (un_table n) \<and> (\<forall>i key. hm_get (un_tasks n) i = Some key \<longrightarrow> i < un_next n) \<and>
     (\<forall>key entry. hm_get (un_table n) key = Some entry \<longrightarrow> hm_get (un_tasks n) (ne_socket entry) = Some key)"

lemma udp_reach_inv: "udp_reach n \<Longrightarrow> udp_inv n"
proof (induction rule: udp_reach.induct)
  case new
  show ?case by (simp add: udp_inv_def udp_nat_new_def)
next
  case (tick n d)
  then show ?case by (simp add: udp_inv_def)
next
  case (outbound n bound key)
  then show ?case
    by (auto simp: udp_inv_def handle_outbound_def hm_get_put distinct_update less_Suc_eq split: option.splits)
      (metis less_irrefl)+
next
  case (inbound n i)
  then show ?case
    by (auto simp: udp_inv_def inbound_datagram_def hm_get_put distinct_update split: option.splits prod.splits)
next
  case (inbound_error n i)
  then show ?case
    by (auto simp: udp_inv_def inbound_ends_def hm_get_del distinct_delete split: option.splits)
next
  case (gc n)
  then show ?case
    by (auto simp: udp_inv_def nat_gc_def hm_get_filter hm_ok_filter split: option.splits if_splits)
qed

text \<open>The entry a request leaves in the table, and who asked last under a key.\<close>

definition recorded :: "icmp_crates \<Rightarrow> bool \<Rightarrow> SharedNetworkAddr \<Rightarrow> icmp_event \<Rightarrow> ((ipv4 \<times> u16 \<times> u16) \<times> ipv4) option" where
  "recorded W no_tun network e =
     (case e of
        FromInner buf (IpV4 src) (IpV4 dst) \<Rightarrow>
          map_option (\<lambda>(i, s). ((if no_tun \<and> shared_ip network = Some dst then localhost else dst, i, s), src)) (echo_ids W buf)
      | _ \<Rightarrow> None)"

fun last_requester ::
  "icmp_crates \<Rightarrow> bool \<Rightarrow> SharedNetworkAddr \<Rightarrow> ipv4 \<times> u16 \<times> u16 \<Rightarrow> icmp_event list \<Rightarrow> ipv4 option \<Rightarrow> ipv4 option" where
  "last_requester W no_tun network k [] acc = acc"
| "last_requester W no_tun network k (e # es) acc =
     last_requester W no_tun network k es
       (case recorded W no_tun network e of Some (k', src) \<Rightarrow> if k' = k then Some src else acc | None \<Rightarrow> acc)"

lemma icmp_step_table:
  assumes "icmp_step W ok no_tun network e m = Inr (m', out)"
  shows "hm_get m' k = (case recorded W no_tun network e of Some (k', src) \<Rightarrow> if k' = k then Some src else hm_get m k
    | None \<Rightarrow> hm_get m k)"
proof (cases e)
  case (FromNet buf)
  with assms show ?thesis by (auto simp: recorded_def rbind_eq_Inr)
next
  case (FromInner buf src dst)
  with assms show ?thesis
    by (cases src; cases dst)
      (auto simp: recorded_def inner_icmp_socket_recv_def rbind_eq_Inr ok_or_def hm_get_put split: option.splits if_splits)
qed (use assms in simp)

lemma icmp_task_table:
  "icmp_task W ok no_tun network es m = ((m', True), outs) \<Longrightarrow>
   hm_get m' k = last_requester W no_tun network k es (hm_get m k)"
proof (induction es arbitrary: m outs)
  case (Cons e es)
  then obtain m1 out where s: "icmp_step W ok no_tun network e m = Inr (m1, out)"
    by (auto split: sum.splits)
  with Cons.prems obtain outs' where "icmp_task W ok no_tun network es m1 = ((m', True), outs')"
    by (auto split: prod.splits)
  from Cons.IH [OF this] icmp_step_table [OF s, of k] show ?case by (simp split: option.splits)
qed simp

lemma icmp_task_append:
  "icmp_task W ok no_tun network (es @ fs) m =
     (case icmp_task W ok no_tun network es m of
        ((m1, True), outs) \<Rightarrow> (case icmp_task W ok no_tun network fs m1 of (r, outs') \<Rightarrow> (r, outs @ outs'))
      | stopped \<Rightarrow> stopped)"
proof (induction es arbitrary: m)
  case (Cons e es)
  show ?case
    by (cases "icmp_step W ok no_tun network e m") (auto simp: Cons split: prod.splits bool.splits)
qed (simp split: prod.split)

section \<open>Properties\<close>

text \<open>
  A reply goes to whoever asked last under its key: after any events the task has worked through, an echo message from
  outside is handed to the virtual host whose message with the same address, identifier and
  sequence number was the last one sent out, as coming from that address (this node's own one in place of the
  local host), and to nobody if there was none. Two hosts that use the same numbers towards one
  address share an entry, and the earlier of them gets no reply.
\<close>

lemma icmp_reply_to_last_requester:
  assumes "icmp_task W ok no_tun network es [] = ((m, True), outs)"
    and "icmp_ipv4 W buf = Some (src, p)" and "echo_ids W p = Some (i, s)"
    and "no_tun \<and> src = localhost \<Longrightarrow> shared_ip network = Some own"
    and "\<And>host. ok (ToInner p (if no_tun \<and> src = localhost then own else src) host)"
  shows "icmp_task W ok no_tun network (es @ [FromNet buf]) [] = ((m, True), outs @
    (case last_requester W no_tun network (src, i, s) es None of
       None \<Rightarrow> [] | Some host \<Rightarrow> [ToInner p (if no_tun \<and> src = localhost then own else src) host]))"
proof -
  have m: "hm_get m (src, i, s) = last_requester W no_tun network (src, i, s) es None"
    using icmp_task_table [OF assms(1), of "(src, i, s)"] by simp
  have "tokio_icmp_socket_recv W ok no_tun network buf m =
      Inr (case hm_get m (src, i, s) of None \<Rightarrow> [] | Some host \<Rightarrow> [ToInner p (if no_tun \<and> src = localhost then own else src) host])"
    using assms(2-5)
    by (cases "no_tun \<and> src = localhost"; cases "hm_get m (src, i, s)") (auto simp: tokio_icmp_socket_recv_def)
  then show ?thesis by (simp add: icmp_task_append assms(1) m)
qed

definition demo_icmp :: icmp_crates where
  "demo_icmp = \<lparr>icmp_ipv4 = (\<lambda>b. case b of [] \<Rightarrow> None | x # xs \<Rightarrow> Some (ucast x, xs)), icmp_view = (\<lambda>b. Some (ECHO_REPLY, b))\<rparr>"

definition pings :: "icmp_event list" where
  "pings = [FromInner [0, 1, 0, 7] (IpV4 10) (IpV4 8), FromInner [0, 1, 0, 7] (IpV4 11) (IpV4 8)]"

text \<open>Hosts 10 and 11 ping address 8 with the same numbers; its reply goes to 11.\<close>

lemma icmp_reply_to_last_requester_witness:
  "snd (icmp_task demo_icmp (\<lambda>_. True) False None (pings @ [FromNet [8, 0, 1, 0, 7]]) []) =
     [ToNet [0, 1, 0, 7] 8, ToNet [0, 1, 0, 7] 8, ToInner [0, 1, 0, 7] 8 11]"
proof -
  have t: "icmp_task demo_icmp (\<lambda>_. True) False None pings [] =
      (([((8, 1, 7), 11)], True), [ToNet [0, 1, 0, 7] 8, ToNet [0, 1, 0, 7] 8])"
    and l: "last_requester demo_icmp False None (8, 1, 7) pings None = Some 11" by code_simp+
  have "icmp_ipv4 demo_icmp [8, 0, 1, 0, 7] = Some (8, [0, 1, 0, 7])" "echo_ids demo_icmp [0, 1, 0, 7] = Some (1, 7)"
    by code_simp+
  from icmp_reply_to_last_requester [OF t this] l show ?thesis by simp
qed

text \<open>
  One echo message the system refuses to send ends the translation for every host: whatever comes after it,
  from inside or outside, the task is over and puts nothing out.
\<close>

lemma icmp_refused_send_ends_translation:
  assumes "\<not> ok (ToNet buf dst)" and "echo_ids W buf = Some ids"
  shows "icmp_task W ok False network (es @ FromInner buf (IpV4 src) (IpV4 dst) # later) m =
    (case icmp_task W ok False network es m of ((m, _), outs) \<Rightarrow> ((m, False), outs))"
proof -
  have "icmp_step W ok False network (FromInner buf (IpV4 src) (IpV4 dst)) m1 = Inl OtherError" for m1
    using assms by (auto simp: inner_icmp_socket_recv_def split: prod.split)
  then show ?thesis by (auto simp: icmp_task_append split: prod.splits bool.splits)
qed

lemma icmp_refused_send_ends_translation_witness:
  "icmp_task demo_icmp (\<lambda>o'. o' \<noteq> ToNet [0, 1, 0, 7] 255) False None
     (FromInner [0, 1, 0, 7] (IpV4 10) (IpV4 255) # pings) [] = (([], False), [])"
  using icmp_refused_send_ends_translation [of "\<lambda>o'. o' \<noteq> ToNet [0, 1, 0, 7] 255" "[0, 1, 0, 7]" 255 demo_icmp "(1, 7)" None "[]" 10 pings "[]"]
  by (simp add: demo_icmp_def echo_ids_def ECHO_REPLY_def of_be16_def)

text \<open>
  The translation of UDP keeps pairs apart: in every state it reaches, the socket a packet of a virtual host leaves by
  answers for that host and that destination, so that a datagram from there comes back to that host as coming from that
  destination, and the sockets of different pairs are different.
\<close>

lemma udp_nat_pairs:
  assumes "udp_reach n" and "handle_outbound bound (src, dst) n = (Inr i, n')"
  shows "fst (inbound_datagram i n') = Some (dst, src) \<and>
    (handle_outbound bound' (src', dst') n' = (Inr i, n'') \<longrightarrow> (src', dst') = (src, dst))"
proof -
  have "udp_reach n'" using udp_reach.outbound [OF assms(1), of bound "(src, dst)"] assms(2) by simp
  then have inv: "udp_inv n'" by (rule udp_reach_inv)
  have pair: "hm_get (un_tasks n2) j = Some key"
    if "udp_inv n1" "handle_outbound b key n1 = (Inr j, n2)" for n1 n2 b key j
    using that by (cases key) (auto simp: udp_inv_def handle_outbound_def hm_get_put split: option.splits if_splits)
  have t: "hm_get (un_tasks n') i = Some (src, dst)" by (rule pair [OF udp_reach_inv [OF assms(1)] assms(2)])
  have keep: "hm_get (un_tasks n'') i = Some (src, dst)" if "handle_outbound bound' (src', dst') n' = (Inr i, n'')"
    using that inv t by (auto simp: udp_inv_def handle_outbound_def hm_get_put split: option.splits if_splits)
  from t have "fst (inbound_datagram i n') = Some (dst, src)" by (simp add: inbound_datagram_def)
  with pair [OF inv] keep show ?thesis by fastforce
qed

lemma udp_nat_pairs_witness:
  "udp_reach udp_nat_new \<and> fst (inbound_datagram 0 (snd (handle_outbound True (V4 1 53, V4 2 53) udp_nat_new))) = Some (V4 2 53, V4 1 53)"
proof -
  have "handle_outbound True (V4 1 53, V4 2 53) udp_nat_new = (Inr 0, snd (handle_outbound True (V4 1 53, V4 2 53) udp_nat_new))"
    by (simp add: handle_outbound_def udp_nat_new_def)
  from udp_nat_pairs [OF udp_reach.new this] udp_reach.new show ?thesis by blast
qed

text \<open>
  Expired pairs keep their sockets: the sweep takes idle entries out of the table, but the reverse tasks go on waiting on
  their sockets. There is no bound: for every number there is a run of one host and one destination after which the table
  is empty and that many sockets are open.
\<close>

lemma udp_nat_sockets_leak:
  "\<exists>n. udp_reach n \<and> un_table n = [] \<and> length (un_tasks n) = k"
proof (induction k)
  case 0
  have "un_table udp_nat_new = [] \<and> length (un_tasks udp_nat_new) = 0" by (simp add: udp_nat_new_def)
  then show ?case using udp_reach.new by blast
next
  case (Suc k)
  then obtain n where n: "udp_reach n" "un_table n = []" "length (un_tasks n) = k" by blast
  let ?key = "(V4 1 53, V4 2 53)"
  let ?n1 = "snd (handle_outbound True ?key n)"
  let ?n2 = "nat_gc (?n1\<lparr>un_clock := un_clock ?n1 + NAT_IDLE_TIMEOUT\<rparr>)"
  have fresh: "un_next n \<notin> fst ` set (un_tasks n)"
  proof
    assume "un_next n \<in> fst ` set (un_tasks n)"
    then obtain key where "hm_get (un_tasks n) (un_next n) = Some key" 
      using map_of_eq_None_iff [of "un_tasks n" "un_next n"] by (cases "hm_get (un_tasks n) (un_next n)") simp_all
    with udp_reach_inv [OF n(1)] show False unfolding udp_inv_def by (meson less_irrefl)
  qed
  have "un_tasks ?n2 = hm_put (un_next n) ?key (un_tasks n)" using n(2) by (simp add: nat_gc_def handle_outbound_def)
  then have "length (un_tasks ?n2) = Suc k" using fresh n(3) length_put_fresh by metis
  moreover have "un_table ?n2 = []" using n(2) by (simp add: nat_gc_def handle_outbound_def)
  moreover have "udp_reach ?n2" by (intro udp_reach.intros n(1))
  ultimately show ?case by blast
qed

end
