(* ===== verification/Peer_Tasks.thy ===== *)
theory Peer_Tasks
  imports Server_Inbound
begin

text \<open>
  \<open>tunnel_core/p2p/transport/task.rs\<close>: the tasks that keep routes to peers alive. Pings over the best
  routes every five seconds, the probe for routes over a third node every five minutes, the expiry every
  ten seconds, and the loop that reads a tunnel.

  A round of a task is a function of what the code reads when it runs. The clock of each packet is an
  argument, as are the random choices of the \<open>rand\<close> crate and the two STUN functions of
  \<open>rust_p2p_core\<close>. \<open>no_relayed_route\<close> at the end looks at all nodes at once.
\<close>

section \<open>Pings\<close>

text \<open>Eight bytes of payload, the time in milliseconds; the payload fits, so the \<open>unwrap\<close> of the code is safe.\<close>

definition ping_packet :: "'c option \<Rightarrow> u8 \<Rightarrow> ipv4 \<Rightarrow> ipv4 \<Rightarrow> u64 \<Rightarrow> transmission result" where
  "ping_packet pc ttl src dest now =
     rbind (tb_np_new (tb_zeroed_size (HEAD_LENGTH + 8) (encrypt_reserve pc))) (\<lambda>ping.
       let ping = tb_map (np_set_msg_type Ping) ping;
           ping = tb_map (np_set_ttl ttl) ping;
           ping = tb_map (np_set_src_id src) ping;
           ping = tb_map (np_set_dest_id dest) ping in
       rbind (np_set_payload (be64 now) (tb_slice ping)) (\<lambda>b. Inr (tb_write ping b)))"

text \<open>One route: a ping that went out is counted. Then the round, over at most three routes of each peer.\<close>

definition ping_route ::
  "('k, 'c) out_crates \<Rightarrow> ('k, 'c) P2pOutbound \<Rightarrow> (ipv4 \<Rightarrow> 'k \<Rightarrow> u64) \<Rightarrow> ipv4 \<Rightarrow> ipv4 \<Rightarrow> 'k Route \<Rightarrow> (PacketLossStats, 'k event) action" where
  "ping_route W po clock src peer route stats =
     (case ping_packet (po_crypto po) 1 src peer (clock peer (route_key route)) of
        Inl _ \<Rightarrow> done_ok stats
      | Inr ping \<Rightarrow>
          (case p2p_send_to W po ping (route_key route) of
             (es, Inr _) \<Rightarrow> (record_sent peer stats, es, Inr ())
           | (es, Inl _) \<Rightarrow> (stats, es, Inr ())))"

definition ping_all ::
  "('k, 'c) out_crates \<Rightarrow> ('k, 'c) P2pOutbound \<Rightarrow> (ipv4 \<Rightarrow> 'k \<Rightarrow> u64) \<Rightarrow> SharedNetworkAddr \<Rightarrow> (PacketLossStats, 'k event) action" where
  "ping_all W po clock network =
     (case shared_ip network of
        None \<Rightarrow> done_ok
      | Some src \<Rightarrow>
          for_each (\<lambda>(peer, list). for_each (ping_route W po clock src peer) (take 3 list)) (route_table (po_route_table po)))"

text \<open>Routes not confirmed for ten seconds are dropped.\<close>

definition route_timeout :: "instant \<Rightarrow> 'k RouteTable \<Rightarrow> 'k RouteTable" where
  "route_timeout now = remove_oldest_route (now - secs 10)"

section \<open>Probing for relays\<close>

record 'k choices =
  rng_targets :: "nat \<Rightarrow> ipv4 list \<Rightarrow> ipv4 list"
  rng_peers :: "ipv4 \<Rightarrow> nat \<Rightarrow> (ipv4 \<times> 'k) list \<Rightarrow> (ipv4 \<times> 'k) list"

definition direct_to :: "'k RouteTable \<Rightarrow> ipv4 \<Rightarrow> bool" where
  "direct_to t ip = (case get_route_by_id t ip of Inr route \<Rightarrow> is_direct route | Inl _ \<Rightarrow> False)"

definition non_direct_targets :: "'k RouteTable \<Rightarrow> ipv4 \<Rightarrow> ipv4 list \<Rightarrow> ipv4 list" where
  "non_direct_targets t src online_ips = take 20 (filter (\<lambda>ip. ip \<noteq> src \<and> \<not> direct_to t ip) online_ips)"

definition targets_to_probe :: "'k choices \<Rightarrow> ipv4 list \<Rightarrow> ipv4 list" where
  "targets_to_probe rng targets = (if length targets \<le> 10 then targets else rng_targets rng 10 targets)"

definition direct_peers :: "'k RouteTable \<Rightarrow> (ipv4 \<times> 'k) list" where
  "direct_peers t =
     List.map_filter (\<lambda>(ip, routes). case routes of
        best # _ \<Rightarrow> if is_direct best then Some (ip, route_key best) else None | [] \<Rightarrow> None) (route_table t)"

definition probe_over ::
  "('k, 'c) out_crates \<Rightarrow> ('k, 'c) P2pOutbound \<Rightarrow> (ipv4 \<Rightarrow> 'k \<Rightarrow> u64) \<Rightarrow> ipv4 \<Rightarrow> ipv4 \<Rightarrow> ipv4 \<times> 'k \<Rightarrow> 'k event list" where
  "probe_over W po clock src target = (\<lambda>(relay_ip, key).
     case ping_packet (po_crypto po) 2 src target (clock target key) of
       Inl _ \<Rightarrow> [] | Inr ping \<Rightarrow> fst (p2p_send_to W po ping key))"

definition relay_probe ::
  "('k, 'c) out_crates \<Rightarrow> ('k, 'c) P2pOutbound \<Rightarrow> (ipv4 \<Rightarrow> 'k \<Rightarrow> u64) \<Rightarrow> 'k choices \<Rightarrow> SharedNetworkAddr \<Rightarrow>
   ServerInfoCollection \<Rightarrow> 'k event list" where
  "relay_probe W po clock rng network server_info =
     (case shared_ip network of
        None \<Rightarrow> []
      | Some src \<Rightarrow>
          let targets = non_direct_targets (po_route_table po) src (client_online_ips server_info) in
          if targets = [] then []
          else
            let peers = direct_peers (po_route_table po); per_target = min 3 (length peers) in
            if peers = [] then []
            else concat (map (\<lambda>target.
              concat (map (probe_over W po clock src target)
                (rng_peers rng target per_target (filter (\<lambda>(ip, _). ip \<noteq> target) peers)))) (targets_to_probe rng targets)))"

section \<open>Reading a tunnel\<close>

datatype 'k received = Datagram bytes 'k | RecvError

record 'k stun_crates =
  su_is_response :: "bytes \<Rightarrow> bool"
  su_response :: "bytes \<Rightarrow> SocketAddr option"
  su_index :: "'k \<Rightarrow> Index"
  su_global :: "ipv4 \<Rightarrow> bool"

text \<open>
  What arrives on one tunnel until it is closed: a UDP tunnel goes on after an error, a TCP connection ends there; the
  last step forgets the route over the connection. \<open>k0\<close> is the connection's own route key.
\<close>

definition stun_address :: "'k stun_crates \<Rightarrow> bytes \<Rightarrow> SocketAddr option" where
  "stun_address S b = (if su_is_response S b then su_response S b else None)"

fun tunnel_loop ::
  "('k, 'c) in_crates \<Rightarrow> 'k stun_crates \<Rightarrow> ('k, 'c) P2pInboundHandler \<Rightarrow> bool \<Rightarrow> 'k received list \<Rightarrow>
   'k InboundState \<times> MyNatInfo \<Rightarrow> ('k InboundState \<times> MyNatInfo) \<times> 'k in_event list" where
  "tunnel_loop W S h udp [] (s, n) = ((s, n), [])"
| "tunnel_loop W S h udp (RecvError # rs) (s, n) = (if udp then tunnel_loop W S h udp rs (s, n) else ((s, n), []))"
| "tunnel_loop W S h udp (Datagram b key # rs) (s, n) =
     (case (if udp then stun_address S b else None) of
        Some pub_addr \<Rightarrow> tunnel_loop W S h udp rs (s, update_public_addr (su_global S) (su_index S key) pub_addr n)
      | None \<Rightarrow>
          (case next_handle W h (tb_write (tb_zeroed (length b)) b) key s of
             (s', es) \<Rightarrow> (case tunnel_loop W S h udp rs (s', n) of (st, es') \<Rightarrow> (st, es @ es'))))"

definition tunnel_task ::
  "('k, 'c) in_crates \<Rightarrow> 'k stun_crates \<Rightarrow> ('k, 'c) P2pInboundHandler \<Rightarrow> bool \<Rightarrow> 'k \<Rightarrow> 'k received list \<Rightarrow>
   'k InboundState \<times> MyNatInfo \<Rightarrow> ('k InboundState \<times> MyNatInfo) \<times> 'k in_event list" where
  "tunnel_task W S h udp k0 rs st =
     (case tunnel_loop W S h udp rs st of
        ((s, n), es) \<Rightarrow> ((if udp then s else tcp_disconnect k0 s, n), es))"

section \<open>The hop counters of small packets\<close>

lemma np_set_payload_header:
  assumes "np_set_payload d b = Inr b'" and "np_ok b"
  shows "np_header b' = np_header b"
proof -
  have "length b \<ge> HEAD_LENGTH + length d" "b' = take HEAD_LENGTH b @ d @ drop (HEAD_LENGTH + length d) b"
    using assms(1) by (auto simp: np_set_payload_def splice_def split: if_splits)
  then show ?thesis by (simp add: np_header_def)
qed

lemma set_ttl_fields:
  assumes "np_ok z" and "np_header z = \<lparr>type_byte = 0, ttl_byte = 0, flags_byte = 0, reserved_byte = 0, h_seq = 0, h_src_id = 0, h_dest_id = 0\<rparr>"
  shows "np_ttl (np_set_dest_id dest (np_set_src_id src (np_set_ttl ttl (np_set_msg_type mt z)))) = ttl AND 0x0F"
    "np_max_ttl (np_set_dest_id dest (np_set_src_id src (np_set_ttl ttl (np_set_msg_type mt z)))) = ttl AND 0x0F"
  using h_ttl_set [of ttl ttl "np_header z"] assms
  by (simp_all add: np_op_defs h_max_ttl_def h_curr_ttl_def h_set_ttl_def h_set_msg_type_def)

lemma filled_packet:
  fixes data mt ttl src dest reserve m
  defines "z \<equiv> tb_zeroed_size (HEAD_LENGTH + m) reserve"
  defines "p \<equiv> tb_map (np_set_dest_id dest) (tb_map (np_set_src_id src) (tb_map (np_set_ttl ttl) (tb_map (np_set_msg_type mt) z)))"
  assumes "np_set_payload data (tb_slice p) = Inr b"
  shows "tb_wf (tb_write p b)" "tb_slice (tb_write p b) = b" "is_control mt src dest b" "np_ttl b = ttl AND 0x0F" "np_max_ttl b = ttl AND 0x0F"
proof -
  let ?d = "replicate m 0 :: bytes"
  obtain b0 where b0: "np_set_payload ?d (tb_slice p) = Inr b0" "is_control mt src dest b0"
    using control_packet [of ?d reserve dest src ttl mt] by (simp only: length_replicate p_def z_def) blast
  have z: "tb_wf z" "np_ok (tb_slice z)" by (simp_all add: z_def tb_wf_zeroed_size np_ok_def)
  have p: "tb_wf p" "tb_slice p = np_set_dest_id dest (np_set_src_id src (np_set_ttl ttl (np_set_msg_type mt (tb_slice z))))"
    using z by (simp_all add: p_def np_set_dest_id_def np_set_src_id_def np_set_ttl_def np_set_msg_type_def tb_header_mut)
  have okp: "np_ok (tb_slice p)" using z(2) by (simp add: p np_set_dest_id_def np_set_src_id_def np_set_ttl_def np_set_msg_type_def)
  have h: "np_header b = np_header (tb_slice p)" "np_header b0 = np_header (tb_slice p)"
    using np_set_payload_header assms(3) b0(1) okp by blast+
  have len: "length b = length (tb_slice p)" using assms(3) by (auto simp: np_set_payload_def split: if_splits)
  then show "tb_wf (tb_write p b)" "tb_slice (tb_write p b) = b"
    using p(1) length_tb_slice [OF p(1)] by (simp_all add: tb_wf_write tb_slice_write)
  have "np_ok b" using len okp by (simp add: np_ok_def)
  with is_control_header [OF b0(2)] h show "is_control mt src dest b" by simp
  have "np_header (tb_slice z) = \<lparr>type_byte = 0, ttl_byte = 0, flags_byte = 0, reserved_byte = 0, h_seq = 0, h_src_id = 0, h_dest_id = 0\<rparr>"
    using zero_header [of m] by (simp add: z_def)
  with set_ttl_fields [OF z(2), of dest src ttl mt] h show "np_ttl b = ttl AND 0x0F" "np_max_ttl b = ttl AND 0x0F"
    by (simp_all add: p np_ttl_def np_max_ttl_def)
qed

lemma ping_packet_made:
  obtains t where "ping_packet pc ttl src dest now = Inr t" "tb_wf t" "is_control Ping src dest (tb_slice t)"
    "np_payload (tb_slice t) = be64 now" "np_ttl (tb_slice t) = ttl AND 0x0F" "np_max_ttl (tb_slice t) = ttl AND 0x0F"
proof -
  let ?z = "tb_zeroed_size (HEAD_LENGTH + length (be64 now)) (encrypt_reserve pc)"
  let ?p = "tb_map (np_set_dest_id dest) (tb_map (np_set_src_id src) (tb_map (np_set_ttl ttl) (tb_map (np_set_msg_type Ping) ?z)))"
  obtain b where b: "tb_np_new ?z = Inr ?z" "np_set_payload (be64 now) (tb_slice ?p) = Inr b" "np_payload b = be64 now"
    by (rule control_packet [of "be64 now" "encrypt_reserve pc" dest src ttl Ping])
  have "ping_packet pc ttl src dest now = Inr (tb_write ?p b)"
    using b(1,2) by (simp add: ping_packet_def Let_def)
  with that filled_packet [OF b(2)] b(3) show thesis by simp
qed

lemma encrypted_control:
  assumes "aead_correct A" and "tb_wf t" and "is_control mt src dest (tb_slice t)" and "pc_encrypt A pc t = Inr t2"
  shows "is_control mt src dest (tb_slice t2)" "tb_wf t2" "np_ttl (tb_slice t2) = np_ttl (tb_slice t)"
    "np_max_ttl (tb_slice t2) = np_max_ttl (tb_slice t)"
proof -
  have ok: "np_ok (tb_slice t)" using assms(3) by (simp add: is_control_def)
  note e = pc_encrypt_head [OF assms(1,2) ok assms(4)]
  have h: "np_header (tb_slice t2) = np_header (tb_slice t)" using e(1) by (simp add: np_header_def np_head_def)
  show "is_control mt src dest (tb_slice t2)" "tb_wf t2" using is_control_header [OF assms(3) e(3) h] e(2) .
  show "np_ttl (tb_slice t2) = np_ttl (tb_slice t)" "np_max_ttl (tb_slice t2) = np_max_ttl (tb_slice t)"
    by (simp_all add: np_ttl_def np_max_ttl_def h)
qed

text \<open>Whatever is answered, the answer has one hop.\<close>

lemma reply_one_hop:
  assumes "aead_correct (ic_aead W)" and "reply_packet W pc mt src dest payload = Inr b"
  shows "is_control mt src dest b" "np_ttl b = 1" "np_max_ttl b = 1"
proof -
  let ?z = "tb_zeroed_size (HEAD_LENGTH + 8) (encrypt_reserve pc)"
  let ?p = "tb_map (np_set_dest_id dest) (tb_map (np_set_src_id src) (tb_map (np_set_ttl 1) (tb_map (np_set_msg_type mt) ?z)))"
  obtain b1 t where b: "np_set_payload payload (tb_slice ?p) = Inr b1" "pc_encrypt (ic_aead W) pc (tb_write ?p b1) = Inr t"
    "tb_np_into_bytes t = Inr b"
    using assms(2) by (auto simp: reply_packet_def Let_def rbind_eq_Inr tb_np_new_def)
  note f = filled_packet [OF b(1)]
  have c: "is_control mt src dest (tb_slice (tb_write ?p b1))" using f(2,3) by simp
  note e = encrypted_control [OF assms(1) f(1) c b(2)]
  have "b = tb_slice t" using b(3) e(2) by (simp add: tb_np_into_bytes_def tb_into_bytes_wf)
  with e f(2,4,5) show "is_control mt src dest b" "np_ttl b = 1" "np_max_ttl b = 1" by simp_all
qed

section \<open>Only direct routes\<close>

text \<open>What an action upholds: a property of the state, and one of everything it puts out.\<close>

definition upholds :: "('s \<Rightarrow> bool) \<Rightarrow> ('e \<Rightarrow> bool) \<Rightarrow> ('s, 'e) action \<Rightarrow> bool" where
  "upholds P Q a \<longleftrightarrow> (\<forall>s. P s \<longrightarrow> P (fst (a s)) \<and> list_all Q (fst (snd (a s))))"

named_theorems upholds_intros \<open>what the combinators of actions uphold\<close>

lemma upholds_basic [upholds_intros]: "upholds P Q done_ok" "upholds P Q (failing e)"
  by (simp_all add: upholds_def done_ok_def failing_def)

lemma upholds_effect [upholds_intros]: "list_all Q (fst x) \<Longrightarrow> upholds P Q (effect x)"
  by (simp add: upholds_def effect_def)

lemma upholds_update: "(\<And>s. P s \<Longrightarrow> P (g s)) \<Longrightarrow> upholds P Q (update_state g)"
  by (simp add: upholds_def update_state_def)

lemma upholds_then_do [upholds_intros]: "upholds P Q a \<Longrightarrow> upholds P Q b \<Longrightarrow> upholds P Q (then_do a b)"
  unfolding upholds_def then_do_def by (fastforce split: prod.splits sum.splits)

lemma upholds_try_do [upholds_intros]: "(\<And>x. r = Inr x \<Longrightarrow> upholds P Q (g x)) \<Longrightarrow> upholds P Q (try_do r g)"
  by (cases r) (simp_all add: upholds_basic)

lemma upholds_for_each [upholds_intros]: "(\<And>x. upholds P Q (g x)) \<Longrightarrow> upholds P Q (for_each g xs)"
  by (induction xs) (simp_all add: upholds_basic upholds_then_do)

lemma upholds_if [upholds_intros]: "(c \<Longrightarrow> upholds P Q a) \<Longrightarrow> (\<not> c \<Longrightarrow> upholds P Q b) \<Longrightarrow> upholds P Q (if c then a else b)"
  by simp

definition direct_only :: "'k RouteTable \<Rightarrow> bool" where
  "direct_only t \<longleftrightarrow> (\<forall>ip. \<forall>r\<in>set (entry_list (route_table t) ip). is_direct r)"

text \<open>A relayed packet's metric is above one, and \<open>add_route\<close> starts no entry for such a route.\<close>

lemma add_absent_relayed: "\<not> is_direct r \<Longrightarrow> add_route_if_absent now ip r t = t"
  by (simp add: add_route_if_absent_def add_route_def)

lemma direct_only_add_route:
  assumes "direct_only t" and "is_direct r"
  shows "direct_only (add_route now ip r t)"
proof -
  have "route_table (add_route now ip r t) = hm_put ip (place_route r (entry_list (route_table t) ip)) (route_table t)"
    using assms(2) by (simp add: add_route_def Let_def)
  with assms place_route_set [of r "entry_list (route_table t) ip"] show ?thesis
    by (auto simp: direct_only_def entry_list_put)
qed

lemma direct_only_add_absent: "direct_only t \<Longrightarrow> direct_only (add_route_if_absent now ip r t)"
  using direct_only_add_route [of t r now ip] add_absent_relayed [of r now ip t]
  by (cases "is_direct r") (simp_all add: add_route_if_absent_def)

lemma direct_only_add_owner: "direct_only t \<Longrightarrow> direct_only (add_owner_route d now ip key t)"
  by (simp add: direct_only_def add_owner_route_def Let_def entry_list_put from_default_rt_def is_direct_def)

lemma entry_list_drop:
  "entry_list (route_table (drop_route (ip, key) t)) ip' =
     (if ip' = ip then filter (\<lambda>r. route_key r \<noteq> key) (entry_list (route_table t) ip) else entry_list (route_table t) ip')"
  by (cases "hm_get (route_table t) ip") (simp_all add: drop_route_def Let_def entry_list_def hm_get_put hm_get_del)

lemma direct_only_drop: "direct_only t \<Longrightarrow> direct_only (drop_route x t)"
  by (cases x) (auto simp: direct_only_def entry_list_drop)

lemma direct_only_cong: "route_table t' = route_table t \<Longrightarrow> direct_only t' = direct_only t"
  by (simp add: direct_only_def)

lemma direct_only_remove: "direct_only t \<Longrightarrow> direct_only (remove_route ip key t)"
  using direct_only_drop [of t "(ip, key)"] by (simp add: remove_route_def Let_def direct_only_def)

lemma direct_only_expire: "direct_only t \<Longrightarrow> direct_only (remove_oldest_route time t)"
proof -
  assume t: "direct_only t"
  have *: "direct_only (fold drop_route ks t')" if "direct_only t'" for ks and t' :: "'a RouteTable"
    using that by (induction ks arbitrary: t') (simp_all add: direct_only_drop)
  have "direct_only (snd (expire_scan time t))" using t by (simp add: expire_scan_def direct_only_def)
  with * show ?thesis
    by (simp add: remove_oldest_route_def expire_apply_def case_prod_beta)
qed

section \<open>What the handler does to the routes\<close>

text \<open>
  An echo reply that claims one hop, and what may go out of a node: with these on the air no route over a
  third node comes about.
\<close>

definition calm :: "bytes \<Rightarrow> bool" where
  "calm b \<longleftrightarrow> (np_msg_type b = Inr Pong \<longrightarrow> np_max_ttl b \<le> 1)"

fun calm_event :: "'k in_event \<Rightarrow> bool" where
  "calm_event (Forward k b) = calm b"
| "calm_event (Reply k b) = calm b"
| "calm_event (Deliver d) = True"

abbreviation direct_state :: "'k InboundState \<Rightarrow> bool" where
  "direct_state s \<equiv> direct_only (is_route_table s)"

lemma upholds_deliver [upholds_intros]: "upholds direct_state calm_event (deliver_part a)"
  by (auto simp: upholds_def deliver_part_def list_all_iff split: prod.splits)

lemma upholds_routes:
  "(\<And>t. direct_only t \<Longrightarrow> direct_only (f t)) \<Longrightarrow> upholds direct_state calm_event (change_routes f)"
  unfolding change_routes_def by (rule upholds_update) simp

lemma upholds_count [upholds_intros]: "upholds direct_state calm_event (count_received ip)"
  unfolding count_received_def by (rule upholds_update) simp

lemma upholds_fec [upholds_intros]:
  assumes "\<And>s d. P (s\<lparr>is_fec_decoder := d\<rparr>) = P s" and "\<And>x. upholds P Q (g x)"
  shows "upholds P Q (fec_do W p g)"
  using upholds_try_do [of _ P Q g] assms by (fastforce simp: upholds_def fec_do_def split: prod.splits)

lemma upholds_reply [upholds_intros]:
  assumes "aead_correct (ic_aead W)"
  shows "upholds direct_state calm_event (effect (after (reply_packet W pc mt src dest payload) (tunnel_send W key)))"
proof (cases "reply_packet W pc mt src dest payload")
  case (Inr b)
  from reply_one_hop(3) [OF assms this] show ?thesis
    by (intro upholds_effect) (simp add: Inr tunnel_send_def no_send_def calm_def)
qed (simp add: upholds_effect)

lemma upholds_process:
  assumes "aead_correct (ic_aead W)" and "ctx_ttl ctx < ctx_max_ttl ctx" and "ctx_msg_type ctx = Pong \<Longrightarrow> ctx_max_ttl ctx \<le> 1"
  shows "upholds direct_state calm_event (process_decompressed_packet W h net key p ctx)"
proof -
  have pong: "upholds direct_state calm_event (change_routes (add_route now src (route_from key (ctx_max_ttl ctx - ctx_ttl ctx) r)))"
    if "ctx_msg_type ctx = Pong" for now src r
  proof -
    have "unat (ctx_max_ttl ctx) \<le> 1" "unat (ctx_ttl ctx) < unat (ctx_max_ttl ctx)"
      using assms(2,3) that by (simp_all add: word_le_nat_alt word_less_nat_alt)
    then have "ctx_max_ttl ctx = 1" "ctx_ttl ctx = 0" by (simp_all add: word_unat_eq_iff)
    then show ?thesis by (intro upholds_routes) (simp add: direct_only_add_route route_from_def is_direct_def)
  qed
  have owner: "upholds direct_state calm_event (change_routes (add_owner_route d now src key))" for d now src
    by (intro upholds_routes direct_only_add_owner)
  have absent: "upholds direct_state calm_event (change_routes (add_route_if_absent now src r))" for now src r
    by (intro upholds_routes direct_only_add_absent)
  show ?thesis
    unfolding process_decompressed_packet_def Let_def
    by (cases "ctx_msg_type ctx") (simp_all add: assms(1) upholds_basic upholds_deliver upholds_then_do upholds_reply upholds_count owner absent pong)
qed

lemma calm_decr: "calm b \<Longrightarrow> calm (np_decr_ttl b)"
  by (simp add: calm_def)

lemma upholds_open:
  assumes "aead_correct (ic_aead W)" and "ctx_ttl ctx < ctx_max_ttl ctx" and "ctx_msg_type ctx = Pong \<Longrightarrow> ctx_max_ttl ctx \<le> 1"
  shows "upholds direct_state calm_event (open_packet W h net key ctx p)"
  unfolding open_packet_def Let_def comp_def
  by (intro upholds_intros upholds_process assms) (simp_all add: assms)

lemma upholds_quic: "upholds direct_state calm_event (quic_packet W h net mt src p)"
  unfolding quic_packet_def Let_def comp_def by (intro upholds_intros) simp

lemma upholds_forward:
  assumes "tb_wf p" and "calm (tb_slice p)"
  shows "upholds direct_state calm_event (forward_packet W h dest p)"
  using assms by (auto simp: upholds_def forward_packet_def effect_def done_ok_def tb_np_into_bytes_def tb_into_bytes_wf
      forward_def no_send_def split: sum.splits)

lemma upholds_handler:
  assumes "aead_correct (ic_aead W)" and "tb_wf buf" and "calm (tb_slice buf)"
  shows "upholds direct_state calm_event (next_handle_impl W h buf key)"
proof (cases "np_ok (tb_slice buf)")
  case False
  then have "next_handle_impl W h buf key = failing InvalidInput"
    by (simp add: next_handle_impl_def tb_np_new_def np_new_def np_ok_def)
  then show ?thesis by (simp add: upholds_basic)
next
  case True
  note decr = tb_decr [OF assms(2) True]
  let ?p = "tb_map np_decr_ttl buf"
  have calm: "calm (tb_slice ?p)" using calm_decr [OF assms(3)] by (simp add: decr(1))
  have fwd: "upholds direct_state calm_event (forward_packet W h (np_dest_id (tb_slice buf)) ?p)"
    by (rule upholds_forward [OF decr(2) calm])
  have opened: "upholds direct_state calm_event (open_packet W h net key
      \<lparr>ctx_msg_type = mt, ctx_src_ip = np_src_id (tb_slice buf), ctx_dest_ip = np_dest_id (tb_slice buf),
       ctx_max_ttl = np_max_ttl (tb_slice ?p), ctx_ttl = np_ttl (tb_slice ?p)\<rparr> ?p)"
    if "np_msg_type (tb_slice buf) = Inr mt" "\<not> np_max_ttl (tb_slice ?p) \<le> np_ttl (tb_slice ?p)" for net mt
    using calm that by (intro upholds_open assms(1)) (simp_all add: calm_def decr(1))
  have new: "tb_np_new buf = Inr buf" using True by (simp add: tb_np_new_def np_new_def np_ok_def)
  show ?thesis
    unfolding next_handle_impl_def Let_def new try_do_simps
    by (intro upholds_intros upholds_quic fwd opened) assumption+
qed

section \<open>All nodes\<close>

text \<open>
  Any number of nodes and the packets in the air, which may be lost, repeated and reordered. A node starts with an
  empty route table. It sends what is no echo reply, as every sender of the code does; it handles packets with any configuration,
  clock and sockets, over any tunnel; its routes expire and connections close; the rest of its state changes at will.
\<close>

definition put_out :: "'k in_event list \<Rightarrow> bytes set" where
  "put_out es = {b. \<exists>k. Forward k b \<in> set es \<or> Reply k b \<in> set es}"

inductive net_reach :: "'c aead \<Rightarrow> (nat \<Rightarrow> 'k InboundState) \<Rightarrow> bytes set \<Rightarrow> bool" for A where
  start: "is_route_table \<circ> st = (\<lambda>_. rt_new) \<Longrightarrow> net_reach A st {}"
| sent: "net_reach A st air \<Longrightarrow> np_msg_type b \<noteq> Inr Pong \<Longrightarrow> net_reach A st (insert b air)"
| arrives: "net_reach A st air \<Longrightarrow> ic_aead W = A \<Longrightarrow> tb_wf buf \<Longrightarrow> tb_slice buf \<in> air \<Longrightarrow>
    next_handle W h buf key (st i) = (s', es) \<Longrightarrow> net_reach A (st(i := s')) (air \<union> put_out es)"
| expires: "net_reach A st air \<Longrightarrow>
    net_reach A (st(i := (st i)\<lparr>is_route_table := route_timeout now (is_route_table (st i))\<rparr>)) air"
| closed: "net_reach A st air \<Longrightarrow> net_reach A (st(i := tcp_disconnect key (st i))) air"
| changes: "net_reach A st air \<Longrightarrow> is_route_table s' = is_route_table (st i) \<Longrightarrow> net_reach A (st(i := s')) air"

lemma net_reach_direct:
  "net_reach A st air \<Longrightarrow> aead_correct A \<Longrightarrow> (\<forall>i. direct_state (st i)) \<and> (\<forall>b\<in>air. calm b)"
proof (induction rule: net_reach.induct)
  case (start st)
  then show ?case by (simp add: fun_eq_iff direct_only_def rt_new_def entry_list_def)
next
  case (sent st air b)
  then show ?case by (simp add: calm_def)
next
  case (arrives st air W buf h key i s' es)
  obtain r where run: "next_handle_impl W h buf key (st i) = (s', es, r)"
    using arrives.hyps(5) by (auto simp: next_handle_def split: prod.splits)
  have "upholds direct_state calm_event (next_handle_impl W h buf key)"
    using arrives by (intro upholds_handler) auto
  then have "direct_state (fst (next_handle_impl W h buf key (st i))) \<and> list_all calm_event (fst (snd (next_handle_impl W h buf key (st i))))"
    using arrives.IH arrives.prems by (simp add: upholds_def)
  with run have "direct_state s'" "list_all calm_event es" by simp_all
  then show ?case using arrives.IH arrives.prems by (fastforce simp: put_out_def list_all_iff)
next
  case (expires st air i now)
  then show ?case by (simp add: route_timeout_def direct_only_expire)
next
  case (closed st air i key)
  then show ?case by (simp add: tcp_disconnect_def direct_only_remove split: option.splits)
next
  case (changes st air s' i)
  then show ?case by simp
qed

lemma sent_ping:
  assumes "aead_correct (oc_aead W)" and "ping_packet (po_crypto po) ttl src dest now = Inr p"
    and "p2p_send_to W po p key = (es, r)"
  shows "es = [] \<and> r \<noteq> Inr () \<or> r = Inr () \<and> (\<exists>b. es = [ToPeer key b] \<and> is_control Ping src dest b \<and> np_ttl b = ttl AND 0x0F \<and> np_max_ttl b = ttl AND 0x0F)"
proof -
  obtain t where t: "ping_packet (po_crypto po) ttl src dest now = Inr t" "tb_wf t" "is_control Ping src dest (tb_slice t)"
    "np_ttl (tb_slice t) = ttl AND 0x0F" "np_max_ttl (tb_slice t) = ttl AND 0x0F"
    by (rule ping_packet_made)
  with assms(2) have p: "p = t" by simp
  show ?thesis
  proof (cases "pc_encrypt (oc_aead W) (po_crypto po) p")
    case (Inl e)
    with assms(3) show ?thesis by (auto simp: p2p_send_to_def)
  next
    case (Inr t2)
    note e = encrypted_control [OF assms(1) t(2,3) Inr [unfolded p]]
    from assms(3) Inr e t(4,5) show ?thesis
      by (auto simp: p2p_send_to_def tb_into_bytes_wf p2p_send_raw_to_def no_send_def split: if_splits)
  qed
qed

lemma ping_route_counts:
  assumes "aead_correct (oc_aead W)" and "ping_route W po clock src peer route stats = (stats', es, r)"
  shows "r = Inr () \<and> (es = [] \<and> stats' = stats \<or> stats' = record_sent peer stats \<and> (\<exists>b. es = [ToPeer (route_key route) b] \<and> np_dest_id b = peer))"
proof -
  obtain t where t: "ping_packet (po_crypto po) 1 src peer (clock peer (route_key route)) = Inr t"
    by (rule ping_packet_made)
  obtain es1 r1 where s: "p2p_send_to W po t (route_key route) = (es1, r1)" by fastforce
  from sent_ping [OF assms(1) t s] assms(2) show ?thesis
    by (cases r1) (auto simp: ping_route_def t s is_control_def)
qed

definition sent_count :: "ipv4 \<Rightarrow> PacketLossStats \<Rightarrow> u64" where
  "sent_count ip stats = ping_sent (get_or_default ping_default (hm_get stats ip))"

fun ping_to :: "ipv4 \<Rightarrow> 'k event \<Rightarrow> bool" where
  "ping_to ip (ToPeer k b) \<longleftrightarrow> np_dest_id b = ip"
| "ping_to ip (ToServer i b d) \<longleftrightarrow> False"

definition pings_counted :: "(PacketLossStats, 'k event) action \<Rightarrow> bool" where
  "pings_counted a \<longleftrightarrow> (\<forall>stats ip. snd (snd (a stats)) = Inr () \<and>
     sent_count ip (fst (a stats)) = sent_count ip stats + of_nat (length (filter (ping_to ip) (fst (snd (a stats))))))"

lemma sent_count_record: "sent_count ip (record_sent peer stats) = sent_count ip stats + (if ip = peer then 1 else 0)"
  by (simp add: sent_count_def record_sent_def Let_def hm_get_put get_or_default_def)

lemma counted_route: "aead_correct (oc_aead W) \<Longrightarrow> pings_counted (ping_route W po clock src peer route)"
  unfolding pings_counted_def
proof (intro allI)
  fix stats ip
  assume A: "aead_correct (oc_aead W)"
  obtain stats' es r where run: "ping_route W po clock src peer route stats = (stats', es, r)" by (cases "ping_route W po clock src peer route stats") auto
  from ping_route_counts [OF A run]
  show "snd (snd (ping_route W po clock src peer route stats)) = Inr () \<and> sent_count ip (fst (ping_route W po clock src peer route stats)) =
      sent_count ip stats + of_nat (length (filter (ping_to ip) (fst (snd (ping_route W po clock src peer route stats)))))"
    by (auto simp: run sent_count_record)
qed

lemma counted_then:
  assumes "pings_counted a" and "pings_counted b"
  shows "pings_counted (then_do a b)"
  unfolding pings_counted_def
proof (intro allI)
  fix stats ip
  obtain s1 es1 r1 where a: "a stats = (s1, es1, r1)" by (cases "a stats") auto
  obtain s2 es2 r2 where b: "b s1 = (s2, es2, r2)" by (cases "b s1") auto
  have "r1 = Inr ()" "sent_count ip s1 = sent_count ip stats + of_nat (length (filter (ping_to ip) es1))"
    using spec [OF spec [OF assms(1) [unfolded pings_counted_def], of stats], of ip] by (simp_all add: a)
  moreover have "r2 = Inr ()" "sent_count ip s2 = sent_count ip s1 + of_nat (length (filter (ping_to ip) es2))"
    using spec [OF spec [OF assms(2) [unfolded pings_counted_def], of s1], of ip] by (simp_all add: b)
  ultimately show "snd (snd (then_do a b stats)) = Inr () \<and> sent_count ip (fst (then_do a b stats)) =
      sent_count ip stats + of_nat (length (filter (ping_to ip) (fst (snd (then_do a b stats)))))"
    by (simp add: then_do_def a b)
qed

lemma counted_done: "pings_counted done_ok"
  by (simp add: pings_counted_def done_ok_def)

lemma counted_for_each: "(\<And>x. pings_counted (g x)) \<Longrightarrow> pings_counted (for_each g xs)"
  by (induction xs) (simp_all add: counted_done counted_then)

lemma relay_probe_events:
  assumes "aead_correct (oc_aead W)" and "e \<in> set (relay_probe W po clock rng (Some net) info)"
  obtains target relay k b where "e = ToPeer k b" "is_control Ping (na_ip net) target b" "np_ttl b = 2" "np_max_ttl b = 2"
    "target \<in> set (targets_to_probe rng (non_direct_targets (po_route_table po) (na_ip net) (client_online_ips info)))"
    "(relay, k) \<in> set (rng_peers rng target (min 3 (length (direct_peers (po_route_table po))))
       (filter (\<lambda>(ip, _). ip \<noteq> target) (direct_peers (po_route_table po))))"
proof -
  let ?targets = "targets_to_probe rng (non_direct_targets (po_route_table po) (na_ip net) (client_online_ips info))"
  from assms(2) obtain target relay k where t: "target \<in> set ?targets"
    "(relay, k) \<in> set (rng_peers rng target (min 3 (length (direct_peers (po_route_table po))))
       (filter (\<lambda>(ip, _). ip \<noteq> target) (direct_peers (po_route_table po))))"
    "e \<in> set (probe_over W po clock (na_ip net) target (relay, k))"
    by (auto simp: relay_probe_def shared_ip_def Let_def split: if_splits)
  obtain p where p: "ping_packet (po_crypto po) 2 (na_ip net) target (clock target k) = Inr p"
    by (rule ping_packet_made)
  obtain es r where s: "p2p_send_to W po p k = (es, r)" by fastforce
  from sent_ping [OF assms(1) p s] t(3) obtain b where "e = ToPeer k b" "is_control Ping (na_ip net) target b" "np_ttl b = 2" "np_max_ttl b = 2"
    by (auto simp: probe_over_def p s)
  with that t show thesis by blast
qed

text \<open>A probe that came over one node: its metric is two, so it adds no route, and the answer has one hop.\<close>

definition one_hop_answer :: "ipv4 \<Rightarrow> ipv4 \<Rightarrow> 'k in_event \<Rightarrow> bool" where
  "one_hop_answer src dest e = (case e of Reply k a \<Rightarrow> is_control Pong dest src a \<and> np_ttl a = 1 | _ \<Rightarrow> False)"

lemma probe_answered:
  assumes "aead_correct (ic_aead W)" and "ctx_msg_type ctx = Ping" and "ctx_max_ttl ctx = 2" and "ctx_ttl ctx = 0"
    and "ctx_src_ip ctx = src" and "ctx_dest_ip ctx = dest"
  shows "upholds (\<lambda>s. is_route_table s = T) (one_hop_answer src dest) (process_decompressed_packet W h net key p ctx)"
proof -
  have table: "upholds (\<lambda>s. is_route_table s = T) Q (change_routes (add_route_if_absent now src (from_default_rt d key 2)))" for now d Q
    unfolding change_routes_def
    by (rule upholds_update) (simp add: add_absent_relayed from_default_rt_def is_direct_def)
  have reply: "upholds P (one_hop_answer src dest) (effect (after (reply_packet W pc Pong dest src payload) (tunnel_send W key)))" for P pc payload
  proof (cases "reply_packet W pc Pong dest src payload")
    case (Inr a)
    from reply_one_hop(1,2) [OF assms(1) Inr] show ?thesis
      by (intro upholds_effect) (simp add: Inr tunnel_send_def no_send_def one_hop_answer_def)
  qed (simp add: upholds_effect)
  show ?thesis
    unfolding process_decompressed_packet_def Let_def
    by (simp add: assms upholds_then_do table reply)
qed

lemma relayed_probe_handled:
  assumes "aead_correct (ic_aead W)" and "tb_wf buf" and "is_control Ping src dest (tb_slice buf)"
    and "np_ttl (tb_slice buf) = 1" and "np_max_ttl (tb_slice buf) = 2"
  shows "upholds (\<lambda>s. is_route_table s = T) (one_hop_answer src dest) (next_handle_impl W h buf key)"
proof -
  have ok: "np_ok (tb_slice buf)" using assms(3) by (simp add: is_control_def)
  note decr = tb_decr [OF assms(2) ok]
  let ?p = "tb_map np_decr_ttl buf"
  have ttl: "np_ttl (np_decr_ttl (tb_slice buf)) = 0"
    using np_decr_ttl_ttl [of "tb_slice buf"] by (simp add: assms(4) unat_eq_zero)
  have fwd: "upholds P Q (forward_packet W h d ?p)" for P Q d
    using ttl by (simp add: upholds_def forward_packet_def decr(1) done_ok_def)
  have new: "tb_np_new buf = Inr buf" using ok by (simp add: tb_np_new_def np_new_def np_ok_def)
  have opened: "upholds (\<lambda>s. is_route_table s = T) (one_hop_answer src dest) (open_packet W h net key
      \<lparr>ctx_msg_type = Ping, ctx_src_ip = src, ctx_dest_ip = dest, ctx_max_ttl = 2, ctx_ttl = 0\<rparr> ?p)" for net
    unfolding open_packet_def Let_def comp_def
    by (intro upholds_intros probe_answered [OF assms(1)]) simp_all
  show ?thesis
    unfolding next_handle_impl_def Let_def new try_do_simps
    using assms(3,5) opened
    by (intro upholds_intros fwd) (auto simp: is_control_def decr(1) ttl)
qed

section \<open>Well-formed packets\<close>

text \<open>What every packet on the wire looks like: a whole head, a known type, a hop counter within its bound.\<close>

definition well_formed :: "bytes \<Rightarrow> bool" where
  "well_formed b \<longleftrightarrow> np_ok b \<and> (\<exists>mt. np_msg_type b = Inr mt) \<and> np_ttl b \<le> np_max_ttl b"

fun well_formed_event :: "'k in_event \<Rightarrow> bool" where
  "well_formed_event (Forward k b) = well_formed b"
| "well_formed_event (Reply k b) = well_formed b"
| "well_formed_event (Deliver d) = True"

abbreviation emits :: "('k InboundState, 'k in_event) action \<Rightarrow> bool" where
  "emits \<equiv> upholds (\<lambda>_. True) well_formed_event"

lemma emits_parts:
  "emits (deliver_part a)" "emits (change_routes f)" "emits (count_received ip)"
  by (auto simp: upholds_def deliver_part_def change_routes_def count_received_def update_state_def list_all_iff split: prod.splits)

lemma emits_reply:
  assumes "aead_correct (ic_aead W)"
  shows "emits (effect (after (reply_packet W pc mt src dest payload) (tunnel_send W key)))"
proof (cases "reply_packet W pc mt src dest payload")
  case (Inr b)
  from reply_one_hop [OF assms this] show ?thesis
    by (intro upholds_effect) (auto simp: Inr tunnel_send_def no_send_def well_formed_def is_control_def)
qed (simp add: upholds_effect)

lemma emits_process:
  assumes "aead_correct (ic_aead W)"
  shows "emits (process_decompressed_packet W h net key p ctx)"
  unfolding process_decompressed_packet_def Let_def
  by (cases "ctx_msg_type ctx") (simp_all add: upholds_basic upholds_then_do emits_parts emits_reply [OF assms])

lemma emits_open:
  assumes "aead_correct (ic_aead W)"
  shows "emits (open_packet W h net key ctx p)" "emits (quic_packet W h net mt src p)"
  unfolding open_packet_def quic_packet_def Let_def comp_def
  by (intro upholds_intros emits_process [OF assms] emits_parts; simp)+

lemma emits_forward:
  assumes "tb_wf p" and "well_formed (tb_slice p)"
  shows "emits (forward_packet W h dest p)"
  using assms by (auto simp: upholds_def forward_packet_def effect_def done_ok_def tb_np_into_bytes_def tb_into_bytes_wf
      forward_def no_send_def split: sum.splits)

section \<open>Properties\<close>

text \<open>
  C14. No node ever has a route over a third node: however many nodes run this code, whatever they send each other, relay and lose,
  and however often the probe for such routes runs, every route in every table is a direct one. Echo replies, the only packets that
  could teach a node a longer route, are sent with one hop, and an echo request that came over a third node adds nothing.
\<close>

theorem no_relayed_route:
  assumes "aead_correct A" and "net_reach A st air" and "hm_get (route_table (is_route_table (st i))) ip = Some l" and "r \<in> set l"
  shows "metric r = 1 \<and> \<not> need_punch (is_route_table (st i)) ip"
proof -
  have "direct_state (st i)" using net_reach_direct [OF assms(2,1)] by blast
  then have "\<forall>r\<in>set l. is_direct r" using assms(3) by (simp add: direct_only_def entry_list_def) (metis option.simps(5))
  with assms(3,4) show ?thesis by (auto simp: need_punch_def is_direct_def list_ex_iff)
qed

text \<open>
  A probe comes to nothing: an echo request that the probe for relays sends is relayed at most once, whoever handles it then keeps his
  route table as it was, and the answer, if there is one, is relayed by nobody, so that it cannot reach the node that asked.
\<close>

lemma relay_probe_unanswered:
  assumes "aead_correct (oc_aead Wo)" and "ToPeer k b \<in> set (relay_probe Wo po clock rng (Some net) info)"
    and "relayed R b (Suc n) b'" and "tb_wf buf" and "tb_slice buf = b'" and "ic_aead W = oc_aead Wo"
    and "next_handle_impl W h buf key s = (s', es, r)"
  shows "n = 0 \<and> is_route_table s' = is_route_table s \<and>
    set es \<subseteq> {Reply k a | k a. np_msg_type a = Inr Pong \<and> (\<forall>m. {a'. relayed Q a (Suc m) a'} = {})}"
proof -
  obtain target where b: "is_control Ping (na_ip net) target b" "np_ttl b = 2" "np_max_ttl b = 2"
    using relay_probe_events [OF assms(1,2)] by (metis event.inject(2))
  note hops = relayed_bytes [OF assms(3)]
  then have n: "n = 0" and b': "b' = np_decr_ttl b" using b(2) by auto
  have ttl: "np_ttl b' = 1" using np_decr_ttl_ttl [of b] b(2) by (simp add: b' word_unat_eq_iff)
  have "upholds (\<lambda>s1. is_route_table s1 = is_route_table s) (one_hop_answer (na_ip net) target) (next_handle_impl W h buf key)"
    using assms(1,4-6) b ttl is_control_decr [OF b(1)] by (intro relayed_probe_handled) (simp_all add: b')
  from this [unfolded upholds_def, rule_format, of s] assms(7)
  have s': "is_route_table s' = is_route_table s" and out: "list_all (one_hop_answer (na_ip net) target) es" by simp_all
  have "relayed Q a (Suc m) a' \<Longrightarrow> np_ttl a = 1 \<Longrightarrow> False" for a m a'
    using relayed_bytes [of Q a "Suc m" a'] by auto
  then have "set es \<subseteq> {Reply k a | k a. np_msg_type a = Inr Pong \<and> (\<forall>m. {a'. relayed Q a (Suc m) a'} = {})}"
    using out by (auto simp: list_all_iff one_hop_answer_def is_control_def split: in_event.splits) (metis in_event.exhaust)
  with n s' show ?thesis by blast
qed

definition choices_ok :: "'k choices \<Rightarrow> bool" where
  "choices_ok rng \<longleftrightarrow> (\<forall>n l. set (rng_targets rng n l) \<subseteq> set l \<and> length (rng_targets rng n l) \<le> n) \<and>
     (\<forall>t n l. set (rng_peers rng t n l) \<subseteq> set l \<and> length (rng_peers rng t n l) \<le> n)"

lemma direct_peers_route:
  assumes "hm_ok (route_table t)" and "(relay, k) \<in> set (direct_peers t)"
  shows "direct_to t relay"
proof -
  obtain routes where "(relay, routes) \<in> set (route_table t)" "\<exists>best rest. routes = best # rest \<and> is_direct best"
    using assms(2) by (auto simp: direct_peers_def List.map_filter_def split: list.splits if_splits)
  moreover from this assms(1) have "hm_get (route_table t) relay = Some routes" by simp
  ultimately show ?thesis by (auto simp: direct_to_def get_route_by_id_def get_by_id_def)
qed

lemma length_concat_map: "(\<And>x. x \<in> set xs \<Longrightarrow> length (f x) \<le> c) \<Longrightarrow> length (concat (map f xs)) \<le> length xs * c"
  by (induction xs) (simp_all add: add_mono)

lemma probe_over_one:
  assumes "aead_correct (oc_aead W)"
  shows "length (probe_over W po clock src target x) \<le> 1"
proof -
  obtain relay k where x: "x = (relay, k)" by fastforce
  obtain p where p: "ping_packet (po_crypto po) 2 src target (clock target k) = Inr p" by (rule ping_packet_made)
  obtain es r where s: "p2p_send_to W po p k = (es, r)" by fastforce
  from sent_ping [OF assms p s] show ?thesis by (auto simp: probe_over_def x p s)
qed

text \<open>
  What the probe sends is bounded and aimed: per round at most thirty echo requests, each for an online node other than this one to
  which there is no direct route, and over another node to which there is one.
\<close>

lemma relay_probe_aimed:
  assumes "aead_correct (oc_aead W)" and "choices_ok rng" and "hm_ok (route_table (po_route_table po))"
  shows "length (relay_probe W po clock rng (Some net) info) \<le> 30 \<and>
    set (relay_probe W po clock rng (Some net) info) \<subseteq>
      {ToPeer k b | k b. np_src_id b = na_ip net \<and> np_dest_id b \<in> set (client_online_ips info) - {na_ip net} \<and>
         \<not> direct_to (po_route_table po) (np_dest_id b) \<and>
         (\<exists>relay. (relay, k) \<in> set (direct_peers (po_route_table po)) \<and> relay \<noteq> np_dest_id b \<and> direct_to (po_route_table po) relay)}"
proof
  let ?peers = "direct_peers (po_route_table po)"
  let ?targets = "non_direct_targets (po_route_table po) (na_ip net) (client_online_ips info)"
  let ?sel = "\<lambda>target. rng_peers rng target (min 3 (length ?peers)) (filter (\<lambda>(ip, _). ip \<noteq> target) ?peers)"
  have "length (concat (map (probe_over W po clock (na_ip net) target) (?sel target))) \<le> 3" for target
  proof -
    have "length (?sel target) \<le> min 3 (length ?peers)" using assms(2) unfolding choices_ok_def by blast
    then show ?thesis
      using length_concat_map [of "?sel target" "probe_over W po clock (na_ip net) target" 1] probe_over_one [OF assms(1)]
      by simp
  qed
  then have "length (relay_probe W po clock rng (Some net) info) \<le> length (targets_to_probe rng ?targets) * 3"
    unfolding relay_probe_def Let_def by (simp add: shared_ip_def length_concat_map)
  moreover have "length (targets_to_probe rng ?targets) \<le> 10"
    using assms(2) by (simp add: targets_to_probe_def choices_ok_def)
  ultimately show "length (relay_probe W po clock rng (Some net) info) \<le> 30" by simp
  show "set (relay_probe W po clock rng (Some net) info) \<subseteq>
      {ToPeer k b | k b. np_src_id b = na_ip net \<and> np_dest_id b \<in> set (client_online_ips info) - {na_ip net} \<and>
         \<not> direct_to (po_route_table po) (np_dest_id b) \<and>
         (\<exists>relay. (relay, k) \<in> set ?peers \<and> relay \<noteq> np_dest_id b \<and> direct_to (po_route_table po) relay)}"
  proof
    fix e
    assume "e \<in> set (relay_probe W po clock rng (Some net) info)"
    then obtain target relay k b where e: "e = ToPeer k b" "is_control Ping (na_ip net) target b"
      and t: "target \<in> set (targets_to_probe rng ?targets)" and r: "(relay, k) \<in> set (?sel target)"
      by (rule relay_probe_events [OF assms(1)])
    have "target \<in> set ?targets" using t assms(2) by (auto simp: targets_to_probe_def choices_ok_def split: if_splits)
    then have target: "target \<in> set (client_online_ips info) - {na_ip net}" "\<not> direct_to (po_route_table po) target"
      by (auto simp: non_direct_targets_def dest: in_set_takeD)
    have "set (?sel target) \<subseteq> set (filter (\<lambda>(ip, _). ip \<noteq> target) ?peers)" using assms(2) unfolding choices_ok_def by blast
    with r have peer: "(relay, k) \<in> set ?peers" "relay \<noteq> target" by auto
    then show "e \<in> {ToPeer k b | k b. np_src_id b = na_ip net \<and> np_dest_id b \<in> set (client_online_ips info) - {na_ip net} \<and>
         \<not> direct_to (po_route_table po) (np_dest_id b) \<and>
         (\<exists>relay. (relay, k) \<in> set ?peers \<and> relay \<noteq> np_dest_id b \<and> direct_to (po_route_table po) relay)}"
      using e target direct_peers_route [OF assms(3) peer(1)] by (auto simp: is_control_def)
  qed
qed

text \<open>
  The loss statistics count what was sent: a round of pings never fails, and for every peer it raises the sent counter
  by exactly the number of echo requests for that peer that were handed to a socket.
\<close>

lemma ping_all_counts:
  assumes "aead_correct (oc_aead W)" and "ping_all W po clock network stats = (stats', es, r)"
  shows "r = Inr () \<and> sent_count ip stats' = sent_count ip stats + of_nat (length (filter (ping_to ip) es))"
proof -
  have "pings_counted (ping_all W po clock network)"
    unfolding ping_all_def using counted_route [OF assms(1)]
    by (auto simp: counted_done intro!: counted_for_each split: option.splits prod.splits)
  from spec [OF spec [OF this [unfolded pings_counted_def], of stats], of ip] assms(2) show ?thesis by simp
qed

lemma tunnel_loop_udp: "tunnel_loop W S h True rs st = tunnel_loop W S h True (filter (\<lambda>x. x \<noteq> RecvError) rs) st"
proof (induction rs arbitrary: st)
  case (Cons x rs)
  then show ?case by (cases st; cases x) (auto split: option.splits prod.splits)
qed simp

lemma tunnel_loop_tcp:
  "RecvError \<notin> set rs \<Longrightarrow> tunnel_loop W S h False (rs @ RecvError # later) st = tunnel_loop W S h False rs st"
proof (induction rs arbitrary: st)
  case Nil
  then show ?case by (cases st) simp
next
  case (Cons x rs)
  then show ?case by (cases st; cases x) (auto split: option.splits prod.splits)
qed

lemma disconnected: "get_id_by_route_key (is_route_table (tcp_disconnect key s)) key = None"
  by (auto simp: tcp_disconnect_def get_id_by_route_key_def remove_route_def drop_route_def Let_def hm_get_del split: option.splits)

text \<open>
  A broken connection is forgotten, a broken datagram is not the end: on UDP an error changes nothing, the task does as if it had not occurred;
  on TCP what would come after the first error is never looked at, and the connection's key then belongs to no peer.
\<close>

lemma broken_tunnel:
  "tunnel_task W S h True key rs st = tunnel_task W S h True key (filter (\<lambda>x. x \<noteq> RecvError) rs) st \<and>
   tunnel_task W S h False key (takeWhile (\<lambda>x. x \<noteq> RecvError) rs @ RecvError # later) st =
     tunnel_task W S h False key (takeWhile (\<lambda>x. x \<noteq> RecvError) rs) st \<and>
   get_id_by_route_key (is_route_table (fst (fst (tunnel_task W S h False key rs st)))) key = None"
proof -
  have "RecvError \<notin> set (takeWhile (\<lambda>x. x \<noteq> RecvError) rs)" by (auto dest: set_takeWhileD)
  from tunnel_loop_tcp [OF this, of W S h later st] show ?thesis
    using tunnel_loop_udp [of W S h rs st] by (simp add: tunnel_task_def disconnected split: prod.split)
qed

text \<open>
  C15. Whatever bytes arrive, from whomever, every packet this node relays or answers with is well formed: it has a
  whole head, a message type of the protocol and a hop counter not above its initial value.
\<close>

theorem handler_emits_well_formed:
  assumes "aead_correct (ic_aead W)" and "tb_wf buf" and "next_handle_impl W h buf key s = (s', es, r)"
  shows "list_all well_formed_event es"
proof -
  have "emits (next_handle_impl W h buf key)"
  proof (cases "np_ok (tb_slice buf)")
    case False
    then have "next_handle_impl W h buf key = failing InvalidInput"
      by (simp add: next_handle_impl_def tb_np_new_def np_new_def np_ok_def)
    then show ?thesis by (simp add: upholds_basic)
  next
    case True
    note decr = tb_decr [OF assms(2) True]
    let ?p = "tb_map np_decr_ttl buf"
    have fwd: "emits (forward_packet W h d ?p)" if "np_msg_type (tb_slice buf) = Inr mt" "\<not> np_max_ttl (tb_slice ?p) \<le> np_ttl (tb_slice ?p)" for d mt
      using that decr(2) by (intro emits_forward) (auto simp: well_formed_def decr(1))
    have new: "tb_np_new buf = Inr buf" using True by (simp add: tb_np_new_def np_new_def np_ok_def)
    show ?thesis
      unfolding next_handle_impl_def Let_def new try_do_simps
      by (intro upholds_intros emits_open assms(1) fwd) assumption+
  qed
  then have "list_all well_formed_event (fst (snd (next_handle_impl W h buf key s)))" by (simp add: upholds_def)
  with assms(3) show ?thesis by simp
qed

section \<open>Examples\<close>

definition demo_outbound :: "(nat, bytes) P2pOutbound" where
  "demo_outbound = \<lparr>po_route_table = add_route 0 0x0A1A0005 (route_from 9 1 20) rt_new, po_crypto = None\<rparr>"

definition demo_choices :: "nat choices" where
  "demo_choices = \<lparr>rng_targets = take, rng_peers = (\<lambda>_ n l. take n l)\<rparr>"

lemma probe_over_sent:
  assumes "po_crypto po = None" and "\<And>k b. oc_socket W k b"
  obtains b where "probe_over W po clock src target (relay, k) = [ToPeer k b]"
proof -
  obtain t where "ping_packet (po_crypto po) 2 src target (clock target k) = Inr t" "tb_wf t" by (rule ping_packet_made)
  with assms have "probe_over W po clock src target (relay, k) = [ToPeer k (tb_slice t)]"
    by (simp add: probe_over_def p2p_send_to_def pc_encrypt_def tb_into_bytes_wf p2p_send_raw_to_def)
  with that show thesis .
qed

lemma demo_probe:
  obtains b where "ToPeer 9 b \<in> set (relay_probe demo_crates demo_outbound (\<lambda>_ _. 7) demo_choices (Some demo_net) demo_servers)"
    "is_control Ping 0x0A1A0002 0x0A1A0003 b" "np_ttl b = 2" "np_max_ttl b = 2"
proof -
  have A: "aead_correct (oc_aead demo_crates)" by (simp add: demo_crates_def toy_aead_correct)
  have d: "direct_peers (po_route_table demo_outbound) = [(0x0A1A0005, 9)]"
    "targets_to_probe demo_choices (non_direct_targets (po_route_table demo_outbound) 0x0A1A0002 (client_online_ips demo_servers)) = [0x0A1A0003, 0x0A1A0004]"
    "non_direct_targets (po_route_table demo_outbound) 0x0A1A0002 (client_online_ips demo_servers) \<noteq> []"
    by code_simp+
  obtain b where b: "probe_over demo_crates demo_outbound (\<lambda>_ _. 7) 0x0A1A0002 0x0A1A0003 (0x0A1A0005, 9) = [ToPeer 9 b]"
    by (rule probe_over_sent [of demo_outbound demo_crates]) (simp_all add: demo_outbound_def demo_crates_def)
  have "ToPeer 9 b \<in> set (relay_probe demo_crates demo_outbound (\<lambda>_ _. 7) demo_choices (Some demo_net) demo_servers)"
    using d(3) by (simp add: relay_probe_def shared_ip_def demo_net_def d(1,2) Let_def) (simp add: demo_choices_def b)
  moreover
  obtain p where p: "ping_packet (po_crypto demo_outbound) 2 0x0A1A0002 0x0A1A0003 7 = Inr p" by (rule ping_packet_made)
  obtain es r where s: "p2p_send_to demo_crates demo_outbound p 9 = (es, r)" by fastforce
  from sent_ping [OF A p s] b have "is_control Ping 0x0A1A0002 0x0A1A0003 b" "np_ttl b = 2" "np_max_ttl b = 2"
    by (auto simp: probe_over_def p s)
  ultimately show thesis by (rule that)
qed
lemma direct_ping_learned:
  assumes "tb_wf buf" and "is_control Ping src dest (tb_slice buf)" and "np_ttl (tb_slice buf) = 1" and "np_max_ttl (tb_slice buf) = 1"
    and "src \<noteq> dest" and "nr_network (pi_network_route h) = Some net" and "na_ip net = dest" and "pi_crypto h = None" and "pi_compression h = None"
  shows "is_route_table (fst (next_handle_impl W h buf key s)) =
    add_route_if_absent (ic_now W) src (from_default_rt (ic_default_rtt W) key 1) (is_route_table s)"
proof -
  have ok: "np_ok (tb_slice buf)" using assms(2) by (simp add: is_control_def)
  note decr = tb_decr [OF assms(1) ok]
  let ?p = "tb_map np_decr_ttl buf"
  have ttl: "np_ttl (np_decr_ttl (tb_slice buf)) = 0"
    using np_decr_ttl_ttl [of "tb_slice buf"] by (simp add: assms(3) unat_eq_zero)
  have new: "tb_np_new buf = Inr buf" using ok by (simp add: tb_np_new_def np_new_def np_ok_def)
  have plain: "packet_decompress Z None ?p = Inr ?p" for Z
    using assms(2) by (simp add: packet_decompress_def is_control_def decr(1))
  show ?thesis
    using assms(2,4-9)
    by (simp add: next_handle_impl_def new Let_def is_control_def decr(1) ttl for_this_node_def open_packet_def pc_decrypt_def plain
        process_decompressed_packet_def then_do_def change_routes_def update_state_def effect_def split: prod.split sum.split)
qed

definition demo_listener :: "ipv4 \<Rightarrow> (nat, bytes) P2pInboundHandler" where
  "demo_listener ip = \<lparr>pi_network_route = \<lparr>nr_network = Some (demo_net\<lparr>na_ip := ip\<rparr>), nr_subnet_route = []\<rparr>,
     pi_crypto = None, pi_compression = None,
     pi_enhanced_inbound = \<lparr>ei_tun_data_inbound = Tun [], ei_internal_nat_inbound = None\<rparr>\<rparr>"

text \<open>A node hears a ping of \<open>10.26.0.2\<close> over tunnel 3 and has a route to it.\<close>

theorem no_relayed_route_witness:
  "\<exists>st air. net_reach toy_aead st air \<and> hm_get (route_table (is_route_table (st 0))) 0x0A1A0002 = Some [route_from (3::nat) 1 1000]"
proof -
  obtain t where t: "ping_packet (None :: bytes option) 1 0x0A1A0002 0x0A1A0003 7 = Inr t" "tb_wf t"
    "is_control Ping 0x0A1A0002 0x0A1A0003 (tb_slice t)" "np_ttl (tb_slice t) = 1" "np_max_ttl (tb_slice t) = 1"
    by (rule ping_packet_made [of "None :: bytes option" 1]) simp
  let ?st = "\<lambda>_ :: nat. demo_state"
  obtain s' es where run: "next_handle demo_in (demo_listener 0x0A1A0003) t 3 demo_state = (s', es)" by fastforce
  have "is_route_table (fst (next_handle_impl demo_in (demo_listener 0x0A1A0003) t 3 demo_state)) =
      add_route_if_absent 0 0x0A1A0002 (from_default_rt 1000 3 1) rt_new"
    using direct_ping_learned [OF t(2-5), of "demo_listener 0x0A1A0003" "demo_net\<lparr>na_ip := 0x0A1A0003\<rparr>" demo_in 3 demo_state]
    by (simp add: demo_listener_def demo_in_def demo_state_def)
  moreover have "s' = fst (next_handle_impl demo_in (demo_listener 0x0A1A0003) t 3 demo_state)"
    using run by (auto simp: next_handle_def split: prod.splits)
  moreover have "hm_get (route_table (add_route_if_absent 0 0x0A1A0002 (from_default_rt 1000 3 1) rt_new)) 0x0A1A0002 = Some [route_from (3::nat) 1 1000]"
    by code_simp
  ultimately have s': "hm_get (route_table (is_route_table s')) 0x0A1A0002 = Some [route_from (3::nat) 1 1000]" by simp
  have "net_reach toy_aead ?st {}" by (rule net_reach.start) (simp add: demo_state_def comp_def)
  then have "net_reach toy_aead ?st {tb_slice t}"
    by (rule net_reach.sent) (use t(3) in \<open>simp add: is_control_def\<close>)
  from net_reach.arrives [OF this _ t(2) _ run, of 0] have reach: "net_reach toy_aead (?st(0 := s')) ({tb_slice t} \<union> put_out es)"
    by (simp add: demo_in_def)
  have "metric (route_from (3::nat) 1 1000) = 1 \<and> \<not> need_punch (is_route_table ((?st(0 := s')) 0)) 0x0A1A0002"
    by (rule no_relayed_route [OF toy_aead_correct reach, where l = "[route_from 3 1 1000]"]) (simp add: s', simp)
  with reach s' show ?thesis
    by (intro exI [of _ "?st(0 := s')"] exI [of _ "{tb_slice t} \<union> put_out es"] conjI) simp_all
qed

text \<open>The probe of \<open>10.26.0.2\<close> for \<open>10.26.0.3\<close> over \<open>10.26.0.5\<close>, which relays it.\<close>

lemma demo_hop:
  obtains b s where "ToPeer 9 b \<in> set (relay_probe demo_crates demo_outbound (\<lambda>_ _. 7) demo_choices (Some demo_net) demo_servers)"
    "next_handle_impl demo_in (demo_listener 0x0A1A0005) (tb_from b) 3 s = (s, [Forward 4 (np_decr_ttl b)], Inr ())"
    "relayed demo_in b (Suc 0) (np_decr_ttl b)"
proof -
  obtain b where b: "ToPeer 9 b \<in> set (relay_probe demo_crates demo_outbound (\<lambda>_ _. 7) demo_choices (Some demo_net) demo_servers)"
    "is_control Ping 0x0A1A0002 0x0A1A0003 b" "np_ttl b = 2" "np_max_ttl b = 2" by (rule demo_probe)
  define s :: "nat InboundState" where "s = demo_state\<lparr>is_route_table := add_route 0 0x0A1A0003 (route_from 4 1 20) rt_new\<rparr>"
  have net: "nr_network (pi_network_route (demo_listener 0x0A1A0005)) = Some (demo_net\<lparr>na_ip := 0x0A1A0005\<rparr>)" by (simp add: demo_listener_def)
  have other: "\<not> for_this_node (demo_net\<lparr>na_ip := 0x0A1A0005\<rparr>) (np_dest_id b)"
    using b(2) by (simp add: is_control_def for_this_node_def demo_net_def is_broadcast_def is_unspecified_def)
  have "get_route_by_id (is_route_table s) 0x0A1A0003 = Inr (route_from 4 1 20)" unfolding s_def by simp code_simp
  then have run: "next_handle_impl demo_in (demo_listener 0x0A1A0005) (tb_from b) 3 s = (s, [Forward 4 (np_decr_ttl b)], Inr ())"
    using b(2-4) forward_succeeds [OF tb_wf_from, of b Ping "demo_listener 0x0A1A0005" _ s "route_from 4 1 20" demo_in 3] net other
    by (simp add: is_control_def) (simp add: demo_in_def route_from_def)
  from relayed.hop [OF relayed.sent tb_wf_from tb_slice_from net other run]
  have "relayed demo_in b (Suc 0) (np_decr_ttl b)" by simp
  with that b(1) run show thesis by blast
qed

lemma relay_probe_unanswered_witness:
  "\<exists>b b' s' es r. ToPeer 9 b \<in> set (relay_probe demo_crates demo_outbound (\<lambda>_ _. 7) demo_choices (Some demo_net) demo_servers) \<and>
     relayed demo_in b 1 b' \<and> next_handle_impl demo_in (demo_listener 0x0A1A0003) (tb_from b') 3 demo_state = (s', es, r) \<and>
     is_route_table s' = rt_new"
proof -
  obtain b s where b: "ToPeer 9 b \<in> set (relay_probe demo_crates demo_outbound (\<lambda>_ _. 7) demo_choices (Some demo_net) demo_servers)"
    "next_handle_impl demo_in (demo_listener 0x0A1A0005) (tb_from b) 3 s = (s, [Forward 4 (np_decr_ttl b)], Inr ())"
    "relayed demo_in b (Suc 0) (np_decr_ttl b)" by (rule demo_hop)
  obtain s' es r' where run: "next_handle_impl demo_in (demo_listener 0x0A1A0003) (tb_from (np_decr_ttl b)) 3 demo_state = (s', es, r')"
    by (cases "next_handle_impl demo_in (demo_listener 0x0A1A0003) (tb_from (np_decr_ttl b)) 3 demo_state") auto
  have "is_route_table s' = is_route_table demo_state"
    using relay_probe_unanswered [OF _ b(1,3) tb_wf_from tb_slice_from _ run, where Q = demo_in]
    by (simp add: demo_crates_def demo_in_def toy_aead_correct)
  with b run show ?thesis by (intro exI conjI) (simp_all add: demo_state_def)
qed

theorem handler_emits_well_formed_witness:
  "\<exists>b s. next_handle_impl demo_in (demo_listener 0x0A1A0005) (tb_from b) 3 s = (s, [Forward 4 (np_decr_ttl b)], Inr ()) \<and>
     well_formed (np_decr_ttl b)"
proof -
  obtain b s where b: "next_handle_impl demo_in (demo_listener 0x0A1A0005) (tb_from b) 3 s = (s, [Forward 4 (np_decr_ttl b)], Inr ())"
    by (rule demo_hop)
  have "aead_correct (ic_aead demo_in)" by (simp add: demo_in_def toy_aead_correct)
  from handler_emits_well_formed [OF this tb_wf_from b] b show ?thesis by auto
qed

lemma relay_probe_aimed_witness:
  "length (relay_probe demo_crates demo_outbound (\<lambda>_ _. 7) demo_choices (Some demo_net) demo_servers) \<le> 30"
proof -
  have "choices_ok demo_choices" by (auto simp: choices_ok_def demo_choices_def dest: in_set_takeD)
  moreover have "hm_ok (route_table (po_route_table demo_outbound))" by code_simp
  ultimately show ?thesis
    using relay_probe_aimed [of demo_crates demo_choices demo_outbound "\<lambda>_ _. 7" demo_net demo_servers]
    by (simp add: demo_crates_def toy_aead_correct)
qed

lemma ping_all_counts_witness:
  "\<exists>stats' es. ping_all demo_crates demo_outbound (\<lambda>_ _. 7) (Some demo_net) [] = (stats', es, Inr ()) \<and>
     sent_count 0x0A1A0005 stats' = of_nat (length (filter (ping_to 0x0A1A0005) es))"
proof -
  obtain stats' es r where run: "ping_all demo_crates demo_outbound (\<lambda>_ _. 7) (Some demo_net) [] = (stats', es, r)"
    by (cases "ping_all demo_crates demo_outbound (\<lambda>_ _. 7) (Some demo_net) []") auto
  have "aead_correct (oc_aead demo_crates)" by (simp add: demo_crates_def toy_aead_correct)
  from ping_all_counts [OF this run, where ip = "0x0A1A0005"] run show ?thesis
    by (auto simp: sent_count_def get_or_default_def ping_default_def)
qed

end
