(* ===== verification/Rust_Print.thy ===== *)
theory Rust_Print
  imports Rust_Text
begin

text \<open>
  How the standard library prints numbers and addresses, inverse to the parsers of \<open>Rust_Text\<close>.
\<close>

section \<open>Numbers\<close>

definition digit :: "nat \<Rightarrow> char" where
  "digit d = char_of (48 + d)"

fun show_nat :: "nat \<Rightarrow> string" where
  "show_nat n = (if n < 10 then [digit n] else show_nat (n div 10) @ [digit (n mod 10)])"

declare show_nat.simps [simp del]

definition show_word :: "'a::len word \<Rightarrow> string" where
  "show_word w = show_nat (unat w)"

definition show_bool :: "bool \<Rightarrow> string" where
  "show_bool b = (if b then ''true'' else ''false'')"

definition show_int :: "int \<Rightarrow> string" where
  "show_int i = (if i < 0 then CHR ''-'' # show_nat (nat (- i)) else show_nat (nat i))"

text \<open>\<open>{:.1}\<close>: the nearest number of tenths, of two equally near ones the even one.\<close>

definition tenths :: "rat \<Rightarrow> nat" where
  "tenths r = (let t = 10 * r; f = \<lfloor>t\<rfloor>; d = t - of_int f in
     nat (if d < 1/2 then f else if d > 1/2 then f + 1 else if even f then f else f + 1))"

definition show_fixed1 :: "rat \<Rightarrow> string" where
  "show_fixed1 r = (let t = tenths \<bar>r\<bar> in (if r < 0 then ''-'' else []) @ show_nat (t div 10) @ ''.'' @ [digit (t mod 10)])"

text \<open>\<open>Ipv4Addr\<close>: four octets.\<close>

definition show_ipv4 :: "ipv4 \<Rightarrow> string" where
  "show_ipv4 ip = show_word (drop_bit 24 ip AND 0xFF) @ ''.'' @ show_word (drop_bit 16 ip AND 0xFF) @ ''.'' @
     show_word (drop_bit 8 ip AND 0xFF) @ ''.'' @ show_word (ip AND 0xFF)"

section \<open>Round trips\<close>

lemma digit_val_digit: "d < 10 \<Longrightarrow> digit_val (digit d) = Some d"
  by (simp add: digit_def digit_val_def)

lemma digits_val_append: "digits_val acc (xs @ ys) = Option.bind (digits_val acc xs) (\<lambda>a. digits_val a ys)"
  by (induction acc xs rule: digits_val.induct) (simp_all split: option.splits)

lemma digits_val_show: "digits_val 0 (show_nat n) = Some n"
proof (induction n rule: show_nat.induct)
  case (1 n)
  show ?case
  proof (cases "n < 10")
    case True
    then show ?thesis by (simp add: show_nat.simps [of n] digit_val_digit)
  next
    case False
    with 1 show ?thesis by (simp add: show_nat.simps [of n] digits_val_append digit_val_digit)
  qed
qed

lemma show_nat_digits: "c \<in> set (show_nat n) \<Longrightarrow> \<exists>d<10. c = digit d"
proof (induction n rule: show_nat.induct)
  case (1 n)
  show ?case
  proof (cases "n < 10")
    case True
    with 1(2) show ?thesis by (auto simp: show_nat.simps [of n])
  next
    case False
    then have "c \<in> set (show_nat (n div 10)) \<or> c = digit (n mod 10)" using 1(2) by (auto simp: show_nat.simps [of n])
    moreover have "n mod 10 < 10" by simp
    ultimately show ?thesis using 1(1) [OF False] by blast
  qed
qed

lemma show_nat_not_Nil [simp]: "show_nat n \<noteq> []"
  by (subst show_nat.simps) simp

lemma of_char_digit: "d < 10 \<Longrightarrow> of_char (digit d) = 48 + d"
  by (simp add: digit_def)

lemma digit_no_space: "d < 10 \<Longrightarrow> \<not> is_space (digit d)" and digit_no_sign: "d < 10 \<Longrightarrow> digit d \<noteq> CHR ''+''"
  by (auto simp: is_space_def dest!: arg_cong [of _ _ "of_char :: char \<Rightarrow> nat"] simp: of_char_digit)

lemma trim_show_nat: "trim (show_nat n) = show_nat n"
proof -
  have d: "\<exists>d<10. x = digit d" if "x \<in> set (show_nat n)" for x using show_nat_digits that by blast
  have "\<not> is_space (hd (show_nat n))" using d [of "hd (show_nat n)"] digit_no_space by auto
  moreover have "\<not> is_space (last (show_nat n))" using d [of "last (show_nat n)"] digit_no_space by auto
  ultimately show ?thesis by (simp add: trim_id)
qed

lemma parse_show_u16: "parse_u16 (show_word p) = Some p"
proof -
  obtain c cs where s: "show_nat (unat p) = c # cs" by (cases "show_nat (unat p)") simp_all
  then have "c \<noteq> CHR ''+''" using show_nat_digits [of c "unat p"] digit_no_sign by auto
  moreover have "digits_val 0 (c # cs) = Some (unat p)" using digits_val_show [of "unat p"] s by simp
  moreover have "unat p < 65536" using unsigned_less [of p] by simp
  ultimately show ?thesis by (simp add: show_word_def s parse_u16_def Let_def del: digits_val.simps)
qed

end
