(* ===== verification/Ipc_Link.thy ===== *)
theory Ipc_Link
  imports Front_Ends Rust_Print
begin

text \<open>
  The two ends of the local IPC (crate \<open>vnt-ipc\<close>) put together: \<open>run_server\<close> of \<open>server.rs\<close>, which binds
  a port and writes it down, \<open>run_client\<close> of \<open>client.rs\<close>, which finds it, asks, and prints the answer, and the control tool
  \<open>src/main_ctrl.rs\<close> above it. What is printed is the text of each cell; colours and borders are left out.

  A request and its answer are carried as values: encoding (\<open>prost\<close>) and framing (\<open>tokio_util\<close>) are crates.
\<close>

section \<open>The port\<close>

definition DEFAULT_PORT :: u16 where "DEFAULT_PORT = 11233"
definition PORT_FILE :: string where "PORT_FILE = ''PORT''"

datatype bind_outcome = Bound u16 | AddrInUse | BindError

text \<open>
  \<open>attempts\<close> is how the system answers the attempts to bind, one after the other; port 0 asks for any
  free port. None: the loop is still trying.
\<close>

fun bind_loop :: "u16 option \<Rightarrow> u16 \<Rightarrow> (u16 \<Rightarrow> bind_outcome) list \<Rightarrow> u16 result option" where
  "bind_loop bind_port port [] = None"
| "bind_loop bind_port port (sys # attempts) =
     (case sys port of
        Bound p \<Rightarrow> Some (Inr p)
      | AddrInUse \<Rightarrow> if bind_port = None then bind_loop bind_port 0 attempts else Some (Inl (Bail ''bind''))
      | BindError \<Rightarrow> Some (Inl (Bail ''bind'')))"

text \<open>Up to the accept loop: the port it listens on, and the files of the directory.\<close>

definition run_server ::
  "u16 option \<Rightarrow> (u16 \<Rightarrow> bind_outcome) list \<Rightarrow> bool \<Rightarrow> (string, string) hashmap \<Rightarrow> (u16 result \<times> (string, string) hashmap) option" where
  "run_server bind_port attempts writes fs =
     (case bind_loop bind_port (get_or_default DEFAULT_PORT bind_port) attempts of
        None \<Rightarrow> None
      | Some (Inl e) \<Rightarrow> Some (Inl e, fs)
      | Some (Inr p) \<Rightarrow>
          if writes then Some (Inr p, hm_put PORT_FILE (show_word p) fs) else Some (Inl OtherError, fs))"

definition client_port :: "u16 option \<Rightarrow> (string, string) hashmap \<Rightarrow> u16 result" where
  "client_port port fs =
     (case port of
        Some port \<Rightarrow> Inr port
      | None \<Rightarrow>
          (case hm_get fs PORT_FILE of
             Some port_string \<Rightarrow> ok_or (Bail ''parse port error'') (parse_u16 (trim port_string))
           | None \<Rightarrow> Inr DEFAULT_PORT))"

section \<open>What is printed\<close>

datatype printed =
    Lines "(string \<times> string) list"
  | Rows nat "string list list"

definition div_trunc :: "int \<Rightarrow> int \<Rightarrow> int" where
  "div_trunc a b = (if a < 0 then - ((- a) div b) else a div b)"

text \<open>\<open>ts\<close> is \<open>ts_to_string\<close>, the local time of a number of seconds (crate \<open>time\<close>).\<close>

definition server_line :: "(int \<Rightarrow> string) \<Rightarrow> IpcServerInfo \<Rightarrow> (string \<times> string) list" where
  "server_line ts v =
     [(''Server:'', is_server v @ '' ('' @
        (if is_connected v then (case is_server_rtt v of Some r \<Rightarrow> ''Online '' @ show_word r @ ''ms'' | None \<Rightarrow> ''Online'') else ''Offline'') @ '')''),
      (''Last Connected Time:'', case is_last_connected_time v of Some t \<Rightarrow> ts (div_trunc t 1000) | None \<Rightarrow> ''Never'')]"

fun join_with :: "string \<Rightarrow> string list \<Rightarrow> string" where
  "join_with s [] = []"
| "join_with s [x] = x"
| "join_with s (x # y # xs) = x @ s @ join_with s (y # xs)"

definition print_app_info :: "(int \<Rightarrow> string) \<Rightarrow> AppInfo \<Rightarrow> printed" where
  "print_app_info ts info = Lines (concat (map (server_line ts) (ai_server_info info)) @
     [(''Name:'', ai_name info), (''Id:'', ai_device_id info), (''Version:'', ai_version info),
      (''IP:'', case ai_ip info of Some ip \<Rightarrow> show_ipv4 ip | None \<Rightarrow> ''N/A''),
      (''Total Clients:'', show_word (ai_online_client_num info + ai_offline_client_num info)),
      (''Online Clients:'', show_word (ai_online_client_num info)),
      (''P2P Clients:'', show_word (ai_direct_client_num info)),
      (''Nat Type:'', get_or_default ''Unknown'' (ai_nat_type info)),
      (''Ipv6:'', get_or_default [] (ai_public_ipv6 info)),
      (''Public Ipv4:'', join_with '','' (ai_public_ipv4s info))])"

definition show_rtt :: "u32 option \<Rightarrow> string" where
  "show_rtt r = get_or_default [] (map_option show_word r)"

definition client_ip_row :: "ClientIpItem \<Rightarrow> string list" where
  "client_ip_row v = [show_ipv4 (cp_ip v), show_bool (cp_online v), show_bool (cp_is_direct v), show_rtt (cp_rtt v)]"

definition show_loss :: "(u64 \<times> u64 \<times> rat) option \<Rightarrow> string" where
  "show_loss l = get_or_default [] (map_option (\<lambda>(sent, received, loss_rate). show_fixed1 loss_rate @ ''%'') l)"

definition client_row :: "(int \<Rightarrow> string) \<Rightarrow> ClientInfoItem \<Rightarrow> string list" where
  "client_row ts v =
     [show_ipv4 (ct_ip v) @ (if ct_key_equal v then [] else ''(Key Mismatch)''), ct_name v, ct_version v, show_bool (ct_online v),
      show_bool (ct_is_direct v), show_rtt (ct_rtt v), show_loss (ct_packet_loss v), ts (ct_last_connected_time v)]"

definition route_rows :: "u32 \<times> (string \<times> u32 \<times> u32) list \<Rightarrow> string list list" where
  "route_rows = (\<lambda>(ip, routes). map (\<lambda>(addr, metric, rtt). [show_ipv4 ip, show_word metric, show_word rtt, addr]) routes)"

definition traffic_row :: "u32 \<times> u64 \<times> u64 \<Rightarrow> string list" where
  "traffic_row = (\<lambda>(ip, tx, rx). [show_ipv4 ip, show_word tx, show_word rx])"

definition print_response :: "(int \<Rightarrow> string) \<Rightarrow> ResponsePayload \<Rightarrow> printed" where
  "print_response ts r =
     (case r of
        AppInfoRes info \<Rightarrow> print_app_info ts info
      | ClientIpsRes l \<Rightarrow> Rows (length l) (map client_ip_row l)
      | IpcClientListRes l \<Rightarrow> Rows (length l) (map (client_row ts) l)
      | AllRouteRes l \<Rightarrow> Rows (sum_list (map (length \<circ> snd) l)) (concat (map route_rows l))
      | TrafficListRes l \<Rightarrow> Rows (length l) (map traffic_row l))"

section \<open>A request\<close>

text \<open>
  \<open>host\<close> is what listens on each port of this machine, with its answer to one request of a connection; no answer means
  that it closed the connection.
\<close>

type_synonym listeners = "u16 \<Rightarrow> (IpcCmd option \<Rightarrow> ResponsePayload option) option"

definition send_request :: "listeners \<Rightarrow> u16 \<Rightarrow> IpcCmd \<Rightarrow> ResponsePayload result" where
  "send_request host port cmd =
     (case host port of
        None \<Rightarrow> Inl (Bail ''Connection timed out'')
      | Some answer \<Rightarrow> ok_or (Bail ''Unexpected end of stream'') (answer (Some cmd)))"

definition run_client :: "(int \<Rightarrow> string) \<Rightarrow> listeners \<Rightarrow> IpcCmd \<Rightarrow> u16 option \<Rightarrow> (string, string) hashmap \<Rightarrow> printed result" where
  "run_client ts host cmd port fs =
     rbind (client_port port fs) (\<lambda>port. rbind (send_request host port cmd) (\<lambda>r. Inr (print_response ts r)))"

datatype Commands = Info | Ips | Clients | ShowRoute

definition command_cmd :: "Commands \<Rightarrow> IpcCmd" where
  "command_cmd c = (case c of Info \<Rightarrow> AppInfoCmd | Ips \<Rightarrow> ClientIpsCmd | Clients \<Rightarrow> ClientListCmd | ShowRoute \<Rightarrow> AllRouteCmd)"

definition main_ctrl :: "(int \<Rightarrow> string) \<Rightarrow> listeners \<Rightarrow> Commands \<Rightarrow> u16 option \<Rightarrow> (string, string) hashmap \<Rightarrow> printed result" where
  "main_ctrl ts host command port fs = run_client ts host (command_cmd command) port fs"

text \<open>The answers of a node: an error of the handler closes the connection.\<close>

definition node_answers ::
  "('c, 'z) aead_scheme \<Rightarrow> 'k printer \<Rightarrow> net_contains \<Rightarrow> string \<Rightarrow> 'k AppState \<Rightarrow> ClientInfo list result \<Rightarrow> IpcCmd option \<Rightarrow> ResponsePayload option" where
  "node_answers A sh C version s servers cmd =
     (case handle_connection A sh C version s servers cmd of Inl _ \<Rightarrow> None | Inr r \<Rightarrow> Some r)"

section \<open>Properties\<close>

lemma bind_loop_default: "sys1 p = AddrInUse \<Longrightarrow> sys2 0 = Bound q \<Longrightarrow> bind_loop None p (sys1 # sys2 # rest) = Some (Inr q)"
  by simp

text \<open>
  The control tool reaches the node: once the server of a node has bound a port, be it the one asked for, the default or
  any free one, and written it down, the tool finds that port in the file, and prints for every client the node knows its row, with the address,
  whether it is online, whether there is a direct route, and the round-trip time; given the port it does the same without the file.
\<close>

lemma control_tool_reaches_node:
  assumes "run_server bind_port attempts writes fs = Some (Inr p, fs')" and "host p = Some (node_answers A sh C version s servers)"
    and "port = None \<or> port = Some p"
  shows "main_ctrl ts host Ips port fs' = Inr (Rows (length (client_ips s))
    (map (\<lambda>v. [show_ipv4 (cs_ip v), show_bool (cs_online v), show_bool (api_is_direct s (cs_ip v)), show_rtt (api_get_rtt s (cs_ip v))]) (client_ips s)))"
proof -
  have "fs' = hm_put PORT_FILE (show_word p) fs"
    using assms(1) by (auto simp: run_server_def split: option.splits sum.splits if_splits)
  moreover have "trim (show_word p) = show_word p" by (simp add: show_word_def trim_show_nat)
  ultimately have "client_port port fs' = Inr p"
    using assms(3) by (auto simp: client_port_def hm_get_put parse_show_u16)
  then show ?thesis
    by (simp add: main_ctrl_def run_client_def command_cmd_def send_request_def assms(2) node_answers_def handle_connection_def
        print_response_def client_ip_row_def client_ip_item_def comp_def)
qed

definition demo_ctl_node :: "nat AppState" where
  "demo_ctl_node = app_state_default\<lparr>as_server_info := demo_servers\<rparr>"

text \<open>The default port is taken, the system gives port 40000.\<close>

lemma control_tool_reaches_node_witness:
  "\<forall>(A :: bytes aead) sh C.
     main_ctrl (\<lambda>_. []) (\<lambda>p. if p = 40000 then Some (node_answers A sh C ''2.0'' demo_ctl_node (Inr [])) else None) Ips None
       [(PORT_FILE, ''40000'')] =
     Inr (Rows 3 [[''10.26.0.3'', ''true'', ''false'', ''20''], [''10.26.0.4'', ''true'', ''false'', []], [''10.26.0.5'', ''true'', ''false'', []]])"
proof (intro allI)
  fix A :: "bytes aead" and sh :: "nat printer" and C
  let ?host = "\<lambda>p. if p = 40000 then Some (node_answers A sh C ''2.0'' demo_ctl_node (Inr [])) else None"
  have run: "run_server None [\<lambda>_. AddrInUse, \<lambda>_. Bound 40000] True [] = Some (Inr 40000, [(PORT_FILE, ''40000'')])"
    by (simp add: run_server_def get_or_default_def show_word_def show_nat.simps digit_def) code_simp
  have rows: "map (\<lambda>v. [show_ipv4 (cs_ip v), show_bool (cs_online v), show_bool (api_is_direct demo_ctl_node (cs_ip v)),
      show_rtt (api_get_rtt demo_ctl_node (cs_ip v))]) (client_ips demo_ctl_node) =
    [[''10.26.0.3'', ''true'', ''false'', ''20''], [''10.26.0.4'', ''true'', ''false'', []], [''10.26.0.5'', ''true'', ''false'', []]]"
    by code_simp
  have "length (client_ips demo_ctl_node) = 3" by code_simp
  with control_tool_reaches_node [OF run, of ?host A sh C "''2.0''" demo_ctl_node "Inr []" None "\<lambda>_. []"] rows
  show "main_ctrl (\<lambda>_. []) ?host Ips None [(PORT_FILE, ''40000'')] =
      Inr (Rows 3 [[''10.26.0.3'', ''true'', ''false'', ''20''], [''10.26.0.4'', ''true'', ''false'', []], [''10.26.0.5'', ''true'', ''false'', []]])"
    by simp
qed

text \<open>
  Lost packets are shown a hundred times too few: the loss rate is a fraction, and the tool puts a percent sign after it,
  so that a peer from which not one answer has come is shown with a loss of one percent.
\<close>

lemma total_loss_shown_as_one_percent:
  assumes "hm_get (as_packet_loss_stats s) (ci_ip v) = Some st" and "ping_sent st \<noteq> 0" and "ping_received st = 0"
  shows "client_row ts (client_info_item A s v) ! 6 = ''1.0%''"
proof -
  have rate: "pl_loss_rate (loss_info (ci_ip v) st) = 1" using assms(2,3) by (simp add: loss_info_def Let_def word_gt_0)
  have "show_fixed1 1 = ''1.0''" by (simp add: show_fixed1_def tenths_def Let_def) code_simp
  with assms(1) rate show ?thesis
    by (simp add: client_row_def client_info_item_def Let_def show_loss_def get_loss_info_def get_or_default_def)
qed

lemma total_loss_shown_as_one_percent_witness:
  "\<forall>(A :: bytes aead) v. client_row (\<lambda>_. [])
     (client_info_item A (demo_ctl_node\<lparr>as_packet_loss_stats := [(ci_ip v, \<lparr>ping_sent = 4, ping_received = 0\<rparr>)]\<rparr>) v) ! 6 = ''1.0%''"
  by (intro allI total_loss_shown_as_one_percent [where st = "\<lparr>ping_sent = 4, ping_received = 0\<rparr>"]) simp_all

end
