(* ===== verification/Manager.thy ===== *)
theory Manager
  imports Ipc_Link "HOL-Library.List_Lexorder" "HOL-Library.Char_ord" "HOL-Library.Product_Lexorder" "HOL-Library.Multiset"
begin

text \<open>
  The manager of several profiles (\<open>vntc-manager/src/main.rs\<close>): it starts a command line client per profile as a child
  process, stops them, and puts together what they tell over their IPC ports.

  The children are numbers; \<open>mg_alive\<close> are those that run. What the system does is an argument (\<open>mgr_env\<close>):
  the entries of the profile directory, the JSON reader, whether a file exists, a preparation, a start or a kill succeeds.
  The functions of the first sections are single calls; \<open>mg_step\<close> interleaves the calls of several requests at the places where the lock is free.
\<close>

section \<open>Profiles\<close>

record ProfileMeta =
  pf_id :: string
  pf_name :: string
  pf_server :: string
  pf_network_code :: string
  pf_device_name :: string
  pf_ctrl_port :: u16
  pf_tun_name :: string
  pf_no_tun :: bool
  pf_rtx :: bool
  pf_created_at_iso :: string
  pf_checked :: bool

text \<open>An entry of the directory: unreadable, no directory, without \<open>meta.json\<close>, or with its content.\<close>

datatype profile_entry = BadEntry | OtherFile | NoMeta | MetaFile "string result"

record mgr_env =
  me_profile_root :: "profile_entry list option"
  me_parse_meta :: "string \<Rightarrow> ProfileMeta result"
  me_toml_exists :: "string \<Rightarrow> bool"
  me_prepare :: "string \<Rightarrow> unit result"
  me_spawns :: "string \<Rightarrow> bool"
  me_waits :: "nat \<Rightarrow> bool"
  me_kills :: "nat \<Rightarrow> bool"

text \<open>Strings are their UTF-8 bytes; cutting one inside of a character panics.\<close>

definition is_char_boundary :: "string \<Rightarrow> nat \<Rightarrow> bool" where
  "is_char_boundary s i \<longleftrightarrow> i = length s \<or> i < length s \<and> \<not> (128 \<le> (of_char (s ! i) :: nat) \<and> (of_char (s ! i) :: nat) < 192)"

definition build_tun_name :: "string \<Rightarrow> string result" where
  "build_tun_name profile_id =
     (if length profile_id > 24 then
        if is_char_boundary profile_id 24 then Inr (''vntc-'' @ take 24 profile_id) else Inl Panic
      else Inr (''vntc-'' @ profile_id))"

definition read_profile :: "mgr_env \<Rightarrow> string result \<Rightarrow> ProfileMeta result" where
  "read_profile E content =
     rbind content (\<lambda>content. rbind (me_parse_meta E content) (\<lambda>profile.
       if pf_tun_name profile = [] then rbind (build_tun_name (pf_id profile)) (\<lambda>n. Inr (profile\<lparr>pf_tun_name := n\<rparr>))
       else Inr profile))"

fun load_entries :: "mgr_env \<Rightarrow> profile_entry list \<Rightarrow> ProfileMeta list result" where
  "load_entries E [] = Inr []"
| "load_entries E (BadEntry # es) = Inl OtherError"
| "load_entries E (OtherFile # es) = load_entries E es"
| "load_entries E (NoMeta # es) = load_entries E es"
| "load_entries E (MetaFile content # es) =
     rbind (read_profile E content) (\<lambda>p. rbind (load_entries E es) (\<lambda>l. Inr (p # l)))"

definition load_profiles :: "mgr_env \<Rightarrow> ProfileMeta list result" where
  "load_profiles E =
     (case me_profile_root E of
        None \<Rightarrow> Inr []
      | Some es \<Rightarrow> rbind (load_entries E es) (\<lambda>l. Inr (sort_key pf_created_at_iso l)))"

section \<open>Sessions\<close>

record TrafficSample =
  tp_recorded_at :: instant
  tp_total_tx_bytes :: u64
  tp_total_rx_bytes :: u64

record ManagerState =
  mg_sessions :: "(string, nat) hashmap"
  mg_traffic_samples :: "(string, TrafficSample) hashmap"
  mg_alive :: "nat list"
  mg_next :: nat

record OperationResult =
  op_requested_ids :: "string list"
  op_connected_ids :: "string list"
  op_disconnected_ids :: "string list"
  op_skipped_ids :: "string list"
  op_failed :: "(string \<times> string) list"

definition operation_default :: OperationResult where
  "operation_default = \<lparr>op_requested_ids = [], op_connected_ids = [], op_disconnected_ids = [], op_skipped_ids = [], op_failed = []\<rparr>"

definition manager_new :: ManagerState where
  "manager_new = \<lparr>mg_sessions = [], mg_traffic_samples = [], mg_alive = [], mg_next = 0\<rparr>"

definition session_exited :: "mgr_env \<Rightarrow> ManagerState \<Rightarrow> nat \<Rightarrow> bool" where
  "session_exited E m pid \<longleftrightarrow> \<not> me_waits E pid \<or> pid \<notin> set (mg_alive m)"

definition cleanup_exited_sessions :: "mgr_env \<Rightarrow> ManagerState \<Rightarrow> ManagerState" where
  "cleanup_exited_sessions E m =
     (let exited_ids = map fst (filter (\<lambda>(_, pid). session_exited E m pid) (mg_sessions m)) in
      m\<lparr>mg_sessions := filter (\<lambda>(i, _). i \<notin> set exited_ids) (mg_sessions m),
        mg_traffic_samples := filter (\<lambda>(i, _). i \<notin> set exited_ids) (mg_traffic_samples m)\<rparr>)"

definition session_is_running :: "mgr_env \<Rightarrow> string \<Rightarrow> ManagerState \<Rightarrow> bool \<times> ManagerState" where
  "session_is_running E i m =
     (let m = cleanup_exited_sessions E m in (hm_get (mg_sessions m) i \<noteq> None, m))"

definition start_child :: "string \<Rightarrow> ManagerState \<Rightarrow> ManagerState" where
  "start_child i m =
     m\<lparr>mg_sessions := hm_put i (mg_next m) (mg_sessions m), mg_alive := mg_next m # mg_alive m, mg_next := Suc (mg_next m)\<rparr>"

definition op_fail :: "string \<Rightarrow> string \<Rightarrow> OperationResult \<Rightarrow> OperationResult" where
  "op_fail i reason r = r\<lparr>op_failed := op_failed r @ [(i, reason)]\<rparr>"

text \<open>One id of the list: an error of the preparation leaves the whole call, what was started before stays.\<close>

definition connect_one ::
  "mgr_env \<Rightarrow> (string \<Rightarrow> ProfileMeta option) \<Rightarrow> string \<Rightarrow> OperationResult \<Rightarrow> ManagerState \<Rightarrow> OperationResult result \<times> ManagerState" where
  "connect_one E profile_map i r m =
     (let r = r\<lparr>op_requested_ids := op_requested_ids r @ [i]\<rparr> in
      case profile_map i of
        None \<Rightarrow> (Inr (op_fail i ''no such profile'' r), m)
      | Some profile \<Rightarrow>
          (case session_is_running E i m of (running, m) \<Rightarrow>
             if running then (Inr (r\<lparr>op_skipped_ids := op_skipped_ids r @ [i]\<rparr>), m)
             else if \<not> me_toml_exists E i then (Inr (op_fail i ''no vnt.toml'' r), m)
             else case me_prepare E i of
               Inl e \<Rightarrow> (Inl e, m)
             | Inr _ \<Rightarrow>
                 if me_spawns E i then (Inr (r\<lparr>op_connected_ids := op_connected_ids r @ [i]\<rparr>), start_child i m)
                 else (Inr (op_fail i ''start cli failed'' r), m)))"

fun connect_loop ::
  "mgr_env \<Rightarrow> (string \<Rightarrow> ProfileMeta option) \<Rightarrow> string list \<Rightarrow> OperationResult \<Rightarrow> ManagerState \<Rightarrow> OperationResult result \<times> ManagerState" where
  "connect_loop E pm [] r m = (Inr r, m)"
| "connect_loop E pm (i # ids) r m =
     (case connect_one E pm i r m of (Inl e, m) \<Rightarrow> (Inl e, m) | (Inr r, m) \<Rightarrow> connect_loop E pm ids r m)"

text \<open>Collected into a map, a later profile of the same id takes the place of an earlier one.\<close>

definition profile_map_of :: "ProfileMeta list \<Rightarrow> string \<Rightarrow> ProfileMeta option" where
  "profile_map_of profiles = map_of (rev (map (\<lambda>p. (pf_id p, p)) profiles))"

definition connect_profiles :: "mgr_env \<Rightarrow> string list \<Rightarrow> ManagerState \<Rightarrow> OperationResult result \<times> ManagerState" where
  "connect_profiles E profile_ids m =
     (let m = cleanup_exited_sessions E m in
      case load_profiles E of
        Inl e \<Rightarrow> (Inl e, m)
      | Inr profiles \<Rightarrow> connect_loop E (profile_map_of profiles) profile_ids operation_default m)"

definition disconnect_one :: "mgr_env \<Rightarrow> string \<Rightarrow> OperationResult \<times> ManagerState \<Rightarrow> OperationResult \<times> ManagerState" where
  "disconnect_one E i = (\<lambda>(r, m).
     let r = r\<lparr>op_requested_ids := op_requested_ids r @ [i]\<rparr> in
     case hm_get (mg_sessions m) i of
       None \<Rightarrow> (r\<lparr>op_skipped_ids := op_skipped_ids r @ [i]\<rparr>, m)
     | Some pid \<Rightarrow>
         let m = m\<lparr>mg_sessions := hm_del i (mg_sessions m), mg_traffic_samples := hm_del i (mg_traffic_samples m)\<rparr> in
         if me_kills E pid
         then (r\<lparr>op_disconnected_ids := op_disconnected_ids r @ [i]\<rparr>, m\<lparr>mg_alive := removeAll pid (mg_alive m)\<rparr>)
         else (op_fail i ''kill failed'' r, m))"

definition disconnect_profiles :: "mgr_env \<Rightarrow> string list \<Rightarrow> ManagerState \<Rightarrow> OperationResult \<times> ManagerState" where
  "disconnect_profiles E profile_ids m = fold (disconnect_one E) profile_ids (operation_default, cleanup_exited_sessions E m)"

definition stop_all :: "mgr_env \<Rightarrow> ManagerState \<Rightarrow> ManagerState" where
  "stop_all E m =
     (let m = cleanup_exited_sessions E m in snd (disconnect_profiles E (map fst (mg_sessions m)) m))"

section \<open>What the profiles tell\<close>

definition ipc_app_info :: "listeners \<Rightarrow> u16 \<Rightarrow> AppInfo result" where
  "ipc_app_info host port =
     rbind (send_request host port AppInfoCmd) (\<lambda>r. case r of AppInfoRes info \<Rightarrow> Inr info | _ \<Rightarrow> Inl (Bail ''unexpected IPC response''))"

definition ipc_client_list :: "listeners \<Rightarrow> u16 \<Rightarrow> ClientInfoItem list result" where
  "ipc_client_list host port =
     rbind (send_request host port ClientListCmd) (\<lambda>r. case r of IpcClientListRes l \<Rightarrow> Inr l | _ \<Rightarrow> Inl (Bail ''unexpected IPC response''))"

definition ipc_traffic_list :: "listeners \<Rightarrow> u16 \<Rightarrow> (u32 \<times> u64 \<times> u64) list result" where
  "ipc_traffic_list host port =
     rbind (send_request host port TrafficListCmd) (\<lambda>r. case r of TrafficListRes l \<Rightarrow> Inr l | _ \<Rightarrow> Inl (Bail ''unexpected IPC response''))"

record ProfileRuntimeSummary =
  ru_status :: string
  ru_running :: bool
  ru_virtual_ip :: "string option"
  ru_online_count :: u32
  ru_offline_count :: u32
  ru_upload_bytes_per_second :: u64
  ru_download_bytes_per_second :: u64
  ru_total_tx_bytes :: u64
  ru_total_rx_bytes :: u64

definition idle_summary :: "string \<Rightarrow> bool \<Rightarrow> ProfileRuntimeSummary" where
  "idle_summary status running =
     \<lparr>ru_status = status, ru_running = running, ru_virtual_ip = None, ru_online_count = 0, ru_offline_count = 0,
      ru_upload_bytes_per_second = 0, ru_download_bytes_per_second = 0, ru_total_tx_bytes = 0, ru_total_rx_bytes = 0\<rparr>"

definition saturating_sub :: "u64 \<Rightarrow> u64 \<Rightarrow> u64" where
  "saturating_sub a b = (if b \<le> a then a - b else 0)"

text \<open>Bytes per second since the last sample; the difference times 1000 wraps in a release build.\<close>

definition rate_since :: "instant \<Rightarrow> u64 \<Rightarrow> instant \<Rightarrow> u64 \<Rightarrow> u64" where
  "rate_since now total_bytes then_at before = saturating_sub total_bytes before * 1000 div of_nat (max 1 ((now - then_at) div 1000000))"

definition profile_runtime_summary ::
  "mgr_env \<Rightarrow> listeners \<Rightarrow> instant \<Rightarrow> ProfileMeta \<Rightarrow> ManagerState \<Rightarrow> ProfileRuntimeSummary \<times> ManagerState" where
  "profile_runtime_summary E host now profile m =
     (case session_is_running E (pf_id profile) m of
        (False, m) \<Rightarrow> (idle_summary ''stopped'' False, m)
      | (True, m) \<Rightarrow>
          (case ipc_app_info host (pf_ctrl_port profile) of
             Inl _ \<Rightarrow> (idle_summary ''starting'' True, m)
           | Inr ai \<Rightarrow>
               let traffic_list = (case ipc_traffic_list host (pf_ctrl_port profile) of Inl _ \<Rightarrow> [] | Inr l \<Rightarrow> l);
                   total_tx_bytes = sum_list (map (fst \<circ> snd) traffic_list);
                   total_rx_bytes = sum_list (map (snd \<circ> snd) traffic_list);
                   (up, down) = (case hm_get (mg_traffic_samples m) (pf_id profile) of
                       None \<Rightarrow> (0, 0)
                     | Some previous \<Rightarrow>
                         (rate_since now total_tx_bytes (tp_recorded_at previous) (tp_total_tx_bytes previous),
                          rate_since now total_rx_bytes (tp_recorded_at previous) (tp_total_rx_bytes previous))) in
               (\<lparr>ru_status = ''running'', ru_running = True, ru_virtual_ip = map_option show_ipv4 (ai_ip ai),
                 ru_online_count = ai_online_client_num ai, ru_offline_count = ai_offline_client_num ai,
                 ru_upload_bytes_per_second = up, ru_download_bytes_per_second = down,
                 ru_total_tx_bytes = total_tx_bytes, ru_total_rx_bytes = total_rx_bytes\<rparr>,
                m\<lparr>mg_traffic_samples := hm_put (pf_id profile)
                  \<lparr>tp_recorded_at = now, tp_total_tx_bytes = total_tx_bytes, tp_total_rx_bytes = total_rx_bytes\<rparr> (mg_traffic_samples m)\<rparr>)))"

type_synonym ManagedProfileSnapshot = "ProfileMeta \<times> ProfileRuntimeSummary"

fun snapshots_of ::
  "mgr_env \<Rightarrow> listeners \<Rightarrow> instant \<Rightarrow> ProfileMeta list \<Rightarrow> ManagerState \<Rightarrow> ManagedProfileSnapshot list \<times> ManagerState" where
  "snapshots_of E host now [] m = ([], m)"
| "snapshots_of E host now (p # ps) m =
     (case profile_runtime_summary E host now p m of (runtime, m) \<Rightarrow>
        (case snapshots_of E host now ps m of (l, m) \<Rightarrow> ((p, runtime) # l, m)))"

definition build_profile_snapshots ::
  "mgr_env \<Rightarrow> listeners \<Rightarrow> instant \<Rightarrow> ManagerState \<Rightarrow> ManagedProfileSnapshot list result \<times> ManagerState" where
  "build_profile_snapshots E host now m =
     (let m = cleanup_exited_sessions E m in
      case load_profiles E of
        Inl e \<Rightarrow> (Inl e, m)
      | Inr profiles \<Rightarrow> (case snapshots_of E host now profiles m of (l, m) \<Rightarrow> (Inr l, m)))"

record DashboardSummary =
  ds_checked_profile_count :: nat
  ds_running_profile_count :: nat
  ds_connected_profile_count :: nat
  ds_total_online_count :: u64
  ds_total_offline_count :: u64
  ds_aggregate_upload_bytes_per_second :: u64
  ds_aggregate_download_bytes_per_second :: u64
  ds_aggregate_total_tx_bytes :: u64
  ds_aggregate_total_rx_bytes :: u64
  ds_overall_status :: string

definition build_dashboard_summary :: "ManagedProfileSnapshot list \<Rightarrow> DashboardSummary" where
  "build_dashboard_summary snapshots =
     (let checked = length (filter (pf_checked \<circ> fst) snapshots);
          running = length (filter (ru_running \<circ> snd) snapshots) in
      \<lparr>ds_checked_profile_count = checked, ds_running_profile_count = running, ds_connected_profile_count = running,
       ds_total_online_count = sum_list (map (ucast \<circ> ru_online_count \<circ> snd) snapshots),
       ds_total_offline_count = sum_list (map (ucast \<circ> ru_offline_count \<circ> snd) snapshots),
       ds_aggregate_upload_bytes_per_second = sum_list (map (ru_upload_bytes_per_second \<circ> snd) snapshots),
       ds_aggregate_download_bytes_per_second = sum_list (map (ru_download_bytes_per_second \<circ> snd) snapshots),
       ds_aggregate_total_tx_bytes = sum_list (map (ru_total_tx_bytes \<circ> snd) snapshots),
       ds_aggregate_total_rx_bytes = sum_list (map (ru_total_rx_bytes \<circ> snd) snapshots),
       ds_overall_status =
         (if running = 0 then ''stopped''
          else if list_ex (\<lambda>item. ru_status (snd item) = ''starting'') snapshots \<or> checked > 0 \<and> running < checked then ''partial''
          else ''running'')\<rparr>)"

record PeerListItem =
  pe_peer_name :: string
  pe_peer_virtual_ip :: string
  pe_online :: bool
  pe_latency_ms :: "u32 option"
  pe_source_profile_id :: string
  pe_source_profile_name :: string
  pe_source_profile_virtual_ip :: "string option"
  pe_version :: string

definition peers_of :: "listeners \<Rightarrow> ProfileMeta \<Rightarrow> PeerListItem list" where
  "peers_of host profile =
     (case ipc_app_info host (pf_ctrl_port profile) of
        Inl _ \<Rightarrow> []
      | Inr ai \<Rightarrow>
          (case ipc_client_list host (pf_ctrl_port profile) of
             Inl _ \<Rightarrow> []
           | Inr l \<Rightarrow> map (\<lambda>item. \<lparr>pe_peer_name = ct_name item, pe_peer_virtual_ip = show_ipv4 (ct_ip item), pe_online = ct_online item,
               pe_latency_ms = ct_rtt item, pe_source_profile_id = pf_id profile, pe_source_profile_name = pf_name profile,
               pe_source_profile_virtual_ip = map_option show_ipv4 (ai_ip ai), pe_version = ct_version item\<rparr>) l))"

fun peers_of_running :: "mgr_env \<Rightarrow> listeners \<Rightarrow> ProfileMeta list \<Rightarrow> ManagerState \<Rightarrow> PeerListItem list \<times> ManagerState" where
  "peers_of_running E host [] m = ([], m)"
| "peers_of_running E host (p # ps) m =
     (case session_is_running E (pf_id p) m of (running, m) \<Rightarrow>
        (case peers_of_running E host ps m of (l, m) \<Rightarrow> ((if running then peers_of host p else []) @ l, m)))"

text \<open>Online peers first, then by the name of the profile and the text of the address.\<close>

definition peer_order :: "PeerListItem \<Rightarrow> bool \<times> string \<times> string" where
  "peer_order p = (\<not> pe_online p, pe_source_profile_name p, pe_peer_virtual_ip p)"

definition build_peer_list :: "mgr_env \<Rightarrow> listeners \<Rightarrow> ManagerState \<Rightarrow> PeerListItem list result \<times> ManagerState" where
  "build_peer_list E host m =
     (let m = cleanup_exited_sessions E m in
      case load_profiles E of
        Inl e \<Rightarrow> (Inl e, m)
      | Inr profiles \<Rightarrow> (case peers_of_running E host profiles m of (l, m) \<Rightarrow> (Inr (sort_key peer_order l), m)))"

section \<open>The HTTP interface\<close>

text \<open>What an answer carries beside its code, 0 or -1; an error is its message alone. A panic ends the connection
  without an answer. \<open>Shutdown\<close> ends the process 120 ms after the answer.\<close>

datatype mgr_request = Health | GetProfiles | GetDashboardSummary | GetPeers | Connect "string list" | Disconnect "string list" | Shutdown

datatype mgr_data = OkData | Profiles "ManagedProfileSnapshot list" | Dashboard DashboardSummary | Peers "PeerListItem list" | Operation OperationResult | UnitData

record MgrApiResponse =
  ar_code :: int
  ar_data :: "mgr_data option"

definition mgr_api_response :: "mgr_data result \<Rightarrow> MgrApiResponse option" where
  "mgr_api_response r =
     (case r of
        Inr x \<Rightarrow> Some \<lparr>ar_code = 0, ar_data = Some x\<rparr>
      | Inl e \<Rightarrow> if e = Panic then None else Some \<lparr>ar_code = -1, ar_data = None\<rparr>)"

definition respond :: "('a \<Rightarrow> mgr_data) \<Rightarrow> 'a result \<times> ManagerState \<Rightarrow> MgrApiResponse option \<times> ManagerState" where
  "respond f = (\<lambda>(r, m). (mgr_api_response (rbind r (Inr \<circ> f)), m))"

definition mgr_handle :: "mgr_env \<Rightarrow> listeners \<Rightarrow> instant \<Rightarrow> mgr_request \<Rightarrow> ManagerState \<Rightarrow> MgrApiResponse option \<times> ManagerState" where
  "mgr_handle E host now req m =
     (case req of
        Health \<Rightarrow> (mgr_api_response (Inr OkData), m)
      | GetProfiles \<Rightarrow> respond Profiles (build_profile_snapshots E host now m)
      | GetDashboardSummary \<Rightarrow> respond (Dashboard \<circ> build_dashboard_summary) (build_profile_snapshots E host now m)
      | GetPeers \<Rightarrow> respond Peers (build_peer_list E host m)
      | Connect ids \<Rightarrow> respond Operation (connect_profiles E ids m)
      | Disconnect ids \<Rightarrow> (case disconnect_profiles E ids m of (r, m) \<Rightarrow> (mgr_api_response (Inr (Operation r)), m))
      | Shutdown \<Rightarrow> (mgr_api_response (Inr UnitData), stop_all E m))"

section \<open>Requests side by side\<close>

text \<open>
  A request to connect looks whether the profile runs, starts the child, and records it, each time taking the lock anew; any other
  request may come between. \<open>Checked\<close> and \<open>Spawned\<close> are requests that have come so far. With \<open>excl\<close> no two requests to connect the same
  profile overlap. A summary is one step.
\<close>

datatype connecting = Checked string | Spawned string nat

fun connecting_id :: "connecting \<Rightarrow> string" where
  "connecting_id (Checked i) = i"
| "connecting_id (Spawned i pid) = i"

type_synonym mgr_run = "ManagerState \<times> connecting list"

inductive mg_step :: "bool \<Rightarrow> mgr_env \<Rightarrow> mgr_run \<Rightarrow> mgr_run \<Rightarrow> bool" for excl E where
  check: "session_is_running E i m = (False, m') \<Longrightarrow> me_toml_exists E i \<Longrightarrow> (excl \<Longrightarrow> i \<notin> connecting_id ` set fl) \<Longrightarrow>
    mg_step excl E (m, fl) (m', Checked i # fl)"
| give_up: "mg_step excl E (m, fl @ Checked i # fl') (m, fl @ fl')"
| spawn: "mg_step excl E (m, fl @ Checked i # fl')
    (m\<lparr>mg_alive := mg_next m # mg_alive m, mg_next := Suc (mg_next m)\<rparr>, fl @ Spawned i (mg_next m) # fl')"
| record_child: "mg_step excl E (m, fl @ Spawned i pid # fl') (m\<lparr>mg_sessions := hm_put i pid (mg_sessions m)\<rparr>, fl @ fl')"
| disconnect: "mg_step excl E (m, fl) (snd (disconnect_profiles E ids m), fl)"
| exits: "mg_step excl E (m, fl) (m\<lparr>mg_alive := removeAll pid (mg_alive m)\<rparr>, fl)"
| summary: "mg_step excl E (m, fl) (snd (profile_runtime_summary E host now p m), fl)"

inductive mg_reach :: "bool \<Rightarrow> mgr_env \<Rightarrow> mgr_run \<Rightarrow> bool" for excl E where
  new: "mg_reach excl E (manager_new, [])"
| step: "mg_reach excl E s \<Longrightarrow> mg_step excl E s s' \<Longrightarrow> mg_reach excl E s'"

section \<open>Lemmas\<close>

declare map_of_eq_Some_iff [simp del]

abbreviation reliable :: "mgr_env \<Rightarrow> bool" where
  "reliable E \<equiv> me_waits E = (\<lambda>_. True) \<and> me_kills E = (\<lambda>_. True)"

lemma cleanup_fields [simp]:
  "mg_alive (cleanup_exited_sessions E m) = mg_alive m" "mg_next (cleanup_exited_sessions E m) = mg_next m"
  by (simp_all add: cleanup_exited_sessions_def Let_def)

lemma cleanup_sessions:
  assumes "hm_ok (mg_sessions m)"
  shows "hm_ok (mg_sessions (cleanup_exited_sessions E m))"
    "hm_get (mg_sessions (cleanup_exited_sessions E m)) i =
      (case hm_get (mg_sessions m) i of Some pid \<Rightarrow> if session_exited E m pid then None else Some pid | None \<Rightarrow> None)"
proof -
  let ?gone = "set (map fst (filter (\<lambda>(_, pid). session_exited E m pid) (mg_sessions m)))"
  have s: "mg_sessions (cleanup_exited_sessions E m) = filter (\<lambda>(i, _). i \<notin> ?gone) (mg_sessions m)"
    by (simp add: cleanup_exited_sessions_def Let_def)
  show "hm_ok (mg_sessions (cleanup_exited_sessions E m))" unfolding s by (rule hm_ok_filter [OF assms])
  have "hm_get (mg_sessions m) i = Some pid \<Longrightarrow> i \<in> ?gone \<longleftrightarrow> session_exited E m pid" for pid
    using assms map_of_eq_Some_iff [OF assms, of i pid] by (force dest: eq_key_imp_eq_value)
  then show "hm_get (mg_sessions (cleanup_exited_sessions E m)) i =
      (case hm_get (mg_sessions m) i of Some pid \<Rightarrow> if session_exited E m pid then None else Some pid | None \<Rightarrow> None)"
    unfolding s hm_get_filter [OF assms] by (auto split: option.split)
qed

text \<open>The children that a session or a request in flight knows.\<close>

definition known :: "ManagerState \<Rightarrow> connecting list \<Rightarrow> nat set" where
  "known m fl = {pid. \<exists>i. hm_get (mg_sessions m) i = Some pid} \<union> {pid. \<exists>i. Spawned i pid \<in> set fl}"

lemma knownI: "hm_get (mg_sessions m) i = Some pid \<Longrightarrow> pid \<in> known m fl" "Spawned i pid \<in> set fl \<Longrightarrow> pid \<in> known m fl"
  unfolding known_def by blast+

lemma knownE:
  assumes "pid \<in> known m fl"
  obtains (session) i where "hm_get (mg_sessions m) i = Some pid" | (flight) i where "Spawned i pid \<in> set fl"
  using assms unfolding known_def by blast

definition mgr_inv :: "mgr_run \<Rightarrow> bool" where
  "mgr_inv = (\<lambda>(m, fl). hm_ok (mg_sessions m) \<and> distinct (map connecting_id fl) \<and>
     (\<forall>x\<in>set fl. hm_get (mg_sessions m) (connecting_id x) = None) \<and> set (mg_alive m) \<subseteq> known m fl)"

lemma mgr_invI:
  "hm_ok (mg_sessions m) \<Longrightarrow> distinct (map connecting_id fl) \<Longrightarrow> (\<And>x. x \<in> set fl \<Longrightarrow> hm_get (mg_sessions m) (connecting_id x) = None) \<Longrightarrow>
   set (mg_alive m) \<subseteq> known m fl \<Longrightarrow> mgr_inv (m, fl)"
  unfolding mgr_inv_def split by blast

lemma mgr_invD:
  assumes "mgr_inv (m, fl)"
  shows "hm_ok (mg_sessions m)" "distinct (map connecting_id fl)" "x \<in> set fl \<Longrightarrow> hm_get (mg_sessions m) (connecting_id x) = None"
    "set (mg_alive m) \<subseteq> known m fl"
  using assms unfolding mgr_inv_def split by blast+

lemma mgr_inv_cleanup:
  assumes "reliable E" and "mgr_inv (m, fl)"
  shows "mgr_inv (cleanup_exited_sessions E m, fl)"
proof -
  note inv = mgr_invD [OF assms(2)]
  note c = cleanup_sessions [OF inv(1), of E]
  show ?thesis
  proof (rule mgr_invI)
    show "hm_get (mg_sessions (cleanup_exited_sessions E m)) (connecting_id x) = None" if "x \<in> set fl" for x
      using inv(3) [OF that] by (simp add: c(2))
    show "set (mg_alive (cleanup_exited_sessions E m)) \<subseteq> known (cleanup_exited_sessions E m) fl"
    proof
      fix pid
      assume "pid \<in> set (mg_alive (cleanup_exited_sessions E m))"
      then have pid: "pid \<in> set (mg_alive m)" by simp
      with inv(4) have "pid \<in> known m fl" by blast
      then show "pid \<in> known (cleanup_exited_sessions E m) fl"
      proof (cases rule: knownE)
        case (session i)
        then have "hm_get (mg_sessions (cleanup_exited_sessions E m)) i = Some pid"
          using pid assms(1) by (simp add: c(2) session_exited_def)
        then show ?thesis by (rule knownI)
      qed (rule knownI)
    qed
  qed (use c inv in simp_all)
qed

lemma mgr_inv_remove:
  assumes "mgr_inv (m, fl)" and "hm_get (mg_sessions m) i = Some pid" and "pid \<notin> set alive" and "set alive \<subseteq> set (mg_alive m)"
  shows "mgr_inv (m\<lparr>mg_sessions := hm_del i (mg_sessions m), mg_traffic_samples := samples, mg_alive := alive\<rparr>, fl)" (is "mgr_inv (?m, fl)")
proof (rule mgr_invI)
  note inv = mgr_invD [OF assms(1)]
  show "set (mg_alive ?m) \<subseteq> known ?m fl"
  proof
    fix p
    assume "p \<in> set (mg_alive ?m)"
    then have p: "p \<in> known m fl" "p \<noteq> pid" using assms(3,4) inv(4) by auto
    from p(1) show "p \<in> known ?m fl"
    proof (cases rule: knownE)
      case (session j)
      then have "hm_get (mg_sessions ?m) j = Some p"
        using p(2) assms(2) by (auto simp: hm_get_del)
      then show ?thesis by (rule knownI)
    qed (rule knownI)
  qed
  show "hm_get (mg_sessions ?m) (connecting_id x) = None" if "x \<in> set fl" for x
    using inv(3) [OF that] by (simp add: hm_get_del)
qed (use mgr_invD [OF assms(1)] in \<open>simp_all add: distinct_delete\<close>)

lemma disconnect_one_run:
  assumes "me_kills E = (\<lambda>_. True)"
  shows "disconnect_one E i (r, m) =
    (case hm_get (mg_sessions m) i of
       None \<Rightarrow> (r\<lparr>op_requested_ids := op_requested_ids r @ [i], op_skipped_ids := op_skipped_ids r @ [i]\<rparr>, m)
     | Some pid \<Rightarrow> (r\<lparr>op_requested_ids := op_requested_ids r @ [i], op_disconnected_ids := op_disconnected_ids r @ [i]\<rparr>,
         m\<lparr>mg_sessions := hm_del i (mg_sessions m), mg_traffic_samples := hm_del i (mg_traffic_samples m), mg_alive := removeAll pid (mg_alive m)\<rparr>))"
  using assms by (simp add: disconnect_one_def Let_def split: option.split)

lemma mgr_inv_disconnect_fold:
  assumes "me_kills E = (\<lambda>_. True)" and "mgr_inv (m, fl)"
  shows "mgr_inv (snd (fold (disconnect_one E) ids (r, m)), fl) \<and>
    (\<forall>j. hm_get (mg_sessions (snd (fold (disconnect_one E) ids (r, m)))) j = (if j \<in> set ids then None else hm_get (mg_sessions m) j))"
  using assms(2)
proof (induction ids arbitrary: r m)
  case (Cons i ids)
  obtain r1 m1 where one: "disconnect_one E i (r, m) = (r1, m1)" by fastforce
  have inv: "mgr_inv (m1, fl)"
    using Cons.prems one mgr_inv_remove [OF Cons.prems, of i]
    by (auto simp: disconnect_one_run [OF assms(1)] split: option.splits)
  have "hm_get (mg_sessions m1) j = (if j = i then None else hm_get (mg_sessions m) j)" for j
    using one by (auto simp: disconnect_one_run [OF assms(1)] hm_get_del split: option.splits)
  with Cons.IH [OF inv, of r1] one show ?case by auto
qed simp

lemma mgr_inv_disconnect:
  assumes "reliable E" and "mgr_inv (m, fl)"
  shows "mgr_inv (snd (disconnect_profiles E ids m), fl)"
  using mgr_inv_disconnect_fold [of E "cleanup_exited_sessions E m" fl ids operation_default] mgr_inv_cleanup [OF assms] assms(1)
  by (simp add: disconnect_profiles_def)

lemma mgr_inv_exits: "mgr_inv (m, fl) \<Longrightarrow> mgr_inv (m\<lparr>mg_alive := removeAll pid (mg_alive m)\<rparr>, fl)"
  unfolding mgr_inv_def known_def by auto

lemma mgr_inv_samples: "mgr_inv (m\<lparr>mg_traffic_samples := x\<rparr>, fl) = mgr_inv (m, fl)"
  by (simp add: mgr_inv_def known_def)

lemma mgr_inv_summary:
  assumes "reliable E" and "mgr_inv (m, fl)"
  shows "mgr_inv (snd (profile_runtime_summary E host now p m), fl)"
  using mgr_inv_cleanup [OF assms]
  by (simp add: profile_runtime_summary_def session_is_running_def Let_def mgr_inv_samples split: bool.split sum.split prod.split)

lemma mgr_inv_record:
  assumes "mgr_inv (m, fl @ Spawned i pid # fl')"
  shows "mgr_inv (m\<lparr>mg_sessions := hm_put i pid (mg_sessions m)\<rparr>, fl @ fl')" (is "mgr_inv (?m, _)")
proof (rule mgr_invI)
  note inv = mgr_invD [OF assms]
  have free: "hm_get (mg_sessions m) i = None" using inv(3) [of "Spawned i pid"] by simp
  have put: "hm_get (mg_sessions ?m) j = (if j = i then Some pid else hm_get (mg_sessions m) j)" for j by (simp add: hm_get_put)
  show "set (mg_alive ?m) \<subseteq> known ?m (fl @ fl')"
  proof
    fix p
    assume "p \<in> set (mg_alive ?m)"
    with inv(4) have "p \<in> known m (fl @ Spawned i pid # fl')" by auto
    then show "p \<in> known ?m (fl @ fl')"
    proof (cases rule: knownE)
      case (session j)
      with free put have "hm_get (mg_sessions ?m) j = Some p" by auto
      then show ?thesis by (rule knownI)
    next
      case (flight j)
      then consider "p = pid" | "Spawned j p \<in> set (fl @ fl')" by auto
      then show ?thesis
      proof cases
        case 1
        then have "hm_get (mg_sessions ?m) i = Some p" using put by simp
        then show ?thesis by (rule knownI)
      qed (rule knownI)
    qed
  qed
  show "hm_get (mg_sessions ?m) (connecting_id x) = None" if "x \<in> set (fl @ fl')" for x
  proof -
    have "connecting_id x \<noteq> i" using that inv(2) by (auto simp: image_iff)
    moreover have "hm_get (mg_sessions m) (connecting_id x) = None" using inv(3) [of x] that by auto
    ultimately show ?thesis using put by simp
  qed
qed (use mgr_invD [OF assms] in \<open>simp_all add: distinct_update\<close>)

lemma mgr_inv_flight:
  assumes "mgr_inv (m, fl @ x # fl')"
  shows "\<not> (\<exists>i pid. x = Spawned i pid) \<Longrightarrow> mgr_inv (m, fl @ fl')"
    "x = Checked i \<Longrightarrow> mgr_inv (m\<lparr>mg_alive := pid # mg_alive m, mg_next := k\<rparr>, fl @ Spawned i pid # fl')"
proof -
  note inv = mgr_invD [OF assms]
  show "mgr_inv (m, fl @ fl')" if "\<not> (\<exists>i pid. x = Spawned i pid)"
  proof (rule mgr_invI)
    show "set (mg_alive m) \<subseteq> known m (fl @ fl')" using inv(4) that unfolding known_def by auto
  qed (use inv in simp_all)
  show "mgr_inv (m\<lparr>mg_alive := pid # mg_alive m, mg_next := k\<rparr>, fl @ Spawned i pid # fl')" if "x = Checked i"
  proof (rule mgr_invI)
    have "known m (fl @ x # fl') \<subseteq> known m (fl @ Spawned i pid # fl')" using that unfolding known_def by auto
    moreover have "known (m\<lparr>mg_alive := pid # mg_alive m, mg_next := k\<rparr>) l = known m l" for l by (simp add: known_def)
    moreover have "pid \<in> known m (fl @ Spawned i pid # fl')" by (rule knownI(2) [where i = i]) simp
    ultimately show "set (mg_alive (m\<lparr>mg_alive := pid # mg_alive m, mg_next := k\<rparr>)) \<subseteq>
        known (m\<lparr>mg_alive := pid # mg_alive m, mg_next := k\<rparr>) (fl @ Spawned i pid # fl')"
      using inv(4) by auto
    show "hm_get (mg_sessions (m\<lparr>mg_alive := pid # mg_alive m, mg_next := k\<rparr>)) (connecting_id y) = None"
      if "y \<in> set (fl @ Spawned i pid # fl')" for y
      using that inv(3) [of y] inv(3) [of "Checked i"] \<open>x = Checked i\<close> by auto
  qed (use inv that in simp_all)
qed

lemma mgr_inv_check:
  assumes "reliable E" and "mgr_inv (m, fl)" and "session_is_running E i m = (False, m')" and "i \<notin> connecting_id ` set fl"
  shows "mgr_inv (m', Checked i # fl)"
proof (rule mgr_invI)
  have m': "m' = cleanup_exited_sessions E m" "hm_get (mg_sessions m') i = None"
    using assms(3) by (auto simp: session_is_running_def Let_def)
  note inv = mgr_invD [OF mgr_inv_cleanup [OF assms(1,2)]]
  show "set (mg_alive m') \<subseteq> known m' (Checked i # fl)" using inv(4) by (auto simp: m'(1) known_def)
  show "hm_get (mg_sessions m') (connecting_id x) = None" if "x \<in> set (Checked i # fl)" for x
    using that inv(3) [of x] m' by auto
  show "hm_ok (mg_sessions m')" "distinct (map connecting_id (Checked i # fl))" using inv(1,2) assms(4) by (simp_all add: m'(1))
qed

lemma mg_step_inv:
  assumes "mg_step True E s s'" and "reliable E" and "mgr_inv s"
  shows "mgr_inv s'"
  using assms(1)
proof cases
  case (check i m m' fl)
  then show ?thesis using mgr_inv_check [OF assms(2)] assms(3) by simp
next
  case (give_up m fl i fl')
  then show ?thesis using mgr_inv_flight(1) [of m fl "Checked i" fl'] assms(3) by simp
next
  case (spawn m fl i fl')
  then show ?thesis using mgr_inv_flight(2) [of m fl "Checked i" fl' i] assms(3) by simp
next
  case (record_child m fl i pid fl')
  then show ?thesis using mgr_inv_record assms(3) by simp
next
  case (disconnect m fl ids)
  then show ?thesis using mgr_inv_disconnect [OF assms(2)] assms(3) by simp
next
  case (exits m fl pid)
  then show ?thesis using mgr_inv_exits assms(3) by simp
next
  case (summary m fl host now p)
  then show ?thesis using mgr_inv_summary [OF assms(2)] assms(3) by simp
qed

lemma mg_reach_inv: "mg_reach True E s \<Longrightarrow> reliable E \<Longrightarrow> mgr_inv s"
proof (induction rule: mg_reach.induct)
  case new
  show ?case by (rule mgr_invI) (simp_all add: manager_new_def)
next
  case (step s s')
  then show ?case using mg_step_inv by blast
qed

section \<open>Properties\<close>

text \<open>
  C34. No child is lost as long as two requests to connect the same profile do not overlap, and the system can tell whether a child still runs and
  kills the children it is asked to: in every state that any other interleaving of requests reaches, each running child is known to a session or to a
  request in flight, and no profile with a request in flight has a session; so when everything is stopped, only children of requests in flight still run.
\<close>

theorem managed_children_known:
  assumes "mg_reach True E (m, fl)" and "me_waits E = (\<lambda>_. True)" and "me_kills E = (\<lambda>_. True)"
  shows "set (mg_alive m) \<subseteq> known m fl \<and>
    (\<forall>i. i \<in> connecting_id ` set fl \<longrightarrow> hm_get (mg_sessions m) i = None) \<and>
    set (mg_alive (stop_all E m)) \<subseteq> {pid. \<exists>i. Spawned i pid \<in> set fl}"
proof -
  have inv: "mgr_inv (m, fl)" using mg_reach_inv assms by blast
  let ?m = "cleanup_exited_sessions E m"
  let ?ids = "map fst (mg_sessions ?m)"
  have inv1: "mgr_inv (cleanup_exited_sessions E ?m, fl)" using assms(2,3) inv by (intro mgr_inv_cleanup) simp_all
  note fold = mgr_inv_disconnect_fold [OF assms(3) inv1, of ?ids operation_default]
  have stop: "stop_all E m = snd (fold (disconnect_one E) ?ids (operation_default, cleanup_exited_sessions E ?m))"
    by (simp add: stop_all_def Let_def disconnect_profiles_def)
  have ok: "hm_ok (mg_sessions ?m)" using mgr_invD(1) [OF mgr_inv_cleanup] assms(2,3) inv by blast
  have gone: "hm_get (mg_sessions (stop_all E m)) j = None" for j
  proof (cases "j \<in> set ?ids")
    case False
    then have "hm_get (mg_sessions ?m) j = None" by (simp add: map_of_eq_None_iff)
    then have "hm_get (mg_sessions (cleanup_exited_sessions E ?m)) j = None" by (simp add: cleanup_sessions(2) [OF ok])
    then show ?thesis using fold stop by simp
  qed (use fold stop in simp)
  have "set (mg_alive (stop_all E m)) \<subseteq> known (stop_all E m) fl" using fold stop mgr_invD(4) by metis
  then have "set (mg_alive (stop_all E m)) \<subseteq> {pid. \<exists>i. Spawned i pid \<in> set fl}"
    using gone unfolding known_def by auto
  moreover have "hm_get (mg_sessions m) i = None" if "i \<in> connecting_id ` set fl" for i
    using that mgr_invD(3) [OF inv] by auto
  ultimately show ?thesis using mgr_invD(4) [OF inv] by blast
qed

definition demo_profile :: ProfileMeta where
  "demo_profile = \<lparr>pf_id = ''home'', pf_name = ''Home'', pf_server = ''quic://vnt.example:29872'', pf_network_code = ''home'', pf_device_name = ''pc'',
     pf_ctrl_port = 11240, pf_tun_name = [], pf_no_tun = False, pf_rtx = True, pf_created_at_iso = ''2025'', pf_checked = True\<rparr>"

definition demo_mgr :: mgr_env where
  "demo_mgr = \<lparr>me_profile_root = Some [OtherFile, MetaFile (Inr ''home'')],
     me_parse_meta = (\<lambda>c. if c = ''home'' then Inr demo_profile else Inl OtherError), me_toml_exists = (\<lambda>_. True), me_prepare = (\<lambda>_. Inr ()),
     me_spawns = (\<lambda>_. True), me_waits = (\<lambda>_. True), me_kills = (\<lambda>_. True)\<rparr>"

definition after_one :: ManagerState where
  "after_one = \<lparr>mg_sessions = [(''home'', 0)], mg_traffic_samples = [], mg_alive = [0], mg_next = 1\<rparr>"

lemma demo_connects: "mg_reach excl demo_mgr (after_one, [])"
proof -
  let ?m1 = "manager_new\<lparr>mg_alive := mg_next manager_new # mg_alive manager_new, mg_next := Suc (mg_next manager_new)\<rparr>"
  have "session_is_running demo_mgr ''home'' manager_new = (False, manager_new)" by code_simp
  then have c: "mg_reach excl demo_mgr (manager_new, [Checked ''home''])"
    by (intro mg_reach.step [OF mg_reach.new mg_step.check]) (simp_all add: demo_mgr_def)
  have s: "mg_reach excl demo_mgr (?m1, [Spawned ''home'' 0])"
    using mg_reach.step [OF c] mg_step.spawn [of excl demo_mgr manager_new "[]" "''home''" "[]"] by (simp add: manager_new_def)
  have "mg_step excl demo_mgr (?m1, [Spawned ''home'' 0]) (?m1\<lparr>mg_sessions := hm_put ''home'' 0 (mg_sessions ?m1)\<rparr>, [])"
    using mg_step.record_child [of excl demo_mgr ?m1 "[]" "''home''" 0 "[]"] by simp
  from mg_reach.step [OF s this] show ?thesis by (simp add: manager_new_def after_one_def)
qed

theorem managed_children_known_witness:
  "mg_reach True demo_mgr (after_one, []) \<and> mg_alive after_one = [0] \<and> mg_alive (stop_all demo_mgr after_one) = []"
proof -
  have "set (mg_alive (stop_all demo_mgr after_one)) \<subseteq> {}"
    using managed_children_known [OF demo_connects] by (simp add: demo_mgr_def)
  with demo_connects show ?thesis by (simp add: after_one_def)
qed

text \<open>
  Two overlapping requests to connect one profile lose a child: both see that it does not run, both start one, the second takes the place
  of the first in the table, and stopping everything leaves the first child running.
\<close>

lemma overlapping_connects_lose_child:
  "\<exists>m pid. mg_reach False demo_mgr (m, []) \<and> mg_alive (stop_all demo_mgr m) = [pid]"
proof -
  let ?h = "''home''"
  let ?m1 = "manager_new\<lparr>mg_alive := mg_next manager_new # mg_alive manager_new, mg_next := Suc (mg_next manager_new)\<rparr>"
  let ?m2 = "?m1\<lparr>mg_alive := mg_next ?m1 # mg_alive ?m1, mg_next := Suc (mg_next ?m1)\<rparr>"
  let ?m3 = "?m2\<lparr>mg_sessions := hm_put ?h 0 (mg_sessions ?m2)\<rparr>"
  let ?m4 = "?m3\<lparr>mg_sessions := hm_put ?h 1 (mg_sessions ?m3)\<rparr>"
  have chk: "session_is_running demo_mgr ?h manager_new = (False, manager_new)" by code_simp
  have "mg_reach False demo_mgr (manager_new, [Checked ?h])"
    by (rule mg_reach.step [OF mg_reach.new mg_step.check [OF chk]]) (simp_all add: demo_mgr_def)
  then have "mg_reach False demo_mgr (manager_new, [Checked ?h, Checked ?h])"
    by (rule mg_reach.step [OF _ mg_step.check [OF chk]]) (simp_all add: demo_mgr_def)
  moreover have "mg_step False demo_mgr (manager_new, [Checked ?h, Checked ?h]) (?m1, [Spawned ?h 0, Checked ?h])"
    using mg_step.spawn [of False demo_mgr manager_new "[]" ?h "[Checked ?h]"] by (simp add: manager_new_def)
  moreover have "mg_step False demo_mgr (?m1, [Spawned ?h 0, Checked ?h]) (?m2, [Spawned ?h 0, Spawned ?h 1])"
    using mg_step.spawn [of False demo_mgr ?m1 "[Spawned ?h 0]" ?h "[]"] by (simp add: manager_new_def)
  moreover have "mg_step False demo_mgr (?m2, [Spawned ?h 0, Spawned ?h 1]) (?m3, [Spawned ?h 1])"
    using mg_step.record_child [of False demo_mgr ?m2 "[]" ?h 0 "[Spawned ?h 1]"] by simp
  moreover have "mg_step False demo_mgr (?m3, [Spawned ?h 1]) (?m4, [])"
    using mg_step.record_child [of False demo_mgr ?m3 "[]" ?h 1 "[]"] by simp
  ultimately have "mg_reach False demo_mgr (?m4, [])" by (blast intro: mg_reach.step)
  moreover have "mg_alive (stop_all demo_mgr ?m4) = [0]" by code_simp
  ultimately show ?thesis by blast
qed

text \<open>Every id of a request ends up in exactly one of the lists of the result.\<close>

definition op_accounted :: "OperationResult \<Rightarrow> string multiset" where
  "op_accounted r = mset (op_connected_ids r) + mset (op_disconnected_ids r) + mset (op_skipped_ids r) + mset (map fst (op_failed r))"

lemma connect_one_accounts:
  "connect_one E pm i r m = (Inr r', m') \<Longrightarrow>
   op_requested_ids r' = op_requested_ids r @ [i] \<and> op_accounted r' = add_mset i (op_accounted r)"
  by (auto simp: connect_one_def op_fail_def op_accounted_def Let_def split: option.splits prod.splits if_splits sum.splits)

lemma connect_loop_accounts:
  "connect_loop E pm ids r m = (Inr r', m') \<Longrightarrow>
   op_requested_ids r' = op_requested_ids r @ ids \<and> op_accounted r' = op_accounted r + mset ids"
proof (induction ids arbitrary: r m)
  case (Cons i ids)
  then obtain r1 m1 where one: "connect_one E pm i r m = (Inr r1, m1)"
    by (auto split: prod.splits sum.splits)
  with Cons.prems have "connect_loop E pm ids r1 m1 = (Inr r', m')" by simp
  from Cons.IH [OF this] connect_one_accounts [OF one] show ?case by simp
qed simp

definition all_running :: "string list \<Rightarrow> ManagerState \<Rightarrow> bool" where
  "all_running ids m \<longleftrightarrow> hm_ok (mg_sessions m) \<and>
     (\<forall>i\<in>set ids. \<exists>pid. hm_get (mg_sessions m) i = Some pid \<and> pid \<in> set (mg_alive m))"

lemma all_running_cleanup:
  assumes "me_waits E = (\<lambda>_. True)" and "all_running ids m"
  shows "all_running ids (cleanup_exited_sessions E m)"
proof -
  have ok: "hm_ok (mg_sessions m)" using assms(2) by (simp add: all_running_def)
  have "hm_get (mg_sessions m) i = Some pid \<Longrightarrow> pid \<in> set (mg_alive m) \<Longrightarrow>
      hm_get (mg_sessions (cleanup_exited_sessions E m)) i = Some pid" for i pid
    using assms(1) by (simp add: cleanup_sessions(2) [OF ok] session_exited_def)
  with assms(2) cleanup_sessions(1) [OF ok, of E] show ?thesis
    unfolding all_running_def by simp blast
qed

lemma all_running_start: "all_running ids m \<Longrightarrow> all_running (ids @ [i]) (start_child i m)"
  unfolding all_running_def start_child_def by (simp add: hm_get_put distinct_update) blast

lemma connect_one_cases:
  assumes "connect_one E pm i r m = (Inr r', m')"
  shows "op_connected_ids r' = op_connected_ids r \<and> (m' = m \<or> m' = cleanup_exited_sessions E m) \<or>
    op_connected_ids r' = op_connected_ids r @ [i] \<and> m' = start_child i (cleanup_exited_sessions E m)"
  using assms by (simp add: connect_one_def session_is_running_def op_fail_def Let_def split: option.splits if_splits sum.splits) auto

lemma connect_loop_running:
  "me_waits E = (\<lambda>_. True) \<Longrightarrow> all_running (op_connected_ids r) m \<Longrightarrow> connect_loop E pm ids r m = (Inr r', m') \<Longrightarrow>
   all_running (op_connected_ids r') m'"
proof (induction ids arbitrary: r m)
  case (Cons i ids)
  then obtain r1 m1 where one: "connect_one E pm i r m = (Inr r1, m1)"
    by (auto split: prod.splits sum.splits)
  have "all_running (op_connected_ids r1) m1"
    using connect_one_cases [OF one] Cons.prems(2) all_running_cleanup [OF Cons.prems(1,2)] all_running_start by metis
  from Cons.IH [OF Cons.prems(1) this] Cons.prems(3) one show ?case by simp
qed simp

text \<open>
  A request to connect answers for every id: when it succeeds, the ids asked for are, each as often as it was asked for, those started, skipped and
  failed together, and what it says it has started runs, under a session of that id.
\<close>

lemma connect_accounts_for_all:
  assumes "connect_profiles E ids m = (Inr r, m')" and "hm_ok (mg_sessions m)" and "me_waits E = (\<lambda>_. True)"
  shows "op_requested_ids r = ids \<and> mset ids = mset (op_connected_ids r) + mset (op_skipped_ids r) + mset (map fst (op_failed r)) \<and>
    set (op_connected_ids r) \<subseteq> {i. \<exists>pid. hm_get (mg_sessions m') i = Some pid \<and> pid \<in> set (mg_alive m')}"
proof -
  let ?m = "cleanup_exited_sessions E m"
  obtain pm where run: "connect_loop E pm ids operation_default ?m = (Inr r, m')"
    using assms(1) by (auto simp: connect_profiles_def Let_def split: sum.splits)
  have "all_running (op_connected_ids operation_default) ?m"
    using cleanup_sessions(1) [OF assms(2), of E] by (simp add: all_running_def operation_default_def)
  from connect_loop_running [OF assms(3) this run]
  have run': "set (op_connected_ids r) \<subseteq> {i. \<exists>pid. hm_get (mg_sessions m') i = Some pid \<and> pid \<in> set (mg_alive m')}"
    unfolding all_running_def by blast
  have no: "op_disconnected_ids r = []"
  proof -
    have "connect_one E pm i r1 m1 = (Inr r2, m2) \<Longrightarrow> op_disconnected_ids r2 = op_disconnected_ids r1" for i r1 m1 r2 m2
      by (auto simp: connect_one_def op_fail_def Let_def split: option.splits prod.splits if_splits sum.splits)
    then have "connect_loop E pm ids r1 m1 = (Inr r2, m2) \<Longrightarrow> op_disconnected_ids r2 = op_disconnected_ids r1" for ids r1 m1 r2 m2
      by (induction ids arbitrary: r1 m1) (auto split: prod.splits sum.splits)
    from this [OF run] show ?thesis by (simp add: operation_default_def)
  qed
  from connect_loop_accounts [OF run] no run' show ?thesis
    by (simp add: operation_default_def op_accounted_def)
qed

lemma connect_accounts_for_all_witness:
  "\<exists>r m'. connect_profiles demo_mgr [''home'', ''work'', ''home''] manager_new = (Inr r, m') \<and> op_connected_ids r = [''home''] \<and>
     op_skipped_ids r = [''home''] \<and> map fst (op_failed r) = [''work''] \<and> op_requested_ids r = [''home'', ''work'', ''home'']"
proof -
  obtain r m' where run: "connect_profiles demo_mgr [''home'', ''work'', ''home''] manager_new = (Inr r, m')"
    "op_connected_ids r = [''home'']" "op_skipped_ids r = [''home'']" "map fst (op_failed r) = [''work'']"
  proof -
    let ?x = "connect_profiles demo_mgr [''home'', ''work'', ''home''] manager_new"
    have "case fst ?x of Inr r \<Rightarrow> op_connected_ids r = [''home''] \<and> op_skipped_ids r = [''home''] \<and> map fst (op_failed r) = [''work''] | Inl _ \<Rightarrow> False"
      by code_simp
    then show thesis using that by (cases "fst ?x"; cases ?x) auto
  qed
  have "hm_ok (mg_sessions manager_new)" "me_waits demo_mgr = (\<lambda>_. True)" by (simp_all add: manager_new_def demo_mgr_def)
  from connect_accounts_for_all [OF run(1) this] have "op_requested_ids r = [''home'', ''work'', ''home'']" by blast
  with run show ?thesis by (intro exI conjI) simp_all
qed

text \<open>
  One profile that cannot be read takes all of them away: if the \<open>meta.json\<close> of any directory is unreadable, no JSON of a profile, or has an id that
  cannot be cut for a tunnel name, every request to connect, the list of profiles and the list of peers fail alike, and nothing is started.
\<close>

lemma bad_profile_blocks_all:
  assumes "me_profile_root E = Some (es @ MetaFile content # es')" and "read_profile E content = Inl e"
  shows "\<exists>e'. connect_profiles E ids m = (Inl e', cleanup_exited_sessions E m) \<and>
    build_profile_snapshots E host now m = (Inl e', cleanup_exited_sessions E m) \<and> build_peer_list E host m = (Inl e', cleanup_exited_sessions E m)"
proof -
  have "\<exists>e'. load_entries E (es @ MetaFile content # es') = Inl e'"
  proof (induction es)
    case Nil
    show ?case using assms(2) by simp
  next
    case (Cons x es)
    then show ?case by (cases x) (auto simp: rbind_def split: sum.split)
  qed
  then obtain e' where "load_profiles E = Inl e'" using assms(1) by (auto simp: load_profiles_def)
  then show ?thesis by (simp add: connect_profiles_def build_profile_snapshots_def build_peer_list_def Let_def)
qed

lemma bad_profile_blocks_all_witness:
  "fst (connect_profiles (demo_mgr\<lparr>me_profile_root := Some [MetaFile (Inr ''home''), MetaFile (Inr ''{'')]\<rparr>) [''home''] manager_new) = Inl OtherError"
proof -
  let ?E = "demo_mgr\<lparr>me_profile_root := Some [MetaFile (Inr ''home''), MetaFile (Inr ''{'')]\<rparr>"
  have "read_profile ?E (Inr ''{'') = Inl OtherError" by code_simp
  then have "\<exists>e'. connect_profiles ?E [''home''] manager_new = (Inl e', cleanup_exited_sessions ?E manager_new)"
    using bad_profile_blocks_all [of ?E "[MetaFile (Inr ''home'')]" "Inr ''{''" "[]" OtherError "[''home'']" manager_new] by auto
  moreover have "load_profiles ?E = Inl OtherError" by code_simp
  ultimately show ?thesis by (simp add: connect_profiles_def Let_def)
qed

text \<open>
  C35. What the manager shows of a profile is what its node knows: if the profile's child runs and its control port is that of the node,
  the summary says running, with the node's virtual address, the numbers of clients online and offline that it knows, and the sums of
  the traffic counters of all its peers. In the dashboard of this profile and any others the node counts as one more that runs, and its clients, traffic and
  speeds are added to what the dashboard of the others shows.
\<close>

theorem manager_shows_node:
  assumes "session_is_running E (pf_id profile) m = (True, m')"
    and "host (pf_ctrl_port profile) = Some (node_answers A sh C version s servers)"
  shows "let runtime = fst (profile_runtime_summary E host now profile m);
      online_clients = of_nat (length (filter cs_online (client_ips s)));
      offline_clients = of_nat (length (filter (\<lambda>v. \<not> cs_online v) (client_ips s)));
      tx = sum_list (map ti_tx_bytes (get_all_traffic_info (as_traffic_stats s)));
      rx = sum_list (map ti_rx_bytes (get_all_traffic_info (as_traffic_stats s))) in
    ru_status runtime = ''running'' \<and> ru_running runtime \<and>
    ru_virtual_ip runtime = map_option (show_ipv4 \<circ> na_ip) (as_network s) \<and>
    ru_online_count runtime = online_clients \<and> ru_offline_count runtime = offline_clients \<and>
    ru_total_tx_bytes runtime = tx \<and> ru_total_rx_bytes runtime = rx \<and>
    (\<forall>before behind.
       let others = build_dashboard_summary (before @ behind);
           dashboard = build_dashboard_summary (before @ (profile, runtime) # behind) in
       ds_running_profile_count dashboard = Suc (ds_running_profile_count others) \<and>
       ds_total_online_count dashboard = ds_total_online_count others + ucast (online_clients :: u32) \<and>
       ds_total_offline_count dashboard = ds_total_offline_count others + ucast (offline_clients :: u32) \<and>
       ds_aggregate_total_tx_bytes dashboard = ds_aggregate_total_tx_bytes others + tx \<and>
       ds_aggregate_total_rx_bytes dashboard = ds_aggregate_total_rx_bytes others + rx \<and>
       ds_aggregate_upload_bytes_per_second dashboard = ds_aggregate_upload_bytes_per_second others + ru_upload_bytes_per_second runtime \<and>
       ds_aggregate_download_bytes_per_second dashboard = ds_aggregate_download_bytes_per_second others + ru_download_bytes_per_second runtime)"
proof -
  let ?p = "pf_ctrl_port profile"
  have "ipc_app_info host ?p = Inr (app_info sh C version s)"
    by (simp add: ipc_app_info_def send_request_def assms(2) node_answers_def handle_connection_def)
  moreover have "ipc_traffic_list host ?p = Inr (all_traffic s)"
    by (simp add: ipc_traffic_list_def send_request_def assms(2) node_answers_def handle_connection_def)
  ultimately have "let runtime = fst (profile_runtime_summary E host now profile m) in
    ru_status runtime = ''running'' \<and> ru_running runtime \<and>
    ru_virtual_ip runtime = map_option (show_ipv4 \<circ> na_ip) (as_network s) \<and>
    ru_online_count runtime = of_nat (length (filter cs_online (client_ips s))) \<and>
    ru_offline_count runtime = of_nat (length (filter (\<lambda>v. \<not> cs_online v) (client_ips s))) \<and>
    ru_total_tx_bytes runtime = sum_list (map ti_tx_bytes (get_all_traffic_info (as_traffic_stats s))) \<and>
    ru_total_rx_bytes runtime = sum_list (map ti_rx_bytes (get_all_traffic_info (as_traffic_stats s)))"
    using assms(1)
    by (simp add: profile_runtime_summary_def Let_def app_info_def all_traffic_def comp_def option.map_comp split: prod.split option.split)
  then show ?thesis by (simp add: Let_def build_dashboard_summary_def)
qed

theorem manager_shows_node_witness:
  "\<forall>(A :: bytes aead) sh C. let runtime = fst (profile_runtime_summary demo_mgr
       (\<lambda>p. if p = 11240 then Some (node_answers A sh C ''2.0'' demo_ctl_node (Inr [])) else None) 0 demo_profile after_one) in
     ru_status runtime = ''running'' \<and> ru_online_count runtime = 3 \<and> ru_offline_count runtime = 0 \<and> ru_virtual_ip runtime = None"
proof (intro allI)
  fix A :: "bytes aead" and sh :: "nat printer" and C
  let ?host = "\<lambda>p. if p = 11240 then Some (node_answers A sh C ''2.0'' demo_ctl_node (Inr [])) else None"
  have run: "session_is_running demo_mgr (pf_id demo_profile) after_one = (True, after_one)" by code_simp
  have port: "?host (pf_ctrl_port demo_profile) = Some (node_answers A sh C ''2.0'' demo_ctl_node (Inr []))"
    by (simp add: demo_profile_def)
  have "length (filter cs_online (client_ips demo_ctl_node)) = 3" "length (filter (\<lambda>v. \<not> cs_online v) (client_ips demo_ctl_node)) = 0"
    "as_network demo_ctl_node = None"
    by code_simp+
  with manager_shows_node [where host = ?host, OF run port, of 0]
  show "let runtime = fst (profile_runtime_summary demo_mgr ?host 0 demo_profile after_one) in
     ru_status runtime = ''running'' \<and> ru_online_count runtime = 3 \<and> ru_offline_count runtime = 0 \<and> ru_virtual_ip runtime = None"
    by (simp add: Let_def)
qed

end
