(* ===== verification/Quic_Socket.thy ===== *)
theory Quic_Socket
  imports Tunnel Peer_Tasks Ip_Nat
begin

text \<open>
  The socket under the QUIC endpoint of a node (\<open>quic_over/enhanced_io/\<close>): \<open>quinn\<close> sends and receives UDP datagrams
  through it, and each is carried to the peer as a \<open>Quic\<close> packet of the tunnel. Two channels of 256 places join
  it to the rest: the packets it sends wait for the task that calls \<open>outbound_raw\<close>, the payloads that arrive wait for \<open>poll_recv\<close>.
\<close>

section \<open>Sending\<close>

definition QUIC_PORT :: u16 where "QUIC_PORT = 10000"
definition QUIC_CHANNEL :: nat where "QUIC_CHANNEL = 256"

datatype 'a poll = Ready 'a | PollPending

record QuicInnerOutbound =
  qo_queue :: "(ipv4 \<times> transmission) list"
  qo_closed :: bool

definition datagram_packet :: "bytes \<Rightarrow> ipv4 \<Rightarrow> transmission result" where
  "datagram_packet buf dest =
     rbind (tb_np_new (tb_zeroed (HEAD_LENGTH + length buf))) (\<lambda>packet.
       let packet = tb_map (np_set_ttl 5) packet;
           packet = tb_map (np_set_msg_type Quic) packet;
           packet = tb_map (np_set_dest_id dest) packet in
       rbind (np_set_payload buf (tb_slice packet)) (\<lambda>b. Inr (tb_write packet b)))"

definition try_outbound :: "bytes \<Rightarrow> ipv4 \<Rightarrow> QuicInnerOutbound \<Rightarrow> unit result \<times> QuicInnerOutbound" where
  "try_outbound buf dest q =
     (if qo_closed q then (Inl BrokenPipe, q)
      else if QUIC_CHANNEL \<le> length (qo_queue q) then (Inl WouldBlock, q)
      else case datagram_packet buf dest of
        Inl e \<Rightarrow> (Inl e, q)
      | Inr packet \<Rightarrow> (Inr (), q\<lparr>qo_queue := qo_queue q @ [(dest, packet)]\<rparr>))"

definition poll_writable :: "QuicInnerOutbound \<Rightarrow> unit result poll" where
  "poll_writable q =
     (if qo_closed q then Ready (Inl BrokenPipe)
      else if length (qo_queue q) < QUIC_CHANNEL then Ready (Inr ()) else PollPending)"

text \<open>\<open>try_send\<close> of the socket: a datagram to an IPv6 address is taken and dropped. Its own address is a constant.\<close>

definition quic_try_send :: "bytes \<Rightarrow> ip_addr \<Rightarrow> QuicInnerOutbound \<Rightarrow> unit result \<times> QuicInnerOutbound" where
  "quic_try_send contents destination q =
     (case destination of IpV4 dest \<Rightarrow> try_outbound contents dest q | IpV6 _ \<Rightarrow> (Inr (), q))"

definition quic_local_addr :: "ipv4 \<times> u16" where
  "quic_local_addr = (localhost, QUIC_PORT)"

text \<open>The task behind the channel: one packet after the other; an error of a packet is logged.\<close>

fun outbound_task ::
  "('k, 'c) out_crates \<Rightarrow> (ipv4 \<times> transmission) list \<Rightarrow> ('k, 'c) HybridOutbound \<Rightarrow> ('k, 'c) HybridOutbound \<times> 'k event list" where
  "outbound_task W [] h = (h, [])"
| "outbound_task W ((dst, packet) # l) h =
     (case outbound_raw W dst packet h of (h, es, _) \<Rightarrow> (case outbound_task W l h of (h, es') \<Rightarrow> (h, es @ es')))"

section \<open>Receiving\<close>

record QuicInnerInbound =
  qi_queue :: "(bytes \<times> ipv4) list"
  qi_closed :: bool

text \<open>\<open>send\<close> waits (None) while the channel is full; \<open>qi_closed\<close> stands for the other half being gone.\<close>

definition quic_data_send :: "bytes \<Rightarrow> ipv4 \<Rightarrow> QuicInnerInbound \<Rightarrow> (unit result \<times> QuicInnerInbound) option" where
  "quic_data_send data addr q =
     (if qi_closed q then Some (Inl (Bail ''quic data inbound error''), q)
      else if QUIC_CHANNEL \<le> length (qi_queue q) then None
      else Some (Inr (), q\<lparr>qi_queue := qi_queue q @ [(data, addr)]\<rparr>))"

record RecvMeta =
  rm_len :: nat
  rm_stride :: nat
  rm_addr :: "ipv4 \<times> u16"

text \<open>The first buffer is overwritten from its start, the first meta filled in; the answer is the number of buffers filled.\<close>

definition poll_recv ::
  "bytes list \<Rightarrow> RecvMeta list \<Rightarrow> QuicInnerInbound \<Rightarrow> (bytes list \<times> RecvMeta list \<times> nat) result poll \<times> QuicInnerInbound" where
  "poll_recv bufs meta q =
     (case qi_queue q of
        [] \<Rightarrow> (if qi_closed q then Ready (Inl BrokenPipe) else PollPending, q)
      | (buf, ip) # rest \<Rightarrow>
          let q = q\<lparr>qi_queue := rest\<rparr> in
          (case (bufs, meta) of
             (buf_mut # bs, m # ms) \<Rightarrow>
               if length buf_mut < length buf then (Ready (Inl InvalidInput), q)
               else (Ready (Inr (splice 0 buf buf_mut # bs,
                 m\<lparr>rm_len := length buf, rm_stride := length buf, rm_addr := (ip, QUIC_PORT)\<rparr> # ms, 1)), q)
           | _ \<Rightarrow> (Ready (Inl InvalidInput), q)))"

section \<open>What is sent\<close>

definition quic_header :: "ipv4 \<Rightarrow> ipv4 \<Rightarrow> NetHeader" where
  "quic_header src dest = \<lparr>type_byte = 0x91, ttl_byte = 0x55, flags_byte = 0, reserved_byte = 0, h_seq = 0, h_src_id = src, h_dest_id = dest\<rparr>"

lemma datagram_made:
  obtains p where "datagram_packet buf dest = Inr p" "tb_wf p" "np_ok (tb_slice p)" "np_header (tb_slice p) = quic_header 0 dest"
    "np_payload (tb_slice p) = buf"
proof -
  let ?z = "tb_zeroed (HEAD_LENGTH + length buf)"
  let ?p = "tb_map (np_set_dest_id dest) (tb_map (np_set_msg_type Quic) (tb_map (np_set_ttl 5) ?z))"
  have z: "tb_wf ?z" "np_ok (tb_slice ?z)" by (simp_all add: np_ok_def) (simp add: tb_wf_def tb_zeroed_def)
  have p: "tb_wf ?p" "tb_slice ?p = np_set_dest_id dest (np_set_msg_type Quic (np_set_ttl 5 (tb_slice ?z)))"
    using z by (simp_all add: np_set_dest_id_def np_set_ttl_def np_set_msg_type_def tb_header_mut)
  have len: "length (tb_slice ?p) = HEAD_LENGTH + length buf"
    using z(2) unfolding p(2) by (simp add: np_set_dest_id_def np_set_ttl_def np_set_msg_type_def length_np_header_mut)
  have hdr: "np_header (tb_slice ?p) = quic_header 0 dest"
    unfolding p(2) by (simp add: np_op_defs zero_header quic_header_def h_set_msg_type_def h_set_ttl_def)
  let ?b = "np_head (tb_slice ?p) @ buf"
  have h: "length (np_head (tb_slice ?p)) = HEAD_LENGTH" using len by (simp add: np_head_def)
  have b: "np_set_payload buf (tb_slice ?p) = Inr ?b" using len by (simp add: np_set_payload_def splice_exact np_head_def)
  have w: "tb_wf (tb_write ?p ?b)" "tb_slice (tb_write ?p ?b) = ?b"
    using p(1) len h length_tb_slice [OF p(1)] by (simp_all add: tb_wf_write tb_slice_write)
  show thesis
  proof (rule that [of "tb_write ?p ?b"])
    have "tb_np_new ?z = Inr ?z" using z(2) by (simp add: tb_np_new_def np_new_def np_ok_def)
    then show "datagram_packet buf dest = Inr (tb_write ?p ?b)" by (simp add: datagram_packet_def b Let_def)
    show "np_ok (tb_slice (tb_write ?p ?b))" using h by (simp add: w(2) np_ok_def)
    show "np_header (tb_slice (tb_write ?p ?b)) = quic_header 0 dest"
      using h hdr unfolding w(2) by (simp add: np_header_def np_head_def)
    show "np_payload (tb_slice (tb_write ?p ?b)) = buf" using h by (simp add: w(2) np_payload_def)
  qed (rule w(1))
qed

lemma quic_header_fields:
  assumes "np_header b = quic_header src dest"
  shows "np_msg_type b = Inr Quic" "np_src_id b = src" "np_dest_id b = dest" "unat (np_ttl b) = 5"
    "unat (np_max_ttl b) = 5" "\<not> np_is_fec b" "\<not> np_is_gateway b"
  using assms
  by (simp_all add: np_op_defs quic_header_def h_msg_type_def h_curr_ttl_def h_max_ttl_def msg_try_from_def FEC_def GATEWAY_def)

text \<open>Without FEC, \<open>outbound_raw\<close> sends the datagram with this node's address filled in, over one path.\<close>

lemma outbound_datagram:
  assumes "datagram_packet buf dest = Inr p" and "outbound_raw W dest p h = (h', es, r)" and "e \<in> set es"
    and "ho_fec_encoder h = None" and "ho_network h = Some net"
  obtains b where "np_ok b" "np_header b = quic_header (na_ip net) dest" "np_payload b = buf"
    "path_of (ho_basic_outbound h) (ho_server_info h) dest b e"
proof -
  obtain p0 where "datagram_packet buf dest = Inr p0" and d: "tb_wf p0" "np_ok (tb_slice p0)"
    "np_header (tb_slice p0) = quic_header 0 dest" "np_payload (tb_slice p0) = buf" by (rule datagram_made)
  with assms(1) have eq: "p0 = p" by simp
  let ?q = "tb_map (np_set_src_id (na_ip net)) p"
  have q: "tb_slice ?q = np_set_src_id (na_ip net) (tb_slice p)" "tb_wf ?q"
    using d(1,2) eq by (simp_all add: np_set_src_id_def tb_header_mut)
  have "np_src_id (tb_slice p) = 0" using quic_header_fields(2) d(3) eq by blast
  then have "counted (basic_send_raw W (ho_basic_outbound h) (ho_server_info h) dest ?q) dest (length (tb_slice ?q)) h = (h', es, r)"
    using assms(2,4,5) by (simp add: outbound_raw_def Let_def fec_stage_def shared_ip_def)
  then obtain es2 r2 where s: "basic_send_raw W (ho_basic_outbound h) (ho_server_info h) dest ?q = (es2, r2)" "e \<in> set es2"
    using assms(3) by (metis counted_cases prod.collapse)
  then have "path_of (ho_basic_outbound h) (ho_server_info h) dest (tb_slice ?q) e"
    using q(2) routed_send by (fastforce simp: basic_send_raw_def tb_np_into_bytes_def tb_into_bytes_wf after_def)
  moreover have "np_ok (tb_slice ?q)" "np_header (tb_slice ?q) = quic_header (na_ip net) dest" "np_payload (tb_slice ?q) = buf"
    using d(3,4) eq unfolding q(1) by (simp_all add: np_set_src_id_def quic_header_def)
  ultimately show thesis using that by blast
qed

section \<open>What arrives\<close>

lemma datagram_opens:
  assumes "np_ok b" and "np_header b = quic_header src dest" and "np_payload b = d"
    and "tb_wf buf" and "tb_slice buf = (np_decr_ttl ^^ n) b" and "n < 5" and "src \<noteq> dest"
    and "nr_network (pi_network_route h) = Some own" and "na_ip own = dest" and "sc_accepts (ic_sinks W) (QuicData d src)"
  shows "next_handle_impl W h buf key s =
    (s\<lparr>is_traffic := record_rx src (of_nat (HEAD_LENGTH + length d)) (is_traffic s)\<rparr>, [Deliver (QuicData d src)], Inr ())"
proof -
  let ?b = "tb_slice buf" and ?d = "tb_map np_decr_ttl buf"
  note f = quic_header_fields [OF assms(2)]
  have b: "np_ok ?b" "np_msg_type ?b = Inr Quic" "np_src_id ?b = src" "np_dest_id ?b = dest"
    "unat (np_ttl ?b) = 5 - n" "unat (np_max_ttl ?b) = 5" "\<not> np_is_fec ?b" "np_payload ?b = d"
    using f assms(1,3) unat_ttl_hops [of n b] by (simp_all add: assms(5) np_decr_iterated)
  note dd = tb_decr [OF assms(4) b(1)]
  have ttl: "\<not> np_max_ttl (tb_slice ?d) \<le> np_ttl (tb_slice ?d)"
    using np_decr_ttl_ttl [of ?b] b(5,6) assms(6) by (simp add: dd(1) word_le_nat_alt)
  have ok: "np_ok (tb_slice ?d)" "np_payload (tb_slice ?d) = d" "\<not> np_is_fec (tb_slice ?d)"
    using b(1,7,8) np_decr_iterated(4,6,8) [where n = 1 and b = ?b] by (simp_all add: dd(1))
  obtain content where content: "tb_advance_head ?d HEAD_LENGTH = Inr content" "tb_slice content = d" "tb_wf content"
    using advance_packet [OF dd(2) ok(1)] ok(2) by metis
  have "length (tb_slice ?d) = HEAD_LENGTH + length d" using ok(1,2) by (auto simp: np_payload_def np_ok_def)
  then have "deliver_part (enhanced_inbound (ic_sinks W) (pi_enhanced_inbound h) own Quic src ?d) s =
      (s\<lparr>is_traffic := record_rx src (of_nat (HEAD_LENGTH + length d)) (is_traffic s)\<rparr>, [Deliver (QuicData d src)], Inr ())"
    using content assms(10)
    by (simp add: deliver_part_def enhanced_inbound_def then_do_def update_state_def effect_def enhanced_deliver_def after_def
        tb_into_bytes_wf put_sink_def)
  then show ?thesis
    using b(1-4) dd(1) ttl ok(3) assms(7-9)
    by (simp add: next_handle_impl_def tb_np_new_def np_new_def np_ok_def Let_def for_this_node_def quic_packet_def)
qed

section \<open>Properties\<close>

text \<open>
  C9. The socket under QUIC carries datagrams: what \<open>quinn\<close> sends to a peer's address is handed to the peer's \<open>quinn\<close> byte for byte, as coming
  from this node's address and port 10000, after at most four relays, without FEC, when there is room in the channels and the buffer is large enough.
\<close>

theorem quic_datagram_carried:
  assumes "quic_try_send buf (IpV4 (na_ip own)) q = (Inr (), q')"
    and "outbound_task W (drop (length (qo_queue q)) (qo_queue q')) h = (h', es)"
    and "ho_fec_encoder h = None" and "ho_network h = Some net" and "ToPeer k b \<in> set es \<or> ToServer i b life \<in> set es"
    and "relayed R b n b'" and "tb_wf packet" and "tb_slice packet = b'"
    and "nr_network (pi_network_route h2) = Some own" and "na_ip net \<noteq> na_ip own" and "sc_accepts (ic_sinks W') (QuicData buf (na_ip net))"
    and "\<not> qi_closed qi" and "qi_queue qi = []" and "length buf \<le> length b0"
  shows "(\<exists>s'. next_handle_impl W' h2 packet key s = (s', [Deliver (QuicData buf (na_ip net))], Inr ())) \<and> n \<le> 4 \<and>
    (\<exists>qi'. quic_data_send buf (na_ip net) qi = Some (Inr (), qi') \<and>
      poll_recv (b0 # bs) (m0 # ms) qi' =
        (Ready (Inr ((buf @ drop (length buf) b0) # bs,
           m0\<lparr>rm_len := length buf, rm_stride := length buf, rm_addr := (na_ip net, QUIC_PORT)\<rparr> # ms, 1)), qi))"
proof -
  obtain p where p: "datagram_packet buf (na_ip own) = Inr p" by (rule datagram_made)
  have "qo_queue q' = qo_queue q @ [(na_ip own, p)]"
    using assms(1) by (auto simp: quic_try_send_def try_outbound_def p split: if_splits)
  then obtain r where out: "outbound_raw W (na_ip own) p h = (h', es, r)" using assms(2) by (auto split: prod.splits)
  obtain e where e: "e \<in> set es" "e = ToPeer k b \<or> e = ToServer i b life" using assms(5) by blast
  obtain b1 where b1: "np_ok b1" "np_header b1 = quic_header (na_ip net) (na_ip own)" "np_payload b1 = buf"
    "path_of (ho_basic_outbound h) (ho_server_info h) (na_ip own) b1 e"
    by (rule outbound_datagram [OF p out e(1) assms(3,4)])
  have "b1 = b" using b1(4) e(2) by (auto simp: path_of_def split: option.splits)
  with relayed_bytes [OF assms(6)] quic_header_fields(4) [OF b1(2)] have b': "b' = (np_decr_ttl ^^ n) b1" "n < 5" by auto
  have "next_handle_impl W' h2 packet key s =
    (s\<lparr>is_traffic := record_rx (na_ip net) (of_nat (HEAD_LENGTH + length buf)) (is_traffic s)\<rparr>, [Deliver (QuicData buf (na_ip net))], Inr ())"
    using datagram_opens [OF b1(1-3) assms(7) _ b'(2) assms(10,9) refl assms(11)] b'(1) assms(8) by simp
  moreover have "poll_recv (b0 # bs) (m0 # ms) (qi\<lparr>qi_queue := [(buf, na_ip net)]\<rparr>) =
      (Ready (Inr ((buf @ drop (length buf) b0) # bs,
         m0\<lparr>rm_len := length buf, rm_stride := length buf, rm_addr := (na_ip net, QUIC_PORT)\<rparr> # ms, 1)), qi)"
    using assms(13,14) by (simp add: poll_recv_def splice_def)
  ultimately show ?thesis using assms(12,13) b'(2) by (simp add: quic_data_send_def QUIC_CHANNEL_def)
qed

definition demo_quic_out :: QuicInnerOutbound where "demo_quic_out = \<lparr>qo_queue = [], qo_closed = False\<rparr>"
definition demo_quic_in :: QuicInnerInbound where "demo_quic_in = \<lparr>qi_queue = [], qi_closed = False\<rparr>"
definition demo_meta :: RecvMeta where "demo_meta = \<lparr>rm_len = 0, rm_stride = 0, rm_addr = (0, 0)\<rparr>"

lemma demo_datagram_sent:
  obtains q' h' b where "quic_try_send d (IpV4 0x0A1A0005) demo_quic_out = (Inr (), q')"
    "outbound_task demo_crates (qo_queue q') demo_node = (h', [ToPeer 9 b])"
proof -
  obtain p where p: "datagram_packet d 0x0A1A0005 = Inr p" "tb_wf p" "np_ok (tb_slice p)" "np_header (tb_slice p) = quic_header 0 0x0A1A0005"
    by (rule datagram_made)
  have route: "bo_route (ho_basic_outbound demo_node) 0x0A1A0005 = Some (route_from 9 1 20)" by code_simp
  have net: "shared_ip (ho_network demo_node) = Some 0x0A1A0002" "ho_fec_encoder demo_node = None" by code_simp+
  let ?q = "tb_map (np_set_src_id 0x0A1A0002) p"
  have "tb_wf ?q" using p(2,3) by (simp add: np_set_src_id_def tb_header_mut)
  moreover have "p2p_send_raw_to demo_crates b (route_key (route_from 9 1 20)) = ([ToPeer 9 b], Inr ())" for b
    by (simp add: p2p_send_raw_to_def demo_crates_def route_from_def)
  ultimately have "basic_send_raw demo_crates (ho_basic_outbound demo_node) (ho_server_info demo_node) 0x0A1A0005 ?q = ([ToPeer 9 (tb_slice ?q)], Inr ())"
    by (simp add: basic_send_raw_def tb_np_into_bytes_def tb_into_bytes_wf after_def route)
  with quic_header_fields(2) [OF p(4)] net
  obtain h' where "outbound_raw demo_crates 0x0A1A0005 p demo_node = (h', [ToPeer 9 (tb_slice ?q)], Inr ())"
    by (simp add: outbound_raw_def fec_stage_def counted_def Let_def)
  then show thesis
    by (intro that [where q' = "demo_quic_out\<lparr>qo_queue := [(0x0A1A0005, p)]\<rparr>" and h' = h' and b = "tb_slice ?q"])
      (simp_all add: quic_try_send_def try_outbound_def demo_quic_out_def QUIC_CHANNEL_def p(1))
qed

theorem quic_datagram_carried_witness:
  "\<exists>s' b qi'. next_handle_impl demo_in demo_peer (tb_from b) 3 demo_state = (s', [Deliver (QuicData [1, 2, 3] 0x0A1A0002)], Inr ()) \<and>
     quic_data_send [1, 2, 3] 0x0A1A0002 demo_quic_in = Some (Inr (), qi') \<and>
     poll_recv [replicate 4 0] [demo_meta] qi' =
       (Ready (Inr ([[1, 2, 3, 0]], [demo_meta\<lparr>rm_len := 3, rm_stride := 3, rm_addr := (0x0A1A0002, QUIC_PORT)\<rparr>], 1)), demo_quic_in)"
proof -
  let ?own = "demo_net\<lparr>na_ip := 0x0A1A0005\<rparr>"
  obtain q' h' b where sent: "quic_try_send [1, 2, 3] (IpV4 0x0A1A0005) demo_quic_out = (Inr (), q')"
    "outbound_task demo_crates (qo_queue q') demo_node = (h', [ToPeer 9 b])"
    by (rule demo_datagram_sent)
  have own: "na_ip ?own = 0x0A1A0005" "na_ip demo_net = 0x0A1A0002" by (simp_all add: demo_net_def)
  have "(\<exists>s'. next_handle_impl demo_in demo_peer (tb_from b) 3 demo_state = (s', [Deliver (QuicData [1, 2, 3] (na_ip demo_net))], Inr ())) \<and> 0 \<le> (4::nat) \<and>
    (\<exists>qi'. quic_data_send [1, 2, 3] (na_ip demo_net) demo_quic_in = Some (Inr (), qi') \<and>
      poll_recv [replicate 4 0] [demo_meta] qi' =
        (Ready (Inr ([[1, 2, 3] @ drop (length [1, 2, 3 :: u8]) (replicate 4 0)],
           [demo_meta\<lparr>rm_len := length [1, 2, 3 :: u8], rm_stride := length [1, 2, 3 :: u8], rm_addr := (na_ip demo_net, QUIC_PORT)\<rparr>], 1)), demo_quic_in))"
    by (rule quic_datagram_carried [OF _ _ _ _ _ relayed.sent tb_wf_from tb_slice_from, where k = 9 and own = ?own and q = demo_quic_out and q' = q'
          and h = demo_node and h' = h' and es = "[ToPeer 9 b]" and W = demo_crates])
      (use sent own in \<open>simp_all add: demo_node_def demo_peer_def demo_in_def demo_quic_in_def demo_quic_out_def\<close>)
  then show ?thesis unfolding own by (elim conjE exE) (intro exI conjI, assumption, assumption, simp add: numeral_eq_Suc)
qed

text \<open>
  A datagram that is too long breaks the socket: a \<open>Quic\<close> packet for this node from any sender, with any payload, is delivered whatever the node's key,
  and if it does not fit the buffer (1300 bytes, as \<open>boot.rs\<close> sets it), \<open>poll_recv\<close> answers \<open>quinn\<close> with an error of the socket, where
  a UDP socket would have cut the datagram.
\<close>

lemma oversized_datagram_fails_socket:
  assumes "tb_wf packet" and "np_ok (tb_slice packet)" and "np_header (tb_slice packet) = quic_header src (na_ip own)"
    and "src \<noteq> na_ip own" and "nr_network (pi_network_route h) = Some own" and "sc_accepts (ic_sinks W) (QuicData d src)"
    and "d = np_payload (tb_slice packet)" and "qi_queue qi = (d, src) # rest" and "length b0 < length d"
  shows "(\<exists>s'. next_handle_impl W (h\<lparr>pi_crypto := any_key\<rparr>) packet key s = (s', [Deliver (QuicData d src)], Inr ())) \<and>
    poll_recv (b0 # bs) meta qi = (Ready (Inl InvalidInput), qi\<lparr>qi_queue := rest\<rparr>)"
  using datagram_opens [OF assms(2,3) refl assms(1), of 0 "h\<lparr>pi_crypto := any_key\<rparr>" own W key s] assms(4-9)
  by (simp add: poll_recv_def Let_def split: list.split)

lemma oversized_datagram_fails_socket_witness:
  "\<exists>packet s'. next_handle_impl demo_in (demo_peer\<lparr>pi_crypto := Some [7]\<rparr>) packet 3 demo_state = (s', [Deliver (QuicData [1, 2, 3] 0x0A1A0002)], Inr ()) \<and>
     poll_recv [[0, 0]] [demo_meta] (demo_quic_in\<lparr>qi_queue := [([1, 2, 3], 0x0A1A0002)]\<rparr>) = (Ready (Inl InvalidInput), demo_quic_in)"
proof -
  let ?own = "demo_net\<lparr>na_ip := 0x0A1A0005\<rparr>" and ?qi = "demo_quic_in\<lparr>qi_queue := [([1, 2, 3], 0x0A1A0002)]\<rparr>"
  obtain p where p: "tb_wf p" "np_ok (tb_slice p)" "np_header (tb_slice p) = quic_header 0 0x0A1A0005" "np_payload (tb_slice p) = [1, 2, 3]"
    using datagram_made [of "[1, 2, 3]" "0x0A1A0005"] by metis
  let ?q = "tb_map (np_set_src_id 0x0A1A0002) p"
  have slice: "tb_slice ?q = np_set_src_id 0x0A1A0002 (tb_slice p)" "tb_wf ?q"
    using p(1,2) by (simp_all add: np_set_src_id_def tb_header_mut)
  have q: "np_ok (tb_slice ?q)" "np_header (tb_slice ?q) = quic_header 0x0A1A0002 (na_ip ?own)" "[1, 2, 3] = np_payload (tb_slice ?q)"
    using p(3,4) unfolding slice(1) by (simp_all add: np_set_src_id_def quic_header_def)
  have "(\<exists>s'. next_handle_impl demo_in (demo_peer\<lparr>pi_crypto := Some [7]\<rparr>) ?q 3 demo_state = (s', [Deliver (QuicData [1, 2, 3] 0x0A1A0002)], Inr ())) \<and>
    poll_recv [[0, 0]] [demo_meta] ?qi = (Ready (Inl InvalidInput), ?qi\<lparr>qi_queue := []\<rparr>)"
    by (rule oversized_datagram_fails_socket [OF slice(2) q(1,2) _ _ _ q(3)])
      (simp_all add: demo_net_def demo_peer_def demo_in_def)
  then show ?thesis by (simp add: demo_quic_in_def) blast
qed

end
