(* ===== verification/Quic_Proxy.thy ===== *)
theory Quic_Proxy
  imports Quic_Socket Messages Rust_Print "HOL-Library.Sublist"
begin

text \<open>
  Streams over the QUIC endpoint: how a node finds or makes the connection to the peer that answers for an address
  (\<open>quic_over/quic_client.rs\<close>), the handshake that names what a stream is for, the streams of TCP connections, of other IP packets and of mapped
  ports (\<open>port_mapping/\<close>), and what the peer does with them (\<open>quic_over/quic_server.rs\<close>).

  \<open>quinn\<close> is \<open>quic_env\<close>: which connection an attempt to connect gives, numbered, and whether a connection opens a stream.
  A stream is what can be read from it. The protobuf codec of the handshake and the framing of \<open>tokio_util\<close> are arguments.
\<close>

section \<open>Handshakes\<close>

record TcpProxyHandshake =
  tch_src_ip :: u32
  tch_src_port :: u32
  tch_dst_ip :: u32
  tch_dst_port :: u32

record PortProxyHandshake =
  pph_src_ip :: string
  pph_src_port :: u32
  pph_dst_host :: string
  pph_dst_port :: u32

record IpProxyHandshake =
  iph_protocol :: u32
  iph_src_ip :: u32
  iph_dst_ip :: u32

datatype Handshake =
    HsTcp TcpProxyHandshake
  | HsIp IpProxyHandshake
  | HsTcpPortMapping PortProxyHandshake
  | HsUdpPortMapping PortProxyHandshake

text \<open>The message has one optional field; its length goes before it in 16 bits, cut to them if it is longer.\<close>

type_synonym hs_codec = "Handshake option codec"

definition send_handshake :: "hs_codec \<Rightarrow> Handshake \<Rightarrow> bytes" where
  "send_handshake C handshake = (let b = enc C (Some handshake) in be16 (of_nat (length b)) @ b)"

definition recv_handshake :: "hs_codec \<Rightarrow> bytes \<Rightarrow> (Handshake option \<times> bytes) result" where
  "recv_handshake C recv_stream =
     (case recv_stream of
        a # b # rest \<Rightarrow>
          let len = unat (of_be16 a b) in
          if length rest < len then Inl OtherError
          else rbind (ok_or OtherError (dec C (take len rest))) (\<lambda>h. Inr (h, drop len rest))
      | _ \<Rightarrow> Inl OtherError)"

section \<open>Connections\<close>

datatype stream_kind = Bi | Uni

record quic_env =
  qn_connect :: "nat \<Rightarrow> ipv4 \<Rightarrow> nat result"
  qn_opens :: "nat \<Rightarrow> stream_kind \<Rightarrow> nat \<Rightarrow> bool"

text \<open>
  \<open>connection_map\<close>: a cell per peer, empty until the first connection to it is made.
\<close>

record QuicTunnelClient =
  qt_network :: SharedNetworkAddr
  qt_external_route :: SubnetExternalRoute
  qt_connection_map :: "(ipv4, nat option) hashmap"

text \<open>Round \<open>i\<close> of the loop of \<open>open_bi\<close> and \<open>open_uni\<close>; the second value says that it goes round again if it may.\<close>

definition open_round ::
  "quic_env \<Rightarrow> stream_kind \<Rightarrow> nat \<Rightarrow> ipv4 \<Rightarrow> (ipv4, nat option) hashmap \<Rightarrow> nat result \<times> bool \<times> (ipv4, nat option) hashmap" where
  "open_round E kind i dest m =
     (let cell = get_or_default None (hm_get m dest) in
      case (case cell of Some connection \<Rightarrow> Inr connection | None \<Rightarrow> qn_connect E i dest) of
        Inl e \<Rightarrow> (Inl e, False, hm_put dest None m)
      | Inr connection \<Rightarrow>
          if qn_opens E i kind connection then (Inr connection, False, hm_put dest (Some connection) m)
          else (Inl OtherError, True, hm_del dest m))"

definition open_to ::
  "quic_env \<Rightarrow> stream_kind \<Rightarrow> ipv4 \<Rightarrow> (ipv4, nat option) hashmap \<Rightarrow> nat result \<times> (ipv4, nat option) hashmap" where
  "open_to E kind dest m =
     (case open_round E kind 1 dest m of (r, again, m) \<Rightarrow>
        if again then (case open_round E kind 2 dest m of (r, _, m) \<Rightarrow> (r, m)) else (r, m))"

definition stream_peer :: "net_contains \<Rightarrow> QuicTunnelClient \<Rightarrow> ipv4 \<Rightarrow> ipv4 result" where
  "stream_peer C q dest =
     rbind (ok_or (Bail ''no network found'') (qt_network q)) (\<lambda>net.
       if \<not> C (addr_network net) dest then ok_or (Bail ''invalid route found'') (subnet_route C (qt_external_route q) dest)
       else Inr dest)"

definition open_stream :: "net_contains \<Rightarrow> quic_env \<Rightarrow> stream_kind \<Rightarrow> ipv4 \<Rightarrow> QuicTunnelClient \<Rightarrow> nat result \<times> QuicTunnelClient" where
  "open_stream C E kind dest q =
     (case stream_peer C q dest of
        Inl e \<Rightarrow> (Inl e, q)
      | Inr dest \<Rightarrow> (case open_to E kind dest (qt_connection_map q) of (r, m) \<Rightarrow> (r, q\<lparr>qt_connection_map := m\<rparr>)))"

abbreviation open_bi :: "net_contains \<Rightarrow> quic_env \<Rightarrow> ipv4 \<Rightarrow> QuicTunnelClient \<Rightarrow> nat result \<times> QuicTunnelClient" where
  "open_bi C E \<equiv> open_stream C E Bi"

abbreviation open_uni :: "net_contains \<Rightarrow> quic_env \<Rightarrow> ipv4 \<Rightarrow> QuicTunnelClient \<Rightarrow> nat result \<times> QuicTunnelClient" where
  "open_uni C E \<equiv> open_stream C E Uni"

section \<open>The client's streams\<close>

text \<open>
  The connection a stream was opened on, and what is written first on it. For a TCP connection that this node has taken over
  from the interface, \<open>local_addr\<close> and \<open>peer_addr\<close> change places: the node stands in for the peer.
\<close>

definition tcp_stream_open ::
  "net_contains \<Rightarrow> quic_env \<Rightarrow> hs_codec \<Rightarrow> ip_addr \<times> u16 \<Rightarrow> ip_addr \<times> u16 \<Rightarrow> QuicTunnelClient \<Rightarrow> (nat \<times> bytes) result \<times> QuicTunnelClient" where
  "tcp_stream_open C E H st_local st_peer q =
     (case (st_local, st_peer) of
        ((IpV4 peer_ip, peer_port), (IpV4 local_ip, local_port)) \<Rightarrow>
          (case open_bi C E peer_ip q of
             (Inl e, q) \<Rightarrow> (Inl e, q)
           | (Inr c, q) \<Rightarrow> (Inr (c, send_handshake H (HsTcp
               \<lparr>tch_src_ip = local_ip, tch_src_port = ucast local_port, tch_dst_ip = peer_ip, tch_dst_port = ucast peer_port\<rparr>)), q))
      | _ \<Rightarrow> (Inl (Bail ''invalid IP address''), q))"

definition mapping_handshake :: "(u16 list \<Rightarrow> string) \<Rightarrow> SocketAddr \<Rightarrow> PortMapping \<Rightarrow> PortProxyHandshake" where
  "mapping_handshake show6 src x =
     (case (case src of V4 ip port \<Rightarrow> (show_ipv4 ip, port) | V6 ip port \<Rightarrow> (show6 ip, port)) of (ip, port) \<Rightarrow>
        \<lparr>pph_src_ip = ip, pph_src_port = ucast port, pph_dst_host = pm_dst_host x, pph_dst_port = ucast (pm_dst_port x)\<rparr>)"

text \<open>\<open>stream_copy\<close> of a mapped TCP port and \<open>udp_mapping_handle\<close> of a UDP one begin alike.\<close>

definition mapping_stream_open ::
  "net_contains \<Rightarrow> quic_env \<Rightarrow> hs_codec \<Rightarrow> (u16 list \<Rightarrow> string) \<Rightarrow> SocketAddr \<Rightarrow> PortMapping \<Rightarrow> QuicTunnelClient \<Rightarrow>
   (nat \<times> bytes) result \<times> QuicTunnelClient" where
  "mapping_stream_open C E H show6 src x q =
     (case open_bi C E (pm_virtual_target_ip x) q of
        (Inl e, q) \<Rightarrow> (Inl e, q)
      | (Inr c, q) \<Rightarrow>
          let hs = mapping_handshake show6 src x in
          (Inr (c, send_handshake H (if pm_protocol x = ProtoTcp then HsTcpPortMapping hs else HsUdpPortMapping hs)), q))"

text \<open>
  Any other IP packet that the stack hands over goes to the session of its protocol, source and destination; the sessions are kept as
  those of a mapped UDP port are. A session's task opens a stream and writes the queued packets as frames.
\<close>

record IpKey =
  ik_protocol :: u8
  ik_src :: ipv4
  ik_dest :: ipv4

definition ip_listen_packet :: "u8 \<Rightarrow> ip_addr \<Rightarrow> ip_addr \<Rightarrow> bytes \<Rightarrow> (IpKey, udp_session) hashmap \<Rightarrow> (IpKey, udp_session) hashmap" where
  "ip_listen_packet protocol src dest b m =
     (case (src, dest) of
        (IpV4 src, IpV4 dest) \<Rightarrow> mapped_datagram \<lparr>ik_protocol = protocol, ik_src = src, ik_dest = dest\<rparr> b m
      | _ \<Rightarrow> m)"

record framing =
  fr_encode :: "bytes \<Rightarrow> bytes"
  fr_decode :: "bytes \<Rightarrow> bytes list"

definition framing_ok :: "framing \<Rightarrow> bool" where
  "framing_ok F \<longleftrightarrow> (\<forall>l. fr_decode F (concat (map (fr_encode F) l)) = l)"

definition dest_sender ::
  "net_contains \<Rightarrow> quic_env \<Rightarrow> hs_codec \<Rightarrow> framing \<Rightarrow> IpKey \<Rightarrow> bytes list \<Rightarrow> QuicTunnelClient \<Rightarrow> (nat \<times> bytes) result \<times> QuicTunnelClient" where
  "dest_sender C E H F key pkts q =
     (case open_uni C E (ik_dest key) q of
        (Inl e, q) \<Rightarrow> (Inl e, q)
      | (Inr c, q) \<Rightarrow> (Inr (c, send_handshake H (HsIp
          \<lparr>iph_protocol = ucast (ik_protocol key), iph_src_ip = ik_src key, iph_dst_ip = ik_dest key\<rparr>) @
          concat (map (fr_encode F) pkts)), q))"

section \<open>The server's streams\<close>

text \<open>What a stream is joined to: a connection of the address translation, one of the IP stack, or a mapped target.\<close>

datatype proxy_action =
    NoAction
  | NatTcp ipv4 u16
  | StackTcp "ipv4 \<times> u16" "ipv4 \<times> u16"
  | MappedTcp mapping_target
  | MappedUdp mapping_target

definition tcp_proxy ::
  "sink_crates \<Rightarrow> bool \<Rightarrow> InternalNatInbound option \<Rightarrow> TcpProxyHandshake \<Rightarrow> proxy_action result" where
  "tcp_proxy K ip_stack internal_nat_manager handshake =
     (let src = (tch_src_ip handshake, ucast (tch_src_port handshake) :: u16);
          dst = (tch_dst_ip handshake, ucast (tch_dst_port handshake) :: u16) in
      if src = dst then Inl (Bail ''tcp handshake failed'')
      else if (case internal_nat_manager of Some n \<Rightarrow> use_nat K n (fst dst) | None \<Rightarrow> False)
      then (case internal_nat_manager of
          None \<Rightarrow> Inr NoAction
        | Some n \<Rightarrow> rbind (tcp_nat_target K n (fst dst) (snd dst)) (\<lambda>t.
            Inr (case t of Some (ip, port) \<Rightarrow> NatTcp ip port | None \<Rightarrow> NoAction)))
      else if (case internal_nat_manager of Some n \<Rightarrow> in_no_tun n | None \<Rightarrow> False) then Inr NoAction
      else if ip_stack then Inr (StackTcp src dst) else Inr NoAction)"

definition mapped_proxy :: "(mapping_target \<Rightarrow> proxy_action) \<Rightarrow> sink_crates \<Rightarrow> PortMappingManager \<Rightarrow> PortProxyHandshake \<Rightarrow> proxy_action result" where
  "mapped_proxy f K p h =
     rbind (mapping_target_of (sc_contains K) p (pph_dst_host h) (ucast (pph_dst_port h))) (\<lambda>t.
       Inr (case t of Some t \<Rightarrow> f t | None \<Rightarrow> NoAction))"

fun bi_action :: "sink_crates \<Rightarrow> bool \<Rightarrow> InternalNatInbound option \<Rightarrow> PortMappingManager \<Rightarrow> Handshake option \<Rightarrow> proxy_action result" where
  "bi_action K ip_stack manager p None = Inr NoAction"
| "bi_action K ip_stack manager p (Some (HsTcp h)) = tcp_proxy K ip_stack manager h"
| "bi_action K ip_stack manager p (Some (HsIp _)) = Inr NoAction"
| "bi_action K ip_stack manager p (Some (HsTcpPortMapping h)) = mapped_proxy MappedTcp K p h"
| "bi_action K ip_stack manager p (Some (HsUdpPortMapping h)) = mapped_proxy MappedUdp K p h"

definition quic_stream_bi_handle ::
  "sink_crates \<Rightarrow> hs_codec \<Rightarrow> bool \<Rightarrow> InternalNatInbound option \<Rightarrow> PortMappingManager \<Rightarrow> bytes \<Rightarrow> (proxy_action \<times> bytes) result" where
  "quic_stream_bi_handle K H ip_stack internal_nat_manager p recv_stream =
     rbind (recv_handshake H recv_stream) (\<lambda>(handshake, rest).
       rbind (bi_action K ip_stack internal_nat_manager p handshake) (\<lambda>a. Inr (a, rest)))"

text \<open>
  A stream of IP packets: each frame is handed to the address translation or the IP stack until one is refused;
  it always ends with an error, at the latest that the stream is over.
\<close>

datatype ip_action =
    NatPayload u8 ipv4 ipv4 bytes
  | StackPayload u8 ipv4 ipv4 bytes

fun feed_frames :: "(ip_action \<Rightarrow> bool) \<Rightarrow> (bytes \<Rightarrow> ip_action) \<Rightarrow> bytes list \<Rightarrow> ip_action list \<times> unit result" where
  "feed_frames ok f [] = ([], Inl (Bail ''receive quic stream failed''))"
| "feed_frames ok f (b # bs) =
     (if ok (f b) then (case feed_frames ok f bs of (l, r) \<Rightarrow> (f b # l, r)) else ([], Inl OtherError))"

definition ip_proxy ::
  "sink_crates \<Rightarrow> (ip_action \<Rightarrow> bool) \<Rightarrow> framing \<Rightarrow> bool \<Rightarrow> InternalNatInbound option \<Rightarrow> IpProxyHandshake \<Rightarrow> bytes \<Rightarrow>
   ip_action list \<times> unit result" where
  "ip_proxy K ok F ip_socket internal_nat_manager h rest =
     (let protocol = ucast (iph_protocol h); src_ip = iph_src_ip h; dest_ip = iph_dst_ip h in
      if (case internal_nat_manager of Some n \<Rightarrow> use_nat K n dest_ip | None \<Rightarrow> False)
      then feed_frames ok (NatPayload protocol src_ip dest_ip) (fr_decode F rest)
      else if (case internal_nat_manager of Some n \<Rightarrow> in_no_tun n | None \<Rightarrow> False) then ([], Inr ())
      else if \<not> ip_socket then ([], Inr ())
      else feed_frames ok (StackPayload protocol src_ip dest_ip) (fr_decode F rest))"

definition quic_stream_uni_handle ::
  "sink_crates \<Rightarrow> hs_codec \<Rightarrow> (ip_action \<Rightarrow> bool) \<Rightarrow> framing \<Rightarrow> bool \<Rightarrow> InternalNatInbound option \<Rightarrow> bytes \<Rightarrow> ip_action list \<times> unit result" where
  "quic_stream_uni_handle K H ok F ip_socket internal_nat_manager recv_stream =
     (case recv_handshake H recv_stream of
        Inl e \<Rightarrow> ([], Inl e)
      | Inr (Some (HsIp h), rest) \<Rightarrow> ip_proxy K ok F ip_socket internal_nat_manager h rest
      | Inr _ \<Rightarrow> ([], Inr ()))"

section \<open>Joining two streams\<close>

text \<open>
  Two directions of bytes between a stream of QUIC and a TCP stream, each copied by a task of its own. \<open>select!\<close> over the two copies
  (\<open>tcp_stream_handle\<close>, \<open>stream_copy\<close>, \<open>tcp_nat::stream_nat\<close>, the server's IP stack) is over when the first of them is;
  \<open>copy_bidirectional\<close> (\<open>tcp_nat::stream_task\<close>), \<open>both\<close> below, when both are.
\<close>

datatype direction = Up | Down

record copying =
  cp_sent :: bytes
  cp_eof :: bool
  cp_done :: bytes

record relay =
  rl_copy :: "direction \<Rightarrow> copying"
  rl_running :: bool
  rl_failed :: bool

definition copy_new :: copying where "copy_new = \<lparr>cp_sent = [], cp_eof = False, cp_done = []\<rparr>"

definition relay_new :: relay where
  "relay_new = \<lparr>rl_copy = (\<lambda>_. copy_new), rl_running = True, rl_failed = False\<rparr>"

definition copy_over :: "copying \<Rightarrow> bool" where
  "copy_over c \<longleftrightarrow> cp_eof c \<and> cp_done c = cp_sent c"

definition on_copy :: "direction \<Rightarrow> (copying \<Rightarrow> copying) \<Rightarrow> relay \<Rightarrow> relay" where
  "on_copy d f s = s\<lparr>rl_copy := (rl_copy s)(d := f (rl_copy s d))\<rparr>"

inductive relay_step :: "bool \<Rightarrow> relay \<Rightarrow> relay \<Rightarrow> bool" for both where
  source_sends: "\<not> cp_eof (rl_copy s d) \<Longrightarrow> relay_step both s (on_copy d (\<lambda>c. c\<lparr>cp_sent := cp_sent c @ b\<rparr>) s)"
| source_ends: "relay_step both s (on_copy d (\<lambda>c. c\<lparr>cp_eof := True\<rparr>) s)"
| copies: "rl_running s \<Longrightarrow> length (cp_done (rl_copy s d)) \<le> n \<Longrightarrow>
    relay_step both s (on_copy d (\<lambda>c. c\<lparr>cp_done := take n (cp_sent c)\<rparr>) s)"
| ends: "rl_running s \<Longrightarrow> copy_over (rl_copy s d) \<Longrightarrow> both \<longrightarrow> copy_over (rl_copy s Up) \<and> copy_over (rl_copy s Down) \<Longrightarrow>
    relay_step both s (s\<lparr>rl_running := False\<rparr>)"
| fails: "rl_running s \<Longrightarrow> relay_step both s (s\<lparr>rl_running := False, rl_failed := True\<rparr>)"

abbreviation relay_steps :: "bool \<Rightarrow> relay \<Rightarrow> relay \<Rightarrow> bool" where
  "relay_steps both \<equiv> (relay_step both)\<^sup>*\<^sup>*"

section \<open>A mapped UDP port\<close>

text \<open>
  The two ends of a session: frames of the QUIC stream become datagrams and the other way round. The end of the stream only
  disables its branch of \<open>select!\<close>; the client's end leaves the loop after sixty quiet seconds.
\<close>

datatype session_event = FromStream bytes | StreamEnds | StreamFails | FromSocket bytes | SocketFails | SixtySeconds

datatype session_out = ToSocket bytes | ToStream bytes

fun session_step :: "bool \<Rightarrow> (session_out \<Rightarrow> bool) \<Rightarrow> session_event \<Rightarrow> session_out list \<times> unit result option" where
  "session_step client ok (FromStream b) = (if ok (ToSocket b) then ([ToSocket b], None) else ([], Some (Inl OtherError)))"
| "session_step client ok (FromSocket b) = (if ok (ToStream b) then ([ToStream b], None) else ([], Some (Inl OtherError)))"
| "session_step client ok StreamEnds = ([], None)"
| "session_step client ok StreamFails = ([], Some (Inl OtherError))"
| "session_step client ok SocketFails = ([], if client then None else Some (Inl OtherError))"
| "session_step client ok SixtySeconds = ([], if client then Some (Inr ()) else None)"

fun session_loop :: "bool \<Rightarrow> (session_out \<Rightarrow> bool) \<Rightarrow> session_event list \<Rightarrow> session_out list \<times> unit result option" where
  "session_loop client ok [] = ([], None)"
| "session_loop client ok (e # es) =
     (case session_step client ok e of
        (out, Some r) \<Rightarrow> (out, Some r)
      | (out, None) \<Rightarrow> (case session_loop client ok es of (outs, r) \<Rightarrow> (out @ outs, r)))"

section \<open>Starting\<close>

text \<open>
  \<open>quic_tunnel_start\<close>: what is started, in order; each step that can fail ends the start. \<open>bind\<close> is whether a mapped port can be bound.
  With an interface there are an IP stack and the outbound half (with the flag whether it takes over packets).
\<close>

record QuicTunnelConfig =
  qc_mtu :: u16
  qc_password :: string
  qc_open_quic_client :: bool
  qc_port_mapping :: "PortMapping list"

datatype boot_call = MakeStack | BindIpSocket | MakeEndpoint

datatype started =
    StackRecvTask
  | ServerAccept bool
  | TcpListen
  | IpListen
  | MappedPorts "PortMapping list"

fun guarded :: "('c \<Rightarrow> bool) \<Rightarrow> ('c \<times> 'a list) list \<Rightarrow> 'a list \<times> unit result" where
  "guarded ok [] = ([], Inr ())"
| "guarded ok ((c, l) # cs) = (if ok c then (case guarded ok cs of (l', r) \<Rightarrow> (l @ l', r)) else ([], Inl OtherError))"

definition quic_tunnel_start ::
  "(boot_call \<Rightarrow> bool) \<Rightarrow> (ip_proto \<Rightarrow> SocketAddr \<Rightarrow> bool) \<Rightarrow> QuicTunnelConfig \<Rightarrow> bool \<Rightarrow> started list \<times> bool option result" where
  "quic_tunnel_start ok bind cfg tun =
     (case guarded ok ((if tun then [(MakeStack, []), (BindIpSocket, [StackRecvTask])] else []) @ [(MakeEndpoint, [ServerAccept tun])]) of
        (l, Inl e) \<Rightarrow> (l, Inl e)
      | (l, Inr _) \<Rightarrow>
          let l = (if qc_open_quic_client cfg \<and> tun then l @ [TcpListen, IpListen] else l);
              outbound = (if tun then Some (qc_open_quic_client cfg) else None) in
          if qc_port_mapping cfg = [] then (l, Inr outbound)
          else (case port_mapping_start bind (qc_port_mapping cfg) of
              (ports, Inl e) \<Rightarrow> (l @ [MappedPorts ports], Inl e)
            | (ports, Inr _) \<Rightarrow> (l @ [MappedPorts ports], Inr outbound)))"

text \<open>The packets that the IP stack emits towards the interface; the first error, or a missing network, ends the task.\<close>

fun stack_recv_task :: "sink_crates \<Rightarrow> ipv4net list \<Rightarrow> SharedNetworkAddr \<Rightarrow> bytes list \<Rightarrow> delivery list \<times> bool" where
  "stack_recv_task K al network [] = ([], True)"
| "stack_recv_task K al network (b # bs) =
     (case network of
        None \<Rightarrow> ([], False)
      | Some net \<Rightarrow>
          (case tun_send K al b net of
             (d, Inl _) \<Rightarrow> (d, False)
           | (d, Inr _) \<Rightarrow> (case stack_recv_task K al network bs of (ds, running) \<Rightarrow> (d @ ds, running))))"

section \<open>Lemmas\<close>

lemma recv_send_handshake:
  assumes "codec_at H (Some h)" and "length (enc H (Some h)) < 2 ^ 16"
  shows "recv_handshake H (send_handshake H h @ rest) = Inr (Some h, rest)"
proof -
  let ?b = "enc H (Some h)"
  have "be16 (of_nat (length ?b)) = [ucast (drop_bit 8 (of_nat (length ?b) :: u16)), ucast (of_nat (length ?b) :: u16)]"
    by (simp add: be16_def)
  moreover have "of_be16 (be16 (of_nat (length ?b)) ! 0) (be16 (of_nat (length ?b)) ! 1) = of_nat (length ?b)"
    by (rule of_be16_be16)
  moreover have "unat (of_nat (length ?b) :: u16) = length ?b" using assms(2) by (simp add: unat_of_nat take_bit_nat_eq_self)
  ultimately show ?thesis using assms(1) by (simp add: recv_handshake_def send_handshake_def Let_def codec_at_def)
qed

lemma ucast_port: "ucast (ucast (w :: u16) :: u32) = w" "ucast (ucast (v :: u8) :: u32) = v"
  by (rule bit_word_eqI, auto simp: bit_simps)+

text \<open>The connections of the map are to the peers they stand under.\<close>

definition conns_ok :: "quic_env \<Rightarrow> (ipv4, nat option) hashmap \<Rightarrow> bool" where
  "conns_ok E m \<longleftrightarrow> (\<forall>ip c. hm_get m ip = Some (Some c) \<longrightarrow> (\<exists>i. qn_connect E i ip = Inr c))"

lemma open_round_conns:
  assumes "open_round E kind i dest m = (r, again, m')" and "conns_ok E m"
  shows "conns_ok E m'" "r = Inr c \<Longrightarrow> \<exists>i. qn_connect E i dest = Inr c" "r = Inr c \<Longrightarrow> hm_get m' dest = Some (Some c)"
    "again \<Longrightarrow> hm_get m' dest = None" "r = Inl e \<Longrightarrow> get_or_default None (hm_get m' dest) = None"
proof -
  have cached: "get_or_default None (hm_get m dest) = Some c \<Longrightarrow> \<exists>i. qn_connect E i dest = Inr c" for c
    using assms(2) by (auto simp: conns_ok_def get_or_default_def split: option.splits)
  show "conns_ok E m'" "r = Inr c \<Longrightarrow> \<exists>i. qn_connect E i dest = Inr c" "r = Inr c \<Longrightarrow> hm_get m' dest = Some (Some c)"
    "again \<Longrightarrow> hm_get m' dest = None" "r = Inl e \<Longrightarrow> get_or_default None (hm_get m' dest) = None"
    using assms cached
    by (auto simp: open_round_def Let_def conns_ok_def hm_get_put hm_get_del get_or_default_def split: option.splits sum.splits if_splits)
qed

lemma open_to_conns:
  assumes "open_to E kind dest m = (r, m')" and "conns_ok E m"
  shows "conns_ok E m'" "r = Inr c \<Longrightarrow> \<exists>i. qn_connect E i dest = Inr c" "r = Inr c \<Longrightarrow> hm_get m' dest = Some (Some c)"
    "r = Inl e \<Longrightarrow> get_or_default None (hm_get m' dest) = None"
proof -
  obtain r1 again m1 where one: "open_round E kind 1 dest m = (r1, again, m1)" by (metis prod.collapse)
  obtain r2 again2 m2 where two: "open_round E kind 2 dest m1 = (r2, again2, m2)" by (metis prod.collapse)
  note c1 = open_round_conns [OF one assms(2)] and c2 = open_round_conns [OF two open_round_conns(1) [OF one assms(2)]]
  show "conns_ok E m'" "r = Inr c \<Longrightarrow> \<exists>i. qn_connect E i dest = Inr c" "r = Inr c \<Longrightarrow> hm_get m' dest = Some (Some c)"
    "r = Inl e \<Longrightarrow> get_or_default None (hm_get m' dest) = None"
    using assms(1) one two c1 c2 by (auto simp: open_to_def split: if_splits)
qed

lemma relay_keeps: "relay_step both s s' \<Longrightarrow> \<not> rl_running s \<Longrightarrow> \<not> rl_running s' \<and> cp_done (rl_copy s' d) = cp_done (rl_copy s d)"
  by (erule relay_step.cases) (auto simp: on_copy_def)

lemma relay_stopped:
  "relay_steps both s s' \<Longrightarrow> \<not> rl_running s \<Longrightarrow> \<not> rl_running s' \<and> cp_done (rl_copy s' d) = cp_done (rl_copy s d)"
  by (induction rule: rtranclp_induct) (simp, metis relay_keeps)

definition relay_inv :: "bool \<Rightarrow> relay \<Rightarrow> bool" where
  "relay_inv both s \<longleftrightarrow> (\<forall>d. \<exists>n \<le> length (cp_sent (rl_copy s d)). cp_done (rl_copy s d) = take n (cp_sent (rl_copy s d))) \<and>
     (both \<longrightarrow> rl_running s \<or> rl_failed s \<or> (\<forall>d. copy_over (rl_copy s d)))"

lemma take_bounded: "\<exists>k\<le>length xs. take n xs = take k xs"
  by (cases "n \<le> length xs") (auto intro: exI [where x = "length xs"])

lemma relay_step_inv:
  assumes "relay_step both s s'" and "relay_inv both s"
  shows "relay_inv both s'"
  using assms
proof (induction rule: relay_step.induct)
  case (source_sends s d b)
  then show ?case
    by (auto simp: relay_inv_def on_copy_def copy_over_def) (metis trans_le_add1 diff_is_0_eq' append_Nil2 take0 take_append)+
next
  case (source_ends s d)
  then show ?case by (auto simp: relay_inv_def on_copy_def copy_over_def)
next
  case (copies s d n)
  then show ?case by (auto simp: relay_inv_def on_copy_def intro: take_bounded)
next
  case (ends s d)
  then show ?case by (auto simp: relay_inv_def) (metis direction.exhaust)+
qed (auto simp: relay_inv_def)

interpretation relaying: machine_keeps "relay_step both" "relay_inv both" for both
  by unfold_locales (rule relay_step_inv)

lemma relay_new_inv: "relay_steps both relay_new s \<Longrightarrow> relay_inv both s"
  by (erule relaying.kept_run) (simp add: relay_inv_def relay_new_def copy_new_def)

section \<open>Properties\<close>

text \<open>
  C12. Every stream goes to the peer that answers for its destination: to the destination itself inside of the network, otherwise to the gateway of
  the subnet route; the connection used, an old one or a new one, was made to that peer, and stays in the map if and only if it
  opened the stream; after a failure no connection to that peer is kept. The map never holds a connection to another peer.
\<close>

theorem stream_goes_to_peer:
  assumes "conns_ok E (qt_connection_map q)" and "qt_network q = Some net"
  shows "case open_stream C E kind dest q of (r, q') \<Rightarrow>
    conns_ok E (qt_connection_map q') \<and>
    (case (if C (addr_network net) dest then Some dest else subnet_route C (qt_external_route q) dest) of
       None \<Rightarrow> r = Inl (Bail ''invalid route found'') \<and> q' = q
     | Some peer \<Rightarrow>
         (case r of
            Inr c \<Rightarrow> (\<exists>i. qn_connect E i peer = Inr c) \<and> hm_get (qt_connection_map q') peer = Some (Some c)
          | Inl _ \<Rightarrow> get_or_default None (hm_get (qt_connection_map q') peer) = None))"
proof (cases "stream_peer C q dest")
  case (Inl e)
  with assms show ?thesis by (auto simp: open_stream_def stream_peer_def ok_or_def split: if_splits option.splits)
next
  case (Inr peer)
  then have peer: "(if C (addr_network net) dest then Some dest else subnet_route C (qt_external_route q) dest) = Some peer"
    using assms(2) by (auto simp: stream_peer_def ok_or_def split: if_splits option.splits)
  obtain r m' where run: "open_to E kind peer (qt_connection_map q) = (r, m')" by fastforce
  note c = open_to_conns [OF run assms(1)]
  show ?thesis unfolding peer open_stream_def Inr using c by (auto simp: run split: sum.splits)
qed

text \<open>
  A connection that has died is replaced: if the connection in the map opens no stream any more and a new one can be made
  that does, the stream is opened on the new one, which takes the place of the old one; only one new connection is tried.
\<close>

lemma dead_connection_replaced:
  assumes "stream_peer C q dest = Inr peer" and "hm_get (qt_connection_map q) peer = Some (Some old)" and "\<not> qn_opens E 1 kind old"
  shows "open_stream C E kind dest q =
    (case qn_connect E 2 peer of
       Inl e \<Rightarrow> (Inl e, q\<lparr>qt_connection_map := hm_put peer None (hm_del peer (qt_connection_map q))\<rparr>)
     | Inr fresh \<Rightarrow>
         if qn_opens E 2 kind fresh then (Inr fresh, q\<lparr>qt_connection_map := hm_put peer (Some fresh) (hm_del peer (qt_connection_map q))\<rparr>)
         else (Inl OtherError, q\<lparr>qt_connection_map := hm_del peer (hm_del peer (qt_connection_map q))\<rparr>))"
proof -
  have "open_round E kind 1 peer (qt_connection_map q) = (Inl OtherError, True, hm_del peer (qt_connection_map q))"
    using assms(2,3) by (simp add: open_round_def get_or_default_def)
  then show ?thesis
    by (simp add: open_stream_def assms(1) open_to_def open_round_def get_or_default_def hm_get_del Let_def split: sum.split)
qed

text \<open>
  C10. A TCP connection through the proxy keeps its ends: what the peer reads from a stream that was opened for a connection is the same
  source and destination, and whatever follows on the stream is left to be copied.
\<close>

theorem proxied_tcp_keeps_ends:
  fixes src_ip dst_ip :: ipv4 and src_port dst_port :: u16
  defines "h \<equiv> \<lparr>tch_src_ip = src_ip, tch_src_port = ucast src_port, tch_dst_ip = dst_ip, tch_dst_port = ucast dst_port\<rparr>"
  assumes "tcp_stream_open C E H (IpV4 dst_ip, dst_port) (IpV4 src_ip, src_port) q = (Inr (c, b), q')"
    and "codec_at H (Some (HsTcp h))" and "length (enc H (Some (HsTcp h))) < 2 ^ 16"
    and "(src_ip, src_port) \<noteq> (dst_ip, dst_port)"
  shows "quic_stream_bi_handle K H True None p (b @ rest) = Inr (StackTcp (src_ip, src_port) (dst_ip, dst_port), rest) \<and>
    (use_nat K n dst_ip \<and> \<not> in_no_tun n \<longrightarrow> quic_stream_bi_handle K H ip_stack (Some n) p (b @ rest) = Inr (NatTcp dst_ip dst_port, rest))"
proof -
  have b: "b = send_handshake H (HsTcp h)" using assms(2) by (auto simp: tcp_stream_open_def h_def split: prod.splits sum.splits)
  have "(tch_src_ip h, ucast (tch_src_port h) :: u16) = (src_ip, src_port)" "(tch_dst_ip h, ucast (tch_dst_port h) :: u16) = (dst_ip, dst_port)"
    by (simp_all add: h_def ucast_port)
  then show ?thesis unfolding b using assms(5)
    by (auto simp add: quic_stream_bi_handle_def recv_send_handshake [OF assms(3,4)] tcp_proxy_def Let_def tcp_nat_target_def)
qed

definition proxy_allowed :: "sink_crates \<Rightarrow> bool \<Rightarrow> InternalNatInbound option \<Rightarrow> PortMappingManager \<Rightarrow> proxy_action \<Rightarrow> bool" where
  "proxy_allowed K ip_stack manager p a =
     (case a of
        NoAction \<Rightarrow> True
      | NatTcp ip port \<Rightarrow>
          (case manager of
             None \<Rightarrow> False
           | Some n \<Rightarrow> allow (sc_contains K) (in_allow_subnet n) ip \<and> (in_no_tun n \<or> \<not> nat_network_contains K n ip) \<or>
               in_no_tun n \<and> ip = localhost)
      | StackTcp src dst \<Rightarrow> ip_stack \<and> src \<noteq> dst \<and>
          (case manager of None \<Rightarrow> True | Some n \<Rightarrow> \<not> in_no_tun n \<and> \<not> use_nat K n (fst dst))
      | MappedTcp t \<Rightarrow> pmm_allow_port_mapping p
      | MappedUdp t \<Rightarrow> pmm_allow_port_mapping p)"

lemma mapping_target_allowed: "mapping_target_of C p h port = Inr (Some t) \<Longrightarrow> pmm_allow_port_mapping p"
  by (auto simp: mapping_target_of_def split: if_splits)

lemma tcp_proxy_allowed:
  assumes "tcp_proxy K ip_stack manager h = Inr a"
  shows "proxy_allowed K ip_stack manager p a"
proof (cases manager)
  case None
  with assms show ?thesis by (auto simp: tcp_proxy_def proxy_allowed_def Let_def split: if_splits)
next
  case (Some n)
  note some = Some
  show ?thesis
  proof (cases "use_nat K n (tch_dst_ip h)")
    case True
    with assms some show ?thesis
      by (auto simp: tcp_proxy_def proxy_allowed_def Let_def tcp_nat_target_def rbind_eq_Inr use_nat_def allow_nat_def
          nat_network_contains_def shared_network_def ok_or_def split: if_splits option.splits)
  next
    case False
    with assms some show ?thesis by (auto simp: tcp_proxy_def proxy_allowed_def Let_def split: if_splits)
  qed
qed

lemma mapped_proxy_allowed:
  assumes "mapped_proxy f K p h = Inr a" and "f = MappedTcp \<or> f = MappedUdp"
  shows "proxy_allowed K ip_stack manager p a"
proof -
  obtain t where "mapping_target_of (sc_contains K) p (pph_dst_host h) (ucast (pph_dst_port h)) = Inr t"
    "a = (case t of Some t \<Rightarrow> f t | None \<Rightarrow> NoAction)"
    using assms(1) by (auto simp: mapped_proxy_def rbind_eq_Inr)
  then show ?thesis
    using assms(2) mapping_target_allowed [of "sc_contains K" p "pph_dst_host h" "ucast (pph_dst_port h)"]
    by (cases t) (auto simp: proxy_allowed_def)
qed

lemma nothing_allowed [simp]: "proxy_allowed K ip_stack manager p NoAction"
  by (simp add: proxy_allowed_def)

lemma bi_action_allowed:
  assumes "bi_action K ip_stack manager p hs = Inr a"
  shows "proxy_allowed K ip_stack manager p a"
proof (cases hs)
  case None
  with assms show ?thesis by auto
next
  case (Some h)
  with assms show ?thesis by (cases h) (auto simp: mapped_proxy_allowed tcp_proxy_allowed)
qed

text \<open>
  What a peer can reach: whatever it writes on a stream, the translation connects only inside of the subnets this node answers for, or, without
  an interface, to the local host in place of the node's own address or outside of the network; the IP stack is used only with an interface and never for
  what the translation handles; and a mapped target is used only where mapped ports are allowed. What the IP stack then sends to the interface is addressed to the
  network or to one of these subnets.
\<close>

lemma proxied_streams_confined:
  assumes "quic_stream_bi_handle K H ip_stack manager p stream = Inr (a, rest)"
    and "stack_recv_task K al network l = (ds, running)" and "d \<in> set ds"
  shows "proxy_allowed K ip_stack manager p a \<and>
    (\<exists>b net dest. d = TunData b \<and> network = Some net \<and> sc_ipv4_destination K b = Some dest \<and>
       (sc_contains K (addr_network net) dest \<or> dest = na_broadcast net \<or> is_broadcast dest \<or> is_multicast dest \<or> allow (sc_contains K) al dest))"
proof
  show "proxy_allowed K ip_stack manager p a"
    using assms(1) bi_action_allowed by (auto simp: quic_stream_bi_handle_def rbind_eq_Inr)
  show "\<exists>b net dest. d = TunData b \<and> network = Some net \<and> sc_ipv4_destination K b = Some dest \<and>
       (sc_contains K (addr_network net) dest \<or> dest = na_broadcast net \<or> is_broadcast dest \<or> is_multicast dest \<or> allow (sc_contains K) al dest)"
    using assms(2,3)
  proof (induction l arbitrary: ds)
    case (Cons b l)
    then obtain net where net: "network = Some net" by (auto split: option.splits)
    obtain out r where out: "tun_send K al b net = (out, r)" by fastforce
    show ?case
    proof (cases "d \<in> set out")
      case True
      with checked_sink_only out net show ?thesis by (fastforce simp: tun_send_def)
    next
      case False
      with Cons.prems out net obtain ds' where "stack_recv_task K al network l = (ds', running)" "d \<in> set ds'"
        by (auto split: sum.splits prod.splits)
      with Cons.IH show ?thesis by blast
    qed
  qed simp
qed

text \<open>
  A half-closed connection loses its answer: once the application has sent its request and closed its sending side, and the request has been
  copied, the relay over QUIC ends, and of an answer that comes then not one byte arrives.
\<close>

lemma half_close_loses_answer:
  "\<exists>s. relay_steps False relay_new s \<and> cp_done (rl_copy s Up) = request \<and> copy_over (rl_copy s Up) \<and> \<not> rl_failed s \<and>
     (\<lambda>s'. cp_done (rl_copy s' Down)) ` {s'. relay_steps False s s'} = {[]} \<and>
     (\<exists>s'. relay_steps False s s' \<and> cp_sent (rl_copy s' Down) = answer)"
proof -
  let ?c = "\<lparr>cp_sent = request, cp_eof = True, cp_done = request\<rparr>"
  let ?s0 = "on_copy Up (\<lambda>c. c\<lparr>cp_sent := cp_sent c @ request\<rparr>) relay_new"
  let ?s1 = "on_copy Up (\<lambda>c. c\<lparr>cp_done := take (length request) (cp_sent c)\<rparr>) ?s0"
  let ?s2 = "on_copy Up (\<lambda>c. c\<lparr>cp_eof := True\<rparr>) ?s1" and ?s3 = "\<lparr>rl_copy = (\<lambda>_. copy_new)(Up := ?c), rl_running = False, rl_failed = False\<rparr>"
  have "relay_step False relay_new ?s0" by (rule relay_step.source_sends) (simp add: relay_new_def copy_new_def)
  moreover have "relay_step False ?s0 ?s1"
    by (rule relay_step.copies) (simp_all add: relay_new_def copy_new_def on_copy_def)
  moreover have "relay_step False ?s1 ?s2" by (rule relay_step.source_ends)
  moreover have "relay_step False ?s2 (?s2\<lparr>rl_running := False\<rparr>)"
    by (rule relay_step.ends [where d = Up]) (simp_all add: on_copy_def relay_new_def copy_new_def copy_over_def)
  moreover have "?s2\<lparr>rl_running := False\<rparr> = ?s3" by (simp add: on_copy_def relay_new_def copy_new_def)
  ultimately have reach: "relay_steps False relay_new ?s3" by (metis (no_types, lifting) rtranclp.rtrancl_refl rtranclp.rtrancl_into_rtrancl)
  have quiet: "relay_steps False ?s3 s' \<Longrightarrow> cp_done (rl_copy s' Down) = []" for s'
    using relay_stopped [of False ?s3 s' Down] by (simp add: copy_new_def)
  have "relay_step False ?s3 (on_copy Down (\<lambda>c. c\<lparr>cp_sent := cp_sent c @ answer\<rparr>) ?s3)"
    by (rule relay_step.source_sends) (simp add: copy_new_def)
  then have "\<exists>s'. relay_steps False ?s3 s' \<and> cp_sent (rl_copy s' Down) = answer"
    by (intro exI conjI) (erule r_into_rtranclp, simp add: on_copy_def copy_new_def)
  moreover have "(\<lambda>s'. cp_done (rl_copy s' Down)) ` {s'. relay_steps False ?s3 s'} = {[]}" using quiet by auto
  ultimately show ?thesis using reach by (intro exI [of _ ?s3]) (simp add: copy_over_def)
qed

text \<open>
  Bytes are copied in order, none invented: what a relay has written in a direction is always a prefix of what was sent in it; and a relay that ends
  only when both directions have, as the one of the inner stack does, has written everything unless it failed.
\<close>

lemma relay_writes_prefixes:
  assumes "relay_steps both relay_new s"
  shows "prefix (cp_done (rl_copy s d)) (cp_sent (rl_copy s d)) \<and>
    (both \<and> \<not> rl_running s \<and> \<not> rl_failed s \<longrightarrow> cp_done (rl_copy s d) = cp_sent (rl_copy s d))"
  using relay_new_inv [OF assms] by (auto simp: relay_inv_def copy_over_def take_is_prefix) (metis take_is_prefix)+

text \<open>
  A mapped UDP session on the serving side never ends well: the loop has no way out but an error, and the end of the peer's stream changes
  nothing, so that the task and its socket stay as long as the target is silent.
\<close>

lemma served_udp_session_stays:
  "snd (session_loop False ok es) \<noteq> Some (Inr ()) \<and>
   session_loop False ok (es @ [StreamEnds]) = session_loop False ok es \<and>
   snd (session_loop False (\<lambda>_. True) (map FromStream frames @ replicate n StreamEnds)) = None"
proof (intro conjI)
  have step: "snd (session_step False ok e) \<noteq> Some (Inr ())" for e by (cases e) auto
  show "snd (session_loop False ok es) \<noteq> Some (Inr ())"
    by (induction es) (use step in \<open>auto split: prod.splits option.splits\<close>, metis snd_conv)
  show "session_loop False ok (es @ [StreamEnds]) = session_loop False ok es"
    by (induction es) (auto split: prod.splits option.splits)
  have "snd (session_loop False (\<lambda>_. True) (replicate n StreamEnds)) = None" by (induction n) (auto split: prod.splits)
  then show "snd (session_loop False (\<lambda>_. True) (map FromStream frames @ replicate n StreamEnds)) = None"
    by (induction frames) (auto split: prod.splits)
qed

definition key_of :: "u8 \<times> ip_addr \<times> ip_addr \<times> bytes \<Rightarrow> IpKey option" where
  "key_of = (\<lambda>(protocol, src, dest, b).
     case (src, dest) of (IpV4 src, IpV4 dest) \<Rightarrow> Some \<lparr>ik_protocol = protocol, ik_src = src, ik_dest = dest\<rparr> | _ \<Rightarrow> None)"

definition ip_listen :: "(u8 \<times> ip_addr \<times> ip_addr \<times> bytes) list \<Rightarrow> (IpKey, udp_session) hashmap" where
  "ip_listen l = fold (\<lambda>(protocol, src, dest, b). ip_listen_packet protocol src dest b) l []"

definition payloads_of :: "IpKey \<Rightarrow> (u8 \<times> ip_addr \<times> ip_addr \<times> bytes) list \<Rightarrow> bytes list" where
  "payloads_of key l = map (snd \<circ> snd \<circ> snd) (filter (\<lambda>x. key_of x = Some key) l)"

lemma mapped_datagram_get:
  "hm_get (mapped_datagram k b m) k' =
     (if k' \<noteq> k then hm_get m k'
      else case get_or_default \<lparr>ch_queue = [], ch_closed = False\<rparr> (hm_get m k) of tx \<Rightarrow>
        if ch_closed tx then None else if SESSION_CAPACITY \<le> length (ch_queue tx) then Some tx else Some (tx\<lparr>ch_queue := ch_queue tx @ [b]\<rparr>))"
  by (simp add: mapped_datagram_def Let_def hm_get_put hm_get_del get_or_default_def split: option.split)

lemma ip_listen_queue:
  "length (payloads_of key l) \<le> SESSION_CAPACITY \<Longrightarrow>
   hm_get (ip_listen l) key = (if payloads_of key l = [] then None else Some \<lparr>ch_queue = payloads_of key l, ch_closed = False\<rparr>)"
proof (induction l rule: rev_induct)
  case Nil
  show ?case by (simp add: ip_listen_def payloads_of_def)
next
  case (snoc x l)
  obtain protocol src dest b where x: "x = (protocol, src, dest, b)" by (cases x)
  have run: "ip_listen (l @ [x]) = ip_listen_packet protocol src dest b (ip_listen l)" by (simp add: ip_listen_def x)
  have "ip_listen_packet protocol src dest b m = (case key_of x of None \<Rightarrow> m | Some k \<Rightarrow> mapped_datagram k b m)" for m
    by (simp add: ip_listen_packet_def key_of_def x split: ip_addr.split)
  then have get: "ip_listen (l @ [x]) = (case key_of x of None \<Rightarrow> ip_listen l | Some k \<Rightarrow> mapped_datagram k b (ip_listen l))"
    by (simp add: run)
  show ?case
  proof (cases "key_of x = Some key")
    case True
    then have p: "payloads_of key (l @ [x]) = payloads_of key l @ [b]" by (simp add: payloads_of_def x)
    with snoc.prems have "length (payloads_of key l) < SESSION_CAPACITY" by simp
    with snoc.IH p True show ?thesis by (simp add: get mapped_datagram_get get_or_default_def)
  next
    case False
    then have "payloads_of key (l @ [x]) = payloads_of key l" by (simp add: payloads_of_def)
    with snoc False show ?thesis by (auto simp: get mapped_datagram_get split: option.splits)
  qed
qed

lemma feed_frames_takeWhile:
  "feed_frames ok f l =
     (takeWhile ok (map f l), Inl (if list_all ok (map f l) then Bail ''receive quic stream failed'' else OtherError))"
  by (induction l) (simp_all split: prod.split)

text \<open>
  C13. IP packets of a session arrive in order. The packets of one protocol, source and destination that the stack hands over, as long as they are at most
  128 before the session's task takes them, arrive at the peer, all of them, unchanged and in order. If its address translation is responsible for the
  destination they are handed to it, otherwise to its IP stack: one after the other until the first that is refused, so all of them if none is. Only a
  peer that is not responsible and has no IP stack, or none for want of a tunnel interface, takes none, without an error.
\<close>

theorem ip_session_in_order:
  fixes key :: IpKey and K :: sink_crates and manager :: "InternalNatInbound option" and l :: "(u8 \<times> ip_addr \<times> ip_addr \<times> bytes) list"
  defines "h \<equiv> \<lparr>iph_protocol = ucast (ik_protocol key), iph_src_ip = ik_src key, iph_dst_ip = ik_dest key\<rparr>"
    and "translated \<equiv> case manager of Some n \<Rightarrow> use_nat K n (ik_dest key) | None \<Rightarrow> False"
    and "without_tun \<equiv> case manager of Some n \<Rightarrow> in_no_tun n | None \<Rightarrow> False"
  defines "arriving \<equiv> map ((if translated then NatPayload else StackPayload) (ik_protocol key) (ik_src key) (ik_dest key)) (payloads_of key l)"
  assumes session: "hm_get (ip_listen l) key = Some session" and few: "length (payloads_of key l) \<le> SESSION_CAPACITY"
    and sends: "dest_sender C E H F key (ch_queue session) q = (Inr (c, b), q')"
    and codec: "codec_at H (Some (HsIp h))" and size: "length (enc H (Some (HsIp h))) < 2 ^ 16" and framing: "framing_ok F"
  shows "quic_stream_uni_handle K H ok F ip_socket manager b =
    (if translated \<or> ip_socket \<and> \<not> without_tun
     then (takeWhile ok arriving, Inl (if list_all ok arriving then Bail ''receive quic stream failed'' else OtherError))
     else ([], Inr ()))"
proof -
  have "ch_queue session = payloads_of key l" using ip_listen_queue [OF few] session by (auto split: if_splits)
  moreover have "b = send_handshake H (HsIp h) @ concat (map (fr_encode F) (ch_queue session))"
    using sends by (auto simp: dest_sender_def h_def split: prod.splits sum.splits)
  moreover have "fr_decode F (concat (map (fr_encode F) (payloads_of key l))) = payloads_of key l"
    using framing by (simp add: framing_ok_def)
  moreover have parts: "iph_dst_ip h = ik_dest key" "iph_src_ip h = ik_src key" "ucast (iph_protocol h) = ik_protocol key"
    by (simp_all add: h_def ucast_port)
  ultimately have "quic_stream_uni_handle K H ok F ip_socket manager b =
      (if translated then feed_frames ok (NatPayload (ik_protocol key) (ik_src key) (ik_dest key)) (payloads_of key l)
       else if without_tun \<or> \<not> ip_socket then ([], Inr ())
       else feed_frames ok (StackPayload (ik_protocol key) (ik_src key) (ik_dest key)) (payloads_of key l))"
    by (simp add: quic_stream_uni_handle_def recv_send_handshake [OF codec size] ip_proxy_def Let_def translated_def without_tun_def parts
        cong: option.case_cong)
  then show ?thesis by (simp add: feed_frames_takeWhile arriving_def)
qed

section \<open>Examples\<close>

definition demo_quic_env :: quic_env where
  "demo_quic_env = \<lparr>qn_connect = (\<lambda>i ip. Inr i), qn_opens = (\<lambda>i kind c. c \<noteq> 7)\<rparr>"

definition demo_client :: QuicTunnelClient where
  "demo_client = \<lparr>qt_network = Some demo_net, qt_external_route = [], qt_connection_map = [(0x0A1A0005, Some 7)]\<rparr>"

abbreviation demo_contains :: net_contains where "demo_contains \<equiv> oc_contains demo_crates"

lemma demo_conns: "conns_ok demo_quic_env (qt_connection_map demo_client)"
  by (auto simp: conns_ok_def demo_client_def demo_quic_env_def split: if_splits)

lemma demo_in_net: "demo_contains (addr_network demo_net) 0x0A1A0005" "qt_network demo_client = Some demo_net"
  by (simp_all add: demo_crates_def addr_network_def demo_net_def demo_client_def)

lemma demo_peer_of: "stream_peer demo_contains demo_client 0x0A1A0005 = Inr 0x0A1A0005"
  by (simp add: stream_peer_def demo_in_net)

lemma dead_connection_replaced_witness:
  "open_stream demo_contains demo_quic_env Bi 0x0A1A0005 demo_client = (Inr 2, demo_client\<lparr>qt_connection_map := [(0x0A1A0005, Some 2)]\<rparr>)"
  by (subst dead_connection_replaced [OF demo_peer_of, where old = 7]) (simp_all add: demo_client_def demo_quic_env_def)

lemma demo_opens: "open_stream demo_contains demo_quic_env Bi 0x0A1A0005 demo_client = (Inr 2, demo_client\<lparr>qt_connection_map := [(0x0A1A0005, Some 2)]\<rparr>)"
  by (simp add: open_stream_def demo_peer_of) (simp add: demo_client_def demo_quic_env_def open_to_def open_round_def get_or_default_def)

theorem stream_goes_to_peer_witness:
  "\<exists>q'. open_stream demo_contains demo_quic_env Bi 0x0A1A0005 demo_client = (Inr 2, q') \<and> conns_ok demo_quic_env (qt_connection_map q') \<and>
     (\<exists>i. qn_connect demo_quic_env i 0x0A1A0005 = Inr 2) \<and> hm_get (qt_connection_map q') 0x0A1A0005 = Some (Some 2)"
  using stream_goes_to_peer [OF demo_conns demo_in_net(2), where C = demo_contains and kind = Bi and dest = "0x0A1A0005"] demo_in_net(1) demo_opens by simp

definition demo_tcp_handshake :: Handshake where
  "demo_tcp_handshake = HsTcp \<lparr>tch_src_ip = 0x0A1A0002, tch_src_port = 5000, tch_dst_ip = 0x0A1A0005, tch_dst_port = 80\<rparr>"

definition demo_mapping_manager :: PortMappingManager where
  "demo_mapping_manager = \<lparr>pmm_no_tun = False, pmm_allow_port_mapping = False, pmm_network = None\<rparr>"

lemma length_codec_for [simp]: "length (enc (codec_for m) m) = 1"
  by (simp add: codec_for_def)

theorem proxied_tcp_keeps_ends_witness:
  "\<exists>b. fst (tcp_stream_open demo_contains demo_quic_env (codec_for (Some demo_tcp_handshake)) (IpV4 0x0A1A0005, 80) (IpV4 0x0A1A0002, 5000) demo_client) = Inr (2, b) \<and>
     quic_stream_bi_handle (ic_sinks demo_in) (codec_for (Some demo_tcp_handshake)) True None demo_mapping_manager (b @ [1, 2, 3]) =
       Inr (StackTcp (0x0A1A0002, 5000) (0x0A1A0005, 80), [1, 2, 3])"
proof -
  let ?H = "codec_for (Some demo_tcp_handshake)"
  let ?h = "\<lparr>tch_src_ip = 0x0A1A0002, tch_src_port = ucast (5000 :: u16), tch_dst_ip = 0x0A1A0005, tch_dst_port = ucast (80 :: u16)\<rparr>"
  have h: "HsTcp ?h = demo_tcp_handshake" by (simp add: demo_tcp_handshake_def)
  obtain b q' where run: "tcp_stream_open demo_contains demo_quic_env ?H (IpV4 0x0A1A0005, 80) (IpV4 0x0A1A0002, 5000) demo_client = (Inr (2, b), q')"
    by (simp add: tcp_stream_open_def demo_opens)
  have "quic_stream_bi_handle (ic_sinks demo_in) ?H True None demo_mapping_manager (b @ [1, 2, 3]) = Inr (StackTcp (0x0A1A0002, 5000) (0x0A1A0005, 80), [1, 2, 3])"
    by (rule proxied_tcp_keeps_ends [OF run, THEN conjunct1], unfold h) (simp_all add: codec_at_for)
  with run show ?thesis by simp
qed

lemma proxied_streams_confined_witness:
  "proxy_allowed (ic_sinks demo_in) True None demo_mapping_manager (StackTcp (0x0A1A0002, 5000) (0x0A1A0005, 80)) \<and>
   stack_recv_task (ic_sinks demo_in) [] (Some demo_net) [demo_ip 0x0A1A0005] = ([TunData (demo_ip 0x0A1A0005)], True)"
proof -
  let ?H = "codec_for (Some demo_tcp_handshake)"
  have read: "recv_handshake ?H (send_handshake ?H demo_tcp_handshake @ []) = Inr (Some demo_tcp_handshake, [])"
    by (rule recv_send_handshake) (simp_all add: codec_at_for)
  have stream: "quic_stream_bi_handle (ic_sinks demo_in) ?H True None demo_mapping_manager (send_handshake ?H demo_tcp_handshake @ []) =
      Inr (StackTcp (0x0A1A0002, 5000) (0x0A1A0005, 80), [])"
    unfolding quic_stream_bi_handle_def read by (simp add: demo_tcp_handshake_def tcp_proxy_def)
  have out: "stack_recv_task (ic_sinks demo_in) [] (Some demo_net) [demo_ip 0x0A1A0005] = ([TunData (demo_ip 0x0A1A0005)], True)"
    by code_simp
  from proxied_streams_confined [OF stream out, of "TunData (demo_ip 0x0A1A0005)"] out show ?thesis by simp
qed

lemma relay_writes_prefixes_witness: "relay_steps True relay_new relay_new \<and> prefix (cp_done (rl_copy relay_new Up)) []"
  using relay_writes_prefixes [of True relay_new Up] by (simp add: relay_new_def copy_new_def)

text \<open>A framing by escaping: 1 before each byte, 0 at the end of a frame.\<close>

fun unescape :: "bytes \<Rightarrow> bytes \<Rightarrow> bytes list" where
  "unescape acc (x # y # r) = (if x = 0 then acc # unescape [] (y # r) else unescape (acc @ [y]) r)"
| "unescape acc [x] = (if x = 0 then [acc] else [])"
| "unescape acc [] = []"

definition toy_framing :: framing where
  "toy_framing = \<lparr>fr_encode = (\<lambda>b. concat (map (\<lambda>x. [1, x]) b) @ [0]), fr_decode = unescape []\<rparr>"

lemma unescape_end: "unescape acc (0 # r) = acc # unescape [] r"
  by (cases r) simp_all

lemma unescape_frame: "unescape acc (concat (map (\<lambda>x. [1, x]) b) @ 0 # r) = (acc @ b) # unescape [] r"
  by (induction b arbitrary: acc) (simp_all add: unescape_end)

lemma toy_framing_ok: "framing_ok toy_framing"
  unfolding framing_ok_def
proof
  fix l
  show "fr_decode toy_framing (concat (map (fr_encode toy_framing) l)) = l"
    by (induction l) (simp_all add: toy_framing_def unescape_frame)
qed

definition demo_ip_key :: IpKey where
  "demo_ip_key = \<lparr>ik_protocol = 1, ik_src = 0x0A1A0002, ik_dest = 0x0A1A0005\<rparr>"

definition demo_ip_packets :: "(u8 \<times> ip_addr \<times> ip_addr \<times> bytes) list" where
  "demo_ip_packets = [(1, IpV4 0x0A1A0002, IpV4 0x0A1A0005, [8]), (17, IpV4 0x0A1A0002, IpV4 0x0A1A0005, [9]), (1, IpV4 0x0A1A0002, IpV4 0x0A1A0005, [])]"

definition demo_translation :: "bool \<Rightarrow> InternalNatInbound" where
  "demo_translation no_tun = \<lparr>in_no_tun = no_tun, in_allow_subnet = [], in_network = Some demo_net\<rparr>"

lemma demo_use_nat: "in_no_tun (demo_translation no_tun) = no_tun" "use_nat (ic_sinks demo_in) (demo_translation no_tun) 0x0A1A0005 = no_tun"
  by (simp_all add: use_nat_def allow_nat_def nat_network_contains_def demo_translation_def shared_network_def addr_network_def
      demo_in_def demo_crates_def demo_net_def)

theorem ip_session_in_order_witness:
  "\<exists>b q'. (let H = codec_for (Some (HsIp \<lparr>iph_protocol = 1, iph_src_ip = 0x0A1A0002, iph_dst_ip = 0x0A1A0005\<rparr>)) in
    dest_sender demo_contains demo_quic_env H toy_framing demo_ip_key [[8], []] demo_client = (Inr (2, b), q') \<and>
    quic_stream_uni_handle (ic_sinks demo_in) H (\<lambda>_. True) toy_framing True (Some (demo_translation False)) b =
      ([StackPayload 1 0x0A1A0002 0x0A1A0005 [8], StackPayload 1 0x0A1A0002 0x0A1A0005 []], Inl (Bail ''receive quic stream failed'')) \<and>
    quic_stream_uni_handle (ic_sinks demo_in) H (\<lambda>a. a \<noteq> NatPayload 1 0x0A1A0002 0x0A1A0005 []) toy_framing True (Some (demo_translation True)) b =
      ([NatPayload 1 0x0A1A0002 0x0A1A0005 [8]], Inl OtherError))"
proof -
  let ?H = "codec_for (Some (HsIp \<lparr>iph_protocol = 1, iph_src_ip = 0x0A1A0002, iph_dst_ip = 0x0A1A0005\<rparr>))"
  have key: "hm_get (ip_listen demo_ip_packets) demo_ip_key = Some \<lparr>ch_queue = [[8], []], ch_closed = False\<rparr>"
    and p: "payloads_of demo_ip_key demo_ip_packets = [[8], []]" by code_simp+
  have "open_stream demo_contains demo_quic_env Uni 0x0A1A0005 demo_client = (Inr 2, demo_client\<lparr>qt_connection_map := [(0x0A1A0005, Some 2)]\<rparr>)"
    by (simp add: open_stream_def demo_peer_of) (simp add: demo_client_def demo_quic_env_def open_to_def open_round_def get_or_default_def)
  then obtain b q' where run: "dest_sender demo_contains demo_quic_env ?H toy_framing demo_ip_key [[8], []] demo_client = (Inr (2, b), q')"
    by (simp add: dest_sender_def demo_ip_key_def)
  have arrives: "quic_stream_uni_handle (ic_sinks demo_in) ?H ok toy_framing True (Some (demo_translation no_tun)) b =
      (let l = map ((if no_tun then NatPayload else StackPayload) 1 0x0A1A0002 0x0A1A0005) [[8], []]
       in (takeWhile ok l, Inl (if list_all ok l then Bail ''receive quic stream failed'' else OtherError)))" for ok no_tun
  proof -
    have few: "length (payloads_of demo_ip_key demo_ip_packets) \<le> SESSION_CAPACITY" by (simp add: p SESSION_CAPACITY_def)
    have hs: "\<lparr>iph_protocol = ucast (ik_protocol demo_ip_key), iph_src_ip = ik_src demo_ip_key, iph_dst_ip = ik_dest demo_ip_key\<rparr> =
      \<lparr>iph_protocol = 1, iph_src_ip = 0x0A1A0002, iph_dst_ip = 0x0A1A0005\<rparr>" by (simp add: demo_ip_key_def)
    have "codec_at ?H (Some (HsIp \<lparr>iph_protocol = 1, iph_src_ip = 0x0A1A0002, iph_dst_ip = 0x0A1A0005\<rparr>))"
      "length (enc ?H (Some (HsIp \<lparr>iph_protocol = 1, iph_src_ip = 0x0A1A0002, iph_dst_ip = 0x0A1A0005\<rparr>))) < 2 ^ 16"
      by (simp_all add: codec_at_for)
    note result = ip_session_in_order [OF key few _ this [folded hs] toy_framing_ok, of demo_contains demo_quic_env demo_client 2 b q'
        "ic_sinks demo_in" ok True "Some (demo_translation no_tun)"]
    show ?thesis
      using result [unfolded p] run by (cases no_tun) (simp_all add: demo_ip_key_def demo_use_nat)
  qed
  show ?thesis unfolding Let_def using run by (intro exI [of _ b] exI [of _ q']) (simp add: arrives)
qed

end
