(* ===== verification/Network_Core.thy ===== *)
theory Network_Core
  imports Quic_Proxy Server_Connection Task_Control Launch_Config Ipc_Link
begin

text \<open>
  Putting a node together: \<open>NetworkManager\<close> of \<open>core/mod.rs\<close> creates the components from the configuration, registers, and starts
  the network interface, whose device is kept by \<open>DeviceIOManager\<close> (\<open>tun/general.rs\<close>); \<open>src/main_cli.rs\<close> runs it all.

  The parts share their state: \<open>node_outbound\<close> and \<open>node_handler\<close> are the sending and the receiving half as they see the application
  state of a moment. What the system grants (sockets, stacks, devices) is an argument.
\<close>

section \<open>The device of the interface\<close>

record DeviceConfig =
  dc_tun_name :: "string option"
  dc_tun_fd :: "int option"
  dc_mtu :: "u16 option"

definition device_config_default :: DeviceConfig where
  "device_config_default = \<lparr>dc_tun_name = None, dc_tun_fd = None, dc_mtu = None\<rparr>"

text \<open>What is asked of the system; without a file descriptor the name and the MTU that are set.\<close>

datatype device_request = FromFd int | Build "string option" "u16 option"

definition create_tun :: "DeviceConfig \<Rightarrow> device_request" where
  "create_tun config =
     (case dc_tun_fd config of Some fd \<Rightarrow> FromFd fd | None \<Rightarrow> Build (dc_tun_name config) (dc_mtu config))"

text \<open>A device with the two tasks of its interface, and the address the system has set for it.\<close>

record DeviceTask =
  dt_request :: device_request
  dt_recv :: "nat option"
  dt_send :: "nat option"
  dt_address :: "(ipv4 \<times> u8) option"

record DeviceIOManager =
  di_task :: "DeviceTask option"
  di_network :: "(ipv4 \<times> u8) option"

definition device_manager_new :: DeviceIOManager where
  "device_manager_new = \<lparr>di_task = None, di_network = None\<rparr>"

definition stop_sub_task :: "nat option \<Rightarrow> TaskGroup \<Rightarrow> TaskGroup" where
  "stop_sub_task i g = (case i of None \<Rightarrow> g | Some i \<Rightarrow> abort_task i g)"

definition device_stop_task :: "DeviceIOManager \<times> TaskGroup \<Rightarrow> DeviceIOManager \<times> TaskGroup" where
  "device_stop_task = (\<lambda>(d, g).
     case di_task d of
       None \<Rightarrow> (d, g)
     | Some dev \<Rightarrow> (d\<lparr>di_task := None\<rparr>, stop_sub_task (dt_send dev) (stop_sub_task (dt_recv dev) g)))"

definition device_create ::
  "(device_request \<Rightarrow> bool) \<Rightarrow> DeviceConfig \<Rightarrow> TaskGroup \<Rightarrow> TaskGroup \<times> DeviceTask result" where
  "device_create makes config g =
     (if \<not> makes (create_tun config) then (g, Inl (Bail ''create tun''))
      else case group_spawn g of (task_recv, g) \<Rightarrow> case group_spawn g of (task_send, g) \<Rightarrow>
        (g, Inr \<lparr>dt_request = create_tun config, dt_recv = task_recv, dt_send = task_send, dt_address = None\<rparr>))"

definition device_start_task ::
  "(device_request \<Rightarrow> bool) \<Rightarrow> DeviceConfig \<Rightarrow> DeviceIOManager \<times> TaskGroup \<Rightarrow> (DeviceIOManager \<times> TaskGroup) \<times> unit result" where
  "device_start_task makes config dg =
     (case device_stop_task dg of
        (d, g) \<Rightarrow>
          (case device_create makes config g of
             (g, Inl e) \<Rightarrow> ((d, g), Inl e)
           | (g, Inr task) \<Rightarrow> ((d\<lparr>di_task := Some task\<rparr>, g), Inr ())))"

definition tun_if_index :: "(device_request \<Rightarrow> u32 result) \<Rightarrow> DeviceIOManager \<Rightarrow> u32 result" where
  "tun_if_index if_index d = (case di_task d of Some v \<Rightarrow> if_index (dt_request v) | None \<Rightarrow> Inl (Bail ''device doesn't exist''))"

definition device_set_network :: "(ipv4 \<Rightarrow> u8 \<Rightarrow> bool) \<Rightarrow> ipv4 \<Rightarrow> u8 \<Rightarrow> DeviceIOManager \<Rightarrow> DeviceIOManager \<times> unit result" where
  "device_set_network sets ip prefix_len d =
     (case di_task d of
        None \<Rightarrow> (d, Inl (Bail ''tun not started''))
      | Some dev \<Rightarrow>
          if di_network d = Some (ip, prefix_len) then (d, Inr ())
          else if sets ip prefix_len
          then (d\<lparr>di_task := Some (dev\<lparr>dt_address := Some (ip, prefix_len)\<rparr>), di_network := Some (ip, prefix_len)\<rparr>, Inr ())
          else (d, Inl (Bail ''set ip'')))"

text \<open>
  The two tasks: \<open>in_tun_loop\<close> writes what the tunnel delivers and ends with the first write that fails; \<open>out_tun_loop\<close> hands on
  what is read and ends with the first error of a read.
\<close>

fun in_tun_loop :: "(bytes \<Rightarrow> bool) \<Rightarrow> transmission list \<Rightarrow> bytes list \<times> unit result" where
  "in_tun_loop ok [] = ([], Inr ())"
| "in_tun_loop ok (data # l) =
     (let b = tun_encode data [] in
      if ok b then (case in_tun_loop ok l of (out, r) \<Rightarrow> (b # out, r)) else ([], Inl OtherError))"

fun out_tun_loop ::
  "('k, 'c) out_crates \<Rightarrow> pnet \<Rightarrow> bool \<Rightarrow> transmission result list \<Rightarrow> ('k, 'c) HybridOutbound \<Rightarrow>
   ('k, 'c) HybridOutbound \<times> 'k out_event list \<times> unit result" where
  "out_tun_loop W P oq [] h = (h, [], Inr ())"
| "out_tun_loop W P oq (Inl e # l) h = (h, [], Inl e)"
| "out_tun_loop W P oq (Inr data # l) h =
     (case enhanced_ipv4_outbound W P oq data h of (h, es) \<Rightarrow>
        (case out_tun_loop W P oq l h of (h, es', r) \<Rightarrow> (h, es @ es', r)))"

section \<open>Creating the network\<close>

text \<open>The tasks of the components, in the order they are started.\<close>

datatype core_part =
    MyNatInfo | UdpPublicAddr | TcpPublicAddr | RouteTimeout | PunchTask | PingAll | RelayProbe
  | FecWorker
  | NatIcmp | NatTcp | NatUdp | NatUdpGc | NatStackRecv
  | QuicOutbound
  | QuicPart started
  | TunnelDispatch

datatype core_call = NewTunnel | NewNatStack | NewNatIcmp | NewNatTcp | NewNatUdp | QuicCall boot_call

record core_env =
  cv_ok :: "core_call \<Rightarrow> bool"
  cv_bind :: "ip_proto \<Rightarrow> SocketAddr \<Rightarrow> bool"
  cv_makes :: "device_request \<Rightarrow> bool"
  cv_sets :: "ipv4 \<Rightarrow> u8 \<Rightarrow> bool"
  cv_if_index :: "device_request \<Rightarrow> u32 result"

record 'k CoreNetwork =
  co_config :: Config
  co_net :: "'k NetworkManager"
  co_task_group :: TaskGroup
  co_device :: DeviceIOManager
  co_enhanced_outbound :: "bool option"
  co_tun_receiver :: bool

definition node_mtu :: "Config \<Rightarrow> u16" where
  "node_mtu config = get_or_default DEFAULT_MTU (cfg_mtu config)"

definition has_nat :: "Config \<Rightarrow> bool" where
  "has_nat config \<longleftrightarrow> \<not> (cfg_no_nat config \<and> \<not> cfg_no_tun config)"

definition node_nat :: "Config \<Rightarrow> SharedNetworkAddr \<Rightarrow> InternalNatInbound option" where
  "node_nat config network =
     (if has_nat config
      then Some \<lparr>in_no_tun = cfg_no_tun config, in_allow_subnet = allow_new (cfg_output config), in_network = network\<rparr> else None)"

definition node_inbound :: "Config \<Rightarrow> SharedNetworkAddr \<Rightarrow> EnhancedInbound result" where
  "node_inbound config network =
     rbind (if cfg_no_tun config then rbind (ok_or Panic (node_nat config network)) (\<lambda>n. Inr (Nat n)) else Inr (Tun (allow_new (cfg_output config))))
       (\<lambda>tun. Inr \<lparr>ei_tun_data_inbound = tun, ei_internal_nat_inbound = node_nat config network\<rparr>)"

definition node_quic_config :: "Config \<Rightarrow> QuicTunnelConfig" where
  "node_quic_config config =
     \<lparr>qc_mtu = node_mtu config, qc_password = get_or_default ''password'' (cfg_password config), qc_open_quic_client = cfg_rtx config,
      qc_port_mapping = cfg_port_mapping config\<rparr>"

definition node_mapping_manager :: "Config \<Rightarrow> SharedNetworkAddr \<Rightarrow> PortMappingManager" where
  "node_mapping_manager config network =
     \<lparr>pmm_no_tun = cfg_no_tun config, pmm_allow_port_mapping = cfg_allow_port_mapping config, pmm_network = network\<rparr>"

definition node_crypto :: "'c aead \<Rightarrow> Config \<Rightarrow> 'c option" where
  "node_crypto A config = pc_new_from_str A (map_option utf8 (cfg_password config))"

definition node_outbound :: "'c aead \<Rightarrow> Config \<Rightarrow> 'k AppState \<Rightarrow> ('k, 'c) HybridOutbound" where
  "node_outbound A config s =
     (let pc = node_crypto A config in
      \<lparr>ho_network = as_network s, ho_server_info = as_server_info s, ho_traffic_stats = as_traffic_stats s,
       ho_basic_outbound = \<lparr>bo_server = fst (snd (create_server_tunnel A config pc)),
         bo_p2p = (if cfg_no_punch config then None else Some \<lparr>po_route_table = as_route_table s, po_crypto = pc\<rparr>), bo_crypto = pc\<rparr>,
       ho_compression = packet_compression_new (cfg_compress config), ho_external_route = as_subnet_route s,
       ho_fec_encoder = (if cfg_fec config then Some [] else None)\<rparr>)"

definition node_handler :: "'c aead \<Rightarrow> Config \<Rightarrow> EnhancedInbound \<Rightarrow> 'k AppState \<Rightarrow> ('k, 'c) P2pInboundHandler" where
  "node_handler A config inbound s =
     \<lparr>pi_network_route = \<lparr>nr_network = as_network s, nr_subnet_route = as_subnet_route s\<rparr>, pi_crypto = node_crypto A config,
      pi_compression = packet_compression_new (cfg_compress config), pi_enhanced_inbound = inbound\<rparr>"

text \<open>
  \<open>create_network\<close>: what has been started, also when it fails on the way, and the network. The parts of the tunnel are started by
  \<open>init_tunnel\<close>, the dispatcher at the end, when the handler exists.
\<close>

fun try_calls :: "(core_call \<Rightarrow> bool) \<Rightarrow> (core_call \<times> core_part list) list \<Rightarrow> core_part list \<times> unit result" where
  "try_calls ok [] = ([], Inr ())"
| "try_calls ok ((c, l) # cs) = (if ok c then (case try_calls ok cs of (l', r) \<Rightarrow> (l @ l', r)) else ([], Inl OtherError))"

definition init_tunnel :: "core_env \<Rightarrow> Config \<Rightarrow> core_part list \<times> unit result" where
  "init_tunnel V config =
     (if cfg_no_punch config then ([], Inr ())
      else try_calls (cv_ok V) [(NewTunnel, [MyNatInfo, UdpPublicAddr, TcpPublicAddr, RouteTimeout, PunchTask, PingAll, RelayProbe])])"

definition create_nat :: "core_env \<Rightarrow> Config \<Rightarrow> core_part list \<times> unit result" where
  "create_nat V config =
     (if \<not> has_nat config then ([], Inr ())
      else try_calls (cv_ok V) [(NewNatStack, []), (NewNatIcmp, [NatIcmp]), (NewNatTcp, [NatTcp]), (NewNatUdp, [NatUdp, NatUdpGc, NatStackRecv])])"

definition enhanced_ipv4_tunnel :: "core_env \<Rightarrow> Config \<Rightarrow> core_part list \<times> bool option result" where
  "enhanced_ipv4_tunnel V config =
     (case quic_tunnel_start (cv_ok V \<circ> QuicCall) (cv_bind V) (node_quic_config config) (\<not> cfg_no_tun config) of
        (l, r) \<Rightarrow> (map QuicPart l, r))"

definition spawn_all :: "'a list \<Rightarrow> TaskGroup \<Rightarrow> TaskGroup" where
  "spawn_all l g = fold (\<lambda>_ g. snd (group_spawn g)) l g"

definition initial_state :: "Config \<Rightarrow> ServerInfoCollection \<Rightarrow> 'k AppState" where
  "initial_state config info =
     set_config config (app_state_default\<lparr>as_server_info := info, as_subnet_route := set_route_table (cfg_input config) []\<rparr>)"

definition create_network ::
  "'c aead \<Rightarrow> core_env \<Rightarrow> Config \<Rightarrow> TaskGroup \<Rightarrow> (core_part list \<times> TaskGroup) \<times> 'k CoreNetwork result" where
  "create_network A V config g =
     (case config_check config of
        Inl e \<Rightarrow> (([], g), Inl e)
      | Inr _ \<Rightarrow>
          (case create_server_tunnel A config (node_crypto A config) of
             (Inl e, _) \<Rightarrow> (([], g), Inl e)
           | (Inr ms, _, info) \<Rightarrow>
           case init_tunnel V config of
             (l1, Inl e) \<Rightarrow> ((l1, spawn_all l1 g), Inl e)
           | (l1, Inr _) \<Rightarrow>
               let l2 = l1 @ (if cfg_fec config then [FecWorker] else []) in
               (case create_nat V config of
                  (n, Inl e) \<Rightarrow> ((l2 @ n, spawn_all (l2 @ n) g), Inl e)
                | (n, Inr _) \<Rightarrow>
                    (case node_inbound config None of
                       Inl e \<Rightarrow> ((l2 @ n, spawn_all (l2 @ n) g), Inl e)
                     | Inr _ \<Rightarrow>
                         (case enhanced_ipv4_tunnel V config of
                            (q, Inl e) \<Rightarrow> ((l2 @ n @ q, spawn_all (l2 @ n @ q) g), Inl e)
                          | (q, Inr outbound) \<Rightarrow>
                              let l = l2 @ n @ q @ (if cfg_no_punch config then [] else [TunnelDispatch]); g = spawn_all l g in
                              ((l, g), Inr \<lparr>co_config = config,
                                 co_net = \<lparr>nm_app_state = initial_state config info, nm_registration_context = Some ms\<rparr>,
                                 co_task_group = g, co_device = device_manager_new, co_enhanced_outbound = outbound,
                                 co_tun_receiver = (\<not> cfg_no_tun config)\<rparr>))))))"

section \<open>Its operations\<close>

text \<open>
  \<open>register\<close> gives the managers to one task each; \<open>start_tun\<close> takes the two ends of the interface away before it starts the device.
\<close>

definition core_register :: "'a conn_env \<Rightarrow> 'k CoreNetwork \<Rightarrow> 'k CoreNetwork \<times> NetworkAddr result" where
  "core_register E c =
     (case register E (co_net c) of
        (n, Inl e) \<Rightarrow> (c\<lparr>co_net := n\<rparr>, Inl e)
      | (n, Inr (addr, managers)) \<Rightarrow> (c\<lparr>co_net := n, co_task_group := spawn_all managers (co_task_group c)\<rparr>, Inr addr))"

definition start_device :: "string \<Rightarrow> core_env \<Rightarrow> DeviceConfig \<Rightarrow> 'k CoreNetwork \<Rightarrow> 'k CoreNetwork \<times> unit result" where
  "start_device op V config c =
     (if \<not> co_tun_receiver c then (c, Inl (Bail (op @ '' can only be called once'')))
      else let c = c\<lparr>co_tun_receiver := False\<rparr> in
      case co_enhanced_outbound c of
        None \<Rightarrow> (c, Inl (Bail (op @ '' can only be called once'')))
      | Some oq \<Rightarrow>
          (case device_start_task (cv_makes V) config (co_device c, co_task_group c) of
             ((d, g), r) \<Rightarrow> (c\<lparr>co_enhanced_outbound := None, co_device := d, co_task_group := g\<rparr>, r)))"

definition start_tun :: "core_env \<Rightarrow> 'k CoreNetwork \<Rightarrow> 'k CoreNetwork \<times> unit result" where
  "start_tun V c = start_device ''start_tun'' V (device_config_default\<lparr>dc_mtu := Some (node_mtu (co_config c)), dc_tun_name := cfg_tun_name (co_config c)\<rparr>) c"

definition start_tun_fd :: "core_env \<Rightarrow> int option \<Rightarrow> 'k CoreNetwork \<Rightarrow> 'k CoreNetwork \<times> unit result" where
  "start_tun_fd V fd c = start_device ''start_tun_fd'' V (device_config_default\<lparr>dc_tun_fd := fd, dc_tun_name := cfg_tun_name (co_config c)\<rparr>) c"

definition set_network_ip :: "core_env \<Rightarrow> ipv4 \<Rightarrow> u8 \<Rightarrow> 'k CoreNetwork \<Rightarrow> 'k CoreNetwork \<times> unit result" where
  "set_network_ip V ip prefix_len c =
     (case device_set_network (cv_sets V) ip prefix_len (co_device c) of (d, r) \<Rightarrow> (c\<lparr>co_device := d\<rparr>, r))"

text \<open>\<open>Drop\<close>: the group is stopped and the state of the network cleared.\<close>

definition core_drop :: "'k CoreNetwork \<Rightarrow> 'k CoreNetwork" where
  "core_drop c = c\<lparr>co_task_group := group_stop (co_task_group c),
     co_net := (co_net c)\<lparr>nm_app_state := app_stop_network (nm_app_state (co_net c))\<rparr>\<rparr>"

text \<open>What can happen to a network; the system may answer differently each time.\<close>

inductive core_step :: "'a conn_env \<Rightarrow> 'k CoreNetwork \<Rightarrow> 'k CoreNetwork \<Rightarrow> bool" for E where
  registers: "core_step E c (fst (core_register E c))"
| starts: "core_step E c (fst (start_tun V c))"
| starts_fd: "core_step E c (fst (start_tun_fd V fd c))"
| addresses: "core_step E c (fst (set_network_ip V ip prefix_len c))"
| tasks: "group_step (co_task_group c) g \<Longrightarrow> core_step E c (c\<lparr>co_task_group := g\<rparr>)"
| drops: "core_step E c (core_drop c)"

section \<open>The command line\<close>

datatype cli_event =
    ExampleWritten
  | NetworkUp NetworkAddr
  | TunUp
  | AddressSet ipv4 u8
  | RouteAdded NetInput bool
  | IpcStarted "u16 option"
  | GroupStopped

text \<open>
  \<open>main0\<close>: the arguments to what happens, until the network ends or Ctrl-C. Every end after the group is
  made drops its guard. \<open>cl_load\<close> reads a configuration file, \<open>cl_adds\<close> is whether the system
  takes a route, \<open>cl_route_manager\<close> whether it can be asked at all.

  Ctrl-C is waited for in the last loop only. One that comes before it, when some number \<open>early\<close> of the steps has been done, kills the process
  where it is: nothing is dropped and the group is not stopped. One that comes in the loop, or later, ends it like the end of the network.
\<close>

record cli_env =
  cl_launch :: launch_env
  cl_core :: core_env
  cl_example :: "unit result"
  cl_load :: "string \<Rightarrow> FileConfig result"
  cl_route_manager :: "unit result"
  cl_adds :: "NetInput \<Rightarrow> bool"

definition cli_routes :: "cli_env \<Rightarrow> DeviceIOManager \<Rightarrow> NetInput list \<Rightarrow> cli_event list \<times> unit result" where
  "cli_routes L d sub_input =
     (if sub_input = [] then ([], Inr ())
      else case rbind (tun_if_index (cv_if_index (cl_core L)) d) (\<lambda>_. cl_route_manager L) of
        Inl e \<Rightarrow> ([], Inl e)
      | Inr _ \<Rightarrow> (map (\<lambda>x. RouteAdded x (cl_adds L x)) sub_input, Inr ()))"

definition cli_interface :: "cli_env \<Rightarrow> Config \<Rightarrow> NetworkAddr \<Rightarrow> 'k CoreNetwork \<Rightarrow> 'k CoreNetwork \<times> cli_event list \<times> unit result" where
  "cli_interface L config addr c =
     (if cfg_no_tun config then (c, [], Inr ())
      else case start_tun (cl_core L) c of
        (c, Inl e) \<Rightarrow> (c, [], Inl e)
      | (c, Inr _) \<Rightarrow>
          (case set_network_ip (cl_core L) (na_ip addr) (na_prefix_len addr) c of
             (c, Inl e) \<Rightarrow> (c, [TunUp], Inl e)
           | (c, Inr _) \<Rightarrow>
               (case cli_routes L (co_device c) (cfg_input config) of
                  (es, r) \<Rightarrow> (c, [TunUp, AddressSet (na_ip addr) (na_prefix_len addr)] @ es, r))))"

text \<open>From the creation of the network to the start of the control port.\<close>

definition main_start ::
  "'c aead \<Rightarrow> 'a conn_env \<Rightarrow> cli_env \<Rightarrow> Config \<Rightarrow> CtrlConfig \<Rightarrow> 'k CoreNetwork option \<times> cli_event list \<times> unit result" where
  "main_start A E L config ctrl =
     (case create_network A (cl_core L) config group_new of
        (_, Inl e) \<Rightarrow> (None, [], Inl e)
      | (_, Inr c) \<Rightarrow>
          (case core_register E c of
             (c, Inl e) \<Rightarrow> (Some c, [], Inl e)
           | (c, Inr addr) \<Rightarrow>
               (case cli_interface L config addr c of
                  (c, es, Inl e) \<Rightarrow> (Some c, NetworkUp addr # es, Inl e)
                | (c, es, Inr _) \<Rightarrow>
                    (Some c, NetworkUp addr # es @ (if ctrl_port ctrl = Some 0 then [] else [IpcStarted (ctrl_port ctrl)]), Inr ()))))"

datatype 'k cli_end = CliEnded "'k CoreNetwork option" "unit result" | CliKilled

definition until_killed :: "nat option \<Rightarrow> cli_event list \<Rightarrow> 'k cli_end \<times> cli_event list \<Rightarrow> 'k cli_end \<times> cli_event list" where
  "until_killed early es finish =
     (case early of Some k \<Rightarrow> if k \<le> length es then (CliKilled, take k es) else finish | None \<Rightarrow> finish)"

definition main_run ::
  "'c aead \<Rightarrow> 'a conn_env \<Rightarrow> cli_env \<Rightarrow> nat option \<Rightarrow> Config \<Rightarrow> CtrlConfig \<Rightarrow> 'k cli_end \<times> cli_event list" where
  "main_run A E L early config ctrl =
     (case main_start A E L config ctrl of
        (n, es, r) \<Rightarrow> until_killed early es (CliEnded (map_option core_drop n) r, es @ [GroupStopped]))"

definition main0 ::
  "'c aead \<Rightarrow> 'a conn_env \<Rightarrow> cli_env \<Rightarrow> nat option \<Rightarrow> Args \<Rightarrow> 'k cli_end \<times> cli_event list" where
  "main0 A E L early args =
     (let args = parse_compatible args; failed = (\<lambda>e. until_killed early [] (CliEnded None (Inl e), [])) in
      if ar_conf_example args then (case cl_example L of
          Inl e \<Rightarrow> failed e | Inr _ \<Rightarrow> until_killed early [ExampleWritten] (CliEnded None (Inr ()), [ExampleWritten]))
      else case (case ar_conf args of None \<Rightarrow> Inr None | Some path \<Rightarrow> rbind (cl_load L path) (\<lambda>f. Inr (Some f))) of
        Inl e \<Rightarrow> failed e
      | Inr file_cfg \<Rightarrow>
          (case build_config_from_args_and_file (cl_launch L) (Some args) file_cfg of
             Inl e \<Rightarrow> failed e
           | Inr (config, ctrl) \<Rightarrow> main_run A E L early config ctrl))"

section \<open>Lemmas\<close>

text \<open>
  The two ends of the interface are there together, until it is started, and then there is a device at most once; the address that is
  remembered is the one the device has.
\<close>

definition core_inv :: "Config \<Rightarrow> 'k CoreNetwork \<Rightarrow> bool" where
  "core_inv config c \<longleftrightarrow>
     co_config c = config \<and> as_config (nm_app_state (co_net c)) = Some config \<and>
     (co_tun_receiver c \<longleftrightarrow> co_enhanced_outbound c \<noteq> None) \<and>
     (co_tun_receiver c \<or> cfg_no_tun config \<longrightarrow> di_task (co_device c) = None) \<and>
     (cfg_no_tun config \<longrightarrow> \<not> co_tun_receiver c) \<and>
     di_network (co_device c) = (case di_task (co_device c) of None \<Rightarrow> None | Some dev \<Rightarrow> dt_address dev)"

lemma core_inv_register: "core_inv config c \<Longrightarrow> core_inv config (fst (core_register E c))"
  by (auto simp: core_inv_def core_register_def register_def Let_def split: option.splits sum.splits prod.splits)

lemma core_inv_start: "core_inv config c \<Longrightarrow> core_inv config (fst (start_device op V dc c))"
  by (auto simp: core_inv_def start_device_def device_start_task_def device_create_def device_stop_task_def Let_def
      split: option.splits prod.splits if_splits)

lemma core_inv_address: "core_inv config c \<Longrightarrow> core_inv config (fst (set_network_ip V ip prefix_len c))"
  by (auto simp: core_inv_def set_network_ip_def device_set_network_def split: option.splits prod.splits if_splits)

lemma core_inv_step: "core_step E c c' \<Longrightarrow> core_inv config c \<Longrightarrow> core_inv config c'"
  by (induction rule: core_step.induct)
    (simp_all add: core_inv_register core_inv_start core_inv_address start_tun_def start_tun_fd_def,
     auto simp: core_inv_def core_drop_def app_stop_network_def)

interpretation core: machine_keeps "core_step E" "core_inv config" for E config
  by unfold_locales (rule core_inv_step)

lemma receiver_gone_step: "core_step E c c' \<Longrightarrow> \<not> co_tun_receiver c \<Longrightarrow> \<not> co_tun_receiver c'"
  by (induction rule: core_step.induct)
    (auto simp: core_register_def start_tun_def start_tun_fd_def start_device_def set_network_ip_def core_drop_def Let_def
      split: option.splits sum.splits prod.splits)

interpretation receiver: machine_keeps "core_step E" "\<lambda>c. \<not> co_tun_receiver c" for E
  by unfold_locales (rule receiver_gone_step)

lemma receiver_taken: "\<not> co_tun_receiver (fst (start_device op V dc c))"
  by (auto simp: start_device_def Let_def split: option.splits prod.splits)

lemma collect_managers:
  "(\<And>i. i \<in> set is \<Longrightarrow> i < length (cfg_server_addr config)) \<Longrightarrow>
     \<exists>ms. collect_results (map (\<lambda>i. rbind (config_to_connect_config A config i) (\<lambda>c. Inr (turn_manager_new (of_nat i) c))) is) = Inr ms \<and>
       map tm_server_id ms = map of_nat is"
  by (induction "is") (auto simp: config_to_connect_config_def turn_manager_new_def)

lemma try_calls_no_panic: "snd (try_calls ok cs) \<noteq> Inl Panic"
  by (induction ok cs rule: try_calls.induct) (auto split: prod.splits)

lemma node_inbound_ok: "\<exists>b. node_inbound config net = Inr b"
  by (auto simp: node_inbound_def node_nat_def has_nat_def)


lemma try_calls_cases: "try_calls ok cs = (l, Inl e) \<Longrightarrow> e = OtherError"
  by (induction ok cs arbitrary: l rule: try_calls.induct) (auto split: prod.splits if_splits)

lemma guarded_cases: "guarded ok cs = (l, Inl e) \<Longrightarrow> e = OtherError"
  by (induction ok cs arbitrary: l rule: guarded.induct) (auto split: prod.splits if_splits)

lemma start_mappings_cases: "start_mappings bind p ms = (l, Inl e) \<Longrightarrow> e = Bail ''port mapping Failed to bind''"
  by (induction ms arbitrary: l) (auto split: prod.splits if_splits)

lemma init_no_panic: "init_tunnel V config = (l, Inl e) \<Longrightarrow> e \<noteq> Panic"
  unfolding init_tunnel_def by (auto dest: try_calls_cases split: if_splits)

lemma nat_no_panic: "create_nat V config = (l, Inl e) \<Longrightarrow> e \<noteq> Panic"
  unfolding create_nat_def by (auto dest: try_calls_cases split: if_splits)

lemma start_ports_cases: "port_mapping_start bind ms = (l, Inl e) \<Longrightarrow> e \<noteq> Panic"
proof -
  assume a: "port_mapping_start bind ms = (l, Inl e)"
  obtain l1 r1 where 1: "start_mappings (bind ProtoTcp) ProtoTcp ms = (l1, r1)" by fastforce
  obtain l2 r2 where 2: "start_mappings (bind ProtoUdp) ProtoUdp ms = (l2, r2)" by fastforce
  have "r1 = Inl e \<or> r2 = Inl e" using a unfolding port_mapping_start_def 1 2 by (cases r1) (simp_all add: case_unit_Unity)
  then have "e = Bail ''port mapping Failed to bind''" using start_mappings_cases 1 2 by metis
  then show ?thesis by simp
qed

lemma quic_no_panic: "enhanced_ipv4_tunnel V config = (l, Inl e) \<Longrightarrow> e \<noteq> Panic"
proof -
  assume "enhanced_ipv4_tunnel V config = (l, Inl e)"
  then obtain l where q: "quic_tunnel_start (cv_ok V \<circ> QuicCall) (cv_bind V) (node_quic_config config) (\<not> cfg_no_tun config) = (l, Inl e)"
    by (auto simp: enhanced_ipv4_tunnel_def split: prod.splits)
  obtain m rm where m: "guarded (cv_ok V \<circ> QuicCall)
      ((if \<not> cfg_no_tun config then [(MakeStack, []), (BindIpSocket, [StackRecvTask])] else []) @ [(MakeEndpoint, [ServerAccept (\<not> cfg_no_tun config)])])
      = (m, rm)" by fastforce
  show "e \<noteq> Panic"
  proof (cases rm)
    case (Inl e')
    with q m guarded_cases [OF m [unfolded Inl]] show ?thesis by (simp add: quic_tunnel_start_def del: guarded.simps)
  next
    case (Inr u)
    with q m show ?thesis
      by (auto simp: quic_tunnel_start_def Let_def simp del: guarded.simps dest: start_ports_cases split: prod.splits sum.splits if_splits)
  qed
qed

lemma check_no_panic: "config_check config = Inl e \<Longrightarrow> e \<noteq> Panic"
  by (auto simp: config_check_def split: if_splits)

lemma tunnel_outbound:
  "enhanced_ipv4_tunnel V config = (l, Inr outbound) \<Longrightarrow> outbound = None \<longleftrightarrow> cfg_no_tun config"
  by (auto simp: enhanced_ipv4_tunnel_def quic_tunnel_start_def node_quic_config_def Let_def split: prod.splits sum.splits if_splits)

lemma create_network_result:
  assumes run: "create_network A V config g = (l, r)"
  shows "case r of Inl e \<Rightarrow> e \<noteq> Panic
    | Inr c \<Rightarrow> core_inv config c \<and>
       (\<exists>ms. nm_registration_context (co_net c) = Some ms \<and> ms \<noteq> [] \<and>
          map tm_server_id ms = map of_nat [0..<length (cfg_server_addr config)])"
proof (cases "config_check config")
  case (Inl e)
  then show ?thesis using check_no_panic [OF Inl] run by (auto simp: create_network_def)
next
  case (Inr u)
  then have some: "cfg_server_addr config \<noteq> []" by (auto simp: config_check_def)
  obtain ms where ms: "fst (create_server_tunnel A config (node_crypto A config)) = Inr ms"
    "map tm_server_id ms = map of_nat [0..<length (cfg_server_addr config)]"
    using collect_managers [of "[0..<length (cfg_server_addr config)]" config A] by (auto simp: create_server_tunnel_def Let_def)
  have "ms \<noteq> []" using some arg_cong [OF ms(2), of length] by auto
  moreover obtain ob info where t: "create_server_tunnel A config (node_crypto A config) = (Inr ms, ob, info)"
    using ms(1) by (metis prod.collapse)
  ultimately show ?thesis
    using run Inr node_inbound_ok [of config None] ms(2)
    by (auto simp: create_network_def t Let_def core_inv_def initial_state_def set_config_def device_manager_new_def
        dest: init_no_panic nat_no_panic quic_no_panic tunnel_outbound split: sum.splits prod.splits)
qed

lemma addressed: "set_network_ip V ip l c = (c', Inr u) \<Longrightarrow> di_network (co_device c') = Some (ip, l)"
  by (auto simp: set_network_ip_def device_set_network_def split: prod.splits option.splits if_splits)

lemma routes_added: "cli_routes L d input = (es, Inr u) \<Longrightarrow> es = map (\<lambda>x. RouteAdded x (cl_adds L x)) input"
  by (auto simp: cli_routes_def split: if_splits sum.splits)

lemma interface_up:
  assumes "cli_interface L config addr c = (c', es, Inr u)"
  shows "es = (if cfg_no_tun config then [] else [TunUp, AddressSet (na_ip addr) (na_prefix_len addr)] @
      map (\<lambda>x. RouteAdded x (cl_adds L x)) (cfg_input config))"
    and "cfg_no_tun config \<or> di_network (co_device c') = Some (na_ip addr, na_prefix_len addr)"
proof -
  show "es = (if cfg_no_tun config then [] else [TunUp, AddressSet (na_ip addr) (na_prefix_len addr)] @
      map (\<lambda>x. RouteAdded x (cl_adds L x)) (cfg_input config))"
    using assms unfolding cli_interface_def by (auto dest: routes_added split: if_splits sum.splits prod.splits)
  show "cfg_no_tun config \<or> di_network (co_device c') = Some (na_ip addr, na_prefix_len addr)"
    using assms unfolding cli_interface_def by (auto dest: addressed split: if_splits sum.splits prod.splits)
qed

text \<open>An error ends the way up before its last step.\<close>

lemma interface_fails:
  assumes "cli_interface L config addr c = (c', es, Inl e)"
  shows "strict_prefix es ([TunUp, AddressSet (na_ip addr) (na_prefix_len addr)] @ map (\<lambda>x. RouteAdded x (cl_adds L x)) (cfg_input config))"
  using assms unfolding cli_interface_def cli_routes_def by (auto simp: strict_prefix_simps neq_Nil_conv split: if_splits sum.splits prod.splits)

definition torn_down :: "'k CoreNetwork \<Rightarrow> bool" where
  "torn_down c \<longleftrightarrow> tg_stopped (co_task_group c) \<and> tg_tasks (co_task_group c) = [] \<and> as_network (nm_app_state (co_net c)) = None"

lemma torn_down_drop: "torn_down (core_drop c)" "co_device (core_drop c) = co_device c"
  by (simp_all add: torn_down_def core_drop_def group_stop_def app_stop_network_def shared_clear_def)

lemma compressed_payload:
  assumes "np_ok (tb_slice t)" and "lz4_compress Z c t reserve = Inr t1" and "min_size c \<le> length (np_payload (tb_slice t))"
    and "length (compress_prepend_size Z (np_payload (tb_slice t))) < length (np_payload (tb_slice t))"
  shows "np_payload (tb_slice t1) = compress_prepend_size Z (np_payload (tb_slice t))"
proof -
  have h: "length (np_head (tb_slice t)) = HEAD_LENGTH" using assms(1) by (simp add: np_head_def np_ok_def)
  then have "np_ok (np_head (tb_slice t))" by (simp add: np_ok_def)
  moreover have "tb_slice t1 = np_set_compressed_flag True (np_head (tb_slice t) @ compress_prepend_size Z (np_payload (tb_slice t))) \<and> tb_wf t1"
    by (rule rebuilt_packet [OF assms(1), where t = "tb_zeroed_size (HEAD_LENGTH + length (compress_prepend_size Z (np_payload (tb_slice t)))) reserve"])
      (use assms(2-4) in \<open>simp_all add: lz4_compress_def Let_def tb_wf_zeroed_size\<close>)
  moreover have "length (np_set_compressed_flag True (np_head (tb_slice t))) = HEAD_LENGTH" using h calculation(1) by simp
  ultimately show ?thesis by (simp add: np_flag_append [OF h] np_payload_def)
qed

lemma compress_succeeds: "np_ok (tb_slice t) \<Longrightarrow> \<exists>t1. packet_compress Z pc t reserve = Inr t1"
  using rebuilt_packet_ok [of t "tb_zeroed_size (HEAD_LENGTH + length (compress_prepend_size Z (np_payload (tb_slice t)))) reserve"
      "compress_prepend_size Z (np_payload (tb_slice t))" True]
  by (auto simp: packet_compress_def lz4_compress_def Let_def tb_wf_zeroed_size split: option.splits)

lemma node_parts:
  "ho_fec_encoder (node_outbound A config s) = None \<longleftrightarrow> \<not> cfg_fec config"
  "bo_crypto (ho_basic_outbound (node_outbound A config s)) = node_crypto A config"
  "ho_compression (node_outbound A config s) = packet_compression_new (cfg_compress config)"
  "pi_crypto (node_handler A config b s') = node_crypto A config"
  "pi_compression (node_handler A config b s') = packet_compression_new (cfg_compress config)"
  "nr_network (pi_network_route (node_handler A config b s')) = as_network s'"
  "pi_enhanced_inbound (node_handler A config b s') = b"
  by (simp_all add: node_outbound_def node_handler_def Let_def)

lemma node_crypto_cong: "cfg_password c1 = cfg_password c2 \<Longrightarrow> node_crypto A c1 = node_crypto A c2"
  by (simp add: node_crypto_def)

lemma node_inbound_tun:
  "\<not> cfg_no_tun config \<Longrightarrow> node_inbound config net = Inr b \<Longrightarrow> ei_tun_data_inbound b = Tun (allow_new (cfg_output config))"
  by (auto simp: node_inbound_def)

text \<open>What is delivered for the interface from a packet is what the packet holds.\<close>

lemma delivered_content:
  assumes "enhanced_deliver K ei net Turn src content = (ds, r)" and "TunData b \<in> set ds"
  shows "b = tb_slice content"
  using assms
  by (auto simp: enhanced_deliver_def enhanced_tun_inbound_def tun_send_def nat_send_def Let_def no_send_def
      dest!: checked_sink_only split: option.splits EnhancedTunInbound.splits if_splits)

text \<open>The writer of the interface writes the packets in order up to the first that fails, and then no more.\<close>

lemma in_tun_loop_writes:
  "in_tun_loop ok l = (takeWhile ok (map (\<lambda>d. tun_encode d []) l),
     if list_all (\<lambda>d. ok (tun_encode d [])) l then Inr () else Inl OtherError)"
  by (induction l) (auto simp: Let_def)

text \<open>
  \<open>stop_task\<close> forgets the device and not its address: after a restart, setting the address that the device before had reports success and
  leaves the new device without one. \<open>NetworkManager\<close> starts only one device, so that only other uses of \<open>DeviceIOManager\<close> are affected.
\<close>

lemma restarted_device_without_address:
  assumes "device_set_network sets ip l d = (d1, Inr u)" and "device_start_task makes dc (d1, g) = ((d2, g2), Inr v)"
  shows "device_set_network sets' ip l d2 = (d2, Inr ())" "map_option dt_address (di_task d2) = Some None"
  using assms
  by (auto simp: device_set_network_def device_start_task_def device_create_def device_stop_task_def split: option.splits prod.splits if_splits)

section \<open>Properties\<close>

text \<open>
  C7. Creating a node does not panic, neither where it takes the address translation for granted when there is no interface nor where it
  indexes the configured servers. When it succeeds, there is at least one server and one manager for each, numbered in the order of the configuration, so
  that registration finds one; and the interface is as \<open>core_inv\<close> has it.
\<close>

theorem create_network_sound:
  "case snd (create_network A V config g :: _ \<times> 'k CoreNetwork result) of
     Inl e \<Rightarrow> e \<noteq> Panic
   | Inr c \<Rightarrow> core_inv config c \<and>
       (\<exists>ms. nm_registration_context (co_net c) = Some ms \<and> ms \<noteq> [] \<and>
          map tm_server_id ms = map of_nat [0..<length (cfg_server_addr config)])"
  by (rule create_network_result [OF prod.collapse [symmetric]])

text \<open>
  C8. The interface of a node is started at most once: from creation on, whatever is called in whatever order and whatever the system answers, the
  node keeps its configuration, has no device if it is to run without one, and remembers as address of the device the one
  the system has set. Once starting it was tried, successfully or not, every later try is refused and changes nothing.
\<close>

theorem interface_started_once:
  assumes "create_network A V config g = (l, Inr c0)" and "(core_step E)\<^sup>*\<^sup>* c0 c"
    and "(c1, r) = start_tun V1 c \<or> (c1, r) = start_tun_fd V1 fd c" and "(core_step E)\<^sup>*\<^sup>* c1 c2"
  shows "core_inv config c2 \<and> start_tun V2 c2 = (c2, Inl (Bail ''start_tun can only be called once'')) \<and>
    start_tun_fd V2 fd2 c2 = (c2, Inl (Bail ''start_tun_fd can only be called once''))"
proof -
  have "core_inv config c" using create_network_result [OF assms(1)] core.kept_run [OF assms(2)] by simp
  then have "core_inv config c1" "\<not> co_tun_receiver c1"
    using assms(3) core_inv_start receiver_taken unfolding start_tun_def start_tun_fd_def by (metis fst_conv)+
  then have "core_inv config c2" "\<not> co_tun_receiver c2" using core.kept_run receiver.kept_run assms(4) by blast+
  then show ?thesis
    by (simp_all add: start_tun_def start_tun_fd_def start_device_def)
qed


text \<open>
  C1. Two nodes made from their configurations: when the passwords are the same, the sender does not use FEC, the receiver decompresses
  if the sender compresses and has an interface, a packet read from the interface of the first, whatever the states of both, arrives unchanged
  at the interface of the second, if its address is the destination; this takes at most four relays.
\<close>

theorem configured_nodes_deliver:
  assumes "aead_correct (oc_aead W)" and "lz4_correct (oc_lz4 W)" and "ic_aead W' = oc_aead W" and "ic_lz4 W' = oc_lz4 W"
    and "cfg_password config2 = cfg_password config1" and "cfg_compress config1 \<longrightarrow> cfg_compress config2"
    and "\<not> cfg_fec config1" and "\<not> cfg_no_tun config2" and "node_inbound config2 (as_network s2) = Inr inbound"
    and "as_network s2 = Some own" and "na_ip net \<noteq> na_ip own"
    and "tun_decode cp ip = Inr (Some data)" and "ipv4_outbound W net data (node_outbound A config1 s1) = (h', es, r)"
    and "ToPeer k b \<in> set es \<or> ToServer i b life \<in> set es" and "relayed R b n b'" and "tb_wf buf" and "tb_slice buf = b'"
    and "oc_ipv4_destination W ip = Some (na_ip own)" and "next_hop W net (node_outbound A config1 s1) (na_ip own) = Some (na_ip own)"
    and "sc_ipv4_destination (ic_sinks W') ip = Some (na_ip own)" and "drop_bit 4 (ip ! 0) = 4"
    and "sc_contains (ic_sinks W') (addr_network own) (na_ip own)" and "sc_accepts (ic_sinks W') (TunData ip)"
  shows "next_handle_impl W' (node_handler A config2 inbound s2) buf key s =
      (s\<lparr>is_traffic := record_rx (na_ip net) (of_nat (HEAD_LENGTH + length ip)) (is_traffic s)\<rparr>,
       [Deliver (TunData ip)], Inr ()) \<and> n \<le> 4"
proof (rule tunnel_delivers [OF assms(1,2,12) _ assms(13-17) assms(3,4)])
  show "ho_fec_encoder (node_outbound A config1 s1) = None" using assms(7) by (simp add: node_parts)
  show "pi_crypto (node_handler A config2 inbound s2) = bo_crypto (ho_basic_outbound (node_outbound A config1 s1))"
    by (simp only: node_parts node_crypto_cong [OF assms(5)])
  show "pi_compression (node_handler A config2 inbound s2) = None \<longrightarrow> ho_compression (node_outbound A config1 s1) = None"
    using assms(6) by (auto simp: node_parts packet_compression_new_def split: if_splits)
  show "ei_tun_data_inbound (pi_enhanced_inbound (node_handler A config2 inbound s2)) = Tun (allow_new (cfg_output config2))"
    using node_inbound_tun [OF assms(8,9)] by (simp add: node_parts)
qed (use assms(10,11,18-) in \<open>simp_all add: node_parts\<close>)

text \<open>
  C39. A node without compression does not look at the flag of a packet: what a compressing node with the same password sends it, as soon as
  compression makes it shorter, it takes like a packet whose content are the compressed bytes. What reaches its interface, if anything, are those
  bytes, so never the packet that was sent.
\<close>

theorem compressed_for_plain_node_lost:
  assumes "aead_correct (oc_aead W)" and "ic_aead W' = oc_aead W" and "ic_lz4 W' = oc_lz4 W"
    and "cfg_password config2 = cfg_password config1" and "cfg_compress config1" and "\<not> cfg_compress config2" and "\<not> cfg_fec config1"
    and "as_network s2 = Some own" and "na_ip net \<noteq> na_ip own"
    and "tun_decode cp ip = Inr (Some data)" and "ipv4_outbound W net data (node_outbound A config1 s1) = (h', es, r)"
    and "ToPeer k b \<in> set es \<or> ToServer i b life \<in> set es" and "relayed R b n b'" and "tb_wf buf" and "tb_slice buf = b'"
    and "oc_ipv4_destination W ip = Some (na_ip own)" and "next_hop W net (node_outbound A config1 s1) (na_ip own) = Some (na_ip own)"
    and "256 \<le> length ip" and "length (compress_prepend_size (oc_lz4 W) ip) < length ip"
    and "next_handle_impl W' (node_handler A config2 inbound s2) buf key s = (s', es', r')"
  shows "(\<exists>q. tb_wf q \<and> np_ok (tb_slice q) \<and> np_payload (tb_slice q) = compress_prepend_size (oc_lz4 W) ip \<and>
      (s', es', r') = deliver_part (enhanced_inbound (ic_sinks W') inbound own Turn (na_ip net) q) s) \<and>
    (\<forall>p. Deliver (TunData p) \<in> set es' \<longrightarrow> p = compress_prepend_size (oc_lz4 W) ip \<and> p \<noteq> ip)"
proof -
  let ?h1 = "node_outbound A config1 s1" and ?h2 = "node_handler A config2 inbound s2"
  have fec: "ho_fec_encoder ?h1 = None" using assms(7) by (simp add: node_parts)
  obtain e where e: "e \<in> set es" "e = ToPeer k b \<or> e = ToServer i b life" using assms(12) by blast
  obtain t t1 t2 where t: "tb_wf t" "np_ok (tb_slice t)" "np_header (tb_slice t) = turn_header net (na_ip own)"
      "np_payload (tb_slice t) = ip"
    and c: "packet_compress (oc_lz4 W) (ho_compression ?h1) t (encrypt_reserve (bo_crypto (ho_basic_outbound ?h1))) = Inr t1"
    and x: "pc_encrypt (oc_aead W) (bo_crypto (ho_basic_outbound ?h1)) t1 = Inr t2"
    and path: "path_of (ho_basic_outbound ?h1) (ho_server_info ?h1) (na_ip own) (tb_slice t2) e"
    using sender_packet [OF assms(1,10) fec assms(11) e(1)] assms(16,17) by (metis option.inject)
  have b: "b = tb_slice t2" using path e(2) by (auto simp: path_of_def split: option.splits)
  have short: "np_payload (tb_slice t1) = compress_prepend_size (oc_lz4 W) ip"
    by (rule compressed_payload [OF t(2), unfolded t(4), where c = lz4_new and reserve = "encrypt_reserve (node_crypto A config1)"])
      (use c assms(5,18,19) in \<open>simp_all add: node_parts packet_compression_new_def packet_compress_def lz4_new_def\<close>)
  note p = packed_header [OF assms(1) t(1,2) c x]
  have ttl: "unat (np_ttl b) = 5"
    using turn_header_fields(4) [OF p(5) [unfolded t(3)]] by (simp add: b)
  have b': "tb_slice buf = (np_decr_ttl ^^ n) (tb_slice t2)" "n < 5" using relayed_bytes [OF assms(13)] ttl by (auto simp: b assms(15))
  obtain q where q: "tb_wf q" "np_ok (tb_slice q)" "np_payload (tb_slice q) = compress_prepend_size (oc_lz4 W) ip"
    and run: "next_handle_impl W' ?h2 buf key s = deliver_part (enhanced_inbound (ic_sinks W') (pi_enhanced_inbound ?h2) own Turn (na_ip net) q) s"
    using receiver_keeps_compressed [of W' t net "na_ip own" "ho_compression ?h1" _ t1 ?h2 t2 buf n own key s]
      assms(1-4,6,8,9,14) t c x b' short
    by (auto simp: node_parts packet_compression_new_def node_crypto_cong [OF assms(4)])
  obtain content where content: "tb_advance_head q HEAD_LENGTH = Inr content" "tb_slice content = compress_prepend_size (oc_lz4 W) ip"
    using advance_packet [OF q(1,2)] q(3) by metis
  obtain ds r'' where d: "enhanced_deliver (ic_sinks W') inbound own Turn (na_ip net) content = (ds, r'')" by fastforce
  have inbound: "pi_enhanced_inbound ?h2 = inbound" by (simp add: node_handler_def)
  have "p = compress_prepend_size (oc_lz4 W) ip" if got: "Deliver (TunData p) \<in> set es'" for p
  proof -
    have "TunData p \<in> set ds"
      using got assms(20) run d content(1)
      by (auto simp: inbound deliver_part_def enhanced_inbound_def then_do_def update_state_def effect_def split: prod.splits)
    from delivered_content [OF d this] content(2) show ?thesis by simp
  qed
  then show ?thesis using assms(19,20) run q unfolding inbound by auto
qed


text \<open>
  However the command line program ends after its configuration has been read: what it has done is a beginning of its way up, and then, unless it was killed, the stop of the group.
  On that way the network comes up first, with the address that was registered, then, unless the node runs without
  interface, the interface with that address, one route for each configured subnet in their order, and then the control port unless it is 0. The way is
  complete when no error ended it, and not when one did; a network that was created is dropped, unless Ctrl-C came before the last loop: then nothing is stopped.
\<close>

definition way_up :: "cli_env \<Rightarrow> Config \<Rightarrow> CtrlConfig \<Rightarrow> NetworkAddr \<Rightarrow> cli_event list" where
  "way_up L config ctrl addr = [NetworkUp addr] @
     (if cfg_no_tun config then [] else [TunUp, AddressSet (na_ip addr) (na_prefix_len addr)] @
        map (\<lambda>x. RouteAdded x (cl_adds L x)) (cfg_input config)) @
     (if ctrl_port ctrl = Some 0 then [] else [IpcStarted (ctrl_port ctrl)])"

lemma main_start_way:
  fixes n :: "'k CoreNetwork option"
  assumes "main_start A E L config ctrl = (n, es, r)"
  shows "es = [] \<and> r \<noteq> Inr () \<or>
    (\<exists>l (c0 :: 'k CoreNetwork) c1 addr. create_network A (cl_core L) config group_new = (l, Inr c0) \<and> core_register E c0 = (c1, Inr addr) \<and>
      (if r = Inr () then es = way_up L config ctrl addr \<and>
         (\<exists>c. n = Some c \<and> (cfg_no_tun config \<or> di_network (co_device c) = Some (na_ip addr, na_prefix_len addr)))
       else strict_prefix es (way_up L config ctrl addr)))"
proof (cases "\<exists>l (c0 :: 'k CoreNetwork) c1 addr. create_network A (cl_core L) config group_new = (l, Inr c0) \<and> core_register E c0 = (c1, Inr addr)")
  case False
  with assms show ?thesis by (auto simp: main_start_def split: prod.splits sum.splits)
next
  case True
  then obtain l c1 addr and c0 :: "'k CoreNetwork" where up: "create_network A (cl_core L) config group_new = (l, Inr c0)" "core_register E c0 = (c1, Inr addr)"
    by blast
  obtain c2 es2 r2 where i: "cli_interface L config addr c1 = (c2, es2, r2)" by (metis surj_pair)
  show ?thesis
  proof (cases r2)
    case (Inl e)
    then have "\<not> cfg_no_tun config" using i by (auto simp: cli_interface_def)
    then have w: "way_up L config ctrl addr = NetworkUp addr # ([TunUp, AddressSet (na_ip addr) (na_prefix_len addr)] @
        map (\<lambda>x. RouteAdded x (cl_adds L x)) (cfg_input config)) @ (if ctrl_port ctrl = Some 0 then [] else [IpcStarted (ctrl_port ctrl)])"
      by (simp add: way_up_def)
    have "strict_prefix (NetworkUp addr # es2) (way_up L config ctrl addr)"
      unfolding w strict_prefix_simps using prefix_order.less_le_trans [OF interface_fails [OF i [unfolded Inl]] prefixI [OF refl]] by simp
    with assms up i Inl show ?thesis by (auto simp: main_start_def)
  next
    case (Inr u)
    then show ?thesis using assms up i interface_up [OF i [unfolded Inr]] by (auto simp: main_start_def way_up_def)
  qed
qed

lemma way_up_going: "GroupStopped \<notin> set (way_up L config ctrl addr)"
  by (auto simp: way_up_def)

lemma command_line_run:
  fixes out :: "'k cli_end"
  assumes "main_run A E L early config ctrl = (out, es)"
  shows "(es = [] \<or> es = [GroupStopped] \<or>
      (\<exists>l (c0 :: 'k CoreNetwork) c1 addr done. create_network A (cl_core L) config group_new = (l, Inr c0) \<and> core_register E c0 = (c1, Inr addr) \<and>
        prefix done (way_up L config ctrl addr) \<and> es = done @ (if out = CliKilled then [] else [GroupStopped]))) \<and>
    (out = CliKilled \<longrightarrow> early \<noteq> None \<and> GroupStopped \<notin> set es) \<and>
    (\<forall>n r. out = CliEnded n r \<longrightarrow>
      last es = GroupStopped \<and> pred_option torn_down n \<and>
      (r = Inr () \<longleftrightarrow> (\<exists>addr c. es = way_up L config ctrl addr @ [GroupStopped] \<and> n = Some c \<and>
         (cfg_no_tun config \<or> di_network (co_device c) = Some (na_ip addr, na_prefix_len addr)))))"
proof -
  obtain n0 :: "'k CoreNetwork option" and es0 r0 where start: "main_start A E L config ctrl = (n0, es0, r0)" by (metis surj_pair)
  note way = main_start_way [OF start]
  show ?thesis
  proof (cases "\<exists>k. early = Some k \<and> k \<le> length es0")
    case True
    then obtain k where k: "early = Some k" "out = CliKilled" "es = take k es0"
      using assms by (auto simp: main_run_def start until_killed_def)
    have p: "prefix es es0" by (simp add: k take_is_prefix)
    have "es0 = [] \<or> (\<exists>l (c0 :: 'k CoreNetwork) c1 addr. create_network A (cl_core L) config group_new = (l, Inr c0) \<and>
        core_register E c0 = (c1, Inr addr) \<and> prefix es0 (way_up L config ctrl addr))"
      using way by (auto simp: strict_prefix_def split: if_splits)
    then show ?thesis
    proof
      assume "es0 = []"
      then show ?thesis using k by simp
    next
      assume "\<exists>l (c0 :: 'k CoreNetwork) c1 addr. create_network A (cl_core L) config group_new = (l, Inr c0) \<and>
        core_register E c0 = (c1, Inr addr) \<and> prefix es0 (way_up L config ctrl addr)"
      then obtain l c1 addr and c0 :: "'k CoreNetwork" where up: "create_network A (cl_core L) config group_new = (l, Inr c0)"
        "core_register E c0 = (c1, Inr addr)" "prefix es0 (way_up L config ctrl addr)" by blast
      have q: "prefix es (way_up L config ctrl addr)" using p up(3) by (rule prefix_order.trans)
      with way_up_going have "GroupStopped \<notin> set es" by (blast dest: set_mono_prefix)
      with q up(1,2) show ?thesis by (simp add: k(1,2))
    qed
  next
    case False
    then have out: "out = CliEnded (map_option core_drop n0) r0" "es = es0 @ [GroupStopped]"
      using assms by (auto simp: main_run_def start until_killed_def split: option.splits)
    have same: "a = a'" if "strict_prefix es0 (way_up L config ctrl a)" "es0 = way_up L config ctrl a'" for a a'
      using that by (auto simp: way_up_def strict_prefix_def split: if_splits)
    from way show ?thesis
      by (auto simp: out torn_down_drop pred_option_def strict_prefix_def way_up_def split: if_splits)
  qed
qed

section \<open>Concrete nodes\<close>

definition demo_config :: "bool \<Rightarrow> Config" where
  "demo_config compress = \<lparr>cfg_server_addr = [\<lparr>protocol_type = QuicProto, address = ''a''\<rparr>], cfg_cert_mode = InsecureSkipVerification,
     cfg_network_code = ''n'', cfg_device_id = ''d'', cfg_device_name = ''d'', cfg_tun_name = None, cfg_ip = None, cfg_password = None,
     cfg_no_punch = False, cfg_compress = compress, cfg_rtx = False, cfg_fec = False, cfg_input = [], cfg_output = [], cfg_no_nat = True,
     cfg_no_tun = False, cfg_mtu = None, cfg_port_mapping = [], cfg_allow_port_mapping = False, cfg_udp_stun = [], cfg_tcp_stun = []\<rparr>"

definition demo_core_env :: core_env where
  "demo_core_env = \<lparr>cv_ok = (\<lambda>_. True), cv_bind = (\<lambda>_ _. True), cv_makes = (\<lambda>_. True), cv_sets = (\<lambda>_ _. True), cv_if_index = (\<lambda>_. Inr 1)\<rparr>"

text \<open>The states of two nodes that know each other: the first has a direct route to the second.\<close>

definition demo_app_state :: "ipv4 \<Rightarrow> nat AppState" where
  "demo_app_state ip = app_state_default\<lparr>as_network := Some (demo_net\<lparr>na_ip := ip\<rparr>),
     as_route_table := add_route 0 0x0A1A0005 (route_from 9 1 20) rt_new\<rparr>"

lemma peer_sends:
  assumes "oc_ipv4_destination W (tb_slice data) = Some dest" and "next_hop W net h dest = Some dest"
    and "rbind (tb_retreat_head data HEAD_LENGTH) tb_np_new = Inr p" and "ho_fec_encoder h = None"
    and "packet_compress (oc_lz4 W) (ho_compression h) (turn_packet net dest p) (encrypt_reserve (bo_crypto (ho_basic_outbound h))) = Inr t1"
    and "pc_encrypt (oc_aead W) (bo_crypto (ho_basic_outbound h)) t1 = Inr t2" and "tb_wf t2" and "np_ok (tb_slice t2)"
    and "bo_route (ho_basic_outbound h) dest = Some route" and "\<And>b. oc_socket W (route_key route) b"
  shows "\<exists>h'. ipv4_outbound W net data h = (h', [ToPeer (route_key route) (tb_slice t2)], Inr ())"
proof -
  have b: "rbind (tb_into_bytes t2) np_new = Inr (tb_slice t2)"
    using assms(7,8) by (simp add: tb_into_bytes_wf np_new_def np_ok_def)
  have "send_encrypted_packet W (ho_basic_outbound h) (ho_server_info h) dest t1 = ([ToPeer (route_key route) (tb_slice t2)], Inr ())"
    using assms(6,9,10) b by (simp add: send_encrypted_packet_def p2p_send_raw_to_def)
  then show ?thesis using assms(1-5) by (simp add: ipv4_outbound_def Let_def fec_stage_def counted_def turn_packet_def)
qed

lemma demo_created:
  obtains l c0 where "create_network toy_aead demo_core_env (demo_config False) group_new = (l, Inr (c0 :: nat CoreNetwork))"
    "co_config c0 = demo_config False" "co_tun_receiver c0" "co_enhanced_outbound c0 = Some False" "co_device c0 = device_manager_new"
    "nm_registration_context (co_net c0) = Some [demo_manager 0 ''a'']"
proof -
  have "config_check (demo_config False) = Inr ()" by (simp add: demo_config_def config_check_def MAX_NETWORK_CODE_LEN_def MAX_DEVICE_ID_LEN_def MAX_NAME_LEN_def)
  moreover obtain ms ob info where "create_server_tunnel toy_aead (demo_config False) (node_crypto toy_aead (demo_config False)) = (Inr ms, ob, info)" and "ms = [demo_manager 0 ''a'']"
    by (simp add: create_server_tunnel_def demo_config_def config_to_connect_config_def demo_manager_def config_key_sign_def Let_def)
  moreover obtain l where "init_tunnel demo_core_env (demo_config False) = (l, Inr ())"
    by (simp add: init_tunnel_def demo_config_def demo_core_env_def)
  moreover have "create_nat demo_core_env (demo_config False) = ([], Inr ())" by (simp add: create_nat_def has_nat_def demo_config_def)
  moreover obtain b where "node_inbound (demo_config False) None = Inr b" using node_inbound_ok by blast
  moreover obtain q where "enhanced_ipv4_tunnel demo_core_env (demo_config False) = (q, Inr (Some False))"
    by (simp add: enhanced_ipv4_tunnel_def quic_tunnel_start_def node_quic_config_def demo_config_def demo_core_env_def Let_def comp_def)
  ultimately show thesis
    by (intro that) (simp_all add: create_network_def Let_def, simp_all add: demo_config_def)
qed

theorem interface_started_once_witness:
  "\<exists>c0 c1. snd (create_network toy_aead demo_core_env (demo_config False) group_new) = Inr (c0 :: nat CoreNetwork) \<and>
     start_tun demo_core_env c0 = (c1, Inr ()) \<and> di_task (co_device c1) \<noteq> None \<and>
     start_tun demo_core_env c1 = (c1, Inl (Bail ''start_tun can only be called once''))"
proof -
  obtain l c0 where c: "create_network toy_aead demo_core_env (demo_config False) group_new = (l, Inr (c0 :: nat CoreNetwork))"
    "co_tun_receiver c0" "co_enhanced_outbound c0 = Some False" "co_device c0 = device_manager_new"
    using demo_created by metis
  obtain g1 i1 g2 i2 where g: "group_spawn (co_task_group c0) = (i1, g1)" "group_spawn g1 = (i2, g2)" by (metis surj_pair)
  obtain c1 where s: "start_tun demo_core_env c0 = (c1, Inr ())" "di_task (co_device c1) \<noteq> None"
    by (simp add: start_tun_def start_device_def device_start_task_def device_create_def device_stop_task_def Let_def c demo_core_env_def device_manager_new_def g)
  have "start_tun demo_core_env c1 = (c1, Inl (Bail ''start_tun can only be called once''))"
    by (rule interface_started_once [where E = demo_env and r = "Inr ()" and fd = None and ?V1.0 = demo_core_env,
          OF c(1) rtranclp.rtrancl_refl _ rtranclp.rtrancl_refl, THEN conjunct2, THEN conjunct1]) (simp add: s(1))
  with c(1) s show ?thesis by (metis snd_conv)
qed

text \<open>What the first of the two nodes sends for the second, with the packet built and compressed.\<close>

lemma demo_pair_sends:
  assumes "tun_decode cp ip = Inr (Some data)" and "oc_ipv4_destination W ip = Some 0x0A1A0005"
    and "W = demo_crates\<lparr>oc_ipv4_destination := D\<rparr>"
  obtains h' b where
    "ipv4_outbound W demo_net data (node_outbound toy_aead (demo_config c) (demo_app_state 0x0A1A0002)) = (h', [ToPeer 9 b], Inr ())"
proof -
  let ?h = "node_outbound toy_aead (demo_config c) (demo_app_state 0x0A1A0002)"
  note d = tun_decode_data [OF assms(1)]
  obtain u where u: "tb_retreat_head data HEAD_LENGTH = Inr u"
    using d(3) by (simp add: tb_retreat_head_def tb_head_room_def)
  then obtain p where p: "rbind (tb_retreat_head data HEAD_LENGTH) tb_np_new = Inr p"
    using tb_slice_retreat [OF d(1) u] d(3) arg_cong [OF d(5), of length] by (auto simp: tb_np_new_def np_new_def)
  let ?t = "turn_packet demo_net 0x0A1A0005 p"
  note t = turn_packet_slice [OF assms(1) p, of demo_net "0x0A1A0005"]
  have crypto: "node_crypto toy_aead (demo_config c) = None" by (simp add: node_crypto_def demo_config_def pc_new_from_str_def)
  obtain t1 where c: "packet_compress (oc_lz4 W) (ho_compression ?h) ?t (encrypt_reserve (bo_crypto (ho_basic_outbound ?h))) = Inr t1"
    using compress_succeeds [OF t(2)] by metis
  have e: "pc_encrypt (oc_aead W) (bo_crypto (ho_basic_outbound ?h)) t1 = Inr t1" by (simp add: node_parts crypto pc_encrypt_def)
  have a: "aead_correct (oc_aead W)" by (simp add: assms(3) demo_crates_def toy_aead_correct)
  note w = packed_header [OF a t(1,2) c e]
  have hop: "next_hop W demo_net ?h 0x0A1A0005 = Some 0x0A1A0005"
    by (simp add: next_hop_def assms(3) demo_crates_def demo_net_def addr_network_def)
  have route: "bo_route (ho_basic_outbound ?h) 0x0A1A0005 = Some (route_from 9 1 20)"
    by (simp add: node_outbound_def Let_def demo_config_def demo_app_state_def) code_simp
  have fec: "ho_fec_encoder ?h = None" by (simp add: node_parts demo_config_def)
  have "\<exists>h'. ipv4_outbound W demo_net data ?h = (h', [ToPeer (route_key (route_from 9 1 20)) (tb_slice t1)], Inr ())"
    by (rule peer_sends [OF _ hop p fec c e w(1,2) route]) (use assms(2) in \<open>simp_all add: assms(3) d(2) demo_crates_def\<close>)
  then show thesis using that by (auto simp: route_from_def)
qed

theorem configured_nodes_deliver_witness:
  "\<exists>data h' b inbound. tun_decode 2048 (demo_ip 0x0A1A0005) = Inr (Some data) \<and>
     ipv4_outbound demo_crates demo_net data (node_outbound toy_aead (demo_config False) (demo_app_state 0x0A1A0002)) = (h', [ToPeer 9 b], Inr ()) \<and>
     next_handle_impl demo_in (node_handler toy_aead (demo_config True) inbound (demo_app_state 0x0A1A0005)) (tb_from b) 3 demo_state =
       (demo_state\<lparr>is_traffic := record_rx 0x0A1A0002 36 []\<rparr>, [Deliver (TunData (demo_ip 0x0A1A0005))], Inr ())"
proof -
  let ?ip = "demo_ip 0x0A1A0005" and ?own = "demo_net\<lparr>na_ip := 0x0A1A0005\<rparr>"
  obtain data where data: "tun_decode 2048 ?ip = Inr (Some data)" by (rule demo_decoded)
  have dest: "oc_ipv4_destination demo_crates ?ip = Some 0x0A1A0005"
    by (simp add: demo_crates_def demo_ip_def) code_simp
  obtain h' b where run: "ipv4_outbound demo_crates demo_net data (node_outbound toy_aead (demo_config False) (demo_app_state 0x0A1A0002)) =
      (h', [ToPeer 9 b], Inr ())"
    by (rule demo_pair_sends [OF data dest, where D = "oc_ipv4_destination demo_crates"]) simp
  obtain inbound where i: "node_inbound (demo_config True) (as_network (demo_app_state 0x0A1A0005)) = Inr inbound" using node_inbound_ok by blast
  have "next_handle_impl demo_in (node_handler toy_aead (demo_config True) inbound (demo_app_state 0x0A1A0005)) (tb_from b) 3 demo_state =
      (demo_state\<lparr>is_traffic := record_rx (na_ip demo_net) (of_nat (HEAD_LENGTH + length ?ip)) (is_traffic demo_state)\<rparr>,
       [Deliver (TunData ?ip)], Inr ()) \<and> 0 \<le> (4::nat)"
    by (rule configured_nodes_deliver [OF _ _ _ _ _ _ _ _ i _ _ data run _ relayed.sent tb_wf_from tb_slice_from,
          where own = ?own and k = 9])
      (use dest in \<open>simp_all add: demo_crates_def demo_in_def demo_config_def demo_app_state_def toy_aead_correct toy_lz4_correct
         next_hop_def demo_net_def addr_network_def demo_ip_def\<close>)
  then show ?thesis using data run
    by (intro exI conjI) (assumption, assumption, simp add: demo_net_def demo_state_def demo_ip_def HEAD_LENGTH_def)
qed

theorem compressed_for_plain_node_lost_witness:
  "\<exists>data h' b inbound. tun_decode 2048 (replicate 256 1) = Inr (Some data) \<and>
     ipv4_outbound (demo_crates\<lparr>oc_ipv4_destination := \<lambda>_. Some 0x0A1A0005\<rparr>) demo_net data
       (node_outbound toy_aead (demo_config True) (demo_app_state 0x0A1A0002)) = (h', [ToPeer 9 b], Inr ()) \<and>
     Deliver (TunData (replicate 256 1)) \<notin> set (fst (snd
       (next_handle_impl demo_in (node_handler toy_aead (demo_config False) inbound (demo_app_state 0x0A1A0005)) (tb_from b) 3 demo_state)))"
proof -
  let ?ip = "replicate 256 1" and ?own = "demo_net\<lparr>na_ip := 0x0A1A0005\<rparr>" and ?W = "demo_crates\<lparr>oc_ipv4_destination := \<lambda>_. Some 0x0A1A0005\<rparr>"
  obtain data where data: "tun_decode 2048 ?ip = Inr (Some data)"
    by (simp add: tun_decode_def tb_put_def tb_new_offset_def DEFAULT_BUF_SIZE_def HEAD_LENGTH_def Let_def)
  obtain h' b where run: "ipv4_outbound ?W demo_net data (node_outbound toy_aead (demo_config True) (demo_app_state 0x0A1A0002)) =
      (h', [ToPeer 9 b], Inr ())"
    by (rule demo_pair_sends [OF data, where D = "\<lambda>_. Some 0x0A1A0005"]) simp_all
  obtain s' es' r' where n: "next_handle_impl demo_in (node_handler toy_aead (demo_config False) undefined (demo_app_state 0x0A1A0005)) (tb_from b) 3 demo_state =
      (s', es', r')" by (metis surj_pair)
  have "\<forall>p. Deliver (TunData p) \<in> set es' \<longrightarrow> p = compress_prepend_size (oc_lz4 ?W) ?ip \<and> p \<noteq> ?ip"
    by (rule compressed_for_plain_node_lost [OF _ _ _ _ _ _ _ _ _ data run _ relayed.sent tb_wf_from tb_slice_from _ _ _ _ n,
          where own = ?own and k = 9, THEN conjunct2])
      (simp_all add: demo_crates_def demo_in_def demo_config_def demo_app_state_def toy_aead_correct toy_lz4_def
         next_hop_def demo_net_def addr_network_def)
  then have "Deliver (TunData ?ip) \<notin> set es'" by blast
  with data run n show ?thesis
    by (intro exI [of _ data] exI [of _ h'] exI [of _ b] exI [of _ "undefined :: EnhancedInbound"] conjI) simp_all
qed

text \<open>A run of the program on a node of its own: the server gives the address \<open>10.26.0.2\<close>.\<close>

lemma demo_registers:
  assumes "nm_registration_context (co_net c) = Some [demo_manager 0 ''a'']"
  obtains c1 where "core_register demo_env c = (c1, Inr \<lparr>na_gateway = 0x0A1A0001, na_broadcast = 0x0A1A00FF, na_ip = 0x0A1A0002, na_prefix_len = 24\<rparr>)"
    "co_tun_receiver c1 = co_tun_receiver c" "co_enhanced_outbound c1 = co_enhanced_outbound c" "co_device c1 = co_device c"
proof -
  have "snd (connect_and_reg demo_env Normal (demo_manager 0 ''a'')) = Inr (ResReg (demo_reg 0x0A1A0002))"
    by (simp add: connect_and_reg_def fbind_def freturn_def on_client_def transport_connect_def
      transport_client_send_def transport_next_def link_send_def link_next_def demo_env_def demo_manager_def turn_manager_new_def
      response_from_slice_def reg_response_from_def reg_response_to_def demo_reg_def)
  then obtain m where "connect_and_reg demo_env Normal (demo_manager 0 ''a'') = (m, Inr (ResReg (demo_reg 0x0A1A0002)))"
    by (metis prod.collapse)
  moreover have "network_addr_of demo_env (demo_reg 0x0A1A0002) =
      Inr \<lparr>na_gateway = 0x0A1A0001, na_broadcast = 0x0A1A00FF, na_ip = 0x0A1A0002, na_prefix_len = 24\<rparr>"
    by (simp add: network_addr_of_def demo_reg_def demo_env_def)
  ultimately show thesis using that assms by (simp add: core_register_def register_def registered_def Let_def)
qed

lemma command_line_run_witness:
  "\<exists>L c. main_run toy_aead demo_env L None (demo_config False) \<lparr>ctrl_port = Some 0\<rparr> =
       (CliEnded (Some (c :: nat CoreNetwork)) (Inr ()), [NetworkUp \<lparr>na_gateway = 0x0A1A0001, na_broadcast = 0x0A1A00FF, na_ip = 0x0A1A0002, na_prefix_len = 24\<rparr>,
          TunUp, AddressSet 0x0A1A0002 24, GroupStopped]) \<and> torn_down c \<and>
     main_run toy_aead demo_env L (Some 2) (demo_config False) \<lparr>ctrl_port = Some 0\<rparr> =
       (CliKilled :: nat cli_end, [NetworkUp \<lparr>na_gateway = 0x0A1A0001, na_broadcast = 0x0A1A00FF, na_ip = 0x0A1A0002, na_prefix_len = 24\<rparr>, TunUp])"
proof -
  define L where "L = \<lparr>cl_launch = undefined, cl_core = demo_core_env, cl_example = Inr (), cl_load = (\<lambda>_. Inl OtherError),
    cl_route_manager = Inr (), cl_adds = (\<lambda>_. True)\<rparr>"
  let ?addr = "\<lparr>na_gateway = 0x0A1A0001, na_broadcast = 0x0A1A00FF, na_ip = 0x0A1A0002, na_prefix_len = 24\<rparr>"
  obtain l c0 where c: "create_network toy_aead demo_core_env (demo_config False) group_new = (l, Inr (c0 :: nat CoreNetwork))"
    "co_config c0 = demo_config False" "co_tun_receiver c0" "co_enhanced_outbound c0 = Some False" "co_device c0 = device_manager_new"
    "nm_registration_context (co_net c0) = Some [demo_manager 0 ''a'']"
    using demo_created by metis
  obtain c1 where c1: "core_register demo_env c0 = (c1, Inr ?addr)" "co_tun_receiver c1"
    "co_enhanced_outbound c1 = Some False" "co_device c1 = device_manager_new"
    using demo_registers [OF c(6)] c(3-5) by metis
  obtain g1 i1 g2 i2 where g: "group_spawn (co_task_group c1) = (i1, g1)" "group_spawn g1 = (i2, g2)" by (metis surj_pair)
  obtain c2 up where i: "cli_interface L (demo_config False) ?addr c1 = (c2, up, Inr ())"
    by (simp add: cli_interface_def cli_routes_def start_tun_def start_device_def device_start_task_def device_create_def device_stop_task_def Let_def c1 g
        device_manager_new_def set_network_ip_def device_set_network_def L_def demo_core_env_def demo_config_def)
  have core: "cl_core L = demo_core_env" by (simp add: L_def)
  have "\<not> cfg_no_tun (demo_config False)" "cfg_input (demo_config False) = []" by (simp_all add: demo_config_def)
  then have up: "up = [TunUp, AddressSet 0x0A1A0002 24]" using interface_up(1) [OF i] by simp
  have start: "main_start toy_aead demo_env L (demo_config False) \<lparr>ctrl_port = Some 0\<rparr> =
      (Some c2, [NetworkUp ?addr, TunUp, AddressSet 0x0A1A0002 24], Inr ())"
    by (simp add: main_start_def core c(1) c1(1) i up)
  then have run: "main_run toy_aead demo_env L None (demo_config False) \<lparr>ctrl_port = Some 0\<rparr> =
      (CliEnded (Some (core_drop c2)) (Inr ()), [NetworkUp ?addr, TunUp, AddressSet 0x0A1A0002 24, GroupStopped])"
    by (simp add: main_run_def until_killed_def)
  have killed: "main_run toy_aead demo_env L (Some 2) (demo_config False) \<lparr>ctrl_port = Some 0\<rparr> = (CliKilled :: nat cli_end, [NetworkUp ?addr, TunUp])"
    using start by (simp add: main_run_def until_killed_def)
  show ?thesis using run killed command_line_run [OF run] by (intro exI [of _ L] exI [of _ "core_drop c2"]) simp
qed

end
