(* ===== verification/Nat_Test.thy ===== *)
theory Nat_Test
  imports Ip_Nat
begin

text \<open>
  What a node finds out about its own addresses (\<open>transport/nat_test.rs\<close>): the addresses of its interfaces and the NAT test every half hour, the
  rounds over the UDP STUN servers, and the TCP connections to two STUN servers that are kept open to hold and to check the public TCP address.

  The system, \<open>rust_p2p_core\<close>'s STUN test and its parser of STUN answers are arguments; the predicates on addresses are those of \<open>std::net\<close>.
\<close>

section \<open>Addresses\<close>

definition octet :: "nat \<Rightarrow> ipv4 \<Rightarrow> ipv4" where
  "octet i ip = drop_bit (8 * (3 - i)) ip AND 0xFF"

definition v4_is_loopback :: "ipv4 \<Rightarrow> bool" where
  "v4_is_loopback ip \<longleftrightarrow> octet 0 ip = 127"

definition v4_is_documentation :: "ipv4 \<Rightarrow> bool" where
  "v4_is_documentation ip \<longleftrightarrow> drop_bit 8 ip \<in> {0xC00002, 0xC63364, 0xCB0071}"

definition v6_is_loopback :: "bytes \<Rightarrow> bool" where
  "v6_is_loopback a \<longleftrightarrow> a = replicate 15 0 @ [1]"

definition v6_is_unspecified :: "bytes \<Rightarrow> bool" where
  "v6_is_unspecified a \<longleftrightarrow> a = replicate 16 0"

definition v6_is_multicast :: "bytes \<Rightarrow> bool" where
  "v6_is_multicast a \<longleftrightarrow> a ! 0 = 0xFF"

definition v6_is_unique_local :: "bytes \<Rightarrow> bool" where
  "v6_is_unique_local a \<longleftrightarrow> a ! 0 AND 0xFE = 0xFC"

definition v6_is_link_local :: "bytes \<Rightarrow> bool" where
  "v6_is_link_local a \<longleftrightarrow> a ! 0 = 0xFE \<and> a ! 1 AND 0xC0 = 0x80"

text \<open>The loop over the interfaces: the addresses of both families that are kept.\<close>

definition keep_v4 :: "net_contains \<Rightarrow> ipv4net option \<Rightarrow> ipv4 \<Rightarrow> bool" where
  "keep_v4 C network ip \<longleftrightarrow>
     \<not> v4_is_loopback ip \<and> \<not> is_unspecified ip \<and> \<not> is_multicast ip \<and> \<not> v4_is_documentation ip \<and> \<not> is_broadcast ip \<and>
     \<not> (case network of Some n \<Rightarrow> C n ip | None \<Rightarrow> False)"

definition keep_v6 :: "bytes \<Rightarrow> bool" where
  "keep_v6 a \<longleftrightarrow>
     \<not> v6_is_loopback a \<and> \<not> v6_is_unspecified a \<and> \<not> v6_is_multicast a \<and> \<not> v6_is_unique_local a \<and> \<not> v6_is_link_local a"

fun interface_addrs :: "net_contains \<Rightarrow> ipv4net option \<Rightarrow> ip_addr option list \<Rightarrow> ipv4 list \<times> bytes list" where
  "interface_addrs C network [] = ([], [])"
| "interface_addrs C network (None # l) = interface_addrs C network l"
| "interface_addrs C network (Some (IpV4 ip) # l) =
     (case interface_addrs C network l of (v4, v6) \<Rightarrow> (if keep_v4 C network ip then ip # v4 else v4, v6))"
| "interface_addrs C network (Some (IpV6 a) # l) =
     (case interface_addrs C network l of (v4, v6) \<Rightarrow> (v4, if keep_v6 a then a # v6 else v6))"

definition first_of :: "'a list \<Rightarrow> 'a option" where
  "first_of l = (case l of [] \<Rightarrow> None | x # _ \<Rightarrow> Some x)"

section \<open>The node's NAT\<close>

datatype socket_model = LowModel | HighModel

record nat_env =
  ne_addrs :: "ip_addr option list result"
  ne_local_ipv4 :: "ipv4 result"
  ne_local_ipv6 :: "bytes result"
  ne_udp_ports :: "u16 list"
  ne_tcp_port :: u16
  ne_stun :: "string list \<Rightarrow> (NatType \<times> ipv4 list \<times> u16) result"

definition default_udp_stun :: "string list" where
  "default_udp_stun = [''stun.miwifi.com:3478'', ''stun.chat.bilibili.com:3478'', ''stun.l.google.com:19302'']"

definition default_tcp_stun :: "string list" where
  "default_tcp_stun = [''stun.flashdance.cx:3478'', ''stun.sipnet.net:3478'', ''stun.nextcloud.com:443'']"

definition udp_servers :: "'k AppState \<Rightarrow> string list" where
  "udp_servers s = (if udp_stun s = [] then default_udp_stun else udp_stun s)"

definition tcp_servers :: "'k AppState \<Rightarrow> string list" where
  "tcp_servers s = (if tcp_stun s = [] then default_tcp_stun else tcp_stun s)"

definition local_ipv6_of :: "nat_env \<Rightarrow> bytes list \<Rightarrow> bytes option" where
  "local_ipv6_of E local_ipv6 =
     (case ne_local_ipv6 E of
        Inr a \<Rightarrow> if keep_v6 a then Some a else first_of local_ipv6
      | Inl _ \<Rightarrow> first_of local_ipv6)"

definition my_nat_info_impl :: "net_contains \<Rightarrow> nat_env \<Rightarrow> 'k AppState \<Rightarrow> 'k AppState \<times> socket_model" where
  "my_nat_info_impl C E s =
     (case (case ne_addrs E of Inr addrs \<Rightarrow> interface_addrs C (shared_network (as_network s)) addrs | Inl _ \<Rightarrow> ([], [])) of
        (v4s, v6s) \<Rightarrow>
          let local_ip = (case ne_local_ipv4 E of Inr ip \<Rightarrow> ip | Inl _ \<Rightarrow> get_or_default 0 (first_of v4s)) in
          (case (case ne_stun E (udp_servers s) of Inr r \<Rightarrow> r | Inl _ \<Rightarrow> (Cone, [], 0)) of
             (nat_ty, ips, port_range) \<Rightarrow>
               (s\<lparr>as_nat_info := replace_nat_info
                   \<lparr>nat_type = nat_ty, public_ips = ips, public_udp_ports = replicate (length (ne_udp_ports E)) 0,
                    mapping_tcp_addr = [], mapping_udp_addr = [], public_port_range = port_range, local_ipv4 = local_ip,
                    local_ipv4s = [local_ip], ipv6 = local_ipv6_of E v6s, local_udp_ports = ne_udp_ports E,
                    local_tcp_port = ne_tcp_port E, public_tcp_port = 0\<rparr> (as_nat_info s)\<rparr>,
                case nat_ty of Cone \<Rightarrow> LowModel | Symmetric \<Rightarrow> HighModel)))"

section \<open>The UDP servers\<close>

text \<open>One turn: the next server in the list, the address that is asked, if any, and the seconds to wait, few while a public port is missing.\<close>

definition udp_ports_missing :: "MyNatInfo \<Rightarrow> bool" where
  "udp_ports_missing s = (case s of None \<Rightarrow> True | Some n \<Rightarrow> 0 \<in> set (public_udp_ports n))"

definition query_udp_turn :: "(string \<Rightarrow> SocketAddr list result) \<Rightarrow> string list \<Rightarrow> MyNatInfo \<Rightarrow> nat \<Rightarrow> nat \<times> SocketAddr option \<times> nat" where
  "query_udp_turn lookup servers s turn =
     (let stun = servers ! (turn mod length servers) in
      (turn + 1,
       (case lookup stun of Inr addrs \<Rightarrow> first_of addrs | Inl _ \<Rightarrow> None),
       if udp_ports_missing s then 2 else 60))"

section \<open>The TCP connections\<close>

text \<open>A STUN answer: a head of 20 bytes with the length of the rest in its bytes 2 and 3; the bytes that can be read in time are the argument.\<close>

definition stun_tcp_read :: "(bytes \<Rightarrow> SocketAddr option) \<Rightarrow> bytes \<Rightarrow> SocketAddr result" where
  "stun_tcp_read recv_stun_response stream =
     (if length stream < 20 then Inl OtherError
      else let len = unat (of_be16 (stream ! 2) (stream ! 3)) in
        if length stream < len + 20 then Inl OtherError
        else ok_or InvalidData (recv_stun_response (take (len + 20) stream)))"

text \<open>
  What a pass over the servers meets: their order, the addresses of a name, what can be read from an address after the request was sent
  (nothing when connecting or sending fails), and whether a connection still reads and writes when it is looked at again. All can change from one pass to the next.
\<close>

datatype read_state = ReadEof | ReadData | ReadWouldBlock | ReadError

record tcp_env =
  te_order :: "nat \<Rightarrow> string list"
  te_lookup :: "nat \<Rightarrow> string \<Rightarrow> SocketAddr list result"
  te_connect :: "nat \<Rightarrow> SocketAddr \<Rightarrow> bytes option"
  te_recv_stun_response :: "bytes \<Rightarrow> SocketAddr option"
  te_read :: "nat \<Rightarrow> SocketAddr \<Rightarrow> read_state"
  te_write :: "nat \<Rightarrow> SocketAddr \<Rightarrow> bool"

text \<open>The connections, each with the public address it has shown; \<open>values().next()\<close> is the one of any of them.\<close>

type_synonym stun_connections = "(SocketAddr \<times> SocketAddr) list"

definition existing_pub_addr :: "stun_connections \<Rightarrow> SocketAddr option" where
  "existing_pub_addr active = map_option snd (first_of active)"

datatype pass_result = NotConnected | Connected SocketAddr SocketAddr | Mismatch

fun try_candidates :: "tcp_env \<Rightarrow> nat \<Rightarrow> stun_connections \<Rightarrow> string list \<Rightarrow> pass_result" where
  "try_candidates E pass active [] = NotConnected"
| "try_candidates E pass active (stun # candidates) =
     (case te_lookup E pass stun of
        Inl _ \<Rightarrow> try_candidates E pass active candidates
      | Inr [] \<Rightarrow> try_candidates E pass active candidates
      | Inr (addr # _) \<Rightarrow>
          if addr \<in> fst ` set active then try_candidates E pass active candidates
          else (case te_connect E pass addr of
              None \<Rightarrow> try_candidates E pass active candidates
            | Some stream \<Rightarrow>
                (case stun_tcp_read (te_recv_stun_response E) stream of
                   Inl _ \<Rightarrow> try_candidates E pass active candidates
                 | Inr pub_addr \<Rightarrow>
                     (case existing_pub_addr active of
                        Some existing \<Rightarrow> if existing \<noteq> pub_addr then Mismatch else Connected addr pub_addr
                      | None \<Rightarrow> Connected addr pub_addr))))"

text \<open>The inner loop: passes until there are enough connections, none could be added, or one disagrees.\<close>

function open_connections :: "tcp_env \<Rightarrow> nat \<Rightarrow> nat \<Rightarrow> stun_connections \<Rightarrow> nat \<times> stun_connections option" where
  "open_connections E target pass active =
     (if target \<le> length active then (pass, Some active)
      else case try_candidates E pass active (te_order E pass) of
        NotConnected \<Rightarrow> (Suc pass, Some active)
      | Mismatch \<Rightarrow> (Suc pass, None)
      | Connected addr pub_addr \<Rightarrow> open_connections E target (Suc pass) ((addr, pub_addr) # active))"
  by pat_completeness auto

termination
  by (relation "measure (\<lambda>(E, target, pass, active). target - length active)") auto

declare open_connections.simps [simp del]

definition still_alive :: "tcp_env \<Rightarrow> nat \<Rightarrow> SocketAddr \<Rightarrow> bool" where
  "still_alive E pass addr \<longleftrightarrow>
     (case te_read E pass addr of ReadEof \<Rightarrow> False | ReadError \<Rightarrow> False | ReadData \<Rightarrow> te_write E pass addr | ReadWouldBlock \<Rightarrow> te_write E pass addr)"

record TcpProbe =
  tp_pass :: nat
  tp_active :: stun_connections
  tp_nat_info :: MyNatInfo

text \<open>One turn of the outer loop, with the seconds it sleeps (\<open>wait\<close> is the random number of the second case).\<close>

definition query_tcp_turn :: "(ipv4 \<Rightarrow> bool) \<Rightarrow> tcp_env \<Rightarrow> string list \<Rightarrow> nat \<Rightarrow> TcpProbe \<Rightarrow> TcpProbe \<times> nat" where
  "query_tcp_turn is_global E servers wait p =
     (case open_connections E (min (length servers) 2) (tp_pass p) (tp_active p) of
        (pass, None) \<Rightarrow> (\<lparr>tp_pass = pass, tp_active = [], tp_nat_info = update_tcp_public_addr is_global (V4 0 0) (tp_nat_info p)\<rparr>, 5 * 60)
      | (pass, Some active) \<Rightarrow>
          (\<lparr>tp_pass = pass, tp_active = filter (\<lambda>(addr, _). still_alive E pass addr) active,
            tp_nat_info = (case existing_pub_addr active of
                Some existing \<Rightarrow> update_tcp_public_addr is_global existing (tp_nat_info p) | None \<Rightarrow> tp_nat_info p)\<rparr>, wait))"


section \<open>Lemmas\<close>

lemma kept_v6: "interface_addrs C network l = (v4s, v6s) \<Longrightarrow> set v6s \<subseteq> Collect keep_v6"
  by (induction C network l arbitrary: v4s v6s rule: interface_addrs.induct) (auto split: prod.splits if_splits)

lemma mod_offset_inj:
  fixes i j n k :: nat
  assumes "(k + i) mod n = (k + j) mod n" and "i < n" and "j < n"
  shows "i = j"
proof -
  have "i' = j'" if "i' \<le> j'" "(k + j') mod n = (k + i') mod n" "j' < n" for i' j'
  proof -
    have "n dvd j' - i'" using that mod_eq_dvd_iff_nat [of "k + i'" "k + j'" n] by simp
    then show ?thesis using that by (auto dest: dvd_imp_le)
  qed
  then show ?thesis using assms by (metis nat_le_linear)
qed

lemma first_of_set: "first_of l = Some x \<Longrightarrow> x \<in> set l"
  by (auto simp: first_of_def split: list.splits)

text \<open>The connections agree on one public address, each to another server, and there are no more than wanted.\<close>

definition agree :: "nat \<Rightarrow> stun_connections \<Rightarrow> bool" where
  "agree target active \<longleftrightarrow> length active \<le> target \<and> distinct (map fst active) \<and> (\<exists>a. snd ` set active \<subseteq> {a})"

lemma agree_Nil [simp]: "agree target []"
  by (simp add: agree_def)








section \<open>Properties\<close>

text \<open>
  The global IPv6 address a node tells the others is none that only works locally, be it the one the system prefers or one of an interface; a
  new NAT test withdraws all public ports until the STUN servers answer again, and there is one local port for each of them.
\<close>

lemma nat_test_advertises:
  "case as_nat_info (fst (my_nat_info_impl C E s)) of
     None \<Rightarrow> False
   | Some n \<Rightarrow> pred_option keep_v6 (ipv6 n) \<and> set (public_udp_ports n) \<subseteq> {0} \<and> public_tcp_port n = 0 \<and>
       length (public_udp_ports n) = length (local_udp_ports n) \<and> local_ipv4s n = [local_ipv4 n]"
proof -
  obtain v4s v6s where v: "(case ne_addrs E of Inr addrs \<Rightarrow> interface_addrs C (shared_network (as_network s)) addrs | Inl _ \<Rightarrow> ([], [])) = (v4s, v6s)"
    by fastforce
  then have "set v6s \<subseteq> Collect keep_v6" by (auto dest: kept_v6 split: sum.splits)
  then have "pred_option keep_v6 (local_ipv6_of E v6s)"
    by (auto simp: local_ipv6_of_def pred_option_def elim!: option.set_cases dest: first_of_set split: sum.splits if_splits)
  with v show ?thesis by (auto simp: my_nat_info_impl_def replace_nat_info_def Let_def split: prod.splits)
qed

text \<open>
  The UDP servers are asked in turn: in any run of as many turns as there are servers each of them is asked, however many turns went before, and the
  list is never empty.
\<close>

lemma udp_servers_rotate:
  "udp_servers s \<noteq> []"
  "(\<lambda>i. fst (snd (query_udp_turn lookup (udp_servers s) n (turn + i)))) ` {..<length (udp_servers s)} =
     (\<lambda>stun. case lookup stun of Inr addrs \<Rightarrow> first_of addrs | Inl _ \<Rightarrow> None) ` set (udp_servers s)"
proof -
  show ne: "udp_servers s \<noteq> []" by (simp add: udp_servers_def default_udp_stun_def)
  let ?n = "length (udp_servers s)"
  have "(\<lambda>i. (turn + i) mod ?n) ` {..<?n} = {..<?n}"
  proof (rule endo_inj_surj)
    show "inj_on (\<lambda>i. (turn + i) mod ?n) {..<?n}" by (auto simp: inj_on_def dest: mod_offset_inj)
  qed (use ne in auto)
  then have "(\<lambda>i. udp_servers s ! ((turn + i) mod ?n)) ` {..<?n} = (!) (udp_servers s) ` {..<?n}"
    using image_image [of "(!) (udp_servers s)" "\<lambda>i. (turn + i) mod ?n" "{..<?n}"] by simp
  also have "\<dots> = set (udp_servers s)" by (auto simp: set_conv_nth)
  finally have all: "(\<lambda>i. udp_servers s ! ((turn + i) mod ?n)) ` {..<?n} = set (udp_servers s)" .
  show "(\<lambda>i. fst (snd (query_udp_turn lookup (udp_servers s) n (turn + i)))) ` {..<?n} =
     (\<lambda>stun. case lookup stun of Inr addrs \<Rightarrow> first_of addrs | Inl _ \<Rightarrow> None) ` set (udp_servers s)"
    unfolding all [symmetric] image_image by (simp add: query_udp_turn_def Let_def)
qed







text \<open>
  An IPv4 and an IPv6 server never agree, whatever the NAT does: the addresses are compared as they are. When the name of the second server is resolved to an
  IPv6 address first and this can be reached, both connections are closed and the TCP port is withdrawn, for five minutes and then again.
\<close>

lemma mixed_families_disagree:
  assumes "tp_active p = [(addr, V4 ip port)]" and "2 \<le> length servers" and "te_order E (tp_pass p) = stun # l"
    and "te_lookup E (tp_pass p) stun = Inr (addr' # addrs)" and "addr' \<noteq> addr" and "te_connect E (tp_pass p) addr' = Some stream"
    and "stun_tcp_read (te_recv_stun_response E) stream = Inr (V6 a port')"
  shows "query_tcp_turn is_global E servers wait p =
    (\<lparr>tp_pass = Suc (tp_pass p), tp_active = [], tp_nat_info = update_tcp_public_addr is_global (V4 0 0) (tp_nat_info p)\<rparr>, 300)"
  using assms by (simp add: query_tcp_turn_def open_connections.simps existing_pub_addr_def first_of_def)



end
