(* ===== verification/Dns_Query.thy ===== *)
theory Dns_Query
  imports Ip_Nat Config_Address
begin

text \<open>
  The DNS client (\<open>utils/dns_query.rs\<close>): one query over UDP with up to three requests, the records that are taken from an answer, and how these
  make up the resolver that \<open>Config_Address\<close> asks. Sockets and the parser \<open>dns_parser\<close> are arguments.
\<close>

section \<open>A query\<close>

datatype query_type = QA | QAAAA | QTXT

datatype rdata = RdA ipv4 | RdAAAA bytes | RdTXT "bytes list" | RdOther

record dns_packet =
  dp_no_error :: bool
  dp_answers :: "rdata list"

datatype recv_outcome = Received bytes | RecvFails | RecvTimeout

text \<open>The socket answers each request of a query by its number; it is bound for the family of the name server.\<close>

record dns_crates =
  dq_socket_addr :: "string \<Rightarrow> SocketAddr option"
  dq_bind :: "bool \<Rightarrow> bool"
  dq_connect :: "SocketAddr \<Rightarrow> bool"
  dq_send :: "SocketAddr \<Rightarrow> string \<times> query_type \<Rightarrow> nat \<Rightarrow> bool"
  dq_recv :: "SocketAddr \<Rightarrow> string \<times> query_type \<Rightarrow> nat \<Rightarrow> recv_outcome"
  dq_parse :: "bytes \<Rightarrow> dns_packet option"
  dq_from_utf8 :: "bytes \<Rightarrow> string option"

text \<open>The loop with its counter; the first component is how many requests were sent.\<close>

function request_loop :: "(nat \<Rightarrow> bool) \<Rightarrow> (nat \<Rightarrow> recv_outcome) \<Rightarrow> nat \<Rightarrow> nat \<times> bytes result" where
  "request_loop send recv n =
     (if \<not> send n then (n, Inl OtherError)
      else case recv n of
        Received b \<Rightarrow> (Suc n, Inr b)
      | RecvFails \<Rightarrow> (Suc n, Inl OtherError)
      | RecvTimeout \<Rightarrow> if Suc n < 3 then request_loop send recv (Suc n) else (Suc n, Inl OtherError))"
  by pat_completeness auto

termination
  by (relation "measure (\<lambda>(send, recv, n). 3 - n)") auto

declare request_loop.simps [simp del]

definition query :: "dns_crates \<Rightarrow> string \<Rightarrow> SocketAddr \<Rightarrow> query_type \<Rightarrow> dns_packet result" where
  "query W domain name_server record_type =
     (if \<not> dq_connect W name_server then Inl OtherError
      else rbind (snd (request_loop (dq_send W name_server (domain, record_type)) (dq_recv W name_server (domain, record_type)) 0)) (\<lambda>b.
        case dq_parse W b of
          None \<Rightarrow> Inl OtherError
        | Some pkt \<Rightarrow> if \<not> dp_no_error pkt then Inl OtherError else if dp_answers pkt = [] then Inl OtherError else Inr pkt))"

definition bind_udp :: "dns_crates \<Rightarrow> SocketAddr \<Rightarrow> unit result" where
  "bind_udp W name_server = (if dq_bind W (case name_server of V4 _ _ \<Rightarrow> True | V6 _ _ \<Rightarrow> False) then Inr () else Inl OtherError)"

definition ask :: "dns_crates \<Rightarrow> string \<Rightarrow> string \<Rightarrow> query_type \<Rightarrow> rdata list result" where
  "ask W domain name_server record_type =
     rbind (ok_or OtherError (dq_socket_addr W name_server)) (\<lambda>ns.
     rbind (bind_udp W ns) (\<lambda>_.
     rbind (query W domain ns record_type) (\<lambda>pkt. Inr (dp_answers pkt))))"

text \<open>The strings of all TXT records; one that is no text fails the whole answer.\<close>

fun texts :: "(bytes \<Rightarrow> string option) \<Rightarrow> rdata list \<Rightarrow> string list result" where
  "texts from_utf8 [] = Inr []"
| "texts from_utf8 (r # rs) =
     rbind (case r of RdTXT txt \<Rightarrow> collect_results (map (\<lambda>x. ok_or OtherError (from_utf8 x)) txt) | _ \<Rightarrow> Inr []) (\<lambda>a.
     rbind (texts from_utf8 rs) (\<lambda>b. Inr (a @ b)))"

definition txt_dns :: "dns_crates \<Rightarrow> string \<Rightarrow> string \<Rightarrow> string list result" where
  "txt_dns W domain name_server = rbind (ask W domain name_server QTXT) (texts (dq_from_utf8 W))"

definition a_dns :: "dns_crates \<Rightarrow> string \<Rightarrow> string \<Rightarrow> ip_addr list result" where
  "a_dns W domain name_server =
     rbind (ask W domain name_server QA) (\<lambda>rs. Inr (concat (map (\<lambda>r. case r of RdA ip \<Rightarrow> [IpV4 ip] | _ \<Rightarrow> []) rs)))"

definition aaaa_dns :: "dns_crates \<Rightarrow> string \<Rightarrow> string \<Rightarrow> ip_addr list result" where
  "aaaa_dns W domain name_server =
     rbind (ask W domain name_server QAAAA) (\<lambda>rs. Inr (concat (map (\<lambda>r. case r of RdAAAA ip \<Rightarrow> [IpV6 ip] | _ \<Rightarrow> []) rs)))"

text \<open>\<open>SocketAddr::new\<close>; an IPv6 address is eight segments there.\<close>

fun segments :: "bytes \<Rightarrow> u16 list" where
  "segments (a # b # l) = of_be16 a b # segments l"
| "segments _ = []"

definition sock_addr_new :: "ip_addr \<Rightarrow> u16 \<Rightarrow> SocketAddr" where
  "sock_addr_new ip port = (case ip of IpV4 a \<Rightarrow> V4 a port | IpV6 b \<Rightarrow> V6 (segments b) port)"

definition dns_resolver :: "dns_crates \<Rightarrow> (string \<Rightarrow> SocketAddr list result) \<Rightarrow> (SocketAddr, ip_addr) resolver" where
  "dns_resolver W lookup =
     \<lparr>parse_sock = dq_socket_addr W, lookup_host = lookup, dns_a = a_dns W, dns_aaaa = aaaa_dns W, sock_of = sock_addr_new\<rparr>"

section \<open>Lemmas\<close>

text \<open>The addresses a name server has for a host, without its errors.\<close>

definition given :: "'a list result \<Rightarrow> 'a list" where
  "given r = (case r of Inr l \<Rightarrow> l | Inl _ \<Rightarrow> [])"

definition addresses_at :: "dns_crates \<Rightarrow> string \<Rightarrow> u16 \<Rightarrow> string \<Rightarrow> SocketAddr list" where
  "addresses_at W host port ns = map (\<lambda>ip. sock_addr_new ip port) (given (a_dns W host ns) @ given (aaaa_dns W host ns))"

lemma request_loop_bound: "n < 3 \<Longrightarrow> request_loop send recv n = (k, r) \<Longrightarrow> n \<le> k \<and> k \<le> 3"
proof (induction send recv n rule: request_loop.induct)
  case (1 send recv n)
  then show ?case
    by (auto simp: request_loop.simps [of send recv n] split: if_splits recv_outcome.splits)
qed

lemma all_loop_step:
  assumes "rsplit_once CHR '':'' domain = Some (host, p)" and "parse_u16 p = Some port"
  shows "dns_all_loop (dns_resolver W lookup) domain err (ns # nss) =
    (if addresses_at W host port ns \<noteq> [] then Inr (addresses_at W host port ns)
     else dns_all_loop (dns_resolver W lookup) domain
       (case aaaa_dns W host ns of Inl e \<Rightarrow> Some e | Inr _ \<Rightarrow> (case a_dns W host ns of Inl e \<Rightarrow> Some e | Inr _ \<Rightarrow> err)) nss)"
  using assms
  by (cases "a_dns W host ns"; cases "aaaa_dns W host ns") (auto simp: dns_resolver_def addresses_at_def given_def Let_def)

lemma all_loop_find:
  assumes "rsplit_once CHR '':'' domain = Some (host, p)" and "parse_u16 p = Some port"
  shows "case find (\<lambda>ns. addresses_at W host port ns \<noteq> []) nss of
      Some ns \<Rightarrow> dns_all_loop (dns_resolver W lookup) domain err nss = Inr (addresses_at W host port ns)
    | None \<Rightarrow> \<exists>e. dns_all_loop (dns_resolver W lookup) domain err nss = Inl e"
proof (induction nss arbitrary: err)
  case Nil
  then show ?case by (auto split: option.splits)
next
  case (Cons ns nss)
  show ?case
  proof (cases "addresses_at W host port ns = []")
    case True
    then show ?thesis using Cons
      by (cases "find (\<lambda>ns. addresses_at W host port ns \<noteq> []) nss") (simp_all add: all_loop_step [OF assms] del: dns_all_loop.simps)
  next
    case False
    then show ?thesis by (simp add: all_loop_step [OF assms] del: dns_all_loop.simps)
  qed
qed

section \<open>Properties\<close>

text \<open>
  A query ends: it sends one request, and another one only after three seconds without an answer, at most three in all; a name server that stays silent is an error.
\<close>

lemma query_sends_three:
  "fst (request_loop send recv 0) \<le> 3"
  "request_loop (\<lambda>_. True) (\<lambda>_. RecvTimeout) 0 = (3, Inl OtherError)"
proof -
  show "fst (request_loop send recv 0) \<le> 3"
    using request_loop_bound [of 0 send recv] by (cases "request_loop send recv 0") auto
qed (simp add: request_loop.simps)

text \<open>
  C37. A domain with a port is resolved by the first of the configured name servers that has an address of either family for it, with the port of
  the domain, IPv4 first; servers that fail, are silent or know nothing are passed over, and if all are, the result is an error and never an empty list.
\<close>

theorem first_name_server_answers:
  assumes "dq_socket_addr W domain = None" and "name_servers \<noteq> []"
    and "rsplit_once CHR '':'' domain = Some (host, p)" and "parse_u16 p = Some port"
  shows "case find (\<lambda>ns. addresses_at W host port ns \<noteq> []) name_servers of
      Some ns \<Rightarrow> dns_query_all (dns_resolver W lookup) domain name_servers = Inr (addresses_at W host port ns)
    | None \<Rightarrow> \<exists>e. dns_query_all (dns_resolver W lookup) domain name_servers = Inl e"
  using all_loop_find [OF assms(3,4), where W = W and nss = name_servers and lookup = lookup and err = None] assms(1,2)
  by (simp add: dns_query_all_def dns_resolver_def split: option.splits)

definition demo_dns :: dns_crates where
  "demo_dns = \<lparr>dq_socket_addr = (\<lambda>s. if s = ''x'' then Some (V4 1 53) else if s = ''y'' then Some (V4 2 53) else None), dq_bind = (\<lambda>_. True),
     dq_connect = (\<lambda>_. True), dq_send = (\<lambda>_ _ _. True),
     dq_recv = (\<lambda>ns (_, t) n. if ns = V4 2 53 \<and> t = QA \<and> n = 1 then Received [1] else RecvTimeout),
     dq_parse = (\<lambda>_. Some \<lparr>dp_no_error = True, dp_answers = [RdOther, RdA 0x01020304]\<rparr>), dq_from_utf8 = (\<lambda>_. None)\<rparr>"

theorem first_name_server_answers_witness:
  "dns_query_all (dns_resolver demo_dns (\<lambda>_. Inl OtherError)) ''h:80'' [''x'', ''y''] = Inr [V4 0x01020304 80]"
proof -
  have parts: "rsplit_once CHR '':'' ''h:80'' = Some (''h'', ''80'')" "parse_u16 ''80'' = Some 80"
    by (simp, simp add: parse_u16_def digit_val_def)
  have silent: "request_loop (\<lambda>_. True) (\<lambda>_. RecvTimeout) 0 = (3, Inl OtherError)" by (simp add: request_loop.simps)
  have second: "request_loop (\<lambda>_. True) (\<lambda>n. if n = Suc 0 then Received [1] else RecvTimeout) 0 = (2, Inr [1])"
    by (simp add: request_loop.simps)
  note d = a_dns_def aaaa_dns_def ask_def bind_udp_def query_def demo_dns_def
  have "addresses_at demo_dns ''h'' 80 ''x'' = []"
    by (simp add: addresses_at_def given_def d silent)
  moreover have "addresses_at demo_dns ''h'' 80 ''y'' = [V4 0x01020304 80]"
    by (simp add: addresses_at_def given_def d silent second sock_addr_new_def)
  ultimately show ?thesis
    using first_name_server_answers [of demo_dns "''h:80''" "[''x'', ''y'']" "''h''" "''80''" 80 "\<lambda>_. Inl OtherError"] parts
    by (simp add: demo_dns_def)
qed

end
