(* ===== verification/Tls_Endpoint.thy ===== *)
theory Tls_Endpoint
  imports Network_Core
begin

text \<open>
  Who is let in: the certificate that all nodes of a password share (\<open>tls/cert.rs\<close>), the QUIC endpoint between nodes that checks for it
  (\<open>quic_over/boot.rs\<close>), and how the three transports open their streams to a server (\<open>transport/quic.rs\<close>, \<open>tcp.rs\<close>, \<open>wss.rs\<close>).

  Keys, signing and the handshakes themselves belong to \<open>rcgen\<close>, \<open>rustls\<close> and \<open>quinn\<close>. What is used of a handshake is that the client goes on exactly when
  its verifier accepts the certificate the server presents and the signature under it.
\<close>

section \<open>The certificate of a password\<close>

text \<open>The fields of the certificate; times in seconds since 1970.\<close>

record cert_params =
  cp_names :: "string list"
  cp_common_name :: string
  cp_not_before :: int
  cp_not_after :: int
  cp_serial :: bytes

record cert_crates =
  ct_sha256 :: "bytes \<Rightarrow> bytes"
  ct_key_ok :: "bytes \<Rightarrow> bool"
  ct_self_signed :: "cert_params \<Rightarrow> bytes \<Rightarrow> bytes result"

definition ED25519_PKCS8_V1_PREFIX :: bytes where
  "ED25519_PKCS8_V1_PREFIX = [0x30, 0x2e, 0x02, 0x01, 0x00, 0x30, 0x05, 0x06, 0x03, 0x2b, 0x65, 0x70, 0x04, 0x22, 0x04, 0x20]"

definition derive_serial_number :: "(bytes \<Rightarrow> bytes) \<Rightarrow> string \<Rightarrow> bytes" where
  "derive_serial_number sha password = take 20 (sha (utf8 ''vnt-serial-v1:'' @ utf8 password))"

definition derive_seed_from_password :: "(bytes \<Rightarrow> bytes) \<Rightarrow> string \<Rightarrow> bytes" where
  "derive_seed_from_password sha password = (sha ^^ 10) (sha (utf8 ''vnt-ed25519-seed-v1:'' @ utf8 password))"

definition generate_deterministic_cert :: "cert_crates \<Rightarrow> string \<Rightarrow> (bytes \<times> bytes) result" where
  "generate_deterministic_cert C password =
     (let pkcs8_bytes = ED25519_PKCS8_V1_PREFIX @ derive_seed_from_password (ct_sha256 C) password in
      if \<not> ct_key_ok C pkcs8_bytes then Inl (Bail ''Failed to load determinstic Ed25519 key'')
      else rbind (ct_self_signed C
             \<lparr>cp_names = [''deterministic-node''], cp_common_name = ''Deterministic Self-Signed Cert'', cp_not_before = 0,
              cp_not_after = 365 * 1000 * 86400, cp_serial = derive_serial_number (ct_sha256 C) password\<rparr> pkcs8_bytes)
        (\<lambda>cert. Inr (cert, pkcs8_bytes)))"

section \<open>The endpoint between nodes\<close>

record quic_endpoint =
  qe_cert :: bytes
  qe_private_key :: bytes
  qe_verifier :: verifier

definition create_quic_endpoint :: "cert_crates \<Rightarrow> (bytes \<Rightarrow> bytes \<Rightarrow> bool) \<Rightarrow> string \<Rightarrow> quic_endpoint result" where
  "create_quic_endpoint C endpoint_ok password =
     rbind (generate_deterministic_cert C password) (\<lambda>(cert, private_key).
       if \<not> endpoint_ok cert private_key then Inl (Bail ''TLS config error'')
       else Inr \<lparr>qe_cert = cert, qe_private_key = private_key, qe_verifier = fingerprint_verifier (ct_sha256 C) (ct_sha256 C cert)\<rparr>)"

text \<open>What a client makes of the certificate and the signature a server shows.\<close>

definition tls_accepts :: "verifier \<Rightarrow> bytes \<times> bytes \<Rightarrow> bool" where
  "tls_accepts v shown \<longleftrightarrow> verify_server_cert v (fst shown) \<and> verify_tls_signature v (fst shown) (snd shown)"

section \<open>Streams to a server\<close>

text \<open>
  The network as the transports see it: what the machine at an address shows under a name, whether the steps around it succeed, and
  the stream that results. \<open>tn_udp_client\<close> is whether a QUIC client can be bound, to the IPv6 wildcard or to the one of IPv4.
\<close>

record 'a tls_net =
  tn_sha256 :: "bytes \<Rightarrow> bytes"
  tn_webpki :: "verifier result"
  tn_quic_config :: bool
  tn_udp_client :: "bool \<Rightarrow> bool"
  tn_tcp_connect :: "'a \<Rightarrow> bool"
  tn_name_ok :: "string \<Rightarrow> bool"
  tn_shows :: "'a \<Rightarrow> string \<Rightarrow> (bytes \<times> bytes) option"
  tn_open_bi :: "'a \<Rightarrow> bool"
  tn_stream :: "'a \<Rightarrow> bytes link"
  tn_ws_handshake :: "'a \<Rightarrow> string \<Rightarrow> ws_message link result"

definition create_tls_client_config :: "'a tls_net \<Rightarrow> CertValidationMode \<Rightarrow> verifier result" where
  "create_tls_client_config N mode = build_verifier (tn_sha256 N) (tn_webpki N) mode"

definition create_client_config :: "'a tls_net \<Rightarrow> CertValidationMode \<Rightarrow> verifier result" where
  "create_client_config N cert_mode =
     rbind (create_tls_client_config N cert_mode) (\<lambda>v. if tn_quic_config N then Inr v else Inl (Bail ''Failed to create QUIC client config''))"

definition tls_handshake :: "'a tls_net \<Rightarrow> verifier \<Rightarrow> 'a \<Rightarrow> string \<Rightarrow> unit result" where
  "tls_handshake N v addr name =
     (case tn_shows N addr name of
        None \<Rightarrow> Inl OtherError
      | Some shown \<Rightarrow> if tls_accepts v shown then Inr () else Inl OtherError)"

definition connect_quic :: "'a tls_net \<Rightarrow> 'a ConnectConfig \<Rightarrow> bytes link result" where
  "connect_quic N config =
     rbind (create_client_config N (con_cert_mode config)) (\<lambda>quic_config.
       if \<not> tn_udp_client N True \<and> \<not> tn_udp_client N False then Inl (Bail ''Failed to create QUIC endpoint'')
       else if \<not> tn_name_ok N (con_server_domain config) then Inl OtherError
       else rbind (tls_handshake N quic_config (con_server_addr config) (con_server_domain config)) (\<lambda>_.
         if \<not> tn_open_bi N (con_server_addr config) then Inl (Bail ''Failed to open bidirectional stream'')
         else Inr (tn_stream N (con_server_addr config))))"

definition connect_tls :: "'a tls_net \<Rightarrow> 'a ConnectConfig \<Rightarrow> unit result" where
  "connect_tls N config =
     rbind (create_tls_client_config N (con_cert_mode config)) (\<lambda>rustls_config.
       if \<not> tn_tcp_connect N (con_server_addr config) then Inl (Bail ''Failed to establish underlying TCP connection'')
       else if \<not> tn_name_ok N (con_server_domain config) then Inl (Bail ''Invalid server name for TLS'')
       else tls_handshake N rustls_config (con_server_addr config) (con_server_domain config))"

definition connect_tls_tcp :: "'a tls_net \<Rightarrow> 'a ConnectConfig \<Rightarrow> bytes link result" where
  "connect_tls_tcp N config = rbind (connect_tls N config) (\<lambda>_. Inr (tn_stream N (con_server_addr config)))"

definition connect_wss :: "'a tls_net \<Rightarrow> 'a ConnectConfig \<Rightarrow> ws_message link result" where
  "connect_wss N config =
     rbind (connect_tls N config) (\<lambda>_. tn_ws_handshake N (con_server_addr config) (''wss://'' @ con_server_domain config))"

text \<open>The environment of \<open>Server_Connection\<close> with these transports.\<close>

definition on_network :: "'a tls_net \<Rightarrow> 'a conn_env \<Rightarrow> 'a conn_env" where
  "on_network N E = E\<lparr>ce_quic := connect_quic N, ce_tls_tcp := connect_tls_tcp N, ce_wss := connect_wss N\<rparr>"

section \<open>Lemmas\<close>

definition shown_accepted :: "'a tls_net \<Rightarrow> 'a ConnectConfig \<Rightarrow> bool" where
  "shown_accepted N config \<longleftrightarrow> (\<exists>v shown. build_verifier (tn_sha256 N) (tn_webpki N) (con_cert_mode config) = Inr v \<and>
     tn_shows N (con_server_addr config) (con_server_domain config) = Some shown \<and> tls_accepts v shown)"

lemma handshake_accepts: "tls_handshake N v addr name = Inr u \<Longrightarrow> \<exists>shown. tn_shows N addr name = Some shown \<and> tls_accepts v shown"
  by (auto simp: tls_handshake_def split: option.splits if_splits)

lemma connect_tls_accepted: "connect_tls N config = Inr u \<Longrightarrow> shown_accepted N config"
  unfolding shown_accepted_def
  by (auto simp: connect_tls_def create_tls_client_config_def rbind_eq_Inr dest: handshake_accepts split: if_splits)

lemma connect_quic_accepted: "connect_quic N config = Inr l \<Longrightarrow> shown_accepted N config"
  unfolding shown_accepted_def
  by (auto simp: connect_quic_def create_client_config_def create_tls_client_config_def rbind_eq_Inr dest: handshake_accepts split: if_splits)

lemma stream_accepted:
  "connect_tls_tcp N config = Inr l \<Longrightarrow> shown_accepted N config" "connect_wss N config = Inr l' \<Longrightarrow> shown_accepted N config"
  by (auto simp: connect_tls_tcp_def connect_wss_def rbind_eq_Inr dest: connect_tls_accepted)

lemma endpoint_made:
  assumes "create_quic_endpoint C endpoint_ok password = Inr e"
  shows "qe_verifier e = fingerprint_verifier (ct_sha256 C) (ct_sha256 C (qe_cert e))"
    and "generate_deterministic_cert C password = Inr (qe_cert e, qe_private_key e)"
  using assms by (auto simp: create_quic_endpoint_def rbind_eq_Inr split: if_splits)

section \<open>Properties\<close>

text \<open>
  C20. Whatever the protocol, a connection to a server is only opened when the verifier of the configured mode accepts what the machine at the server's address shows under its
  name; with a fingerprint this is a certificate that has it.
\<close>

theorem transports_check_server:
  assumes "transport_connect (on_network N E) config Pending = (c, Inr u)"
  shows "shown_accepted N config \<and>
    (con_cert_mode config = VerifyFingerprint f \<longrightarrow>
      map_option (tn_sha256 N \<circ> fst) (tn_shows N (con_server_addr config) (con_server_domain config)) = Some f)"
proof -
  have "shown_accepted N config"
    using assms
    by (auto simp: transport_connect_def on_network_def dest: connect_quic_accepted stream_accepted split: ProtocolType.splits sum.splits)
  then show ?thesis
    by (auto simp: shown_accepted_def build_verifier_def tls_accepts_def fingerprint_verifier_def)
qed

text \<open>
  The QUIC endpoints of two nodes: the certificate is made of the password alone, so that nodes with the same password, or none, have the same one and accept each other, and
  in general one accepts another exactly when the digests of their certificates are equal. Nothing else is asked for: whoever shows the certificate is accepted under any signature.
\<close>

lemma peers_share_certificate:
  assumes "create_quic_endpoint C ok (qc_password (node_quic_config config1)) = Inr e1"
    and "create_quic_endpoint C ok (qc_password (node_quic_config config2)) = Inr e2"
  shows "get_or_default ''password'' (cfg_password config1) = get_or_default ''password'' (cfg_password config2) \<Longrightarrow> e1 = e2"
    and "tls_accepts (qe_verifier e1) (qe_cert e2, signature) \<longleftrightarrow> ct_sha256 C (qe_cert e1) = ct_sha256 C (qe_cert e2)"
    and "tls_accepts (qe_verifier e1) (qe_cert e1, signature)"
proof -
  show "e1 = e2" if "get_or_default ''password'' (cfg_password config1) = get_or_default ''password'' (cfg_password config2)"
    using assms that by (simp add: node_quic_config_def)
qed (auto simp: endpoint_made [OF assms(1)] endpoint_made [OF assms(2)] tls_accepts_def fingerprint_verifier_def)

definition demo_tls_net :: "unit tls_net" where
  "demo_tls_net = \<lparr>tn_sha256 = take 32, tn_webpki = Inl OtherError, tn_quic_config = True, tn_udp_client = (\<lambda>v6. \<not> v6), tn_tcp_connect = (\<lambda>_. False),
     tn_name_ok = (\<lambda>_. True), tn_shows = (\<lambda>_ _. Some (replicate 40 7, [])), tn_open_bi = (\<lambda>_. True),
     tn_stream = (\<lambda>_. \<lparr>lk_in = [], lk_sink = (\<lambda>_. True), lk_out = []\<rparr>), tn_ws_handshake = (\<lambda>_ _. Inl OtherError)\<rparr>"

theorem transports_check_server_witness:
  "\<exists>c. transport_connect (on_network demo_tls_net demo_env)
      \<lparr>con_protocol_type = QuicProto, con_server_addr = (), con_server_domain = ''a'', con_cert_mode = VerifyFingerprint (replicate 32 7)\<rparr> Pending = (c, Inr ()) \<and>
    map_option (take 32 \<circ> fst) (tn_shows demo_tls_net () ''a'') = Some (replicate 32 7)"
proof -
  let ?config = "\<lparr>con_protocol_type = QuicProto, con_server_addr = (), con_server_domain = ''a'', con_cert_mode = VerifyFingerprint (replicate 32 7)\<rparr>"
  obtain c where c: "transport_connect (on_network demo_tls_net demo_env) ?config Pending = (c, Inr ())"
    by (simp add: transport_connect_def on_network_def connect_quic_def create_client_config_def create_tls_client_config_def build_verifier_def
        tls_handshake_def tls_accepts_def fingerprint_verifier_def demo_tls_net_def)
  show ?thesis using c transports_check_server [OF c, of "replicate 32 7"] by (simp add: demo_tls_net_def)
qed

definition demo_certs :: cert_crates where
  "demo_certs = \<lparr>ct_sha256 = (\<lambda>b. take 32 (b @ replicate 32 0)), ct_key_ok = (\<lambda>_. True), ct_self_signed = (\<lambda>p k. Inr (cp_serial p @ k))\<rparr>"

text \<open>A node without password and one with the password \<open>password\<close>.\<close>

lemma peers_share_certificate_witness:
  "\<exists>e. create_quic_endpoint demo_certs (\<lambda>_ _. True) (qc_password (node_quic_config (demo_config False))) = Inr e \<and>
     create_quic_endpoint demo_certs (\<lambda>_ _. True) (qc_password (node_quic_config ((demo_config True)\<lparr>cfg_password := Some ''password''\<rparr>))) = Inr e \<and>
     tls_accepts (qe_verifier e) (qe_cert e, [])"
proof -
  have "\<exists>e. create_quic_endpoint demo_certs (\<lambda>_ _. True) p = Inr e" for p
    by (simp add: create_quic_endpoint_def generate_deterministic_cert_def demo_certs_def Let_def)
  then obtain e1 e2 where e: "create_quic_endpoint demo_certs (\<lambda>_ _. True) (qc_password (node_quic_config (demo_config False))) = Inr e1"
    "create_quic_endpoint demo_certs (\<lambda>_ _. True) (qc_password (node_quic_config ((demo_config True)\<lparr>cfg_password := Some ''password''\<rparr>))) = Inr e2"
    by metis
  have "e1 = e2" by (rule peers_share_certificate(1) [OF e]) (simp add: demo_config_def)
  with e peers_share_certificate(3) [OF e] show ?thesis by blast
qed

end
