(* ===== verification/Web_Static.thy ===== *)
theory Web_Static
  imports Web_Store
begin

text \<open>
  The way of a request through the web service (\<open>vnt-web/src/service_http.rs\<close>): the routes of the interface, and the handler of everything else,
  which serves the files of the front end from the directory \<open>static\<close> or from the program itself.
\<close>

section \<open>Routes\<close>

datatype http_method = GET | HEAD | POST | DELETE | OtherMethod

datatype endpoint =
    GetInfo | GetPeers | GetRoutes | GetStartStatus | StartVnt | StopVnt | RestartVnt
  | ListConfigs | GetConfig | SaveConfig | DeleteConfig

datatype web_target = Endpoint endpoint | MethodNotAllowed | StaticFile

text \<open>A route for \<open>get\<close> also answers \<open>HEAD\<close>.\<close>

definition web_routes :: "(string \<times> (http_method \<times> endpoint) list) list" where
  "web_routes =
     [(''/api/info'', [(GET, GetInfo)]), (''/api/peers'', [(GET, GetPeers)]), (''/api/routes'', [(GET, GetRoutes)]),
      (''/api/start/status'', [(GET, GetStartStatus)]), (''/api/start'', [(POST, StartVnt)]), (''/api/stop'', [(POST, StopVnt)]),
      (''/api/restart'', [(POST, RestartVnt)]), (''/api/config/list'', [(GET, ListConfigs)]),
      (''/api/config'', [(GET, GetConfig), (POST, SaveConfig), (DELETE, DeleteConfig)])]"

definition web_route :: "http_method \<Rightarrow> string \<Rightarrow> web_target" where
  "web_route m path =
     (case map_of web_routes path of
        None \<Rightarrow> StaticFile
      | Some ms \<Rightarrow> (case map_of ms (if m = HEAD then GET else m) of Some e \<Rightarrow> Endpoint e | None \<Rightarrow> MethodNotAllowed))"

section \<open>Files\<close>

text \<open>
  \<open>se_file\<close> is what can be read at a path, if there is a file; \<open>se_asset\<close> what is built into the program; \<open>se_mime\<close> the guess of \<open>mime_guess\<close>.
\<close>

record static_env =
  se_join :: "string \<Rightarrow> string \<Rightarrow> string"
  se_file :: "string \<Rightarrow> bytes option"
  se_asset :: "string \<Rightarrow> bytes option"
  se_mime :: "string \<Rightarrow> string"

datatype static_response = Served "(string \<times> string) list" bytes | NotFound

function drop_gz :: "string \<Rightarrow> string" where
  "drop_gz s = (if take 3 s = ''zg.'' then drop_gz (drop 3 s) else s)"
  by pat_completeness auto

termination
  by (relation "measure length") (auto dest!: arg_cong [of _ _ length])

declare drop_gz.simps [simp del]

definition build_headers_for_path :: "static_env \<Rightarrow> string \<Rightarrow> (string \<times> string) list" where
  "build_headers_for_path E path =
     (let is_gz = take 3 (rev path) = ''zg.'' in
      [(''content-type'', se_mime E (if is_gz then rev (drop_gz (rev path)) else path))] @
      (if is_gz then [(''content-encoding'', ''gzip''), (''vary'', ''Accept-Encoding'')] else []) @
      [(''cache-control'', ''public, max-age=31536000, immutable'')])"

definition static_path :: "string \<Rightarrow> string" where
  "static_path uri_path = (let path = dropWhile (\<lambda>c. c = CHR ''/'') uri_path in if path = [] then ''index.html'' else path)"

definition static_handler :: "static_env \<Rightarrow> string \<Rightarrow> static_response" where
  "static_handler E uri_path =
     (let path = static_path uri_path; local_path = se_join E ''static'' path in
      case se_file E local_path of
        Some content \<Rightarrow> Served [(''content-type'', se_mime E local_path)] content
      | None \<Rightarrow>
          (case se_asset E path of
             Some data \<Rightarrow> Served (build_headers_for_path E path) data
           | None \<Rightarrow> NotFound))"

section \<open>Where a path leads\<close>

text \<open>
  How the system follows a relative path from a directory, without links: \<open>is_dir\<close> is asked of every directory on the way, and \<open>..\<close> goes up.
\<close>

fun components :: "string \<Rightarrow> string list" where
  "components [] = [[]]"
| "components (c # cs) = (if c = CHR ''/'' then [] # components cs else (c # hd (components cs)) # tl (components cs))"

fun walk :: "(string list \<Rightarrow> bool) \<Rightarrow> string list \<Rightarrow> string list \<Rightarrow> string list option" where
  "walk is_dir pos [] = Some pos"
| "walk is_dir pos (c # cs) =
     (if \<not> is_dir pos then None
      else if c = [] \<or> c = ''.'' then walk is_dir pos cs
      else if c = ''..'' then walk is_dir (butlast pos) cs
      else walk is_dir (pos @ [c]) cs)"

definition disk_file :: "(string list \<Rightarrow> bool) \<Rightarrow> (string list \<Rightarrow> bytes option) \<Rightarrow> string list \<Rightarrow> string \<Rightarrow> bytes option" where
  "disk_file is_dir content cwd p = Option.bind (walk is_dir cwd (components p)) content"

section \<open>Properties\<close>

text \<open>
  C38. The files of the front end are not kept apart from the others. On Unix, if there is a directory \<open>static\<close>, a request for \<open>/../\<close> and a name is answered with the file of
  that name in the directory the service runs in, its configuration with the passwords among them; the name may itself go up. On Windows a request for \<open>/\<close> and a path with a drive is answered with the
  file at this path.
\<close>

theorem static_files_leak:
  assumes "is_dir cwd" and "is_dir (cwd @ [''static''])"
    and "disk_file is_dir content cwd name = Some data"
  shows "static_handler \<lparr>se_join = join_unix, se_file = disk_file is_dir content cwd, se_asset = asset, se_mime = mime\<rparr> (''/../'' @ name) =
      Served [(''content-type'', mime (''static/../'' @ name))] data \<and>
    (is_letter d \<longrightarrow> file (d # CHR '':'' # rest) = Some data' \<longrightarrow>
      static_handler \<lparr>se_join = join_windows, se_file = file, se_asset = asset, se_mime = mime\<rparr> (CHR ''/'' # d # CHR '':'' # rest) =
      Served [(''content-type'', mime (d # CHR '':'' # rest))] data')"
proof (intro conjI impI)
  have "components (''static/../'' @ name) = ''static'' # ''..'' # components name" by simp
  then have "disk_file is_dir content cwd (''static/../'' @ name) = Some data"
    using assms by (simp add: disk_file_def)
  then show "static_handler \<lparr>se_join = join_unix, se_file = disk_file is_dir content cwd, se_asset = asset, se_mime = mime\<rparr> (''/../'' @ name) =
      Served [(''content-type'', mime (''static/../'' @ name))] data"
    by (simp add: static_handler_def static_path_def join_unix_def)
  show "static_handler \<lparr>se_join = join_windows, se_file = file, se_asset = asset, se_mime = mime\<rparr> (CHR ''/'' # d # CHR '':'' # rest) =
      Served [(''content-type'', mime (d # CHR '':'' # rest))] data'"
    if d: "is_letter d" "file (d # CHR '':'' # rest) = Some data'"
  proof -
    have "d \<noteq> CHR ''/''" using d(1) by (auto simp: is_letter_def)
    with d show ?thesis by (simp add: static_handler_def static_path_def join_windows_def)
  qed
qed

text \<open>
  Without such a directory, and for names that neither go up nor stand for themselves, only what is built in is served.
\<close>

lemma static_embedded:
  assumes "se_file E (se_join E ''static'' (static_path p)) = None"
  shows "static_handler E p = (case se_asset E (static_path p) of None \<Rightarrow> NotFound | Some data \<Rightarrow> Served (build_headers_for_path E (static_path p)) data)"
  using assms by (simp add: static_handler_def Let_def)

theorem static_files_leak_witness:
  "static_handler \<lparr>se_join = join_unix,
      se_file = disk_file (\<lambda>p. p = [''srv''] \<or> p = [''srv'', ''static''] \<or> p = [''srv'', ''vnt_config''])
        (\<lambda>p. if p = [''srv'', ''vnt_config'', ''a''] then Some [112, 119] else None) [''srv''],
      se_asset = (\<lambda>_. None), se_mime = (\<lambda>_. ''t'')\<rparr> ''/../vnt_config/a'' = Served [(''content-type'', ''t'')] [112, 119]"
proof -
  let ?dir = "\<lambda>p. p = [''srv''] \<or> p = [''srv'', ''static''] \<or> p = [''srv'', ''vnt_config'']"
    and ?content = "\<lambda>p. if p = [''srv'', ''vnt_config'', ''a''] then Some [112, 119] else None"
  have "disk_file ?dir ?content [''srv''] ''vnt_config/a'' = Some [112, 119]" by (simp add: disk_file_def)
  from static_files_leak [where is_dir = ?dir and cwd = "[''srv'']", OF _ _ this, where asset = "\<lambda>_. None" and mime = "\<lambda>_. ''t''", THEN conjunct1]
  show ?thesis by simp
qed

end
