(* ===== verification/Fec_Worker.thy ===== *)
theory Fec_Worker
  imports Outbound
begin

text \<open>
  The encoder of \<open>fec/encoder.rs\<close> at work: packets are numbered and collected by \<open>encode\<close>, full groups go to the worker over a channel, overdue ones are
  closed by its timer, and the worker sends the parity of each. The three can happen in any order.
\<close>

section \<open>The worker\<close>

definition BATCH_CHANNEL_SIZE :: nat where "BATCH_CHANNEL_SIZE = 1024"

text \<open>\<open>encode_and_send_parity\<close>: the packets are sent one after the other, an error of one is logged.\<close>

definition encode_and_send_parity ::
  "('k, 'c) out_crates \<Rightarrow> reed_solomon \<Rightarrow> ('k, 'c) BasicOutbound \<Rightarrow> ServerInfoCollection \<Rightarrow> batch \<Rightarrow> 'k event list \<times> unit result" where
  "encode_and_send_parity W rs bo info b =
     (case encode_parity (oc_fec_codec W) rs b of
        Inl e \<Rightarrow> ([], Inl e)
      | Inr packets \<Rightarrow> (concat (map (\<lambda>p. fst (send_encrypted_packet W bo info (fst (snd b)) (tb_from p))) packets), Inr ()))"

text \<open>
  \<open>fs_done\<close> are the groups \<open>encode_and_send_parity\<close> was called with, \<open>fs_sent\<close> is what it sent; \<open>fs_log\<close> are the packets that were numbered, with
  destination, group, index and shard.
\<close>

type_synonym fec_log = "(ipv4 \<times> u64 \<times> nat \<times> bytes) list"

record 'k fec_system =
  fs_states :: batch_states
  fs_channel :: "batch list"
  fs_done :: "batch list"
  fs_log :: fec_log
  fs_sent :: "'k event list"

definition fec_system_new :: "'k fec_system" where
  "fec_system_new = \<lparr>fs_states = [], fs_channel = [], fs_done = [], fs_log = [], fs_sent = []\<rparr>"

definition fec_log_entry :: "instant \<Rightarrow> bytes \<Rightarrow> batch_states \<Rightarrow> ipv4 \<times> u64 \<times> nat \<times> bytes" where
  "fec_log_entry now pkt states =
     (let st = batch_state now pkt states in (np_dest_id pkt, db_group_id st, length (db_current_batch st), batch_shard pkt))"

definition parity_events ::
  "('k, 'c) out_crates \<Rightarrow> reed_solomon \<Rightarrow> ('k, 'c) BasicOutbound \<Rightarrow> ServerInfoCollection \<Rightarrow> batch list \<Rightarrow> 'k event list" where
  "parity_events W rs bo info bs = concat (map (\<lambda>b. fst (encode_and_send_parity W rs bo info b)) bs)"

text \<open>
  A packet is encoded, the worker takes a group from the channel, its timer ticks. The clock and the server table are as the step finds them.
\<close>

inductive fec_step ::
  "('k, 'c) out_crates \<Rightarrow> reed_solomon \<Rightarrow> ('k, 'c) BasicOutbound \<Rightarrow> 'k fec_system \<Rightarrow> 'k fec_system \<Rightarrow> bool" for W rs bo where
  encodes: "length (np_payload (tb_slice t)) \<le> 65535 \<Longrightarrow>
    fec_encode (oc_fec_codec W) now (length (fs_channel s) < BATCH_CHANNEL_SIZE) t (fs_states s) = (r, sent, states) \<Longrightarrow>
    fec_step W rs bo s (s\<lparr>fs_states := states, fs_channel := fs_channel s @ (case sent of None \<Rightarrow> [] | Some b \<Rightarrow> [b]),
      fs_log := fs_log s @ [fec_log_entry now (tb_slice t) (fs_states s)]\<rparr>)"
| receives: "fs_channel s = b # rest \<Longrightarrow>
    fec_step W rs bo s (s\<lparr>fs_channel := rest, fs_done := fs_done s @ [b], fs_sent := fs_sent s @ parity_events W rs bo info [b]\<rparr>)"
| ticks: "fec_tick now (fs_states s) = (bs, states) \<Longrightarrow>
    fec_step W rs bo s (s\<lparr>fs_states := states, fs_done := fs_done s @ bs, fs_sent := fs_sent s @ parity_events W rs bo info bs\<rparr>)"

section \<open>Lemmas\<close>

text \<open>The packets of a group, in the order they were numbered.\<close>

definition members :: "fec_log \<Rightarrow> ipv4 \<Rightarrow> u64 \<Rightarrow> fec_log" where
  "members L dest g = filter (\<lambda>(d, g', _). d = dest \<and> g' = g) L"

definition shards :: "fec_log \<Rightarrow> ipv4 \<Rightarrow> u64 \<Rightarrow> bytes list" where
  "shards L dest g = map (\<lambda>(_, _, _, b). b) (members L dest g)"

definition indices :: "fec_log \<Rightarrow> ipv4 \<Rightarrow> u64 \<Rightarrow> nat list" where
  "indices L dest g = map (\<lambda>(_, _, i, _). i) (members L dest g)"

definition group_name :: "batch \<Rightarrow> ipv4 \<times> u64" where
  "group_name b = (fst (snd b), fst (snd (snd b)))"

text \<open>The open group of each destination; a destination without a state is about to open group 0.\<close>

definition over :: "(ipv4 \<Rightarrow> u64 \<times> bytes list) \<Rightarrow> batch_states \<Rightarrow> ipv4 \<Rightarrow> u64 \<times> bytes list" where
  "over G m d = (case hm_get m d of None \<Rightarrow> G d | Some st \<Rightarrow> (db_group_id st, db_current_batch st))"

abbreviation open_groups :: "batch_states \<Rightarrow> ipv4 \<Rightarrow> u64 \<times> bytes list" where
  "open_groups \<equiv> over (\<lambda>_. (0, []))"

text \<open>
  The invariant of groups \<open>G\<close> that are open, packets \<open>L\<close> that were numbered and groups \<open>H\<close> that were handed over: an open group holds the packets
  with its number, no packet has a higher number than its destination's open group, no handed over group a number that high.
\<close>

definition open_ok :: "u64 \<times> bytes list \<Rightarrow> fec_log \<Rightarrow> batch list \<Rightarrow> ipv4 \<Rightarrow> bool" where
  "open_ok G L H d \<longleftrightarrow>
     snd G = shards L d (fst G) \<and> length (snd G) \<le> BATCH_SIZE \<and>
     unat (fst G) + (if snd G = [] then 0 else 1) \<le> length L \<and>
     (\<forall>e\<in>set L. fst e = d \<longrightarrow> fst (snd e) \<le> fst G) \<and>
     (\<forall>b\<in>set H. fst (group_name b) = d \<longrightarrow> snd (group_name b) < fst G)"

definition handed_ok :: "fec_log \<Rightarrow> batch list \<Rightarrow> bool" where
  "handed_ok L H \<longleftrightarrow>
     (\<forall>(src, d, g, items)\<in>set H. items \<noteq> [] \<and> length items \<le> BATCH_SIZE \<and> items = shards L d g) \<and>
     distinct (map group_name H) \<and> (\<forall>d g. indices L d g = [0..<length (shards L d g)])"

definition groups_ok :: "(ipv4 \<Rightarrow> u64 \<times> bytes list) \<Rightarrow> fec_log \<Rightarrow> batch list \<Rightarrow> bool" where
  "groups_ok G L H \<longleftrightarrow> (\<forall>d. open_ok (G d) L H d) \<and> handed_ok L H"

lemma members_snoc:
  "members (L @ [(d, g, i, b)]) d' g' = members L d' g' @ (if d = d' \<and> g = g' then [(d, g, i, b)] else [])"
  by (simp add: members_def)

lemma shards_snoc: "shards (L @ [(d, g, i, b)]) d' g' = shards L d' g' @ (if d = d' \<and> g = g' then [b] else [])"
  by (simp add: shards_def members_snoc)

lemma indices_snoc: "indices (L @ [(d, g, i, b)]) d' g' = indices L d' g' @ (if d = d' \<and> g = g' then [i] else [])"
  by (simp add: indices_def members_snoc)

text \<open>A packet joins the open group of its destination.\<close>

lemma groups_ok_add:
  assumes ok: "groups_ok G L H" and small: "length (snd (G d)) < BATCH_SIZE"
  shows "groups_ok (G(d := (fst (G d), snd (G d) @ [x]))) (L @ [(d, fst (G d), length (snd (G d)), x)]) H"
proof -
  let ?L = "L @ [(d, fst (G d), length (snd (G d)), x)]"
  have old: "open_ok (G d') L H d'" for d' using ok by (simp add: groups_ok_def)
  have "open_ok ((G(d := (fst (G d), snd (G d) @ [x]))) d') ?L H d'" for d'
    using old [of d'] old [of d] small by (auto simp: open_ok_def shards_snoc)
  moreover have "handed_ok ?L H"
  proof -
    have ho: "handed_ok L H" using ok by (simp add: groups_ok_def)
    have below: "snd (group_name b) < fst (G d)" if "b \<in> set H" "fst (group_name b) = d" for b
      using old [of d] that by (simp add: open_ok_def)
    have kept: "shards ?L d' g = shards L d' g" if "(src, d', g, items) \<in> set H" for src d' g items
      using below [OF that] by (auto simp: shards_snoc group_name_def)
    have "indices ?L d' g = [0..<length (shards ?L d' g)]" for d' g
    proof -
      have "indices L d' g = [0..<length (shards L d' g)]" using ho by (simp add: handed_ok_def)
      moreover have "snd (G d) = shards L d (fst (G d))" using old [of d] by (simp add: open_ok_def)
      ultimately show ?thesis by (auto simp: indices_snoc shards_snoc)
    qed
    then show ?thesis using ho kept by (simp add: handed_ok_def split_beta) (metis prod.exhaust_sel)
  qed
  ultimately show ?thesis by (simp add: groups_ok_def)
qed

text \<open>The open group of a destination is closed and handed over, or lost.\<close>

lemma groups_ok_close:
  assumes ok: "groups_ok G L H" and full: "snd (G d) \<noteq> []" and few: "length L < 2 ^ 64"
    and H': "mset H' = mset H + (if sent then {#(src, d, G d)#} else {#})"
  shows "groups_ok (G(d := (fst (G d) + 1, []))) L H'"
proof -
  have old: "open_ok (G d') L H d'" for d' using ok by (simp add: groups_ok_def)
  have "unat (fst (G d)) + 1 < 2 ^ 64" using old [of d] full few by (simp add: open_ok_def)
  then have next_id: "unat (fst (G d) + 1) = unat (fst (G d)) + 1" "fst (G d) < fst (G d) + 1"
    by (simp_all add: unat_word_ariths word_less_nat_alt)
  have setH: "set H' = set H \<union> (if sent then {(src, d, G d)} else {})"
    using arg_cong [OF H', of set_mset] by (cases sent) simp_all
  have none: "shards L d (fst (G d) + 1) = []"
    unfolding shards_def members_def
  proof (simp add: filter_empty_conv, clarify)
    fix i b assume "(d, fst (G d) + 1, i, b) \<in> set L"
    then have "fst (G d) + 1 \<le> fst (G d)" using old [of d] by (fastforce simp: open_ok_def)
    then show False using next_id(2) by simp
  qed
  have "open_ok (fst (G d) + 1, []) L H' d"
    unfolding open_ok_def
  proof (intro conjI ballI impI)
    fix e assume "e \<in> set L" "fst e = d"
    then have "fst (snd e) \<le> fst (G d)" using old [of d] by (simp add: open_ok_def)
    then show "fst (snd e) \<le> fst (fst (G d) + 1, [])" using next_id(2) by simp
  next
    fix b assume "b \<in> set H'" "fst (group_name b) = d"
    then consider "b \<in> set H" | "b = (src, d, G d)" by (auto simp: setH split: if_splits)
    then have "snd (group_name b) \<le> fst (G d)"
    proof cases
      case 1
      then show ?thesis using \<open>fst (group_name b) = d\<close> old [of d] by (fastforce simp: open_ok_def intro: less_imp_le)
    qed (simp add: group_name_def)
    then show "snd (group_name b) < fst (fst (G d) + 1, [])" using next_id(2) by simp
  qed (use none next_id(1) old [of d] full in \<open>simp_all add: open_ok_def\<close>)
  moreover have "open_ok (G d') L H' d'" if "d' \<noteq> d" for d'
    using old [of d'] that by (auto simp: open_ok_def setH group_name_def split: if_splits)
  ultimately have "open_ok ((G(d := (fst (G d) + 1, []))) d') L H' d'" for d' by simp
  moreover have "handed_ok L H'"
  proof -
    have fresh: "(d, fst (G d)) \<notin> group_name ` set H"
    proof
      assume "(d, fst (G d)) \<in> group_name ` set H"
      then obtain b where "b \<in> set H" "group_name b = (d, fst (G d))" by auto
      then show False using old [of d] by (force simp: open_ok_def)
    qed
    have "distinct (map group_name (H @ (if sent then [(src, d, G d)] else [])))"
      using ok fresh by (simp add: groups_ok_def handed_ok_def group_name_def split_beta)
    moreover have "mset (map group_name H') = mset (map group_name (H @ (if sent then [(src, d, G d)] else [])))"
      using H' by simp
    ultimately have "distinct (map group_name H')" by (metis mset_eq_imp_distinct_iff)
    moreover obtain g items where "G d = (g, items)" by fastforce
    moreover have "handed_ok L H" using ok by (simp add: groups_ok_def)
    ultimately show ?thesis using old [of d] full by (auto simp: handed_ok_def open_ok_def setH)
  qed
  ultimately show ?thesis by (simp add: groups_ok_def)
qed

lemma over_Cons:
  assumes "hm_get m k = None"
  shows "over G ((k, st) # m) = over (G(k := (db_group_id st, db_current_batch st))) m"
    and "over G ((k, st) # m) = (over G m)(k := (db_group_id st, db_current_batch st))"
  using assms by (auto simp: over_def fun_eq_iff split: option.splits)

lemma over_put: "over G (hm_put k st m) = (over G m)(k := (db_group_id st, db_current_batch st))"
  by (auto simp: over_def fun_eq_iff hm_get_put)

lemma close_overdue_key: "fst (fst (close_overdue now kst)) = fst kst"
  by (simp add: close_overdue_def split: prod.split)

text \<open>The timer: each overdue group is closed, one after the other.\<close>

lemma groups_ok_tick:
  assumes "hm_ok m" and "groups_ok (over G m) L H" and "length L < 2 ^ 64"
  shows "groups_ok (over G (snd (fec_tick now m))) L (H @ fst (fec_tick now m)) \<and> hm_ok (snd (fec_tick now m))"
  using assms
proof (induction m arbitrary: G H)
  case (Cons kst m)
  obtain k st where kst [simp]: "kst = (k, st)" by fastforce
  obtain kst' closed where co: "close_overdue now kst = (kst', closed)" by fastforce
  then obtain st' where kst' [simp]: "kst' = (k, st')"
    using close_overdue_key [of now kst] by (cases kst') simp
  let ?m = "snd (fec_tick now m)" and ?bs = "fst (fec_tick now m)"
  have k: "hm_get m k = None" using Cons.prems(1) by (simp add: map_of_eq_None_iff)
  have "map fst ?m = map fst m" by (simp add: fec_tick_def close_overdue_key)
  then have k': "hm_get ?m k = None" using k by (metis (no_types, lifting) list.set_map map_of_eq_None_iff)
  have tick: "snd (fec_tick now ((k, st) # m)) = (k, st') # ?m"
    "fst (fec_tick now ((k, st) # m)) = (case closed of None \<Rightarrow> [] | Some b \<Rightarrow> [b]) @ ?bs"
    using co by (auto simp: fec_tick_def List.map_filter_def split: option.splits)
  have "groups_ok (over (G(k := (db_group_id st, db_current_batch st))) ?m) L (H @ ?bs) \<and> hm_ok ?m"
    using Cons.prems(1) by (intro Cons.IH [OF _ Cons.prems(2) [unfolded kst over_Cons(1) [OF k]] Cons.prems(3)]) simp
  then have IH: "groups_ok (over G ((k, st) # ?m)) L (H @ ?bs)" "hm_ok ((k, st') # ?m)"
    using over_Cons(1) [OF k'] \<open>map fst ?m = map fst m\<close> Cons.prems(1) by (simp_all del: map_map)
  have "groups_ok (over G ((k, st') # ?m)) L (H @ fst (fec_tick now ((k, st) # m)))"
  proof (cases "db_current_batch st \<noteq> [] \<and> now \<ge> db_deadline st")
    case True
    then have "closed = Some (db_src_ip st, k, over G ((k, st) # ?m) k)"
      and "over G ((k, st') # ?m) = (over G ((k, st) # ?m))(k := (fst (over G ((k, st) # ?m) k) + 1, []))"
      using co by (auto simp: close_overdue_def over_Cons(2) [OF k'] over_def)
    then show ?thesis
      using True IH(1) Cons.prems(3)
      by (simp only:) (rule groups_ok_close [where sent = True and src = "db_src_ip st"], auto simp: tick over_def)
  next
    case False
    then show ?thesis using co IH(1) by (auto simp: close_overdue_def tick)
  qed
  with IH(2) show ?case by (simp add: tick)
qed (simp add: fec_tick_def)

lemma groups_ok_mset:
  assumes "groups_ok G L H" and m: "mset H' = mset H"
  shows "groups_ok G L H'"
proof -
  have 1: "set H' = set H" using m by (rule mset_eq_setD)
  have "mset (map group_name H') = mset (map group_name H)" using m by simp
  then have 2: "distinct (map group_name H') = distinct (map group_name H)" by (rule mset_eq_imp_distinct_iff)
  show ?thesis using assms(1) unfolding groups_ok_def open_ok_def handed_ok_def 1 2 .
qed

text \<open>What \<open>encode\<close> does to the groups: the packet joins its group, a full group is closed.\<close>

lemma fec_encode_groups:
  assumes enc: "fec_encode c now room t m = (r, sent, m')" and size: "length (np_payload (tb_slice t)) \<le> 65535"
    and ok: "batches_ok m" "hm_ok m" "groups_ok (open_groups m) L H" and few: "length L + 1 < 2 ^ 64"
  shows "groups_ok (open_groups m') (L @ [fec_log_entry now (tb_slice t) m])
    (H @ (case sent of None \<Rightarrow> [] | Some b \<Rightarrow> [b])) \<and> batches_ok m' \<and> hm_ok m'"
proof -
  define d where "d = np_dest_id (tb_slice t)"
  define st where "st = batch_state now (tb_slice t) m"
  define x where "x = batch_shard (tb_slice t)"
  define G where "G = (open_groups m)(d := (fst (open_groups m d), snd (open_groups m d) @ [x]))"
  have d: "open_groups m d = (db_group_id st, db_current_batch st)"
    by (simp add: over_def st_def d_def batch_state_def get_or_default_def split: option.split)
  have small: "length (db_current_batch st) < BATCH_SIZE" unfolding st_def using ok(1) by (rule batch_state_small)
  have entry: "fec_log_entry now (tb_slice t) m = (d, fst (open_groups m d), length (snd (open_groups m d)), x)"
    by (simp add: fec_log_entry_def Let_def d x_def flip: st_def d_def)
  have added: "groups_ok G (L @ [fec_log_entry now (tb_slice t) m]) H"
    unfolding entry G_def using ok(3) small d by (intro groups_ok_add) simp_all
  have m': "batches_ok m'" "hm_ok m'"
    using batches_ok_encode [OF ok(1), of c now room t] enc size ok(2)
    by (auto simp: fec_encode_def Let_def distinct_update split: if_splits)
  have out: "(sent, m') = (if length (db_current_batch st @ [x]) \<ge> BATCH_SIZE
      then (if room then Some (np_src_id (tb_slice t), d, db_group_id st, db_current_batch st @ [x]) else None,
        hm_put d (st\<lparr>db_current_batch := [], db_group_id := db_group_id st + 1, db_deadline := now + millis BATCH_TIMEOUT_MS\<rparr>) m)
      else (None, hm_put d (st\<lparr>db_current_batch := db_current_batch st @ [x]\<rparr>) m))"
    using enc size by (auto simp: fec_encode_def Let_def st_def batch_state_def x_def d_def)
  have "groups_ok (open_groups m') (L @ [fec_log_entry now (tb_slice t) m]) (H @ (case sent of None \<Rightarrow> [] | Some b \<Rightarrow> [b]))"
  proof (cases "length (db_current_batch st @ [x]) \<ge> BATCH_SIZE")
    case True
    with out have "open_groups m' = G(d := (fst (G d) + 1, []))"
      and "sent = (if room then Some (np_src_id (tb_slice t), d, G d) else None)"
      by (simp_all add: over_put G_def d)
    moreover have "groups_ok (G(d := (fst (G d) + 1, []))) (L @ [fec_log_entry now (tb_slice t) m])
      (H @ (if room then [(np_src_id (tb_slice t), d, G d)] else []))"
      using few by (intro groups_ok_close [OF added, where sent = room and src = "np_src_id (tb_slice t)"]) (simp_all add: G_def)
    ultimately show ?thesis by (simp split: if_splits)
  next
    case False
    with out have "open_groups m' = G" and "sent = None"
      by (simp_all add: over_put G_def d)
    with added show ?thesis by simp
  qed
  with m' show ?thesis by simp
qed

definition fec_inv :: "'k fec_system \<Rightarrow> bool" where
  "fec_inv s \<longleftrightarrow> (length (fs_log s) < 2 ^ 64 \<longrightarrow>
     batches_ok (fs_states s) \<and> hm_ok (fs_states s) \<and> groups_ok (open_groups (fs_states s)) (fs_log s) (fs_done s @ fs_channel s))"

lemma fec_inv_new: "fec_inv fec_system_new"
  by (simp add: fec_inv_def fec_system_new_def batches_ok_def groups_ok_def open_ok_def handed_ok_def over_def shards_def
      indices_def members_def)

lemma fec_inv_step: "fec_step W rs bo s s' \<Longrightarrow> fec_inv s \<Longrightarrow> fec_inv s'"
proof (induction rule: fec_step.induct)
  case (encodes t now s r sent states)
  let ?s' = "s\<lparr>fs_states := states, fs_channel := fs_channel s @ (case sent of None \<Rightarrow> [] | Some b \<Rightarrow> [b]),
      fs_log := fs_log s @ [fec_log_entry now (tb_slice t) (fs_states s)]\<rparr>"
  show ?case
    unfolding fec_inv_def
  proof
    assume few: "length (fs_log ?s') < 2 ^ 64"
    then have "batches_ok (fs_states s)" "hm_ok (fs_states s)"
      "groups_ok (open_groups (fs_states s)) (fs_log s) (fs_done s @ fs_channel s)"
      using encodes.prems by (simp_all add: fec_inv_def)
    from fec_encode_groups [OF encodes.hyps(2,1) this] few
    show "batches_ok (fs_states ?s') \<and> hm_ok (fs_states ?s') \<and>
      groups_ok (open_groups (fs_states ?s')) (fs_log ?s') (fs_done ?s' @ fs_channel ?s')" by simp
  qed
next
  case (receives s b rest info)
  then show ?case by (simp add: fec_inv_def)
next
  case (ticks now s bs states info)
  have out: "bs = fst (fec_tick now (fs_states s))" "states = snd (fec_tick now (fs_states s))" using ticks.hyps by simp_all
  let ?s' = "s\<lparr>fs_states := states, fs_done := fs_done s @ bs, fs_sent := fs_sent s @ parity_events W rs bo info bs\<rparr>"
  show ?case
    unfolding fec_inv_def
  proof
    assume few: "length (fs_log ?s') < 2 ^ 64"
    then have ok: "batches_ok (fs_states s)" "hm_ok (fs_states s)"
      "groups_ok (open_groups (fs_states s)) (fs_log s) (fs_done s @ fs_channel s)"
      using ticks.prems by (simp_all add: fec_inv_def)
    have "groups_ok (open_groups states) (fs_log s) ((fs_done s @ fs_channel s) @ bs) \<and> hm_ok states"
      unfolding out using few by (intro groups_ok_tick ok) simp
    moreover from this have "groups_ok (open_groups states) (fs_log s) ((fs_done s @ bs) @ fs_channel s)"
      by (elim conjE groups_ok_mset) simp
    moreover have "batches_ok states" unfolding out by (rule batches_ok_tick [OF ok(1)])
    ultimately show "batches_ok (fs_states ?s') \<and> hm_ok (fs_states ?s') \<and>
      groups_ok (open_groups (fs_states ?s')) (fs_log ?s') (fs_done ?s' @ fs_channel ?s')" by simp
  qed
qed

interpretation fec: machine_keeps "fec_step W rs bo" fec_inv for W rs bo
  by unfold_locales (rule fec_inv_step)

section \<open>Properties of the worker\<close>

text \<open>
  C24. However packets, full groups and timer ticks come in turn: each group the worker computes parity for consists of exactly the packets that were
  numbered with its destination and group, in the order they were numbered (their indices are 0, 1, ...), at least one and at most
  \<open>BATCH_SIZE\<close> of them; and no group is handed over twice. This holds as long as fewer than 2^64 packets were numbered.
\<close>

theorem fec_groups_complete:
  assumes "(fec_step W rs bo)\<^sup>*\<^sup>* fec_system_new s" and "length (fs_log s) < 2 ^ 64"
  shows "(\<forall>(src, dest, g, items)\<in>set (fs_done s). items = shards (fs_log s) dest g \<and> items \<noteq> [] \<and> length items \<le> BATCH_SIZE \<and>
      indices (fs_log s) dest g = [0..<length items]) \<and>
    distinct (map group_name (fs_done s))"
proof -
  have "fec_inv s" using assms(1) fec_inv_new by (rule fec.kept_run)
  with assms(2) have ok: "handed_ok (fs_log s) (fs_done s @ fs_channel s)" by (simp add: fec_inv_def groups_ok_def)
  have "items = shards (fs_log s) dest g \<and> items \<noteq> [] \<and> length items \<le> BATCH_SIZE \<and>
      indices (fs_log s) dest g = [0..<length items]" if "(src, dest, g, items) \<in> set (fs_done s)" for src dest g items
  proof -
    have "indices (fs_log s) dest g = [0..<length (shards (fs_log s) dest g)]" using ok by (simp add: handed_ok_def)
    moreover have "items \<noteq> [] \<and> length items \<le> BATCH_SIZE \<and> items = shards (fs_log s) dest g"
      using bspec [OF conjunct1 [OF ok [unfolded handed_ok_def]], of "(src, dest, g, items)"] that by auto
    ultimately show ?thesis by auto
  qed
  moreover have "distinct (map group_name (fs_done s))" using ok by (simp add: handed_ok_def)
  ultimately show ?thesis by auto
qed

theorem fec_groups_complete_witness:
  "\<exists>s. (fec_step demo_crates \<lparr>rs_new = (\<lambda>_ _. True), rs_encode = (\<lambda>_ n d. Inr (replicate n (hd d))), rs_reconstruct = (\<lambda>_ _ d. Inr d)\<rparr>
       (ho_basic_outbound demo_node))\<^sup>*\<^sup>* fec_system_new s \<and>
     map (\<lambda>(_, dest, g, items). (dest, g, length items)) (fs_done s) = [(0x03030303, 0, 1)] \<and>
     indices (fs_log s) 0x03030303 0 = [0]"
proof -
  let ?rs = "\<lparr>rs_new = (\<lambda>_ _. True), rs_encode = (\<lambda>_ n d. Inr (replicate n (hd d))), rs_reconstruct = (\<lambda>_ _ d. Inr d)\<rparr>"
  let ?step = "fec_step demo_crates ?rs (ho_basic_outbound demo_node)"
  let ?t = "tb_from (replicate 20 (3::u8))"
  define e where "e = fec_encode (oc_fec_codec demo_crates) 0 True ?t []"
  define s1 :: "nat fec_system" where "s1 = fec_system_new\<lparr>fs_states := snd (snd e), fs_channel := [] @ (case fst (snd e) of None \<Rightarrow> [] | Some b \<Rightarrow> [b]),
    fs_log := [] @ [fec_log_entry 0 (tb_slice ?t) []]\<rparr>"
  define s2 where "s2 = s1\<lparr>fs_states := snd (fec_tick (millis 20) (fs_states s1)), fs_done := [] @ fst (fec_tick (millis 20) (fs_states s1)),
    fs_sent := [] @ parity_events demo_crates ?rs (ho_basic_outbound demo_node) demo_servers (fst (fec_tick (millis 20) (fs_states s1)))\<rparr>"
  have "?step fec_system_new s1"
    using fec_step.encodes [of ?t demo_crates 0 fec_system_new "fst e" "fst (snd e)" "snd (snd e)"]
    by (simp add: s1_def e_def fec_system_new_def BATCH_CHANNEL_SIZE_def np_payload_def)
  moreover have "?step s1 s2"
    using fec_step.ticks [of "millis 20" s1 _ _ demo_crates ?rs "ho_basic_outbound demo_node" demo_servers, OF prod.collapse [symmetric]] by (simp add: s2_def s1_def fec_system_new_def)
  ultimately have run: "?step\<^sup>*\<^sup>* fec_system_new s2" by (meson rtranclp.rtrancl_into_rtrancl rtranclp.rtrancl_refl)
  have d: "np_dest_id (replicate 20 (3::u8)) = 0x03030303" by code_simp
  have out: "snd (snd e) = [(0x03030303, \<lparr>db_group_id = 0, db_current_batch = [batch_shard (replicate 20 3)],
    db_deadline = millis 20, db_src_ip = np_src_id (replicate 20 3)\<rparr>)]"
    by (simp add: e_def fec_encode_def Let_def np_payload_def BATCH_SIZE_def BATCH_TIMEOUT_MS_def get_or_default_def d)
  have fd: "map (\<lambda>(_, dest, g, items). (dest, g, length items)) (fs_done s2) = [(0x03030303, 0, 1)]"
    by (simp add: s2_def s1_def out fec_tick_def close_overdue_def List.map_filter_def)
  then obtain src items where don: "fs_done s2 = [(src, 0x03030303, 0, items)]" "length items = 1" by auto
  have "length (fs_log s2) < 2 ^ 64" by (simp add: s2_def s1_def)
  from fec_groups_complete [OF run this] don have "indices (fs_log s2) 0x03030303 0 = [0]" by simp
  with run fd show ?thesis by (intro exI [of _ s2]) (simp only: simp_thms)
qed

text \<open>
  The deadline of a group is set when the group before it is closed, not when its first packet arrives: after a pause the first packet's group is
  overdue at the next tick and gets a parity of its own, without waiting for others.
\<close>

lemma first_after_pause_alone:
  assumes "hm_get states (np_dest_id (tb_slice t)) = Some st" and "db_current_batch st = []" and "db_deadline st \<le> now"
    and "length (np_payload (tb_slice t)) \<le> 65535" and "now \<le> now'"
  shows "(db_src_ip st, np_dest_id (tb_slice t), db_group_id st, [batch_shard (tb_slice t)])
    \<in> set (fst (fec_tick now' (snd (snd (fec_encode c now room t states)))))"
proof -
  let ?st = "st\<lparr>db_current_batch := [batch_shard (tb_slice t)]\<rparr>"
  have "snd (snd (fec_encode c now room t states)) = hm_put (np_dest_id (tb_slice t)) ?st states"
    using assms(1,2,4) by (simp add: fec_encode_def Let_def get_or_default_def BATCH_SIZE_def)
  moreover have "(np_dest_id (tb_slice t), ?st) \<in> set (hm_put (np_dest_id (tb_slice t)) ?st states)"
    by (rule map_of_SomeD) (simp add: hm_get_put)
  ultimately show ?thesis
    using assms(3,5) by (force simp: fec_tick_def List.map_filter_def close_overdue_def)
qed

end
