(* ===== verification/Accept_Loops.thy ===== *)
theory Accept_Loops
  imports Quic_Proxy Tunnel "HOL-Library.Multiset"
begin

text \<open>
  The loops that accept something and start a task for it: the QUIC server with its connections and streams (\<open>quic_over/quic_server.rs\<close>), the TCP
  streams that the client takes over (\<open>quic_over/quic_client.rs\<close>), the mapped TCP ports (\<open>port_mapping/tcp_port_mapping.rs\<close>), the TCP side of
  the address translation (\<open>nat/internal_nat/tcp_nat.rs\<close>), and the task that sends what the translation's stack emits (\<open>nat/internal_nat/mod.rs\<close>).
  A listener is the list of what its \<open>accept\<close> yields; the end of the list is a loop that waits.
\<close>

section \<open>Listeners\<close>

text \<open>
  Each accepted item is looked at by \<open>f\<close>: it has a task, none (the \<open>continue\<close> of the loop), or ends the loop, as an error of \<open>accept\<close> does.
  The tasks that were started, and the error the loop ended with.
\<close>

fun accept_loop :: "('a \<Rightarrow> 'b option result) \<Rightarrow> 'a result list \<Rightarrow> 'b list \<times> error option" where
  "accept_loop f [] = ([], None)"
| "accept_loop f (Inl e # l) = ([], Some e)"
| "accept_loop f (Inr a # l) =
     (case f a of
        Inl e \<Rightarrow> ([], Some e)
      | Inr t \<Rightarrow> (case accept_loop f l of (ts, r) \<Rightarrow> ((case t of None \<Rightarrow> ts | Some t \<Rightarrow> t # ts), r)))"

text \<open>\<open>tcp_listen_impl\<close>: a stream with its two addresses, handled by \<open>tcp_stream_handle\<close>.\<close>

definition tcp_listen_impl :: "((ip_addr \<times> u16) \<times> (ip_addr \<times> u16)) result list \<Rightarrow> ((ip_addr \<times> u16) \<times> (ip_addr \<times> u16)) list \<times> error option" where
  "tcp_listen_impl = accept_loop (\<lambda>stream. Inr (Some stream))"

text \<open>\<open>listen\<close> of a mapped TCP port: the task is \<open>stream_copy\<close> with the target of the mapping and the source of the stream.\<close>

definition port_mapping_listen :: "PortMapping \<Rightarrow> SocketAddr result list \<Rightarrow> (SocketAddr \<times> PortMapping) list \<times> error option" where
  "port_mapping_listen mapping = accept_loop (\<lambda>addr. Inr (Some (addr, mapping)))"

text \<open>
  \<open>listen_task\<close> of the translation: the addresses of a stream can be unreadable; the network is the one of the time the stream is accepted. The task, \<open>stream_task\<close>,
  connects to the target and copies in both directions.
\<close>

record nat_stream =
  ns_local_addr :: "(ip_addr \<times> u16) result"
  ns_peer_addr :: "(ip_addr \<times> u16) result"
  ns_network :: SharedNetworkAddr

definition tcp_nat_listen :: "bool \<Rightarrow> nat_stream result list \<Rightarrow> (ip_addr \<times> u16) list \<times> error option" where
  "tcp_nat_listen no_tun = accept_loop (\<lambda>s.
     rbind (ns_local_addr s) (\<lambda>local_addr. rbind (ns_peer_addr s) (\<lambda>_. listen_target no_tun (ns_network s) local_addr)))"

section \<open>What the stack of the translation emits\<close>

text \<open>\<open>recv\<close> writes a packet to the front of a new buffer, which is then cut to its length; a packet that cannot be sent is logged.\<close>

definition stack_buffer :: "nat \<Rightarrow> bytes \<Rightarrow> transmission result" where
  "stack_buffer cp b =
     (let t = tb_new_offset_zeroed HEAD_LENGTH in
      tb_set_len cp (tb_write t (b @ drop (length b) (tb_slice t))) (length b))"

fun ip_stack_recv_loop ::
  "('k, 'c) out_crates \<Rightarrow> nat \<Rightarrow> bytes result list \<Rightarrow> ('k, 'c) HybridOutbound \<Rightarrow> ('k, 'c) HybridOutbound \<times> 'k event list \<times> error option" where
  "ip_stack_recv_loop W cp [] h = (h, [], None)"
| "ip_stack_recv_loop W cp (Inl e # l) h = (h, [], Some e)"
| "ip_stack_recv_loop W cp (Inr b # l) h =
     (case stack_buffer cp b of
        Inl e \<Rightarrow> (h, [], Some e)
      | Inr data \<Rightarrow>
          (case ipv4_outbound_common W data h of
             (h, es, _) \<Rightarrow> (case ip_stack_recv_loop W cp l h of (h, es', r) \<Rightarrow> (h, es @ es', r))))"

section \<open>The QUIC server\<close>

text \<open>
  \<open>quic_endpoint_accept\<close> has a task for each connection, which waits for the handshake and then accepts streams (\<open>quic_accept\<close>), each with a task
  again. A stream is what can be read from it. \<open>sv_stack\<close> is whether there is an IP stack and its socket, which is when the node has an interface.
\<close>

record serve_env =
  sv_sinks :: sink_crates
  sv_codec :: hs_codec
  sv_feeds :: "ip_action \<Rightarrow> bool"
  sv_framing :: framing
  sv_stack :: bool

type_synonym accepted_stream = "nat \<times> stream_kind \<times> bytes"

text \<open>What the task of a stream did: what it was joined to with what was left to read, or the packets it fed.\<close>

datatype stream_run = RanBi "(proxy_action \<times> bytes) result" | RanUni "ip_action list \<times> unit result"

definition run_stream :: "serve_env \<Rightarrow> InternalNatInbound option \<Rightarrow> PortMappingManager \<Rightarrow> accepted_stream \<Rightarrow> stream_run" where
  "run_stream V manager p x =
     (case x of
        (_, Bi, b) \<Rightarrow> RanBi (quic_stream_bi_handle (sv_sinks V) (sv_codec V) (sv_stack V) manager p b)
      | (_, Uni, b) \<Rightarrow> RanUni (quic_stream_uni_handle (sv_sinks V) (sv_codec V) (sv_feeds V) (sv_framing V) (sv_stack V) manager b))"

text \<open>
  Connections are numbered as they come. \<open>qv_streams\<close> are the tasks of streams that have not run, \<open>qv_log\<close> what the others did, with the state of translation and mapping
  they found; \<open>qv_accepted\<close> are all streams that were accepted.
\<close>

record quic_server =
  qv_accepting :: bool
  qv_next :: nat
  qv_connecting :: "nat list"
  qv_connections :: "nat list"
  qv_streams :: "accepted_stream list"
  qv_accepted :: "accepted_stream list"
  qv_log :: "(accepted_stream \<times> InternalNatInbound option \<times> PortMappingManager \<times> stream_run) list"
  qv_stopped :: bool

text \<open>\<open>server_listen\<close>.\<close>

definition server_listen :: quic_server where
  "server_listen = \<lparr>qv_accepting = True, qv_next = 0, qv_connecting = [], qv_connections = [], qv_streams = [], qv_accepted = [], qv_log = [], qv_stopped = False\<rparr>"

inductive serve_step :: "serve_env \<Rightarrow> quic_server \<Rightarrow> quic_server \<Rightarrow> bool" for V where
  incoming: "qv_accepting s \<Longrightarrow> serve_step V s (s\<lparr>qv_next := Suc (qv_next s), qv_connecting := qv_next s # qv_connecting s\<rparr>)"
| endpoint_closed: "qv_accepting s \<Longrightarrow> serve_step V s (s\<lparr>qv_accepting := False\<rparr>)"
| connected: "i \<in> set (qv_connecting s) \<Longrightarrow>
    serve_step V s (s\<lparr>qv_connecting := remove1 i (qv_connecting s), qv_connections := i # qv_connections s\<rparr>)"
| connect_fails: "i \<in> set (qv_connecting s) \<Longrightarrow> serve_step V s (s\<lparr>qv_connecting := remove1 i (qv_connecting s)\<rparr>)"
| accepts: "i \<in> set (qv_connections s) \<Longrightarrow>
    serve_step V s (s\<lparr>qv_streams := qv_streams s @ [(i, kind, b)], qv_accepted := qv_accepted s @ [(i, kind, b)]\<rparr>)"
| connection_ends: "i \<in> set (qv_connections s) \<Longrightarrow> serve_step V s (s\<lparr>qv_connections := remove1 i (qv_connections s)\<rparr>)"
| runs: "x \<in> set (qv_streams s) \<Longrightarrow>
    serve_step V s (s\<lparr>qv_streams := remove1 x (qv_streams s), qv_log := qv_log s @ [(x, manager, p, run_stream V manager p x)]\<rparr>)"
| group_stops: "serve_step V s (s\<lparr>qv_accepting := False, qv_connecting := [], qv_connections := [], qv_streams := [], qv_stopped := True\<rparr>)"

section \<open>Lemmas\<close>

text \<open>Tasks are started for what comes before the first failure, and for nothing after it: a loop that has ended accepts no more.\<close>

definition loop_fails :: "('a \<Rightarrow> 'b option result) \<Rightarrow> 'a result \<Rightarrow> bool" where
  "loop_fails f x \<longleftrightarrow> (case rbind x f of Inl _ \<Rightarrow> True | Inr _ \<Rightarrow> False)"

lemma accept_loop_prefix:
  "fst (accept_loop f l) = List.map_filter (\<lambda>x. case rbind x f of Inr t \<Rightarrow> t | Inl _ \<Rightarrow> None) (takeWhile (\<lambda>x. \<not> loop_fails f x) l)"
  "snd (accept_loop f l) = (case find (loop_fails f) l of None \<Rightarrow> None | Some x \<Rightarrow> (case rbind x f of Inl e \<Rightarrow> Some e | Inr _ \<Rightarrow> None))"
proof (induction f l rule: accept_loop.induct)
  case (3 f a l)
  { case 1 show ?case using 3 by (auto simp: loop_fails_def List.map_filter_def split: sum.splits option.splits prod.splits) }
  { case 2 show ?case using 3 by (auto simp: loop_fails_def split: sum.splits option.splits prod.splits) }
qed (simp_all add: loop_fails_def List.map_filter_def)

text \<open>An error of \<open>accept\<close>, be it one that passes like a lack of descriptors, ends a mapped port for good.\<close>

lemma mapped_port_dies: "port_mapping_listen mapping (l @ Inl e # l') = port_mapping_listen mapping (l @ [Inl e])"
  unfolding port_mapping_listen_def by (induction l) (auto split: sum.splits, (case_tac a, auto)+)

text \<open>Without an interface, a stream to the node's own address leads to the local host, and there are only streams to IPv4 addresses.\<close>

lemma nat_stream_targets:
  "t \<in> set (fst (tcp_nat_listen True l)) \<Longrightarrow>
   \<exists>s own ip port. Inr s \<in> set l \<and> shared_ip (ns_network s) = Some own \<and> ns_local_addr s = Inr (IpV4 ip, port) \<and>
     t = (IpV4 (if ip = own then localhost else ip), port)"
  unfolding tcp_nat_listen_def
proof (induction l)
  case (Cons x l)
  then show ?case
    by (cases x)
      (fastforce simp: listen_target_def rbind_def ok_or_def split: sum.splits option.splits prod.splits ip_addr.splits if_splits)+
qed simp

text \<open>A packet that fits into the buffer is sent as it was emitted, with room for the header before it.\<close>

lemma stack_buffer_data:
  assumes "HEAD_LENGTH + length b \<le> DEFAULT_BUF_SIZE" and "DEFAULT_BUF_SIZE \<le> cp"
  obtains data where "stack_buffer cp b = Inr data" "tb_wf data" "tb_slice data = b" "tb_start data = HEAD_LENGTH"
proof
  let ?t = "tb_new_offset_zeroed HEAD_LENGTH"
  let ?d = "(tb_write ?t (b @ drop (length b) (tb_slice ?t)))\<lparr>tb_end := HEAD_LENGTH + length b\<rparr>"
  show "stack_buffer cp b = Inr ?d"
    using assms by (simp add: stack_buffer_def tb_set_len_def tb_write_def tb_new_offset_zeroed_def)
  show "tb_wf ?d" "tb_slice ?d = b" "tb_start ?d = HEAD_LENGTH"
    using assms by (auto simp: tb_wf_def tb_slice_def tb_write_def tb_new_offset_zeroed_def splice_def HEAD_LENGTH_def DEFAULT_BUF_SIZE_def)
qed

lemma use_nat_forms:
  "use_nat K n dest \<Longrightarrow> allow (sc_contains K) (in_allow_subnet n) dest \<or> in_no_tun n \<and> nat_network_contains K n dest"
  by (auto simp: use_nat_def allow_nat_def split: if_splits)

text \<open>What the packets of a stream are fed to: the translation inside of its subnets, the IP stack for the rest and only with an interface.\<close>

definition ip_allowed :: "sink_crates \<Rightarrow> bool \<Rightarrow> InternalNatInbound option \<Rightarrow> ip_action \<Rightarrow> bool" where
  "ip_allowed K ip_socket manager a =
     (case a of
        NatPayload _ _ dest _ \<Rightarrow>
          (case manager of None \<Rightarrow> False | Some n \<Rightarrow> allow (sc_contains K) (in_allow_subnet n) dest \<or> in_no_tun n \<and> nat_network_contains K n dest)
      | StackPayload _ _ dest _ \<Rightarrow>
          ip_socket \<and> (case manager of None \<Rightarrow> True | Some n \<Rightarrow> \<not> in_no_tun n \<and> \<not> use_nat K n dest))"

lemma feed_frames_made: "set (fst (feed_frames ok f bs)) \<subseteq> range f"
  by (induction bs) (auto split: prod.splits)

lemma ip_proxy_allowed: "ip_proxy K ok F ip_socket manager h rest = (l, r) \<Longrightarrow> a \<in> set l \<Longrightarrow> ip_allowed K ip_socket manager a"
  using feed_frames_made [of ok "NatPayload (ucast (iph_protocol h)) (iph_src_ip h) (iph_dst_ip h)" "fr_decode F rest"]
    feed_frames_made [of ok "StackPayload (ucast (iph_protocol h)) (iph_src_ip h) (iph_dst_ip h)" "fr_decode F rest"]
  by (fastforce simp: ip_proxy_def ip_allowed_def Let_def dest: use_nat_forms split: if_splits option.splits)

definition run_allowed :: "serve_env \<Rightarrow> InternalNatInbound option \<Rightarrow> PortMappingManager \<Rightarrow> stream_run \<Rightarrow> bool" where
  "run_allowed V manager p r =
     (case r of
        RanBi (Inr (a, _)) \<Rightarrow> proxy_allowed (sv_sinks V) (sv_stack V) manager p a
      | RanBi (Inl _) \<Rightarrow> True
      | RanUni (l, _) \<Rightarrow> \<forall>a\<in>set l. ip_allowed (sv_sinks V) (sv_stack V) manager a)"

lemma run_stream_allowed: "run_allowed V manager p (run_stream V manager p x)"
proof -
  obtain i kind b where x: "x = (i, kind, b)" by (cases x)
  show ?thesis
  proof (cases kind)
    case Bi
    then show ?thesis
      using bi_action_allowed by (auto simp: x run_stream_def run_allowed_def quic_stream_bi_handle_def rbind_eq_Inr split: sum.splits)
  next
    case Uni
    then show ?thesis
      by (auto simp: x run_stream_def run_allowed_def quic_stream_uni_handle_def dest: ip_proxy_allowed split: sum.splits prod.splits option.splits Handshake.splits)
  qed
qed

definition serve_inv :: "serve_env \<Rightarrow> quic_server \<Rightarrow> bool" where
  "serve_inv V s \<longleftrightarrow>
     mset (map fst (qv_log s)) + mset (qv_streams s) \<subseteq># mset (qv_accepted s) \<and>
     (\<not> qv_stopped s \<longrightarrow> mset (map fst (qv_log s)) + mset (qv_streams s) = mset (qv_accepted s)) \<and>
     (\<forall>(x, manager, p, r)\<in>set (qv_log s). r = run_stream V manager p x)"

lemma serve_inv_new: "serve_inv V server_listen"
  by (simp add: serve_inv_def server_listen_def)

lemma serve_inv_step: "serve_step V s s' \<Longrightarrow> serve_inv V s \<Longrightarrow> serve_inv V s'"
proof (induction rule: serve_step.induct)
  case (runs x s manager p)
  then obtain M where "mset (qv_streams s) = add_mset x M" by (metis multi_member_split set_mset_mset)
  with runs show ?case by (auto simp: serve_inv_def)
next
  case (group_stops s)
  then show ?case by (auto simp: serve_inv_def intro: subset_mset.order_trans [OF mset_subset_eq_add_left])
qed (auto simp: serve_inv_def)

interpretation server: machine_keeps "serve_step V" "serve_inv V" for V
  by unfold_locales (rule serve_inv_step)

section \<open>Properties\<close>

text \<open>
  C11. The QUIC server as a whole: however connections and streams of whatever peers come, end and are handled in turn, every accepted stream is
  handled at most once, until the tasks are stopped none is lost, and what it leads to depends on its own bytes only and is confined: the translation is used only inside of the subnets this node answers for, or, without an
  interface, of the network; the IP stack only with an interface and never for what the translation handles; a mapped target only where mapped ports are allowed.
\<close>

theorem quic_server_confined:
  assumes "(serve_step V)\<^sup>*\<^sup>* server_listen s"
  shows "mset (map fst (qv_log s)) + mset (qv_streams s) \<subseteq># mset (qv_accepted s) \<and>
    (qv_stopped s \<or> mset (map fst (qv_log s)) + mset (qv_streams s) = mset (qv_accepted s)) \<and>
    (\<forall>(x, manager, p, r)\<in>set (qv_log s). r = run_stream V manager p x \<and> run_allowed V manager p r)"
proof -
  have "serve_inv V s" using assms serve_inv_new by (rule server.kept_run)
  then show ?thesis using run_stream_allowed by (auto simp: serve_inv_def)
qed

theorem quic_server_confined_witness:
  "\<exists>s stream. (serve_step \<lparr>sv_sinks = ic_sinks demo_in, sv_codec = codec_for (Some demo_tcp_handshake), sv_feeds = (\<lambda>_. True), sv_framing = toy_framing, sv_stack = True\<rparr>)\<^sup>*\<^sup>*
       server_listen s \<and> qv_accepted s = [(0, Bi, stream)] \<and> qv_streams s = [] \<and>
     qv_log s = [((0, Bi, stream), None, demo_mapping_manager, RanBi (Inr (StackTcp (0x0A1A0002, 5000) (0x0A1A0005, 80), [])))] \<and>
     proxy_allowed (ic_sinks demo_in) True None demo_mapping_manager (StackTcp (0x0A1A0002, 5000) (0x0A1A0005, 80))"
proof -
  let ?H = "codec_for (Some demo_tcp_handshake)"
  let ?V = "\<lparr>sv_sinks = ic_sinks demo_in, sv_codec = ?H, sv_feeds = (\<lambda>_. True), sv_framing = toy_framing, sv_stack = True\<rparr>"
  let ?a = "StackTcp (0x0A1A0002, 5000) (0x0A1A0005, 80)"
  define b where "b = send_handshake ?H demo_tcp_handshake @ []"
  have read: "recv_handshake ?H b = Inr (Some demo_tcp_handshake, [])"
    unfolding b_def by (rule recv_send_handshake) (simp_all add: codec_at_for)
  have run: "run_stream ?V None demo_mapping_manager (0, Bi, b) = RanBi (Inr (?a, []))"
    by (simp add: run_stream_def quic_stream_bi_handle_def read) (simp add: demo_tcp_handshake_def tcp_proxy_def)
  define s1 where "s1 = server_listen\<lparr>qv_next := 1, qv_connecting := [0]\<rparr>"
  define s2 where "s2 = s1\<lparr>qv_connecting := [], qv_connections := [0]\<rparr>"
  define s3 where "s3 = s2\<lparr>qv_streams := [(0, Bi, b)], qv_accepted := [(0, Bi, b)]\<rparr>"
  define s4 where "s4 = s3\<lparr>qv_streams := [], qv_log := [((0, Bi, b), None, demo_mapping_manager, RanBi (Inr (?a, [])))]\<rparr>"
  have "serve_step ?V server_listen s1" using serve_step.incoming [of server_listen ?V] by (simp add: s1_def server_listen_def)
  moreover have "serve_step ?V s1 s2" using serve_step.connected [of 0 s1 ?V] by (simp add: s2_def s1_def server_listen_def)
  moreover have "serve_step ?V s2 s3" using serve_step.accepts [of 0 s2 ?V Bi b] by (simp add: s3_def s2_def s1_def server_listen_def)
  moreover have "serve_step ?V s3 s4"
    using serve_step.runs [of "(0, Bi, b)" s3 ?V None demo_mapping_manager] by (simp add: run s4_def s3_def s2_def s1_def server_listen_def)
  ultimately have reach: "(serve_step ?V)\<^sup>*\<^sup>* server_listen s4" by (meson rtranclp.rtrancl_into_rtrancl rtranclp.rtrancl_refl)
  from quic_server_confined [OF this] reach show ?thesis
    by (intro exI [of _ s4] exI [of _ b]) (simp add: s4_def s3_def s2_def s1_def server_listen_def run_allowed_def)
qed

end
