(* ===== verification/Service_Start.thy ===== *)
theory Service_Start
  imports Manager Web_Store
begin

text \<open>
  The services from start to end: the manager (\<open>main\<close> of \<open>vntc-manager/src/main.rs\<close>) with its port file, its requests and its two ways to end, what
  it does to ask a child (\<open>send_ipc_request\<close>), and the web service (\<open>run_http_server\<close>, \<open>src/main_web.rs\<close>). Directories, the port and files are what the system answers.
\<close>

section \<open>Starting the manager\<close>

datatype data_dir = Settings | ProfilesDir | RuntimeDir | LogsDir | PortFileParent

text \<open>\<open>st_bind\<close> is the port the system gives to the address asked for.\<close>

record start_env =
  st_mkdir :: "data_dir \<Rightarrow> bool"
  st_port_has_parent :: bool
  st_removes :: bool
  st_bind :: "u16 result"
  st_writes :: bool

definition ensure_data_dirs :: "start_env \<Rightarrow> unit result" where
  "ensure_data_dirs S = (if list_all (st_mkdir S) [Settings, ProfilesDir, RuntimeDir, LogsDir] then Inr () else Inl OtherError)"

text \<open>The port it serves on, and the content of the port file.\<close>

definition manager_start :: "start_env \<Rightarrow> string option \<Rightarrow> u16 result \<times> string option" where
  "manager_start S port_file =
     (case ensure_data_dirs S of
        Inl e \<Rightarrow> (Inl e, port_file)
      | Inr _ \<Rightarrow>
          if st_port_has_parent S \<and> \<not> st_mkdir S PortFileParent then (Inl OtherError, port_file)
          else let port_file = (if port_file \<noteq> None \<and> st_removes S then None else port_file) in
            (case st_bind S of
               Inl e \<Rightarrow> (Inl e, port_file)
             | Inr port \<Rightarrow> if st_writes S then (Inr port, Some (show_word port)) else (Inl OtherError, port_file)))"

section \<open>Serving and ending\<close>

text \<open>
  A request is handled; Ctrl-C stops all children and closes the listener, a request \<open>Shutdown\<close> stops all children and lets the process end 120 ms later. Until it has
  ended, requests that are on their way are still handled. \<open>ChildExits\<close> is a child that ends by itself.
\<close>

datatype manager_event = Request instant mgr_request | CtrlC | ChildExits nat

fun manager_serve :: "mgr_env \<Rightarrow> listeners \<Rightarrow> manager_event list \<Rightarrow> ManagerState \<Rightarrow> ManagerState" where
  "manager_serve E host [] m = m"
| "manager_serve E host (Request now req # es) m = manager_serve E host es (snd (mgr_handle E host now req m))"
| "manager_serve E host (CtrlC # es) m = manager_serve E host es (stop_all E m)"
| "manager_serve E host (ChildExits pid # es) m = manager_serve E host es (m\<lparr>mg_alive := removeAll pid (mg_alive m)\<rparr>)"

fun stops_all :: "manager_event \<Rightarrow> bool" where
  "stops_all CtrlC = True"
| "stops_all (Request _ req) = (req = Shutdown)"
| "stops_all (ChildExits _) = False"

fun connects :: "manager_event \<Rightarrow> bool" where
  "connects (Request _ (Connect _)) = True"
| "connects _ = False"

section \<open>Asking a child\<close>

text \<open>What the other end of the control port does. Only the connection has a time limit: \<open>None\<close> is a call that does not return.\<close>

datatype child_side = Refuses | ConnectSlow | BreaksOnSend | Silent | Closes | ReadFails | Answers bytes

definition send_ipc_request :: "(bytes \<Rightarrow> ResponsePayload option option) \<Rightarrow> child_side \<Rightarrow> ResponsePayload result option" where
  "send_ipc_request decode side =
     (case side of
        Refuses \<Rightarrow> Some (Inl OtherError)
      | ConnectSlow \<Rightarrow> Some (Inl (Bail ''IPC connect timeout''))
      | BreaksOnSend \<Rightarrow> Some (Inl (Bail ''send IPC request failed''))
      | Silent \<Rightarrow> None
      | Closes \<Rightarrow> Some (Inl (Bail ''IPC response missing''))
      | ReadFails \<Rightarrow> Some (Inl OtherError)
      | Answers b \<Rightarrow> Some (rbind (ok_or (Bail ''decode IPC response failed'') (decode b)) (ok_or (Bail ''response payload is empty''))))"

section \<open>The web service\<close>

datatype web_event = AutoStart string string | Listening SocketAddr

text \<open>\<open>run_http_server\<close>, up to its end: the start of the recorded or given configuration is a task of its own, begun before the address is bound.\<close>

definition run_http_server ::
  "store_env \<Rightarrow> (string \<Rightarrow> string option) \<Rightarrow> bool \<Rightarrow> (SocketAddr \<Rightarrow> bool) \<Rightarrow> SocketAddr \<Rightarrow> string option \<Rightarrow> string option \<Rightarrow> files \<Rightarrow> web_event list \<times> unit result" where
  "run_http_server E base_name mkdir binds addr start_config_file_name record fs =
     (if \<not> mkdir then ([], Inl (Bail ''Failed to create config directory''))
      else
        let started = (case determine_auto_start_file E base_name start_config_file_name record fs of
            None \<Rightarrow> [] | Some (file_name, path) \<Rightarrow> [AutoStart file_name path]) in
        if binds addr then (started @ [Listening addr], Inr ()) else (started, Inl OtherError))"

text \<open>\<open>main0\<close> of \<open>main_web.rs\<close>: without an argument only the local host reaches the service.\<close>

definition web_addr :: "SocketAddr option \<Rightarrow> SocketAddr" where
  "web_addr a = get_or_default (V4 0x7F000001 19099) a"

definition web_main ::
  "store_env \<Rightarrow> (string \<Rightarrow> string option) \<Rightarrow> bool \<Rightarrow> (SocketAddr \<Rightarrow> bool) \<Rightarrow> SocketAddr option \<Rightarrow> string option \<Rightarrow> string option \<Rightarrow> files \<Rightarrow> web_event list \<times> unit result" where
  "web_main E base_name mkdir binds addr conf record fs = run_http_server E base_name mkdir binds (web_addr addr) conf record fs"

section \<open>Lemmas\<close>

text \<open>A second service that cannot bind its address has started the node of the first by then.\<close>

lemma second_service_starts_node:
  assumes "\<not> binds addr" and "determine_auto_start_file E base_name conf record fs = Some (name, path)"
  shows "run_http_server E base_name True binds addr conf record fs = ([AutoStart name path], Inl OtherError)"
  using assms by (simp add: run_http_server_def)

text \<open>The file recorded by the last start is started again, from the directory of the configurations.\<close>

lemma recorded_config_restarts:
  assumes "is_valid_file_name n" and "trim n = n" and "hm_get fs (st_join E CONFIG_DIR n) \<noteq> None" and "base_name (st_join E CONFIG_DIR n) = Some n"
  shows "AutoStart n (st_join E CONFIG_DIR n) \<in> set (fst (web_main E base_name True binds addr None (Some n) fs))"
  using assms valid_no_slash [OF assms(1)] by (auto simp: web_main_def run_http_server_def determine_auto_start_file_def Let_def)

lemma manager_start_port:
  "manager_start S pf = (Inr port, pf') \<Longrightarrow> pf' = Some (show_word port) \<and> Option.bind pf' parse_u16 = Some port"
  by (auto simp: manager_start_def Let_def parse_show_u16 split: sum.splits if_splits)

lemma start_child_inv:
  assumes "mgr_inv (m, [])" and "hm_get (mg_sessions m) i = None"
  shows "mgr_inv (start_child i m, [])"
proof -
  have "known m [Checked i] = known m []" by (simp add: known_def)
  then have "mgr_inv (m, [] @ Checked i # [])" using mgr_invD [OF assms(1)] assms(2) by (intro mgr_invI) simp_all
  from mgr_inv_flight(2) [OF this refl, where pid = "mg_next m" and k = "Suc (mg_next m)"]
  have "mgr_inv (m\<lparr>mg_alive := mg_next m # mg_alive m, mg_next := Suc (mg_next m)\<rparr>, [] @ Spawned i (mg_next m) # [])" .
  note started = mgr_inv_record [OF this, unfolded append_Nil]
  have "start_child i m = m\<lparr>mg_alive := mg_next m # mg_alive m, mg_next := Suc (mg_next m)\<rparr>
      \<lparr>mg_sessions := hm_put i (mg_next m) (mg_sessions (m\<lparr>mg_alive := mg_next m # mg_alive m, mg_next := Suc (mg_next m)\<rparr>))\<rparr>"
    by (simp add: start_child_def)
  then show ?thesis using started by (simp only:)
qed

lemma connect_one_inv:
  assumes "reliable E" and "mgr_inv (m, [])" and "connect_one E pm i r m = (r', m')"
  shows "mgr_inv (m', [])"
  using assms mgr_inv_cleanup [OF assms(1,2)] start_child_inv
  by (auto simp: connect_one_def session_is_running_def Let_def split: option.splits if_splits sum.splits)

lemma connect_loop_inv:
  "reliable E \<Longrightarrow> mgr_inv (m, []) \<Longrightarrow> mgr_inv (snd (connect_loop E pm ids r m), [])"
proof (induction ids arbitrary: r m)
  case (Cons i ids)
  obtain x m1 where one: "connect_one E pm i r m = (x, m1)" by fastforce
  have "mgr_inv (m1, [])" using Cons.prems one by (rule connect_one_inv)
  with Cons one show ?case by (auto split: sum.splits)
qed simp

lemma looking_inv:
  assumes "reliable E" and "mgr_inv (m, [])"
  shows "mgr_inv (snd (snapshots_of E host now ps m), [])" "mgr_inv (snd (peers_of_running E host ps m), [])"
  using assms(2)
proof (induction ps arbitrary: m)
  case (Cons p ps)
  { case 1
    obtain r m1 where one: "profile_runtime_summary E host now p m = (r, m1)" by fastforce
    have "mgr_inv (m1, [])" using mgr_inv_summary [OF assms(1) 1, of host now p] one by simp
    with Cons.IH(1) one show ?case by (simp add: split_beta) }
  { case 2
    have "mgr_inv (cleanup_exited_sessions E m, [])" using assms(1) 2 by (rule mgr_inv_cleanup)
    with Cons.IH(2) show ?case by (simp add: session_is_running_def Let_def split_beta) }
qed simp_all

lemma stop_all_inv: "reliable E \<Longrightarrow> mgr_inv (m, []) \<Longrightarrow> mgr_inv (stop_all E m, [])"
  using mgr_inv_disconnect mgr_inv_cleanup by (fastforce simp: stop_all_def Let_def)

lemma all_stopped:
  assumes "reliable E" and "mgr_inv (m, [])"
  shows "mg_alive (stop_all E m) = []"
proof -
  let ?m = "cleanup_exited_sessions E m"
  let ?ids = "map fst (mg_sessions ?m)"
  have inv1: "mgr_inv (?m, [])" and inv2: "mgr_inv (cleanup_exited_sessions E ?m, [])"
    using mgr_inv_cleanup [OF assms] mgr_inv_cleanup [OF assms(1)] by blast+
  have kills: "me_kills E = (\<lambda>_. True)" using assms(1) by simp
  have stop: "stop_all E m = snd (fold (disconnect_one E) ?ids (operation_default, cleanup_exited_sessions E ?m))"
    by (simp add: stop_all_def Let_def disconnect_profiles_def)
  note fold = mgr_inv_disconnect_fold [OF kills inv2, of ?ids operation_default, folded stop]
  have gone: "hm_get (mg_sessions (stop_all E m)) j = None" for j
  proof (cases "j \<in> set ?ids")
    case False
    then have "hm_get (mg_sessions ?m) j = None" by (simp add: map_of_eq_None_iff)
    then have "hm_get (mg_sessions (cleanup_exited_sessions E ?m)) j = None" by (simp add: cleanup_sessions(2) [OF mgr_invD(1) [OF inv1]])
    then show ?thesis using fold by simp
  qed (use fold in simp)
  have "set (mg_alive (stop_all E m)) \<subseteq> known (stop_all E m) []" using fold mgr_invD(4) by blast
  with gone show ?thesis by (auto simp: known_def)
qed

text \<open>Every request keeps the invariant, and only connecting starts children.\<close>

lemma mgr_handle_inv:
  assumes "reliable E" and "mgr_inv (m, [])"
  shows "mgr_inv (snd (mgr_handle E host now req m), [])"
proof -
  note clean = mgr_inv_cleanup [OF assms]
  have c: "mgr_inv (snd (connect_profiles E ids m), [])" for ids
    using clean connect_loop_inv [OF assms(1) clean] by (simp add: connect_profiles_def Let_def split: sum.split)
  have p: "mgr_inv (snd (build_profile_snapshots E host now m), [])"
    using clean looking_inv(1) [OF assms(1) clean] by (simp add: build_profile_snapshots_def Let_def split_beta split: sum.split)
  have l: "mgr_inv (snd (build_peer_list E host m), [])"
    using clean looking_inv(2) [OF assms(1) clean] by (simp add: build_peer_list_def Let_def split_beta split: sum.split)
  show ?thesis
    using c p l mgr_inv_disconnect [OF assms] stop_all_inv [OF assms] assms(2)
    by (cases req) (simp_all add: mgr_handle_def respond_def split_beta)
qed

lemma manager_serve_inv: "reliable E \<Longrightarrow> mgr_inv (m, []) \<Longrightarrow> mgr_inv (manager_serve E host es m, [])"
  by (induction E host es m rule: manager_serve.induct) (simp_all add: mgr_handle_inv stop_all_inv mgr_inv_exits)

lemma manager_serve_append: "manager_serve E host (es @ es') m = manager_serve E host es' (manager_serve E host es m)"
  by (induction E host es m rule: manager_serve.induct) simp_all

lemma alive_cleanup: "mg_alive (cleanup_exited_sessions E m) = mg_alive m"
  by (simp add: cleanup_exited_sessions_def Let_def)

lemma alive_disconnect: "set (mg_alive (snd (fold (disconnect_one E) ids (r, m)))) \<subseteq> set (mg_alive m)"
proof (induction ids arbitrary: r m)
  case (Cons i ids)
  obtain r1 m1 where one: "disconnect_one E i (r, m) = (r1, m1)" by fastforce
  then have "set (mg_alive m1) \<subseteq> set (mg_alive m)" by (auto simp: disconnect_one_def Let_def split: option.splits if_splits)
  with Cons [of r1 m1] one show ?case by auto
qed simp

lemma alive_looking:
  "mg_alive (snd (profile_runtime_summary E host now p m)) = mg_alive m"
  "mg_alive (snd (snapshots_of E host now ps m)) = mg_alive m"
  "mg_alive (snd (peers_of_running E host ps m)) = mg_alive m"
proof -
  show one: "mg_alive (snd (profile_runtime_summary E host now p m)) = mg_alive m" for p m
    by (auto simp: profile_runtime_summary_def session_is_running_def Let_def alive_cleanup split: bool.split sum.split prod.split)
  show "mg_alive (snd (snapshots_of E host now ps m)) = mg_alive m"
  proof (induction ps arbitrary: m)
    case (Cons p ps)
    then show ?case using one [of p m] by (auto split: prod.splits) (metis snd_conv)
  qed simp
  show "mg_alive (snd (peers_of_running E host ps m)) = mg_alive m"
  proof (induction ps arbitrary: m)
    case (Cons p ps)
    show ?case using Cons [of "cleanup_exited_sessions E m"] by (auto simp: session_is_running_def Let_def alive_cleanup split: prod.splits)
  qed simp
qed

lemma alive_handled:
  assumes "\<not> connects (Request now req)"
  shows "set (mg_alive (snd (mgr_handle E host now req m))) \<subseteq> set (mg_alive m)"
proof -
  let ?m = "cleanup_exited_sessions E m"
  have p: "mg_alive (snd (build_profile_snapshots E host now m)) = mg_alive m"
    using alive_looking(2) [of E host now _ ?m] by (simp add: build_profile_snapshots_def Let_def alive_cleanup split: sum.split prod.split) (metis snd_conv)
  have l: "mg_alive (snd (build_peer_list E host m)) = mg_alive m"
    using alive_looking(3) [of E host _ ?m] by (simp add: build_peer_list_def Let_def alive_cleanup split: sum.split prod.split) (metis snd_conv)
  have d: "set (mg_alive (snd (disconnect_profiles E ids m))) \<subseteq> set (mg_alive m)" for ids m
    using alive_disconnect [of E ids operation_default "cleanup_exited_sessions E m"] by (simp add: disconnect_profiles_def alive_cleanup)
  then have s: "set (mg_alive (stop_all E m)) \<subseteq> set (mg_alive m)"
    using d [of _ "cleanup_exited_sessions E m"] by (simp add: stop_all_def Let_def alive_cleanup)
  show ?thesis using assms p l d s by (cases req) (simp_all add: mgr_handle_def respond_def split_beta)
qed

lemma alive_stopped: "set (mg_alive (stop_all E m)) \<subseteq> set (mg_alive m)"
  using alive_handled [of 0 Shutdown E undefined m] by (simp add: mgr_handle_def)

lemma alive_only_by_connect:
  "\<not> list_ex connects es \<Longrightarrow> set (mg_alive (manager_serve E host es m)) \<subseteq> set (mg_alive m)"
proof (induction E host es m rule: manager_serve.induct)
  case (2 E host now req es m)
  with alive_handled [of now req E host m] show ?case by auto
next
  case (3 E host es m)
  with alive_stopped [of E m] show ?case by auto
qed auto

section \<open>Properties\<close>

text \<open>
  C36. The manager cleans up: started with no children, whatever requests it has handled one after the other, once Ctrl-C or a request \<open>Shutdown\<close> has come and no
  request to connect is handled after it, no child runs when the process ends. Kills and waits are assumed to succeed.
\<close>

theorem manager_shuts_down:
  assumes "me_waits E = (\<lambda>_. True)" and "me_kills E = (\<lambda>_. True)" and "stops_all stop" and "\<not> list_ex connects late"
  shows "mg_alive (manager_serve E host (es @ stop # late) manager_new) = []"
proof -
  let ?m = "manager_serve E host es manager_new"
  have rel: "reliable E" using assms(1,2) by simp
  have "mgr_inv (manager_new, [])" by (rule mgr_invI) (simp_all add: manager_new_def)
  then have inv: "mgr_inv (?m, [])" by (rule manager_serve_inv [OF rel])
  have stopped: "manager_serve E host [stop] ?m = stop_all E ?m"
    using assms(3) by (cases stop) (simp_all add: mgr_handle_def)
  have "mg_alive (stop_all E ?m) = []" using all_stopped [OF rel inv] .
  then show ?thesis
    using alive_only_by_connect [OF assms(4), of E host "stop_all E ?m"] stopped
    by (simp add: manager_serve_append) (metis manager_serve_append append_Cons append_Nil empty_set subset_empty set_empty)
qed

theorem manager_shuts_down_witness:
  "mg_alive (manager_serve demo_mgr (\<lambda>_. None) [Request 0 (Connect [''home''])] manager_new) = [0] \<and>
   mg_alive (manager_serve demo_mgr (\<lambda>_. None) ([Request 0 (Connect [''home''])] @ CtrlC # [Request 5 GetProfiles]) manager_new) = []"
proof
  show "mg_alive (manager_serve demo_mgr (\<lambda>_. None) [Request 0 (Connect [''home''])] manager_new) = [0]" by code_simp
  show "mg_alive (manager_serve demo_mgr (\<lambda>_. None) ([Request 0 (Connect [''home''])] @ CtrlC # [Request 5 GetProfiles]) manager_new) = []"
    by (rule manager_shuts_down) (simp_all add: demo_mgr_def)
qed

text \<open>A request to connect that is handled between \<open>Shutdown\<close> and the end of the process, 120 ms later, starts a child that nobody stops.\<close>

lemma late_connect_survives:
  "mg_alive (manager_serve demo_mgr (\<lambda>_. None) [Request 0 Shutdown, Request 50 (Connect [''home''])] manager_new) = [0]"
  by code_simp

text \<open>A child that accepts the connection and does not answer holds up the request for as long as it likes.\<close>

lemma silent_child_hangs: "send_ipc_request decode Silent = None"
  "side \<noteq> Silent \<Longrightarrow> send_ipc_request decode side \<noteq> None"
  by (simp_all add: send_ipc_request_def split: child_side.split)

end
