(* ===== verification/Spec2Isabelle.thy ===== *)
theory Spec2Isabelle
  imports Transmission Net_Packet Packet_Crypto Packet_Compression Route_Table Subnet_Route Context_Stats
    Messages Nat_State Config_Address Server_Info Fec_Encoder Fec_Decoder App_State Outbound
    Enhanced_Outbound Enhanced_Inbound P2p_Inbound Tunnel Server_Rpc
    Server_Inbound Server_Connection Task_Control Launch_Config Web_Service Front_Ends Web_Store Ip_Nat Peer_Tasks
    Rust_Print Ipc_Link Manager Quic_Socket Quic_Proxy Network_Core Nat_Test Dns_Query Tls_Endpoint Web_Static Fec_Worker
    Accept_Loops Service_Start
begin

text \<open>
  A model of the VNT client (\<open>src/vnt-2.0.0\<close>): a virtual private network whose nodes reach each other over
  direct tunnels or through servers, with its command line, its web service and its local IPC. Paths below are relative to
  \<open>vnt-core/src\<close> unless they name a crate.

  \<^bold>\<open>The program and its theories.\<close>
  A packet from the network interface becomes a tunnel packet, is compressed, encrypted and sent over the best route or a server;
  what arrives is relayed, or decrypted, decompressed and delivered. Beside that run the calls to the servers, the
  hole punching, and the tasks that keep routes and connections alive; around it the front ends.

  \<^item> \<open>VNT_Prelude\<close>: results (\<open>error + 'a\<close>), big-endian codecs, \<open>HashMap\<close> as an association list, the locale of keyed stores, and the
    locale \<open>machine_keeps\<close> of a step relation with a predicate that it keeps, which every state machine below interprets.
  \<^item> \<open>Transmission\<close> (\<open>protocol/transmission.rs\<close>): the packet buffer, refined to a gap buffer; its capacity is carried along, as \<open>put\<close> and \<open>set_len\<close> look at it.
    \<open>Net_Packet\<close> (\<open>ip_packet_protocol.rs\<close>): header, flags, hop counter, message types.
    \<open>Packet_Crypto\<close> (\<open>crypto/\<close>) and \<open>Packet_Compression\<close> (\<open>compression/\<close>).
  \<^item> \<open>Fec_Encoder\<close>, \<open>Fec_Decoder\<close> (\<open>fec/\<close>): groups, parity, recovery. \<open>Fec_Worker\<close>: encoding, full groups and the timer of the worker in any order.
  \<^item> \<open>Route_Table\<close> (\<open>tunnel_core/p2p/route_table.rs\<close>), \<open>Subnet_Route\<close> (\<open>nat/mod.rs\<close>).
  \<^item> \<open>Context_Stats\<close>, \<open>Nat_State\<close>, \<open>Server_Info\<close>, \<open>App_State\<close> (\<open>context/\<close>, queries of \<open>api/mod.rs\<close>);
    \<open>Rust_Text\<close>, \<open>Config_Address\<close> (\<open>context/config.rs\<close>, \<open>server/transport/config.rs\<close>, \<open>utils/dns_query.rs\<close>, \<open>tls/verifier.rs\<close>, \<open>port_mapping/mod.rs\<close>);
    \<open>Messages\<close> (\<open>protocol/\<close>: protobuf values and what the program makes of them).
  \<^item> \<open>Outbound\<close> (\<open>tunnel_core/outbound.rs\<close>, \<open>server/outbound.rs\<close>, \<open>p2p/outbound.rs\<close>), \<open>Enhanced_Outbound\<close>
    (\<open>enhanced_tunnel/outbound.rs\<close>, \<open>quic_outbound.rs\<close>, \<open>tun/general.rs\<close>): the sending side.
    \<open>Enhanced_Inbound\<close> (\<open>enhanced_tunnel/inbound.rs\<close>, \<open>tun/\<close>, \<open>nat/internal_nat/mod.rs\<close>), \<open>P2p_Inbound\<close> (\<open>p2p/inbound.rs\<close>),
    \<open>Server_Inbound\<close> (\<open>server/inbound.rs\<close>, \<open>p2p/transport/punch.rs\<close>): the receiving side. \<open>Tunnel\<close> joins them.
  \<^item> \<open>Server_Rpc\<close> (\<open>server/rpc.rs\<close>), \<open>Server_Connection\<close> (\<open>server/connection_manager.rs\<close>, \<open>server/transport/\<close>, the
    registration of \<open>core/mod.rs\<close>): calls, connections, registration with several servers in two phases.
  \<^item> \<open>Peer_Tasks\<close> (\<open>p2p/transport/task.rs\<close>): pings, expiry, the probe for relays, reading a tunnel, and all nodes at once.
  \<^item> \<open>Ip_Nat\<close> (\<open>nat/internal_nat/\<close>, \<open>port_mapping/\<close>): user-mode translation of ICMP and UDP, mapped ports.
  \<^item> \<open>Task_Control\<close> (\<open>utils/task_control.rs\<close>): task groups as interleaved steps.
  \<^item> \<open>Launch_Config\<close> (\<open>src/args_config.rs\<close>, \<open>utils/device_id.rs\<close>, \<open>convert_config\<close> of \<open>vnt-web\<close>), \<open>Web_Service\<close>, \<open>Web_Store\<close>
    (\<open>vnt-web/src/service_http.rs\<close>), \<open>Front_Ends\<close> (\<open>vnt-ipc/src/server.rs\<close> and the queries of \<open>vnt-web\<close>).
  \<^item> \<open>Rust_Print\<close> (numbers and addresses as Rust prints them), \<open>Ipc_Link\<close> (\<open>vnt-ipc/src/client.rs\<close>, \<open>run_server\<close>,
    \<open>src/main_ctrl.rs\<close>: the tool and the node together), \<open>Manager\<close> (\<open>vntc-manager/src/main.rs\<close>: profiles, child processes, summaries).
  \<^item> \<open>Quic_Socket\<close>, \<open>Quic_Proxy\<close> (\<open>enhanced_tunnel/quic_over/\<close>): QUIC datagrams inside of tunnel packets; streams of TCP connections, mapped ports
    and whole IP packets, from the choice of the peer to the relaying of bytes. \<open>Tls_Endpoint\<close> (\<open>tls/cert.rs\<close>, \<open>boot.rs\<close>, the \<open>connect\<close> of
    \<open>server/transport/\<close>): the certificate made of the password, and what is checked before a connection is used.
  \<^item> \<open>Network_Core\<close> (\<open>core/mod.rs\<close>, \<open>tun/general.rs\<close>, \<open>enhanced_tunnel/mod.rs\<close>, \<open>src/main_cli.rs\<close>): a node is made from its configuration, which gives
    \<open>Outbound\<close> and \<open>P2p_Inbound\<close> their parameters; its device; the command line program from start to end, with a Ctrl-C at any moment (\<open>command_line_run\<close>).
  \<^item> \<open>Nat_Test\<close> (\<open>p2p/transport/nat_test.rs\<close>): local and public addresses. \<open>Dns_Query\<close> (\<open>utils/dns_query.rs\<close>): what a query sends and which name server is believed.
    \<open>Web_Static\<close> (\<open>vnt-web/src/service_http.rs\<close>): routes, headers and static files.
  \<^item> \<open>Accept_Loops\<close> (\<open>quic_server.rs\<close>, \<open>quic_client.rs\<close>, \<open>tcp_port_mapping.rs\<close>, \<open>nat/internal_nat/tcp_nat.rs\<close> and \<open>mod.rs\<close>): the loops that accept something and start a task for it.
    \<open>Service_Start\<close> (\<open>vntc-manager/src/main.rs\<close>, \<open>run_http_server\<close>, \<open>src/main_web.rs\<close>): the services from start to end.

  \<^bold>\<open>How the code is read.\<close>
  A struct is a record, an enum a datatype, an integer of the wire a word of its width (so additions wrap); \<open>Result\<close> is
  a sum with an error datatype that has \<open>Panic\<close> among its values, \<open>Option\<close> is \<open>option\<close>. A handler is an action: a function
  from a state to a state, the effects in order, and a result. Tasks that run side by side are an inductive step
  relation with one rule per atomic step of the code, and their invariants are proved by rule induction over all interleavings.
  Code that is not under \<open>src/\<close> is an argument, gathered in a record per component: ciphers, \<open>lz4\<close>, Reed-Solomon, protobuf codecs,
  \<open>pnet\<close> parsers, sockets, clocks, the random choices, the file system. The laws used of it are named
  predicates (\<open>aead_correct\<close>, \<open>lz4_correct\<close>, \<open>codec_for\<close>, \<open>choices_ok\<close>) and each has an instance in an example.

  \<^bold>\<open>What is shown.\<close>
  Delivery: from the interface of one configured node to that of another over any number of relays, byte for byte, and what becomes of it
  when only one of them compresses; broadcasts reach every online client;
  each packet takes one path; nothing but gateway traffic leaves in clear. Codecs: round trips of encryption, compression,
  FEC, and files. Routing: the table's invariant under every interleaving, the best route, the longest prefix, the end of relaying.
  Forward error correction: a group the worker closes holds exactly its packets, whatever the order of steps. Start-up: creating a node finds what it takes for granted, the interface
  is started once, the command line, the file and the web page configure it alike. Addresses: what STUN servers have shown, the name server that is believed, the server that is accepted.
  Protocols: the punch handshake, the confinement of server packets, the two phases of registration, the matching of calls and
  answers, the connection task. Tasks: stopping a group reaches every task. Front ends: the state machine of the web service, the children of the manager,
  what it shows of them and that none outlives it; all that a peer can reach through the QUIC server. And what the code does not do: the properties of kind error, each with a concrete run, state where it departs from what it
  means to do. Beside the numbered properties stand lemmas of the same sort that they leave room for no more (\<open>command_line_run\<close>, \<open>front_ends_agree\<close>,
  \<open>udp_nat_pairs\<close>, \<open>peers_share_certificate\<close>, \<open>lost_network\<close> and others).

  \<^bold>\<open>Bounds and fuel.\<close>
  No definition takes fuel: every loop of the model is structural recursion on what it consumes (packets, scripted answers
  of a stream, routes) or has a measure (the bubble loops of the route table). A connection or a socket is the list of what it
  yields, so every theorem about a loop holds for scripts of any length. Relaying is bounded by the four-bit hop
  counter; request numbers are 64 bits and wrap; a restart of the web service polls fifty times; a mapped UDP session queues 128 datagrams.

  \<^bold>\<open>Not modelled.\<close>
  The handshakes of TLS, QUIC and WebSocket (the decision to accept a certificate is modelled, \<open>rustls\<close>, \<open>quinn\<close> and \<open>tungstenite\<close> are not); the system calls that make and configure the network interface; generated protobuf code; the logging middleware and the shutdown signal of the web
  service; colours and borders of the IPC client; \<open>src/log.rs\<close> and the text of \<open>print_example\<close>;
  the processes and the directory of \<open>vntc-manager\<close> (an environment); the Flutter front end. The weak memory of the processor and the fairness of the scheduler are outside: steps
  are interleaved at locks and awaits, and nothing is claimed of how soon a step happens.
\<close>

end
